(* ===== verification/Prelude.thy ===== *)
theory Prelude
  imports Main "HOL-Library.Word" "HOL-Library.Multiset"
begin

unbundle bit_operations_syntax

text \<open>
  Shared vocabulary of the development: the machine integers of the C sources as words, byte
  strings (\<^verbatim>\<open>chunk_t\<close>), the status codes of
  \<^verbatim>\<open>src/src/libstrongswan/utils/utils/status.h\<close>, host and network byte order, and the
  generic lemmas on lists and words that the component theories use.
\<close>

section \<open>Machine types\<close>

type_synonym u8 = "8 word"
type_synonym u16 = "16 word"
type_synonym u32 = "32 word"
type_synonym u64 = "64 word"
type_synonym bytes = "u8 list"

text \<open>Collections of rewrite rules that component proofs pass to the simplifier.\<close>

named_theorems codec_simps \<open>encoding and decoding of integers as bytes\<close>
named_theorems frame_simps \<open>fields that an operation leaves unchanged\<close>

section \<open>Status codes\<close>

datatype status_t =
    SUCCESS | FAILED | OUT_OF_RES | ALREADY_DONE | NOT_SUPPORTED | INVALID_ARG
  | NOT_FOUND | PARSE_ERROR | VERIFY_ERROR | INVALID_STATE | DESTROY_ME | NEED_MORE

section \<open>Words\<close>

lemma unat_of_nat_u16: "k < 65536 \<Longrightarrow> unat (of_nat k :: u16) = k"
  by (simp add: unsigned_of_nat take_bit_nat_eq_self_iff)

lemma unat_u8_less: "unat (w :: u8) < 256"
  using unsigned_less [of w] by simp

lemma unat_u16_less: "unat (w :: u16) < 65536"
  using unsigned_less [of w] by simp

lemma unat_ucast_u8_u16 [simp]: "unat (ucast (w :: u8) :: u16) = unat w"
  using unat_u8_less [of w] by (simp add: unsigned_ucast_eq take_bit_nat_eq_self_iff)

lemma unat_ucast_u16_u8: "unat (w :: u16) < 256 \<Longrightarrow> unat (ucast w :: u8) = unat w"
  by (simp add: unsigned_ucast_eq take_bit_nat_eq_self_iff)

lemma ucast_u8_u16: "j < 256 \<Longrightarrow> (ucast (of_nat j :: u8) :: u16) = of_nat j"
  by (simp add: unsigned_of_nat take_bit_nat_def)

lemma of_nat_u16_less: "j < 65536 \<Longrightarrow> k < 65536 \<Longrightarrow> (of_nat j :: u16) < of_nat k \<longleftrightarrow> j < k"
  by (simp add: word_less_nat_alt unat_of_nat_u16)

lemma of_nat_u16_eq: "j < 65536 \<Longrightarrow> k < 65536 \<Longrightarrow> (of_nat j :: u16) = of_nat k \<longleftrightarrow> j = k"
  by (simp add: word_unat_eq_iff unat_of_nat_u16)

lemma u16_le_255: "n \<le> 255 \<Longrightarrow> (of_nat n :: u16) \<le> 255"
  by (simp add: word_le_nat_alt unat_of_nat_u16)

lemma unat_increment: "x < y \<Longrightarrow> unat (x + 1) = Suc (unat (x :: 'a :: len word))"
proof -
  assume "x < y"
  then have "Suc (unat x) \<le> unat y" by (simp add: word_less_nat_alt Suc_le_eq)
  also have "unat y < 2 ^ LENGTH('a)" by (rule unsigned_less)
  finally show ?thesis by (simp add: unat_word_ariths)
qed

section \<open>Lists\<close>

lemma find_append_notin: "\<forall>x\<in>set xs. \<not> P x \<Longrightarrow> List.find P (xs @ ys) = List.find P ys"
  by (induction xs) auto

lemma sorted_list_of_atLeastAtMost: "sorted_list_of_set {1..n} = [1..<Suc n]"
  by (metis atLeastLessThanSuc_atLeastAtMost sorted_list_of_set_range)

lemma map_nth_from_1: "map (\<lambda>k. xs ! (k - 1)) [1..<Suc (length xs)] = xs"
  by (simp add: map_Suc_upt [symmetric] map_nth comp_def del: upt_Suc)

lemma sum_parts: "(\<Sum>k\<in>{1..length xs}. length (xs ! (k - 1))) = length (concat xs)"
proof -
  have "sum_list (map (\<lambda>k. length (xs ! (k - 1))) [1..<Suc (length xs)]) = length (concat xs)"
    using map_nth_from_1 [of xs] by (metis (no_types, lifting) length_concat map_map comp_apply map_cong)
  then show ?thesis
    by (simp add: interv_sum_list_conv_sum_set_nat atLeastLessThanSuc_atLeastAtMost del: upt_Suc)
qed

text \<open>Cutting a list into pieces of a fixed size, the last one possibly shorter.\<close>

fun chunks :: "nat \<Rightarrow> 'a list \<Rightarrow> 'a list list" where
  "chunks fl xs = (if xs = [] \<or> fl = 0 then [] else take fl xs # chunks fl (drop fl xs))"

declare chunks.simps [simp del]

lemma chunks_Nil [simp]: "chunks fl [] = []"
  by (simp add: chunks.simps)

lemma chunks_unfold: "xs \<noteq> [] \<Longrightarrow> 0 < fl \<Longrightarrow> chunks fl xs = take fl xs # chunks fl (drop fl xs)"
  by (subst chunks.simps) simp

lemma concat_chunks: "0 < fl \<Longrightarrow> concat (chunks fl xs) = xs"
proof (induction fl xs rule: chunks.induct)
  case (1 fl xs)
  then show ?case by (subst chunks.simps) auto
qed

lemma length_le_chunks: "c \<in> set (chunks fl xs) \<Longrightarrow> length c \<le> fl \<and> c \<noteq> []"
proof (induction fl xs rule: chunks.induct)
  case (1 fl xs)
  then show ?case by (subst (asm) chunks.simps) (auto split: if_splits)
qed

lemma length_chunks:
  "0 < fl \<Longrightarrow> length (chunks fl xs) = length xs div fl + (if length xs mod fl \<noteq> 0 then 1 else 0)"
proof (induction fl xs rule: chunks.induct)
  case (1 fl xs)
  show ?case
  proof (cases "xs = []")
    case False
    then have "length xs < fl \<or> length xs div fl = Suc ((length xs - fl) div fl) \<and>
        length xs mod fl = (length xs - fl) mod fl"
      using 1(2) by (auto simp: le_div_geq le_mod_geq not_less)
    then show ?thesis using False 1 by (auto simp: chunks_unfold)
  qed simp
qed

section \<open>Bitmaps of identifiers\<close>

text \<open>
  The interface of the bitmaps that record which numbered items have been seen: \<open>cap\<close> are the
  identifiers the bitmap has room for, others are ignored when inserted.
\<close>

locale bitset =
  fixes wf :: "'b \<Rightarrow> bool"
    and cap :: "'k \<Rightarrow> bool"
    and emp :: 'b
    and ins :: "'k \<Rightarrow> 'b \<Rightarrow> 'b"
    and mem :: "'b \<Rightarrow> 'k \<Rightarrow> bool"
  assumes wf_emp: "wf emp"
    and wf_ins: "wf b \<Longrightarrow> wf (ins k b)"
    and mem_emp: "cap j \<Longrightarrow> \<not> mem emp j"
    and mem_ins: "wf b \<Longrightarrow> cap j \<Longrightarrow> mem (ins k b) j \<longleftrightarrow> j = k \<or> mem b j"
begin

lemma fold_ins: "wf b \<Longrightarrow> wf (fold ins ks b) \<and>
    (\<forall>j. cap j \<longrightarrow> mem (fold ins ks b) j = (j \<in> set ks \<or> mem b j))"
proof (induction ks arbitrary: b)
  case (Cons k ks)
  then show ?case using wf_ins [of b k] mem_ins [of b _ k] by auto
qed simp

lemma wf_fold: "wf (fold ins ks emp)"
  using fold_ins wf_emp by blast

lemma mem_fold: "cap j \<Longrightarrow> mem (fold ins ks emp) j \<longleftrightarrow> j \<in> set ks"
  using fold_ins [OF wf_emp] mem_emp by blast

end

end
