(* ===== verification/IKE_Payloads.thy ===== *)
theory IKE_Payloads
  imports Prelude
begin

text \<open>
  The payload objects a \<^verbatim>\<open>message_t\<close> holds, from
  \<^verbatim>\<open>src/src/libcharon/encoding/payloads/\<close>: the payload and exchange types, the notify types the
  core consults, the generic payload with its next-payload field, and the operations of the
  encrypted fragment payload (SKF, RFC 7383) that the fragmentation code relies on.
  The build configuration is the one of \<^verbatim>\<open>src/config.h\<close>: IKEv1 and IKEv2 enabled, the
  mediation extension (\<^verbatim>\<open>ME\<close>) disabled.
\<close>

section \<open>Payload, exchange and notify types\<close>

datatype payload_type_t =
    PL_NONE
  | PLV1_SECURITY_ASSOCIATION | PLV1_PROPOSAL | PLV1_TRANSFORM | PLV1_KEY_EXCHANGE | PLV1_ID
  | PLV1_CERTIFICATE | PLV1_CERTREQ | PLV1_HASH | PLV1_SIGNATURE | PLV1_NONCE | PLV1_NOTIFY
  | PLV1_DELETE | PLV1_VENDOR_ID | PLV1_CONFIGURATION | PLV1_NAT_D | PLV1_NAT_OA
  | PLV2_SECURITY_ASSOCIATION | PLV2_KEY_EXCHANGE | PLV2_ID_INITIATOR | PLV2_ID_RESPONDER
  | PLV2_CERTIFICATE | PLV2_CERTREQ | PLV2_AUTH | PLV2_NONCE | PLV2_NOTIFY | PLV2_DELETE
  | PLV2_VENDOR_ID | PLV2_TS_INITIATOR | PLV2_TS_RESPONDER | PLV2_ENCRYPTED
  | PLV2_CONFIGURATION | PLV2_EAP | PLV2_GSPM | PLV2_IDG | PLV2_GSA | PLV2_KD | PLV2_FRAGMENT
  | PLV1_NAT_D_DRAFT_00_03 | PLV1_NAT_OA_DRAFT_00_03 | PLV1_FRAGMENT
  | PL_HEADER | PL_UNKNOWN | PLV2_PROPOSAL_SUBSTRUCTURE | PLV1_PROPOSAL_SUBSTRUCTURE
  | PLV2_TRANSFORM_SUBSTRUCTURE | PLV1_TRANSFORM_SUBSTRUCTURE | PLV2_TRANSFORM_ATTRIBUTE
  | PLV1_TRANSFORM_ATTRIBUTE | PLV2_TRAFFIC_SELECTOR_SUBSTRUCTURE
  | PLV2_CONFIGURATION_ATTRIBUTE | PLV1_CONFIGURATION_ATTRIBUTE | PLV1_ENCRYPTED

datatype exchange_type_t =
    ID_PROT | AUTH_ONLY | AGGRESSIVE | INFORMATIONAL_V1 | TRANSACTION | QUICK_MODE
  | NEW_GROUP_MODE | IKE_SA_INIT | IKE_AUTH | CREATE_CHILD_SA | INFORMATIONAL
  | IKE_SESSION_RESUME | IKE_INTERMEDIATE | IKE_FOLLOWUP_KE | EXCHANGE_TYPE_UNDEFINED

type_synonym notify_type_t = u16

abbreviation (input) UNSUPPORTED_CRITICAL_PAYLOAD :: notify_type_t where "UNSUPPORTED_CRITICAL_PAYLOAD \<equiv> 1"
abbreviation (input) INVALID_SYNTAX :: notify_type_t where "INVALID_SYNTAX \<equiv> 7"
abbreviation (input) NO_PROPOSAL_CHOSEN :: notify_type_t where "NO_PROPOSAL_CHOSEN \<equiv> 14"
abbreviation (input) INITIAL_CONTACT :: notify_type_t where "INITIAL_CONTACT \<equiv> 16384"
abbreviation (input) ADDITIONAL_TS_POSSIBLE :: notify_type_t where "ADDITIONAL_TS_POSSIBLE \<equiv> 16386"
abbreviation (input) IPCOMP_SUPPORTED :: notify_type_t where "IPCOMP_SUPPORTED \<equiv> 16387"
abbreviation (input) NAT_DETECTION_SOURCE_IP :: notify_type_t where "NAT_DETECTION_SOURCE_IP \<equiv> 16388"
abbreviation (input) NAT_DETECTION_DESTINATION_IP :: notify_type_t where
  "NAT_DETECTION_DESTINATION_IP \<equiv> 16389"
abbreviation (input) COOKIE :: notify_type_t where "COOKIE \<equiv> 16390"
abbreviation (input) USE_TRANSPORT_MODE :: notify_type_t where "USE_TRANSPORT_MODE \<equiv> 16391"
abbreviation (input) HTTP_CERT_LOOKUP_SUPPORTED :: notify_type_t where
  "HTTP_CERT_LOOKUP_SUPPORTED \<equiv> 16392"
abbreviation (input) REKEY_SA :: notify_type_t where "REKEY_SA \<equiv> 16393"
abbreviation (input) ESP_TFC_PADDING_NOT_SUPPORTED :: notify_type_t where
  "ESP_TFC_PADDING_NOT_SUPPORTED \<equiv> 16394"
abbreviation (input) NON_FIRST_FRAGMENTS_ALSO :: notify_type_t where "NON_FIRST_FRAGMENTS_ALSO \<equiv> 16395"
abbreviation (input) MOBIKE_SUPPORTED :: notify_type_t where "MOBIKE_SUPPORTED \<equiv> 16396"
abbreviation (input) ADDITIONAL_IP4_ADDRESS :: notify_type_t where "ADDITIONAL_IP4_ADDRESS \<equiv> 16397"
abbreviation (input) ADDITIONAL_IP6_ADDRESS :: notify_type_t where "ADDITIONAL_IP6_ADDRESS \<equiv> 16398"
abbreviation (input) NO_ADDITIONAL_ADDRESSES :: notify_type_t where "NO_ADDITIONAL_ADDRESSES \<equiv> 16399"
abbreviation (input) UPDATE_SA_ADDRESSES :: notify_type_t where "UPDATE_SA_ADDRESSES \<equiv> 16400"
abbreviation (input) COOKIE2 :: notify_type_t where "COOKIE2 \<equiv> 16401"
abbreviation (input) AUTH_LIFETIME :: notify_type_t where "AUTH_LIFETIME \<equiv> 16403"
abbreviation (input) IKEV2_MESSAGE_ID_SYNC :: notify_type_t where "IKEV2_MESSAGE_ID_SYNC \<equiv> 16422"
abbreviation (input) IPSEC_REPLAY_COUNTER_SYNC :: notify_type_t where "IPSEC_REPLAY_COUNTER_SYNC \<equiv> 16423"
abbreviation (input) AUTHENTICATION_FAILED :: notify_type_t where "AUTHENTICATION_FAILED \<equiv> 24"
abbreviation (input) UNACCEPTABLE_ADDRESSES :: notify_type_t where "UNACCEPTABLE_ADDRESSES \<equiv> 40"
abbreviation (input) UNEXPECTED_NAT_DETECTED :: notify_type_t where "UNEXPECTED_NAT_DETECTED \<equiv> 41"
abbreviation (input) NO_NATS_ALLOWED :: notify_type_t where "NO_NATS_ALLOWED \<equiv> 16402"
abbreviation (input) REDIRECT :: notify_type_t where "REDIRECT \<equiv> 16407"
abbreviation (input) SELECTIVE_FRAGMENT_RETRANSMISSION_SUPPORTED :: notify_type_t where
  "SELECTIVE_FRAGMENT_RETRANSMISSION_SUPPORTED \<equiv> 40972"
abbreviation (input) FRAGMENT_ACK :: notify_type_t where "FRAGMENT_ACK \<equiv> 40971"

section \<open>Payload objects\<close>

text \<open>
  \<open>payload_t\<close> is the interface every payload class implements; the fields are those the modelled
  code reads through it. \<open>FragV1Body\<close> carries fragment ID, number, last-flag and data of
  \<^verbatim>\<open>fragment_payload.c\<close>; \<open>FragV2Body\<close> number, total and plain content of the encrypted fragment
  payload; \<open>EncBody\<close> the (en- or decrypted) content of an encrypted payload; \<open>UnknownBody\<close> the
  critical flag, wire type and data of \<^verbatim>\<open>unknown_payload.c\<close>. The protocol ID is the one of notify and
  delete payloads.
\<close>

datatype payload_body =
    NotifyBody notify_type_t bytes
  | FragV1Body u16 u8 bool bytes
  | FragV2Body u16 u16 bytes
  | EncBody bytes
  | UnknownBody bool u8 bytes
  | OtherBody bytes

record payload_t =
  ptype :: payload_type_t
  next_payload :: payload_type_t
  pbody :: payload_body
  protocol_id :: u8

fun get_notify_type :: "payload_t \<Rightarrow> notify_type_t" where
  "get_notify_type p = (case pbody p of NotifyBody t _ \<Rightarrow> t | _ \<Rightarrow> 0)"

fun get_notification_data :: "payload_t \<Rightarrow> bytes" where
  "get_notification_data p = (case pbody p of NotifyBody _ d \<Rightarrow> d | _ \<Rightarrow> [])"

definition frag_set_next_type :: "payload_t \<Rightarrow> payload_type_t \<Rightarrow> payload_t" where
  "frag_set_next_type p t =
     (case pbody p of
        FragV2Body num tot content \<Rightarrow>
          if num = 1 \<and> next_payload p = PL_NONE then p\<lparr>next_payload := t\<rparr> else p
      | _ \<Rightarrow> p)"

text \<open>Dynamic dispatch of \<^verbatim>\<open>payload->set_next_type\<close>: only the SKF payload restricts it.\<close>

definition set_next_type :: "payload_t \<Rightarrow> payload_type_t \<Rightarrow> payload_t" where
  "set_next_type p t =
     (if ptype p = PLV2_FRAGMENT then frag_set_next_type p t else p\<lparr>next_payload := t\<rparr>)"

definition frag_verify :: "payload_t \<Rightarrow> status_t \<times> payload_t" where
  "frag_verify p =
     (case pbody p of
        FragV2Body num tot content \<Rightarrow>
          if num = 0 \<or> tot = 0 \<or> num > tot then (FAILED, p)
          else if num > 1 \<and> next_payload p \<noteq> PL_NONE
               then (SUCCESS, p\<lparr>next_payload := PL_NONE\<rparr>)
          else (SUCCESS, p)
      | _ \<Rightarrow> (FAILED, p))"

definition encrypted_fragment_payload_create_from_data ::
    "u16 \<Rightarrow> u16 \<Rightarrow> bytes \<Rightarrow> payload_t" where
  "encrypted_fragment_payload_create_from_data num tot plain =
     \<lparr>ptype = PLV2_FRAGMENT, next_payload = PL_NONE, pbody = FragV2Body num tot plain, protocol_id = 0\<rparr>"

text \<open>The IKEv1 fragment payload; \<^verbatim>\<open>uint8_t num\<close> truncates the caller's \<^verbatim>\<open>uint16_t\<close>.\<close>

definition fragment_payload_create_from_data :: "u8 \<Rightarrow> bool \<Rightarrow> bytes \<Rightarrow> payload_t" where
  "fragment_payload_create_from_data num last_frag data =
     \<lparr>ptype = PLV1_FRAGMENT, next_payload = PL_NONE, pbody = FragV1Body 1 num last_frag data, protocol_id = 0\<rparr>"

definition fragment_payload_verify :: "payload_t \<Rightarrow> status_t" where
  "fragment_payload_verify p =
     (case pbody p of FragV1Body fid num last_frag data \<Rightarrow> if num = 0 then FAILED else SUCCESS
      | _ \<Rightarrow> FAILED)"

lemma ptype_set_next_type [simp]: "ptype (set_next_type p t) = ptype p"
  by (simp add: set_next_type_def frag_set_next_type_def split: payload_body.split)

lemma pbody_set_next_type [simp]: "pbody (set_next_type p t) = pbody p"
  by (simp add: set_next_type_def frag_set_next_type_def split: payload_body.split)

lemma get_notify_type_set_next_type [simp]:
  "get_notify_type (set_next_type p t) = get_notify_type p"
  by simp

declare get_notify_type.simps [simp del]

end
