(* ===== verification/Message_Rules.thy ===== *)
theory Message_Rules
  imports IKE_Payloads
begin

text \<open>
  The message object of \<^verbatim>\<open>src/src/libcharon/encoding/message.c\<close>: its state, the payload and
  message rule tables, the payload list operations (\<^verbatim>\<open>add_payload\<close>, \<^verbatim>\<open>get_payload\<close>,
  \<^verbatim>\<open>get_notify\<close>), the reordering of outgoing payloads (\<^verbatim>\<open>order_payloads\<close>), the split into
  protected and unprotected payloads (\<^verbatim>\<open>wrap_payloads\<close>) and the check of incoming messages against
  the rules (\<^verbatim>\<open>verify\<close>).
\<close>

section \<open>Rule tables\<close>

record payload_rule_t =
  rule_type :: payload_type_t
  min_occurrence :: nat
  max_occurrence :: nat
  rule_encrypted :: bool
  sufficient :: bool

record payload_order_t =
  order_type :: payload_type_t
  order_notify :: notify_type_t

record message_rule_t =
  mr_exchange_type :: exchange_type_t
  mr_is_request :: bool
  mr_encrypted :: bool
  mr_rules :: "payload_rule_t list"
  mr_order :: "payload_order_t list"

abbreviation (input) MAX_NOTIFY_PAYLOADS :: nat where "MAX_NOTIFY_PAYLOADS \<equiv> 20"
abbreviation (input) MAX_DELETE_PAYLOADS :: nat where "MAX_DELETE_PAYLOADS \<equiv> 20"
abbreviation (input) MAX_CERT_PAYLOADS :: nat where "MAX_CERT_PAYLOADS \<equiv> 8"
abbreviation (input) MAX_VID_PAYLOADS :: nat where "MAX_VID_PAYLOADS \<equiv> 20"
abbreviation (input) MAX_CERTREQ_PAYLOADS :: nat where "MAX_CERTREQ_PAYLOADS \<equiv> 20"
abbreviation (input) MAX_NAT_D_PAYLOADS :: nat where "MAX_NAT_D_PAYLOADS \<equiv> 10"

abbreviation PR :: "payload_type_t \<Rightarrow> nat \<Rightarrow> nat \<Rightarrow> bool \<Rightarrow> bool \<Rightarrow> payload_rule_t" where
  "PR t mn mx enc suff \<equiv> \<lparr>rule_type = t, min_occurrence = mn, max_occurrence = mx,
     rule_encrypted = enc, sufficient = suff\<rparr>"

abbreviation PO :: "payload_type_t \<Rightarrow> notify_type_t \<Rightarrow> payload_order_t" where
  "PO t n \<equiv> \<lparr>order_type = t, order_notify = n\<rparr>"

abbreviation MR :: "exchange_type_t \<Rightarrow> bool \<Rightarrow> bool \<Rightarrow> payload_rule_t list \<Rightarrow>
    payload_order_t list \<Rightarrow> message_rule_t" where
  "MR x req enc rs os \<equiv> \<lparr>mr_exchange_type = x, mr_is_request = req, mr_encrypted = enc,
     mr_rules = rs, mr_order = os\<rparr>"

definition ike_sa_init_i_rules :: "payload_rule_t list" where
  "ike_sa_init_i_rules = [
     PR PLV2_NOTIFY 0 MAX_NOTIFY_PAYLOADS False False,
     PR PLV2_SECURITY_ASSOCIATION 1 1 False False,
     PR PLV2_KEY_EXCHANGE 1 1 False False,
     PR PLV2_NONCE 1 1 False False,
     PR PLV2_VENDOR_ID 0 MAX_VID_PAYLOADS False False]"

definition ike_sa_init_i_order :: "payload_order_t list" where
  "ike_sa_init_i_order = [
     PO PLV2_NOTIFY COOKIE,
     PO PLV2_SECURITY_ASSOCIATION 0,
     PO PLV2_KEY_EXCHANGE 0,
     PO PLV2_NONCE 0,
     PO PLV2_NOTIFY NAT_DETECTION_SOURCE_IP,
     PO PLV2_NOTIFY NAT_DETECTION_DESTINATION_IP,
     PO PLV2_NOTIFY 0,
     PO PLV2_VENDOR_ID 0]"

definition ike_sa_init_r_rules :: "payload_rule_t list" where
  "ike_sa_init_r_rules = [
     PR PLV2_NOTIFY 0 MAX_NOTIFY_PAYLOADS False True,
     PR PLV2_SECURITY_ASSOCIATION 1 1 False False,
     PR PLV2_KEY_EXCHANGE 1 1 False False,
     PR PLV2_NONCE 1 1 False False,
     PR PLV2_CERTREQ 0 MAX_CERTREQ_PAYLOADS False False,
     PR PLV2_VENDOR_ID 0 MAX_VID_PAYLOADS False False]"

definition ike_sa_init_r_order :: "payload_order_t list" where
  "ike_sa_init_r_order = [
     PO PLV2_SECURITY_ASSOCIATION 0,
     PO PLV2_KEY_EXCHANGE 0,
     PO PLV2_NONCE 0,
     PO PLV2_NOTIFY NAT_DETECTION_SOURCE_IP,
     PO PLV2_NOTIFY NAT_DETECTION_DESTINATION_IP,
     PO PLV2_NOTIFY HTTP_CERT_LOOKUP_SUPPORTED,
     PO PLV2_CERTREQ 0,
     PO PLV2_NOTIFY 0,
     PO PLV2_VENDOR_ID 0]"

definition ike_auth_i_rules :: "payload_rule_t list" where
  "ike_auth_i_rules = [
     PR PLV2_FRAGMENT 0 1 True True,
     PR PLV2_NOTIFY 0 MAX_NOTIFY_PAYLOADS True False,
     PR PLV2_EAP 0 1 True True,
     PR PLV2_AUTH 0 1 True True,
     PR PLV2_ID_INITIATOR 0 1 True False,
     PR PLV2_CERTIFICATE 0 MAX_CERT_PAYLOADS True False,
     PR PLV2_CERTREQ 0 MAX_CERTREQ_PAYLOADS True False,
     PR PLV2_ID_RESPONDER 0 1 True False,
     PR PLV2_SECURITY_ASSOCIATION 0 1 True False,
     PR PLV2_TS_INITIATOR 0 1 True False,
     PR PLV2_TS_RESPONDER 0 1 True False,
     PR PLV2_CONFIGURATION 0 1 True False,
     PR PLV2_VENDOR_ID 0 MAX_VID_PAYLOADS True False]"

definition ike_auth_i_order :: "payload_order_t list" where
  "ike_auth_i_order = [
     PO PLV2_ID_INITIATOR 0,
     PO PLV2_CERTIFICATE 0,
     PO PLV2_NOTIFY INITIAL_CONTACT,
     PO PLV2_NOTIFY HTTP_CERT_LOOKUP_SUPPORTED,
     PO PLV2_CERTREQ 0,
     PO PLV2_ID_RESPONDER 0,
     PO PLV2_AUTH 0,
     PO PLV2_EAP 0,
     PO PLV2_CONFIGURATION 0,
     PO PLV2_NOTIFY IPCOMP_SUPPORTED,
     PO PLV2_NOTIFY USE_TRANSPORT_MODE,
     PO PLV2_NOTIFY ESP_TFC_PADDING_NOT_SUPPORTED,
     PO PLV2_NOTIFY NON_FIRST_FRAGMENTS_ALSO,
     PO PLV2_SECURITY_ASSOCIATION 0,
     PO PLV2_TS_INITIATOR 0,
     PO PLV2_TS_RESPONDER 0,
     PO PLV2_NOTIFY MOBIKE_SUPPORTED,
     PO PLV2_NOTIFY ADDITIONAL_IP4_ADDRESS,
     PO PLV2_NOTIFY ADDITIONAL_IP6_ADDRESS,
     PO PLV2_NOTIFY NO_ADDITIONAL_ADDRESSES,
     PO PLV2_NOTIFY 0,
     PO PLV2_VENDOR_ID 0,
     PO PLV2_FRAGMENT 0]"

definition ike_auth_r_rules :: "payload_rule_t list" where
  "ike_auth_r_rules = [
     PR PLV2_FRAGMENT 0 1 True True,
     PR PLV2_NOTIFY 0 MAX_NOTIFY_PAYLOADS True True,
     PR PLV2_EAP 0 1 True True,
     PR PLV2_AUTH 0 1 True True,
     PR PLV2_CERTIFICATE 0 MAX_CERT_PAYLOADS True False,
     PR PLV2_ID_RESPONDER 0 1 True False,
     PR PLV2_SECURITY_ASSOCIATION 0 1 True False,
     PR PLV2_TS_INITIATOR 0 1 True False,
     PR PLV2_TS_RESPONDER 0 1 True False,
     PR PLV2_CONFIGURATION 0 1 True False,
     PR PLV2_VENDOR_ID 0 MAX_VID_PAYLOADS True False]"

definition ike_auth_r_order :: "payload_order_t list" where
  "ike_auth_r_order = [
     PO PLV2_ID_RESPONDER 0,
     PO PLV2_CERTIFICATE 0,
     PO PLV2_AUTH 0,
     PO PLV2_EAP 0,
     PO PLV2_CONFIGURATION 0,
     PO PLV2_NOTIFY IPCOMP_SUPPORTED,
     PO PLV2_NOTIFY USE_TRANSPORT_MODE,
     PO PLV2_NOTIFY ESP_TFC_PADDING_NOT_SUPPORTED,
     PO PLV2_NOTIFY NON_FIRST_FRAGMENTS_ALSO,
     PO PLV2_SECURITY_ASSOCIATION 0,
     PO PLV2_TS_INITIATOR 0,
     PO PLV2_TS_RESPONDER 0,
     PO PLV2_NOTIFY AUTH_LIFETIME,
     PO PLV2_NOTIFY MOBIKE_SUPPORTED,
     PO PLV2_NOTIFY ADDITIONAL_IP4_ADDRESS,
     PO PLV2_NOTIFY ADDITIONAL_IP6_ADDRESS,
     PO PLV2_NOTIFY NO_ADDITIONAL_ADDRESSES,
     PO PLV2_NOTIFY 0,
     PO PLV2_VENDOR_ID 0,
     PO PLV2_FRAGMENT 0]"

definition informational_i_rules :: "payload_rule_t list" where
  "informational_i_rules = [
     PR PLV2_FRAGMENT 0 1 True True,
     PR PLV2_NOTIFY 0 MAX_NOTIFY_PAYLOADS True False,
     PR PLV2_CONFIGURATION 0 1 True False,
     PR PLV2_DELETE 0 MAX_DELETE_PAYLOADS True False,
     PR PLV2_VENDOR_ID 0 MAX_VID_PAYLOADS True False]"

definition informational_i_order :: "payload_order_t list" where
  "informational_i_order = [
     PO PLV2_NOTIFY UPDATE_SA_ADDRESSES,
     PO PLV2_NOTIFY NAT_DETECTION_SOURCE_IP,
     PO PLV2_NOTIFY NAT_DETECTION_DESTINATION_IP,
     PO PLV2_NOTIFY COOKIE2,
     PO PLV2_NOTIFY 0,
     PO PLV2_DELETE 0,
     PO PLV2_CONFIGURATION 0,
     PO PLV2_FRAGMENT 0]"

definition informational_r_rules :: "payload_rule_t list" where
  "informational_r_rules = [
     PR PLV2_FRAGMENT 0 1 True True,
     PR PLV2_NOTIFY 0 MAX_NOTIFY_PAYLOADS True False,
     PR PLV2_CONFIGURATION 0 1 True False,
     PR PLV2_DELETE 0 MAX_DELETE_PAYLOADS True False,
     PR PLV2_VENDOR_ID 0 MAX_VID_PAYLOADS True False]"

definition informational_r_order :: "payload_order_t list" where
  "informational_r_order = [
     PO PLV2_NOTIFY UPDATE_SA_ADDRESSES,
     PO PLV2_NOTIFY NAT_DETECTION_SOURCE_IP,
     PO PLV2_NOTIFY NAT_DETECTION_DESTINATION_IP,
     PO PLV2_NOTIFY COOKIE2,
     PO PLV2_NOTIFY 0,
     PO PLV2_DELETE 0,
     PO PLV2_CONFIGURATION 0,
     PO PLV2_FRAGMENT 0]"

definition create_child_sa_i_rules :: "payload_rule_t list" where
  "create_child_sa_i_rules = [
     PR PLV2_FRAGMENT 0 1 True True,
     PR PLV2_NOTIFY 0 MAX_NOTIFY_PAYLOADS True False,
     PR PLV2_SECURITY_ASSOCIATION 1 1 True False,
     PR PLV2_NONCE 1 1 True False,
     PR PLV2_KEY_EXCHANGE 0 1 True False,
     PR PLV2_TS_INITIATOR 0 1 True False,
     PR PLV2_TS_RESPONDER 0 1 True False,
     PR PLV2_CONFIGURATION 0 1 True False,
     PR PLV2_VENDOR_ID 0 MAX_VID_PAYLOADS True False]"

definition create_child_sa_i_order :: "payload_order_t list" where
  "create_child_sa_i_order = [
     PO PLV2_NOTIFY REKEY_SA,
     PO PLV2_NOTIFY IPCOMP_SUPPORTED,
     PO PLV2_NOTIFY USE_TRANSPORT_MODE,
     PO PLV2_NOTIFY ESP_TFC_PADDING_NOT_SUPPORTED,
     PO PLV2_NOTIFY NON_FIRST_FRAGMENTS_ALSO,
     PO PLV2_SECURITY_ASSOCIATION 0,
     PO PLV2_NONCE 0,
     PO PLV2_KEY_EXCHANGE 0,
     PO PLV2_TS_INITIATOR 0,
     PO PLV2_TS_RESPONDER 0,
     PO PLV2_NOTIFY 0,
     PO PLV2_FRAGMENT 0]"

definition create_child_sa_r_rules :: "payload_rule_t list" where
  "create_child_sa_r_rules = [
     PR PLV2_FRAGMENT 0 1 True True,
     PR PLV2_NOTIFY 0 MAX_NOTIFY_PAYLOADS True True,
     PR PLV2_SECURITY_ASSOCIATION 1 1 True False,
     PR PLV2_NONCE 1 1 True False,
     PR PLV2_KEY_EXCHANGE 0 1 True False,
     PR PLV2_TS_INITIATOR 0 1 True False,
     PR PLV2_TS_RESPONDER 0 1 True False,
     PR PLV2_CONFIGURATION 0 1 True False,
     PR PLV2_VENDOR_ID 0 MAX_VID_PAYLOADS True False]"

definition create_child_sa_r_order :: "payload_order_t list" where
  "create_child_sa_r_order = [
     PO PLV2_NOTIFY IPCOMP_SUPPORTED,
     PO PLV2_NOTIFY USE_TRANSPORT_MODE,
     PO PLV2_NOTIFY ESP_TFC_PADDING_NOT_SUPPORTED,
     PO PLV2_NOTIFY NON_FIRST_FRAGMENTS_ALSO,
     PO PLV2_SECURITY_ASSOCIATION 0,
     PO PLV2_NONCE 0,
     PO PLV2_KEY_EXCHANGE 0,
     PO PLV2_TS_INITIATOR 0,
     PO PLV2_TS_RESPONDER 0,
     PO PLV2_NOTIFY ADDITIONAL_TS_POSSIBLE,
     PO PLV2_NOTIFY 0,
     PO PLV2_FRAGMENT 0]"

definition ike_intermediate_i_rules :: "payload_rule_t list" where
  "ike_intermediate_i_rules = [
     PR PLV2_FRAGMENT 0 1 True True,
     PR PLV2_NOTIFY 0 MAX_NOTIFY_PAYLOADS True False,
     PR PLV2_KEY_EXCHANGE 0 1 True False]"

definition ike_intermediate_i_order :: "payload_order_t list" where
  "ike_intermediate_i_order = [
     PO PLV2_KEY_EXCHANGE 0,
     PO PLV2_NOTIFY 0,
     PO PLV2_FRAGMENT 0]"

definition ike_intermediate_r_rules :: "payload_rule_t list" where
  "ike_intermediate_r_rules = [
     PR PLV2_FRAGMENT 0 1 True True,
     PR PLV2_NOTIFY 0 MAX_NOTIFY_PAYLOADS True True,
     PR PLV2_KEY_EXCHANGE 0 1 True False]"

definition ike_intermediate_r_order :: "payload_order_t list" where
  "ike_intermediate_r_order = [
     PO PLV2_KEY_EXCHANGE 0,
     PO PLV2_NOTIFY 0,
     PO PLV2_FRAGMENT 0]"

definition ike_followup_ke_i_rules :: "payload_rule_t list" where
  "ike_followup_ke_i_rules = [
     PR PLV2_FRAGMENT 0 1 True True,
     PR PLV2_NOTIFY 0 MAX_NOTIFY_PAYLOADS True False,
     PR PLV2_KEY_EXCHANGE 1 1 True False]"

definition ike_followup_ke_i_order :: "payload_order_t list" where
  "ike_followup_ke_i_order = [
     PO PLV2_KEY_EXCHANGE 0,
     PO PLV2_NOTIFY 0,
     PO PLV2_FRAGMENT 0]"

definition ike_followup_ke_r_rules :: "payload_rule_t list" where
  "ike_followup_ke_r_rules = [
     PR PLV2_FRAGMENT 0 1 True True,
     PR PLV2_NOTIFY 0 MAX_NOTIFY_PAYLOADS True True,
     PR PLV2_KEY_EXCHANGE 1 1 True False]"

definition ike_followup_ke_r_order :: "payload_order_t list" where
  "ike_followup_ke_r_order = [
     PO PLV2_KEY_EXCHANGE 0,
     PO PLV2_NOTIFY 0,
     PO PLV2_FRAGMENT 0]"

definition id_prot_i_rules :: "payload_rule_t list" where
  "id_prot_i_rules = [
     PR PLV1_NOTIFY 0 MAX_NOTIFY_PAYLOADS False False,
     PR PLV1_SECURITY_ASSOCIATION 0 1 False False,
     PR PLV1_KEY_EXCHANGE 0 1 False False,
     PR PLV1_NONCE 0 1 False False,
     PR PLV1_VENDOR_ID 0 MAX_VID_PAYLOADS False False,
     PR PLV1_CERTREQ 0 MAX_CERTREQ_PAYLOADS False False,
     PR PLV1_NAT_D 0 MAX_NAT_D_PAYLOADS False False,
     PR PLV1_NAT_D_DRAFT_00_03 0 MAX_NAT_D_PAYLOADS False False,
     PR PLV1_ID 0 1 True False,
     PR PLV1_CERTIFICATE 0 MAX_CERT_PAYLOADS True False,
     PR PLV1_SIGNATURE 0 1 True False,
     PR PLV1_HASH 0 1 True False,
     PR PLV1_FRAGMENT 0 1 False True]"

definition id_prot_i_order :: "payload_order_t list" where
  "id_prot_i_order = [
     PO PLV1_SECURITY_ASSOCIATION 0,
     PO PLV1_KEY_EXCHANGE 0,
     PO PLV1_NONCE 0,
     PO PLV1_ID 0,
     PO PLV1_CERTIFICATE 0,
     PO PLV1_SIGNATURE 0,
     PO PLV1_HASH 0,
     PO PLV1_CERTREQ 0,
     PO PLV1_NOTIFY 0,
     PO PLV1_VENDOR_ID 0,
     PO PLV1_NAT_D 0,
     PO PLV1_NAT_D_DRAFT_00_03 0,
     PO PLV1_FRAGMENT 0]"

definition id_prot_r_rules :: "payload_rule_t list" where
  "id_prot_r_rules = [
     PR PLV1_NOTIFY 0 MAX_NOTIFY_PAYLOADS False False,
     PR PLV1_SECURITY_ASSOCIATION 0 1 False False,
     PR PLV1_KEY_EXCHANGE 0 1 False False,
     PR PLV1_NONCE 0 1 False False,
     PR PLV1_VENDOR_ID 0 MAX_VID_PAYLOADS False False,
     PR PLV1_CERTREQ 0 MAX_CERTREQ_PAYLOADS False False,
     PR PLV1_NAT_D 0 MAX_NAT_D_PAYLOADS False False,
     PR PLV1_NAT_D_DRAFT_00_03 0 MAX_NAT_D_PAYLOADS False False,
     PR PLV1_ID 0 1 True False,
     PR PLV1_CERTIFICATE 0 MAX_CERT_PAYLOADS True False,
     PR PLV1_SIGNATURE 0 1 True False,
     PR PLV1_HASH 0 1 True False,
     PR PLV1_FRAGMENT 0 1 False True]"

definition id_prot_r_order :: "payload_order_t list" where
  "id_prot_r_order = [
     PO PLV1_SECURITY_ASSOCIATION 0,
     PO PLV1_KEY_EXCHANGE 0,
     PO PLV1_NONCE 0,
     PO PLV1_ID 0,
     PO PLV1_CERTIFICATE 0,
     PO PLV1_SIGNATURE 0,
     PO PLV1_HASH 0,
     PO PLV1_CERTREQ 0,
     PO PLV1_NOTIFY 0,
     PO PLV1_VENDOR_ID 0,
     PO PLV1_NAT_D 0,
     PO PLV1_NAT_D_DRAFT_00_03 0,
     PO PLV1_FRAGMENT 0]"

definition aggressive_i_rules :: "payload_rule_t list" where
  "aggressive_i_rules = [
     PR PLV1_NOTIFY 0 MAX_NOTIFY_PAYLOADS False False,
     PR PLV1_SECURITY_ASSOCIATION 0 1 False False,
     PR PLV1_KEY_EXCHANGE 0 1 False False,
     PR PLV1_NONCE 0 1 False False,
     PR PLV1_VENDOR_ID 0 MAX_VID_PAYLOADS False False,
     PR PLV1_CERTREQ 0 MAX_CERTREQ_PAYLOADS False False,
     PR PLV1_NAT_D 0 MAX_NAT_D_PAYLOADS False False,
     PR PLV1_NAT_D_DRAFT_00_03 0 MAX_NAT_D_PAYLOADS False False,
     PR PLV1_ID 0 1 False False,
     PR PLV1_CERTIFICATE 0 MAX_CERT_PAYLOADS True False,
     PR PLV1_SIGNATURE 0 1 True False,
     PR PLV1_HASH 0 1 True False,
     PR PLV1_FRAGMENT 0 1 False True]"

definition aggressive_i_order :: "payload_order_t list" where
  "aggressive_i_order = [
     PO PLV1_SECURITY_ASSOCIATION 0,
     PO PLV1_KEY_EXCHANGE 0,
     PO PLV1_NONCE 0,
     PO PLV1_ID 0,
     PO PLV1_CERTIFICATE 0,
     PO PLV1_CERTREQ 0,
     PO PLV1_NOTIFY 0,
     PO PLV1_VENDOR_ID 0,
     PO PLV1_HASH 0,
     PO PLV1_NAT_D 0,
     PO PLV1_NAT_D_DRAFT_00_03 0,
     PO PLV1_SIGNATURE 0,
     PO PLV1_FRAGMENT 0]"

definition aggressive_r_rules :: "payload_rule_t list" where
  "aggressive_r_rules = [
     PR PLV1_NOTIFY 0 MAX_NOTIFY_PAYLOADS False False,
     PR PLV1_SECURITY_ASSOCIATION 0 1 False False,
     PR PLV1_KEY_EXCHANGE 0 1 False False,
     PR PLV1_NONCE 0 1 False False,
     PR PLV1_VENDOR_ID 0 MAX_VID_PAYLOADS False False,
     PR PLV1_CERTREQ 0 MAX_CERTREQ_PAYLOADS False False,
     PR PLV1_NAT_D 0 MAX_NAT_D_PAYLOADS False False,
     PR PLV1_NAT_D_DRAFT_00_03 0 MAX_NAT_D_PAYLOADS False False,
     PR PLV1_ID 0 1 False False,
     PR PLV1_CERTIFICATE 0 MAX_CERT_PAYLOADS False False,
     PR PLV1_SIGNATURE 0 1 False False,
     PR PLV1_HASH 0 1 False False,
     PR PLV1_FRAGMENT 0 1 False True]"

definition aggressive_r_order :: "payload_order_t list" where
  "aggressive_r_order = [
     PO PLV1_SECURITY_ASSOCIATION 0,
     PO PLV1_KEY_EXCHANGE 0,
     PO PLV1_NONCE 0,
     PO PLV1_ID 0,
     PO PLV1_CERTIFICATE 0,
     PO PLV1_CERTREQ 0,
     PO PLV1_NOTIFY 0,
     PO PLV1_VENDOR_ID 0,
     PO PLV1_NAT_D 0,
     PO PLV1_NAT_D_DRAFT_00_03 0,
     PO PLV1_SIGNATURE 0,
     PO PLV1_HASH 0,
     PO PLV1_FRAGMENT 0]"

definition informational_i_rules_v1 :: "payload_rule_t list" where
  "informational_i_rules_v1 = [
     PR PLV1_NOTIFY 0 MAX_NOTIFY_PAYLOADS False False,
     PR PLV1_NOTIFY 0 MAX_NOTIFY_PAYLOADS True False,
     PR PLV1_DELETE 0 MAX_DELETE_PAYLOADS True False,
     PR PLV1_VENDOR_ID 0 MAX_VID_PAYLOADS True False]"

definition informational_i_order_v1 :: "payload_order_t list" where
  "informational_i_order_v1 = [
     PO PLV1_NOTIFY 0,
     PO PLV1_DELETE 0,
     PO PLV1_VENDOR_ID 0]"

definition informational_r_rules_v1 :: "payload_rule_t list" where
  "informational_r_rules_v1 = [
     PR PLV1_NOTIFY 0 MAX_NOTIFY_PAYLOADS False False,
     PR PLV1_NOTIFY 0 MAX_NOTIFY_PAYLOADS True False,
     PR PLV1_DELETE 0 MAX_DELETE_PAYLOADS True False,
     PR PLV1_VENDOR_ID 0 MAX_VID_PAYLOADS True False]"

definition informational_r_order_v1 :: "payload_order_t list" where
  "informational_r_order_v1 = [
     PO PLV1_NOTIFY 0,
     PO PLV1_DELETE 0,
     PO PLV1_VENDOR_ID 0]"

definition quick_mode_i_rules :: "payload_rule_t list" where
  "quick_mode_i_rules = [
     PR PLV1_NOTIFY 0 MAX_NOTIFY_PAYLOADS True False,
     PR PLV1_VENDOR_ID 0 MAX_VID_PAYLOADS True False,
     PR PLV1_HASH 0 1 True False,
     PR PLV1_SECURITY_ASSOCIATION 0 2 True False,
     PR PLV1_NONCE 0 1 True False,
     PR PLV1_KEY_EXCHANGE 0 1 True False,
     PR PLV1_ID 0 2 True False,
     PR PLV1_NAT_OA 0 2 True False,
     PR PLV1_NAT_OA_DRAFT_00_03 0 2 True False,
     PR PLV1_FRAGMENT 0 1 False True]"

definition quick_mode_i_order :: "payload_order_t list" where
  "quick_mode_i_order = [
     PO PLV1_NOTIFY 0,
     PO PLV1_VENDOR_ID 0,
     PO PLV1_HASH 0,
     PO PLV1_SECURITY_ASSOCIATION 0,
     PO PLV1_NONCE 0,
     PO PLV1_KEY_EXCHANGE 0,
     PO PLV1_ID 0,
     PO PLV1_NAT_OA 0,
     PO PLV1_NAT_OA_DRAFT_00_03 0,
     PO PLV1_FRAGMENT 0]"

definition quick_mode_r_rules :: "payload_rule_t list" where
  "quick_mode_r_rules = [
     PR PLV1_NOTIFY 0 MAX_NOTIFY_PAYLOADS True False,
     PR PLV1_VENDOR_ID 0 MAX_VID_PAYLOADS True False,
     PR PLV1_HASH 0 1 True False,
     PR PLV1_SECURITY_ASSOCIATION 0 2 True False,
     PR PLV1_NONCE 0 1 True False,
     PR PLV1_KEY_EXCHANGE 0 1 True False,
     PR PLV1_ID 0 2 True False,
     PR PLV1_NAT_OA 0 2 True False,
     PR PLV1_NAT_OA_DRAFT_00_03 0 2 True False,
     PR PLV1_FRAGMENT 0 1 False True]"

definition quick_mode_r_order :: "payload_order_t list" where
  "quick_mode_r_order = [
     PO PLV1_NOTIFY 0,
     PO PLV1_VENDOR_ID 0,
     PO PLV1_HASH 0,
     PO PLV1_SECURITY_ASSOCIATION 0,
     PO PLV1_NONCE 0,
     PO PLV1_KEY_EXCHANGE 0,
     PO PLV1_ID 0,
     PO PLV1_NAT_OA 0,
     PO PLV1_NAT_OA_DRAFT_00_03 0,
     PO PLV1_FRAGMENT 0]"

definition transaction_payload_rules_v1 :: "payload_rule_t list" where
  "transaction_payload_rules_v1 = [
     PR PLV1_HASH 0 1 True False,
     PR PLV1_CONFIGURATION 1 1 False False]"

definition transaction_payload_order_v1 :: "payload_order_t list" where
  "transaction_payload_order_v1 = [
     PO PLV1_HASH 0,
     PO PLV1_CONFIGURATION 0]"

definition message_rules :: "message_rule_t list" where
  "message_rules = [
     MR IKE_SA_INIT True False ike_sa_init_i_rules ike_sa_init_i_order,
     MR IKE_SA_INIT False False ike_sa_init_r_rules ike_sa_init_r_order,
     MR IKE_AUTH True True ike_auth_i_rules ike_auth_i_order,
     MR IKE_AUTH False True ike_auth_r_rules ike_auth_r_order,
     MR INFORMATIONAL True True informational_i_rules informational_i_order,
     MR INFORMATIONAL False True informational_r_rules informational_r_order,
     MR CREATE_CHILD_SA True True create_child_sa_i_rules create_child_sa_i_order,
     MR CREATE_CHILD_SA False True create_child_sa_r_rules create_child_sa_r_order,
     MR IKE_INTERMEDIATE True True ike_intermediate_i_rules ike_intermediate_i_order,
     MR IKE_INTERMEDIATE False True ike_intermediate_r_rules ike_intermediate_r_order,
     MR IKE_FOLLOWUP_KE True True ike_followup_ke_i_rules ike_followup_ke_i_order,
     MR IKE_FOLLOWUP_KE False True ike_followup_ke_r_rules ike_followup_ke_r_order,
     MR ID_PROT True False id_prot_i_rules id_prot_i_order,
     MR ID_PROT False False id_prot_r_rules id_prot_r_order,
     MR AGGRESSIVE True False aggressive_i_rules aggressive_i_order,
     MR AGGRESSIVE False False aggressive_r_rules aggressive_r_order,
     MR INFORMATIONAL_V1 True True informational_i_rules_v1 informational_i_order_v1,
     MR INFORMATIONAL_V1 False True informational_r_rules_v1 informational_r_order_v1,
     MR QUICK_MODE True True quick_mode_i_rules quick_mode_i_order,
     MR QUICK_MODE False True quick_mode_r_rules quick_mode_r_order,
     MR TRANSACTION True True transaction_payload_rules_v1 transaction_payload_order_v1,
     MR TRANSACTION False True transaction_payload_rules_v1 transaction_payload_order_v1]"

section \<open>Message state\<close>

datatype address_family = AF_INET | AF_INET6

record host_t =
  family :: address_family
  address :: bytes
  port :: u16

record packet_t =
  source :: "host_t option"
  destination :: "host_t option"
  pkt_data :: "bytes option"

record fragment_t =
  frag_num :: u8
  frag_data :: bytes

record fragment_data_t =
  frag_last :: u16
  frag_len :: nat
  max_packet :: nat
  first_received_time :: int
  fragment_timeout :: int

record ike_sa_id_t =
  initiator_spi :: u64
  responder_spi :: u64
  id_is_initiator :: bool

text \<open>
  \<^verbatim>\<open>private_message_t\<close>. The C struct uses one array pointer for two purposes: the generated
  packets of an outgoing message (\<open>out_fragments\<close>) and, when \<open>frag\<close> is set, the collected
  \<^verbatim>\<open>fragment_t\<close> of a reassembly (\<open>fragments\<close>). \<open>None\<close> is the NULL pointer. \<open>parser\<close> holds the bytes
  the parser was created on.
\<close>

record private_message_t =
  major_version :: u8
  minor_version :: u8
  first_payload :: payload_type_t
  exchange_type :: exchange_type_t
  is_request :: bool
  is_encrypted :: bool
  version_flag :: bool
  reserved :: "bool \<times> bool"
  sort_disabled :: bool
  message_id :: u32
  ike_sa_id :: "ike_sa_id_t option"
  packet :: packet_t
  out_fragments :: "packet_t list option"
  fragments :: "fragment_t list option"
  payloads :: "payload_t list"
  parser :: "bytes option"
  rule :: "message_rule_t option"
  frag :: "fragment_data_t option"

definition message_create_from_packet :: "packet_t \<Rightarrow> private_message_t" where
  "message_create_from_packet pkt =
     \<lparr>major_version = 0, minor_version = 0, first_payload = PL_NONE,
      exchange_type = EXCHANGE_TYPE_UNDEFINED, is_request = True, is_encrypted = False,
      version_flag = False, reserved = (False, False), sort_disabled = False, message_id = 0,
      ike_sa_id = None, packet = pkt, out_fragments = None, fragments = None, payloads = [],
      parser = Some (case pkt_data pkt of None \<Rightarrow> [] | Some d \<Rightarrow> d), rule = None, frag = None\<rparr>"

definition message_create :: "u8 \<Rightarrow> u8 \<Rightarrow> private_message_t" where
  "message_create major minor =
     (message_create_from_packet \<lparr>source = None, destination = None, pkt_data = None\<rparr>)
       \<lparr>major_version := major, minor_version := minor\<rparr>"

section \<open>Rule lookup and payload list\<close>

definition get_message_rule :: "private_message_t \<Rightarrow> message_rule_t option" where
  "get_message_rule this =
     List.find (\<lambda>r. exchange_type this = mr_exchange_type r \<and> is_request this = mr_is_request r)
       message_rules"

definition get_payload_rule :: "message_rule_t \<Rightarrow> payload_type_t \<Rightarrow> payload_rule_t option" where
  "get_payload_rule r t = List.find (\<lambda>pr. rule_type pr = t) (mr_rules r)"

definition add_payload :: "private_message_t \<Rightarrow> payload_t \<Rightarrow> private_message_t" where
  "add_payload this p =
     (if payloads this \<noteq> []
      then this\<lparr>payloads := butlast (payloads this)
                  @ [set_next_type (last (payloads this)) (ptype p), set_next_type p PL_NONE]\<rparr>
      else this\<lparr>first_payload := ptype p, payloads := [set_next_type p PL_NONE]\<rparr>)"

definition add_notify ::
    "private_message_t \<Rightarrow> bool \<Rightarrow> notify_type_t \<Rightarrow> bytes \<Rightarrow> private_message_t" where
  "add_notify this flush t data =
     (let this = (if flush then this\<lparr>payloads := []\<rparr> else this);
          pt = (if major_version this = 2 then PLV2_NOTIFY else PLV1_NOTIFY)
      in add_payload this \<lparr>ptype = pt, next_payload = PL_NONE, pbody = NotifyBody t data, protocol_id = 0\<rparr>)"

definition get_payload :: "private_message_t \<Rightarrow> payload_type_t \<Rightarrow> payload_t option" where
  "get_payload this t = List.find (\<lambda>p. ptype p = t) (payloads this)"

definition get_notify :: "private_message_t \<Rightarrow> notify_type_t \<Rightarrow> payload_t option" where
  "get_notify this t =
     List.find (\<lambda>p. (ptype p = PLV2_NOTIFY \<or> ptype p = PLV1_NOTIFY) \<and> get_notify_type p = t)
       (payloads this)"

section \<open>Ordering payloads\<close>

text \<open>The condition under which an ordering rule takes a payload out of the temporary list.\<close>

definition order_matches :: "payload_order_t \<Rightarrow> payload_t \<Rightarrow> bool" where
  "order_matches ord p \<longleftrightarrow>
     ptype p = order_type ord \<and>
     (order_type ord \<noteq> PLV2_NOTIFY \<or> order_notify ord = 0 \<or> order_notify ord = get_notify_type p)"

text \<open>
  The loop over the ordering rules: each rule moves every matching payload of the temporary list, in
  list order, to the message.
\<close>

fun order_loop :: "private_message_t \<Rightarrow> payload_t list \<Rightarrow> payload_order_t list \<Rightarrow>
    private_message_t \<times> payload_t list" where
  "order_loop this tmp [] = (this, tmp)"
| "order_loop this tmp (ord # ords) =
     order_loop (foldl add_payload this (filter (order_matches ord) tmp))
       (filter (\<lambda>p. \<not> order_matches ord p) tmp) ords"

text \<open>Payloads without a rule are taken from the end of the temporary list, one by one.\<close>

definition order_payloads :: "message_rule_t \<Rightarrow> private_message_t \<Rightarrow> private_message_t" where
  "order_payloads r this =
     (let (this, tmp) = order_loop (this\<lparr>payloads := []\<rparr>) (payloads this) (mr_order r)
      in foldl add_payload this (rev tmp))"

section \<open>Protected and unprotected payloads\<close>

record encrypted_payload_t =
  enc_type :: payload_type_t
  enc_next_payload :: payload_type_t
  enc_payloads :: "payload_t list"

definition encrypted_payload_create :: "payload_type_t \<Rightarrow> encrypted_payload_t" where
  "encrypted_payload_create t = \<lparr>enc_type = t, enc_next_payload = PL_NONE, enc_payloads = []\<rparr>"

definition enc_add_payload :: "encrypted_payload_t \<Rightarrow> payload_t \<Rightarrow> encrypted_payload_t" where
  "enc_add_payload this p =
     (if enc_payloads this \<noteq> []
      then this\<lparr>enc_payloads := butlast (enc_payloads this)
                  @ [set_next_type (last (enc_payloads this)) (ptype p), set_next_type p PL_NONE]\<rparr>
      else this\<lparr>enc_next_payload := ptype p, enc_payloads := [set_next_type p PL_NONE]\<rparr>)"

text \<open>What \<^verbatim>\<open>wrap_payloads\<close> returns: the SKF payload it found, or a new encrypted payload.\<close>

datatype wrapped = WrapFragment payload_t | WrapEncrypted encrypted_payload_t

text \<open>Is the payload put into the encrypted payload?\<close>

definition must_encrypt :: "message_rule_t \<Rightarrow> private_message_t \<Rightarrow> payload_t \<Rightarrow> bool" where
  "must_encrypt r this p \<longleftrightarrow>
     (case get_payload_rule r (ptype p) of None \<Rightarrow> True | Some pr \<Rightarrow> rule_encrypted pr)
     \<or> is_encrypted this"

fun wrap_loop :: "message_rule_t \<Rightarrow> private_message_t \<Rightarrow> encrypted_payload_t \<Rightarrow> payload_t list \<Rightarrow>
    private_message_t \<times> encrypted_payload_t" where
  "wrap_loop r this enc [] = (this, enc)"
| "wrap_loop r this enc (p # ps) =
     (if must_encrypt r this p then wrap_loop r this (enc_add_payload enc p) ps
      else wrap_loop r (add_payload this p) enc ps)"

definition wrap_payloads ::
    "message_rule_t \<Rightarrow> private_message_t \<Rightarrow> private_message_t \<times> wrapped" where
  "wrap_payloads r this =
     (let tmp = filter (\<lambda>p. ptype p \<noteq> PLV2_FRAGMENT) (payloads this);
          frags = filter (\<lambda>p. ptype p = PLV2_FRAGMENT) (payloads this)
      in if frags \<noteq> [] then (this\<lparr>payloads := tmp\<rparr>, WrapFragment (last frags))
         else
           let enc = encrypted_payload_create
                       (if is_encrypted this then PLV1_ENCRYPTED else PLV2_ENCRYPTED);
               (this, enc) = wrap_loop r (this\<lparr>payloads := []\<rparr>) enc tmp
           in (this, WrapEncrypted enc))"

section \<open>Checking incoming messages\<close>

text \<open>
  \<^verbatim>\<open>verify\<close>: per rule the payloads of its type are counted; too many is an error at once, too few
  only while no sufficient payload has been seen by an earlier rule (\<open>complete\<close>).
\<close>

fun count_found :: "payload_rule_t \<Rightarrow> nat \<Rightarrow> payload_t list \<Rightarrow> nat option" where
  "count_found pr found [] = Some found"
| "count_found pr found (p # ps) =
     (if ptype p = rule_type pr
      then if Suc found > max_occurrence pr then None else count_found pr (Suc found) ps
      else count_found pr found ps)"

fun verify_rules :: "payload_t list \<Rightarrow> bool \<Rightarrow> payload_rule_t list \<Rightarrow> status_t" where
  "verify_rules pls complete [] = SUCCESS"
| "verify_rules pls complete (pr # prs) =
     (case count_found pr 0 pls of
        None \<Rightarrow> VERIFY_ERROR
      | Some found \<Rightarrow>
          if \<not> complete \<and> found < min_occurrence pr then VERIFY_ERROR
          else verify_rules pls (complete \<or> (found \<noteq> 0 \<and> sufficient pr)) prs)"

definition verify :: "message_rule_t \<Rightarrow> private_message_t \<Rightarrow> status_t" where
  "verify r this = verify_rules (payloads this) False (mr_rules r)"

section \<open>Lemmas\<close>

text \<open>What identifies a payload independently of its link to the next one.\<close>

abbreviation core :: "payload_t \<Rightarrow> payload_type_t \<times> payload_body" where
  "core p \<equiv> (ptype p, pbody p)"

text \<open>The next-payload fields form the chain the receiver follows.\<close>

fun chained :: "payload_t list \<Rightarrow> bool" where
  "chained [] = True"
| "chained [p] = (next_payload p = PL_NONE)"
| "chained (p # q # ps) = (next_payload p = ptype q \<and> chained (q # ps))"

definition linked :: "private_message_t \<Rightarrow> bool" where
  "linked m \<longleftrightarrow> chained (payloads m) \<and>
     (payloads m \<noteq> [] \<longrightarrow> first_payload m = ptype (hd (payloads m)))"

lemma set_next_type_plain [simp]:
  "ptype p \<noteq> PLV2_FRAGMENT \<Longrightarrow> set_next_type p t = p\<lparr>next_payload := t\<rparr>"
  by (simp add: set_next_type_def)

lemma chained_snoc:
  "chained (ps @ [q]) \<Longrightarrow> next_payload p = PL_NONE \<Longrightarrow>
   chained (ps @ [q\<lparr>next_payload := ptype p\<rparr>, p])"
proof (induction ps rule: chained.induct)
  case (3 p' q' ps)
  then show ?case by (cases ps) auto
qed auto

lemma core_add_payload [simp]:
  "map core (payloads (add_payload m p)) = map core (payloads m) @ [core p]"
proof (cases "payloads m" rule: rev_cases)
  case (snoc ps q)
  then show ?thesis by (simp add: add_payload_def)
qed (simp add: add_payload_def)

lemma types_add_payload [simp]:
  "ptype ` set (payloads (add_payload m p)) = insert (ptype p) (ptype ` set (payloads m))"
  using arg_cong [OF core_add_payload, of "\<lambda>xs. fst ` set xs" m p]
  by (simp add: image_image del: core_add_payload)

lemma linked_add_payload:
  assumes "linked m" "PLV2_FRAGMENT \<notin> ptype ` set (payloads m)" "ptype p \<noteq> PLV2_FRAGMENT"
  shows "linked (add_payload m p)"
proof (cases "payloads m" rule: rev_cases)
  case Nil
  then show ?thesis using assms by (simp add: linked_def add_payload_def)
next
  case (snoc ps q)
  then have "chained (ps @ [q])" "ptype q \<noteq> PLV2_FRAGMENT"
    using assms by (auto simp: linked_def)
  then have "chained (ps @ [q\<lparr>next_payload := ptype p\<rparr>, p\<lparr>next_payload := PL_NONE\<rparr>])"
    using chained_snoc [of ps q "p\<lparr>next_payload := PL_NONE\<rparr>"] by simp
  then show ?thesis
    using assms snoc \<open>ptype q \<noteq> PLV2_FRAGMENT\<close>
    by (cases ps) (auto simp: linked_def add_payload_def)
qed

lemma foldl_add_payload:
  "map core (payloads (foldl add_payload m ps)) = map core (payloads m) @ map core ps"
  by (induction ps arbitrary: m) auto

lemma types_foldl_add_payload:
  "ptype ` set (payloads (foldl add_payload m ps)) = ptype ` set (payloads m) \<union> ptype ` set ps"
  by (induction ps arbitrary: m) auto

lemma linked_foldl_add_payload:
  "linked m \<Longrightarrow> PLV2_FRAGMENT \<notin> ptype ` set (payloads m) \<Longrightarrow> PLV2_FRAGMENT \<notin> ptype ` set ps \<Longrightarrow>
   linked (foldl add_payload m ps)"
proof (induction ps arbitrary: m)
  case (Cons p ps)
  then have "linked (add_payload m p)"
    by (intro linked_add_payload) auto
  with Cons show ?case by simp
qed simp

text \<open>The position of the first ordering rule that takes a payload.\<close>

definition order_rank :: "payload_order_t list \<Rightarrow> payload_t \<Rightarrow> nat" where
  "order_rank ords p = length (takeWhile (\<lambda>ord. \<not> order_matches ord p) ords)"

lemma order_rank_le: "order_rank ords p \<le> length ords"
  by (simp add: order_rank_def length_takeWhile_le)

lemma order_rank_Nil [simp]: "order_rank [] p = 0"
  by (simp add: order_rank_def)

lemma order_rank_Cons [simp]:
  "order_rank (ord # ords) p = (if order_matches ord p then 0 else Suc (order_rank ords p))"
  by (simp add: order_rank_def)

definition by_rank :: "payload_order_t list \<Rightarrow> payload_t list \<Rightarrow> payload_t list" where
  "by_rank ords ps = concat (map (\<lambda>i. filter (\<lambda>p. order_rank ords p = i) ps) [0..<length ords])"

definition unranked :: "payload_order_t list \<Rightarrow> payload_t list \<Rightarrow> payload_t list" where
  "unranked ords ps = filter (\<lambda>p. order_rank ords p = length ords) ps"

lemma by_rank_Cons:
  "by_rank (ord # ords) ps =
     filter (order_matches ord) ps @ by_rank ords (filter (\<lambda>p. \<not> order_matches ord p) ps)"
proof -
  have "map (\<lambda>i. filter (\<lambda>p. order_rank (ord # ords) p = i) ps) [Suc 0..<Suc (length ords)]
        = map (\<lambda>i. filter (\<lambda>p. order_rank ords p = i)
                    (filter (\<lambda>p. \<not> order_matches ord p) ps)) [0..<length ords]"
    unfolding map_Suc_upt [symmetric] map_map
    by (auto simp: conj_commute intro!: filter_cong split: if_splits)
  moreover have "filter (\<lambda>p. order_rank (ord # ords) p = 0) ps = filter (order_matches ord) ps"
    by (rule filter_cong) auto
  ultimately show ?thesis
    by (simp add: by_rank_def upt_rec [of 0] del: upt_Suc order_rank_Cons)
qed

lemma unranked_Cons:
  "unranked (ord # ords) ps = unranked ords (filter (\<lambda>p. \<not> order_matches ord p) ps)"
  by (auto simp: unranked_def conj_commute intro!: filter_cong)

lemma order_loop_spec:
  "map core (payloads (fst (order_loop m tmp ords)))
     = map core (payloads m) @ map core (by_rank ords tmp)"
  "snd (order_loop m tmp ords) = unranked ords tmp"
proof (induction m tmp ords rule: order_loop.induct)
  case (1 this tmp)
  { case 1 show ?case by (simp add: by_rank_def) }
  { case 2 show ?case by (simp add: unranked_def) }
next
  case (2 this tmp ord ords)
  { case 1 show ?case using "2.IH"(1) by (simp add: foldl_add_payload by_rank_Cons) }
  { case 2 show ?case using "2.IH"(2) by (simp add: unranked_Cons) }
qed

lemma order_loop_linked:
  "linked m \<Longrightarrow> PLV2_FRAGMENT \<notin> ptype ` set (payloads m) \<Longrightarrow> PLV2_FRAGMENT \<notin> ptype ` set tmp \<Longrightarrow>
   linked (fst (order_loop m tmp ords)) \<and>
   PLV2_FRAGMENT \<notin> ptype ` set (payloads (fst (order_loop m tmp ords))) \<and>
   PLV2_FRAGMENT \<notin> ptype ` set (snd (order_loop m tmp ords))"
proof (induction m tmp ords rule: order_loop.induct)
  case (2 this tmp ord ords)
  have "linked (foldl add_payload this (filter (order_matches ord) tmp))"
    using 2 by (intro linked_foldl_add_payload) auto
  with 2 show ?case by (auto simp: types_foldl_add_payload)
qed simp

abbreviation occurrences :: "payload_type_t \<Rightarrow> payload_t list \<Rightarrow> nat" where
  "occurrences t ps \<equiv> length (filter (\<lambda>p. ptype p = t) ps)"

lemma count_found_eq:
  "k \<le> max_occurrence pr \<Longrightarrow>
   count_found pr k ps =
     (if k + occurrences (rule_type pr) ps \<le> max_occurrence pr
      then Some (k + occurrences (rule_type pr) ps) else None)"
  by (induction pr k ps rule: count_found.induct) auto

text \<open>A rule is met by its own count or because an earlier sufficient payload completed the message.\<close>

definition rule_met :: "payload_t list \<Rightarrow> bool \<Rightarrow> payload_rule_t list \<Rightarrow> nat \<Rightarrow> bool" where
  "rule_met ps complete prs i \<longleftrightarrow>
     occurrences (rule_type (prs ! i)) ps \<le> max_occurrence (prs ! i) \<and>
     (min_occurrence (prs ! i) \<le> occurrences (rule_type (prs ! i)) ps \<or> complete \<or>
      (\<exists>j<i. sufficient (prs ! j) \<and> 0 < occurrences (rule_type (prs ! j)) ps))"

lemma rule_met_0:
  "rule_met ps complete (pr # prs) 0 \<longleftrightarrow>
     occurrences (rule_type pr) ps \<le> max_occurrence pr \<and>
     (min_occurrence pr \<le> occurrences (rule_type pr) ps \<or> complete)"
  by (simp add: rule_met_def)

lemma rule_met_Suc:
  "rule_met ps complete (pr # prs) (Suc i) \<longleftrightarrow>
     rule_met ps (complete \<or> (occurrences (rule_type pr) ps \<noteq> 0 \<and> sufficient pr)) prs i"
proof -
  have "(\<exists>j<Suc i. sufficient ((pr # prs) ! j) \<and>
            0 < occurrences (rule_type ((pr # prs) ! j)) ps) \<longleftrightarrow>
        (sufficient pr \<and> 0 < occurrences (rule_type pr) ps) \<or>
        (\<exists>j<i. sufficient (prs ! j) \<and> 0 < occurrences (rule_type (prs ! j)) ps)"
    by (subst Ex_less_Suc2) simp
  then show ?thesis
    by (auto simp: rule_met_def)
qed

lemma all_less_Suc2: "(\<forall>i<Suc n. P i) \<longleftrightarrow> P 0 \<and> (\<forall>i<n. P (Suc i))"
  by (auto simp: less_Suc_eq_0_disj)

lemma verify_rules_iff:
  "verify_rules ps complete prs = SUCCESS \<longleftrightarrow> (\<forall>i<length prs. rule_met ps complete prs i)"
proof (induction prs arbitrary: complete)
  case (Cons pr prs)
  show ?case
    by (simp add: count_found_eq Cons.IH all_less_Suc2 rule_met_0 rule_met_Suc not_less)
qed simp

lemma verify_rules_status: "verify_rules ps complete prs \<in> {SUCCESS, VERIFY_ERROR}"
  by (induction prs arbitrary: complete) (auto split: option.split)

lemma is_encrypted_add_payload [frame_simps]: "is_encrypted (add_payload m p) = is_encrypted m"
  by (simp add: add_payload_def)

lemma must_encrypt_add_payload [frame_simps]:
  "must_encrypt r (add_payload m q) = must_encrypt r m"
  by (simp add: must_encrypt_def frame_simps fun_eq_iff)

lemma core_enc_add_payload:
  "map core (enc_payloads (enc_add_payload e p)) = map core (enc_payloads e) @ [core p]"
proof (cases "enc_payloads e" rule: rev_cases)
  case (snoc ps q)
  then show ?thesis by (simp add: enc_add_payload_def)
qed (simp add: enc_add_payload_def)

lemma wrap_loop_core:
  "map core (payloads (fst (wrap_loop r m e ps)))
     = map core (payloads m) @ map core (filter (\<lambda>p. \<not> must_encrypt r m p) ps)"
  "map core (enc_payloads (snd (wrap_loop r m e ps)))
     = map core (enc_payloads e) @ map core (filter (must_encrypt r m) ps)"
  by (induction r m e ps rule: wrap_loop.induct) (auto simp: frame_simps core_enc_add_payload)

lemma must_encrypt_payloads [simp]: "must_encrypt r (m\<lparr>payloads := ps\<rparr>) = must_encrypt r m"
  by (simp add: must_encrypt_def fun_eq_iff)

section \<open>Properties\<close>

text \<open>
  C38. \<^verbatim>\<open>verify\<close> accepts a message exactly when every rule of its message rule is met: no payload type
  occurs more often than allowed, and it occurs as often as required unless a payload that is
  sufficient was found by an earlier rule; otherwise it returns \<^verbatim>\<open>VERIFY_ERROR\<close>.
\<close>

theorem verify_spec:
  "verify r m =
     (if \<forall>i<length (mr_rules r). rule_met (payloads m) False (mr_rules r) i
      then SUCCESS else VERIFY_ERROR)"
  using verify_rules_iff [of "payloads m" False "mr_rules r"]
    verify_rules_status [of "payloads m" False "mr_rules r"]
  by (auto simp: verify_def)

theorem verify_spec_witness:
  "verify (MR IKE_SA_INIT True False ike_sa_init_i_rules ike_sa_init_i_order) (message_create 2 0) = VERIFY_ERROR"
proof -
  have "\<not> rule_met (payloads (message_create 2 0)) False ike_sa_init_i_rules 1"
    "1 < length ike_sa_init_i_rules"
    by (simp_all add: rule_met_def ike_sa_init_i_rules_def message_create_def message_create_from_packet_def)
  then show ?thesis
    unfolding verify_spec by auto
qed

text \<open>
  C39. Before generation the payloads are sorted by the first ordering rule that takes them, in their
  original order within a rule; payloads no rule takes come last, in reversed order. Nothing is lost
  or duplicated, and the next-payload chain and the header's first payload type match the new order.
\<close>

theorem order_payloads_spec:
  "map core (payloads (order_payloads r m))
     = map core (by_rank (mr_order r) (payloads m) @ rev (unranked (mr_order r) (payloads m)))
   \<and> (PLV2_FRAGMENT \<notin> ptype ` set (payloads m) \<longrightarrow> linked (order_payloads r m))"
proof (intro conjI impI)
  let ?m0 = "m\<lparr>payloads := []\<rparr>"
  let ?res = "order_loop ?m0 (payloads m) (mr_order r)"
  have res: "order_payloads r m = foldl add_payload (fst ?res) (rev (snd ?res))"
    by (simp add: order_payloads_def split_def Let_def)
  show "map core (payloads (order_payloads r m))
     = map core (by_rank (mr_order r) (payloads m) @ rev (unranked (mr_order r) (payloads m)))"
    unfolding res foldl_add_payload order_loop_spec by simp
  assume "PLV2_FRAGMENT \<notin> ptype ` set (payloads m)"
  then have "linked (fst ?res) \<and> PLV2_FRAGMENT \<notin> ptype ` set (payloads (fst ?res)) \<and>
      PLV2_FRAGMENT \<notin> ptype ` set (snd ?res)"
    by (intro order_loop_linked) (auto simp: linked_def)
  then show "linked (order_payloads r m)"
    unfolding res by (intro linked_foldl_add_payload) auto
qed

definition sample_payload :: "payload_type_t \<Rightarrow> notify_type_t \<Rightarrow> payload_t" where
  "sample_payload t n = \<lparr>ptype = t, next_payload = PL_NONE,
     pbody = (if t = PLV2_NOTIFY then NotifyBody n [] else OtherBody []), protocol_id = 0\<rparr>"

theorem order_payloads_spec_witness:
  "linked (order_payloads (MR IKE_SA_INIT True False ike_sa_init_i_rules ike_sa_init_i_order)
     ((message_create 2 0)\<lparr>payloads := [sample_payload PLV2_NONCE 0,
        sample_payload PLV2_NOTIFY COOKIE, sample_payload PLV2_SECURITY_ASSOCIATION 0]\<rparr>))"
  using order_payloads_spec [of "MR IKE_SA_INIT True False ike_sa_init_i_rules ike_sa_init_i_order"
     "(message_create 2 0)\<lparr>payloads := [sample_payload PLV2_NONCE 0,
        sample_payload PLV2_NOTIFY COOKIE, sample_payload PLV2_SECURITY_ASSOCIATION 0]\<rparr>"]
  by (simp add: sample_payload_def)



text \<open>
  The rule table demands what IKEv2 needs: an IKE_SA_INIT request that passes \<^verbatim>\<open>verify\<close> has
  exactly one SA, one key exchange and one nonce payload, and no payload type of an IKE_SA_INIT
  message is required to be encrypted.
\<close>

lemma ike_sa_init_request_complete:
  assumes "exchange_type m = IKE_SA_INIT" "is_request m"
    and "get_message_rule m = Some r" "verify r m = SUCCESS"
  shows "occurrences PLV2_SECURITY_ASSOCIATION (payloads m) = 1 \<and>
    occurrences PLV2_KEY_EXCHANGE (payloads m) = 1 \<and> occurrences PLV2_NONCE (payloads m) = 1 \<and>
    occurrences PLV2_VENDOR_ID (payloads m) \<le> 20 \<and> \<not> mr_encrypted r"
proof -
  have r: "r = MR IKE_SA_INIT True False ike_sa_init_i_rules ike_sa_init_i_order"
    using assms(1-3) by (simp add: get_message_rule_def message_rules_def)
  have "\<forall>i<length (mr_rules r). rule_met (payloads m) False (mr_rules r) i"
    using assms(4) by (simp add: verify_def verify_rules_iff)
  then have "\<forall>i<5. rule_met (payloads m) False ike_sa_init_i_rules i"
    by (simp add: r ike_sa_init_i_rules_def)
  then have "\<forall>i\<in>{1,2,3,4}. rule_met (payloads m) False ike_sa_init_i_rules i"
    by simp
  then show ?thesis
    by (auto simp: r rule_met_def ike_sa_init_i_rules_def nth_Cons' less_Suc_eq
        numeral_eq_Suc)
qed

lemma ike_sa_init_request_complete_witness:
  "occurrences PLV2_NONCE (payloads ((message_create 2 0)\<lparr>exchange_type := IKE_SA_INIT,
     payloads := [sample_payload PLV2_SECURITY_ASSOCIATION 0, sample_payload PLV2_KEY_EXCHANGE 0,
       sample_payload PLV2_NONCE 0]\<rparr>)) = 1"
  using ike_sa_init_request_complete [of "(message_create 2 0)\<lparr>exchange_type := IKE_SA_INIT,
     payloads := [sample_payload PLV2_SECURITY_ASSOCIATION 0, sample_payload PLV2_KEY_EXCHANGE 0,
       sample_payload PLV2_NONCE 0]\<rparr>"
     "MR IKE_SA_INIT True False ike_sa_init_i_rules ike_sa_init_i_order"]
  by (simp add: message_create_def message_create_from_packet_def get_message_rule_def
      message_rules_def verify_def sample_payload_def ike_sa_init_i_rules_def)

end
