(* ===== verification/Dynamic_Array.thy ===== *)
theory Dynamic_Array
  imports Prelude "HOL-Library.Monad_Syntax"
begin

text \<open>
  The dynamic array of \<^verbatim>\<open>src/src/libstrongswan/collections/array.c\<close>: a buffer with unused room in
  front of and behind the elements, so that insertion and removal move as little as possible. The
  model works on slots of one element (\<^verbatim>\<open>get_size\<close> scales to bytes); a slot of \<open>None\<close> is
  uninitialised memory, and moving or accessing memory outside of the buffer makes an operation
  return \<open>None\<close>. Every operation refines an operation on the list of elements, with which the
  other components work.
\<close>

section \<open>Memory\<close>

definition realloc :: "'a option list \<Rightarrow> nat \<Rightarrow> 'a option list" where
  "realloc b n = take n b @ replicate (n - length b) None"

definition memmove :: "'a option list \<Rightarrow> nat \<Rightarrow> nat \<Rightarrow> nat \<Rightarrow> 'a option list option" where
  "memmove b dst src n =
     (if dst + n \<le> length b \<and> src + n \<le> length b
      then Some (take dst b @ take n (drop src b) @ drop (dst + n) b) else None)"

section \<open>The array\<close>

record 'a array_t =
  arr_count :: u32
  arr_head :: u8
  arr_tail :: u8
  arr_data :: "'a option list"

abbreviation (input) ARRAY_MAX_UNUSED :: nat where "ARRAY_MAX_UNUSED \<equiv> 32"

definition array_create :: "u8 \<Rightarrow> 'a array_t" where
  "array_create reserve = \<lparr>arr_count = 0, arr_head = 0, arr_tail = reserve, arr_data = replicate (unat reserve) None\<rparr>"

text \<open>\<^verbatim>\<open>array_count\<close> returns an \<^verbatim>\<open>int\<close>.\<close>

definition array_count :: "'a array_t \<Rightarrow> int" where
  "array_count a = sint (arr_count a)"

definition make_tail_room :: "'a array_t \<Rightarrow> u8 \<Rightarrow> 'a array_t" where
  "make_tail_room a room =
     (if arr_tail a < room
      then a\<lparr>arr_data := realloc (arr_data a) (unat (arr_count a) + unat (arr_head a) + unat room), arr_tail := room\<rparr>
      else a)"

definition make_head_room :: "'a array_t \<Rightarrow> u8 \<Rightarrow> 'a array_t option" where
  "make_head_room a room =
     (if arr_head a < room
      then let increase = room - arr_head a;
               b = realloc (arr_data a) (unat (arr_count a) + unat (arr_tail a) + unat room)
           in do {
             b \<leftarrow> memmove b (unat increase) 0 (unat (arr_count a) + unat (arr_tail a) + unat (arr_head a));
             Some (a\<lparr>arr_data := b, arr_head := room\<rparr>)
           }
      else Some a)"

definition insert_tail :: "'a array_t \<Rightarrow> nat \<Rightarrow> 'a array_t option" where
  "insert_tail a idx =
     (let a = make_tail_room a 1
      in do {
        b \<leftarrow> memmove (arr_data a) (unat (arr_head a) + idx + 1) (unat (arr_head a) + idx) (unat (arr_count a) - idx);
        Some (a\<lparr>arr_data := b, arr_tail := arr_tail a - 1, arr_count := arr_count a + 1\<rparr>)
      })"

definition insert_head :: "'a array_t \<Rightarrow> nat \<Rightarrow> 'a array_t option" where
  "insert_head a idx =
     do {
       a \<leftarrow> make_head_room a 1;
       b \<leftarrow> memmove (arr_data a) (unat (arr_head a) - 1) (unat (arr_head a)) idx;
       Some (a\<lparr>arr_data := b, arr_head := arr_head a - 1, arr_count := arr_count a + 1\<rparr>)
     }"

definition remove_tail :: "'a array_t \<Rightarrow> nat \<Rightarrow> 'a array_t option" where
  "remove_tail a idx =
     do {
       b \<leftarrow> memmove (arr_data a) (idx + unat (arr_head a)) (idx + unat (arr_head a) + 1) (unat (arr_count a) - 1 - idx);
       Some (a\<lparr>arr_data := b, arr_count := arr_count a - 1, arr_tail := arr_tail a + 1\<rparr>)
     }"

definition remove_head :: "'a array_t \<Rightarrow> nat \<Rightarrow> 'a array_t option" where
  "remove_head a idx =
     do {
       b \<leftarrow> memmove (arr_data a) (unat (arr_head a) + 1) (unat (arr_head a)) idx;
       Some (a\<lparr>arr_data := b, arr_count := arr_count a - 1, arr_head := arr_head a + 1\<rparr>)
     }"

definition array_compress :: "'a array_t \<Rightarrow> 'a array_t option" where
  "array_compress a =
     do {
       a' \<leftarrow> (if arr_head a \<noteq> 0
              then do {
                b \<leftarrow> memmove (arr_data a) 0 (unat (arr_head a)) (unat (arr_count a) + unat (arr_tail a));
                Some (a\<lparr>arr_data := b, arr_head := 0\<rparr>)
              }
              else Some a);
       Some (if unat (arr_tail a) + unat (arr_head a) \<noteq> 0
             then a'\<lparr>arr_data := realloc (arr_data a') (unat (arr_count a)), arr_tail := 0\<rparr> else a')
     }"

text \<open>The position is stored through the pointer that \<^verbatim>\<open>array_insert\<close> computes.\<close>

definition array_insert :: "'a array_t \<Rightarrow> int \<Rightarrow> 'a \<Rightarrow> 'a array_t option" where
  "array_insert a idx x =
     (if idx < 0 \<or> idx \<le> array_count a
      then let i = (if idx < 0 then array_count a else idx)
           in do {
             a \<leftarrow> (if arr_head a \<noteq> 0 \<and> arr_tail a = 0 then insert_head a (nat i)
                   else if arr_tail a \<noteq> 0 \<and> arr_head a = 0 then insert_tail a (nat i)
                   else if i > array_count a div 2 then insert_tail a (nat i)
                   else insert_head a (nat i));
             (if unat (arr_head a) + nat i < length (arr_data a)
              then Some (a\<lparr>arr_data := (arr_data a)[unat (arr_head a) + nat i := Some x]\<rparr>) else None)
           }
      else Some a)"

text \<open>
  \<^verbatim>\<open>array_get\<close>: \<open>None\<close> is an access outside of the initialised elements, \<open>Some None\<close> the return
  value FALSE.
\<close>

definition array_get :: "'a array_t \<Rightarrow> int \<Rightarrow> 'a option option" where
  "array_get a idx =
     (if idx \<ge> 0 \<and> idx \<ge> array_count a then Some None
      else if idx < 0 \<and> array_count a = 0 then Some None
      else let i = unat (arr_head a) + nat (if idx < 0 then array_count a - 1 else idx)
           in if i < length (arr_data a) then map_option Some (arr_data a ! i) else None)"

definition array_remove :: "'a array_t \<Rightarrow> int \<Rightarrow> ('a option \<times> 'a array_t) option" where
  "array_remove a idx =
     do {
       r \<leftarrow> array_get a idx;
       (case r of
          None \<Rightarrow> Some (None, a)
        | Some x \<Rightarrow>
            let i = (if idx < 0 then array_count a - 1 else idx)
            in do {
              a \<leftarrow> (if i > array_count a div 2 then remove_tail a (nat i) else remove_head a (nat i));
              a \<leftarrow> (if unat (arr_head a) + unat (arr_tail a) > ARRAY_MAX_UNUSED then array_compress a else Some a);
              Some (Some x, a)
            })
     }"

section \<open>The list of elements\<close>

definition seq_insert :: "'a list \<Rightarrow> int \<Rightarrow> 'a \<Rightarrow> 'a list" where
  "seq_insert xs idx x =
     (let i = (if idx < 0 then length xs else nat idx)
      in if i \<le> length xs then take i xs @ x # drop i xs else xs)"

definition seq_get :: "'a list \<Rightarrow> int \<Rightarrow> 'a option" where
  "seq_get xs idx =
     (let i = (if idx < 0 then length xs - 1 else nat idx)
      in if i < length xs then Some (xs ! i) else None)"

definition seq_remove :: "'a list \<Rightarrow> int \<Rightarrow> 'a option \<times> 'a list" where
  "seq_remove xs idx =
     (let i = (if idx < 0 then length xs - 1 else nat idx)
      in if i < length xs then (Some (xs ! i), take i xs @ drop (Suc i) xs) else (None, xs))"

section \<open>Moving one slot\<close>

lemma memmove_up:
  "memmove (P @ B @ y # R) (length P + 1) (length P) (length B) = Some (P @ hd (B @ [y]) # B @ R)"
  by (cases B) (simp_all add: memmove_def)

lemma memmove_down:
  "memmove (P @ y # B @ R) (length P) (length P + 1) (length B) = Some (P @ B @ last (y # B) # R)"
proof (cases B rule: rev_cases)
  case (snoc C z)
  then have "drop (length P + length B) (P @ y # B @ R) = z # R" by simp
  then show ?thesis by (simp add: memmove_def snoc)
qed (simp add: memmove_def)

section \<open>Representation\<close>

text \<open>
  An array represents a list: the buffer consists of the head room, the initialised elements and the
  tail room, the counters fit their types and cannot overflow with the next removal.
\<close>

definition array_layout :: "'a array_t \<Rightarrow> 'a list \<Rightarrow> bool" where
  "array_layout a xs \<longleftrightarrow>
     (\<exists>h t. arr_data a = h @ map Some xs @ t \<and> length h = unat (arr_head a) \<and> length t = unat (arr_tail a)) \<and>
     length xs = unat (arr_count a) \<and> length xs < 2 ^ 31"

definition array_rep :: "'a array_t \<Rightarrow> 'a list \<Rightarrow> bool" where
  "array_rep a xs \<longleftrightarrow> array_layout a xs \<and>
     unat (arr_head a) + unat (arr_tail a) + (if xs = [] then 0 else 1) < 256"

lemma layoutI:
  assumes "arr_data a = h @ map Some xs @ t" "length h = unat (arr_head a)" "length t = unat (arr_tail a)"
    "length xs = unat (arr_count a)" "length xs < 2 ^ 31"
  shows "array_layout a xs"
  using assms unfolding array_layout_def by blast

lemma array_repI:
  assumes "arr_data a = h @ map Some xs @ t" "length h = unat (arr_head a)" "length t = unat (arr_tail a)"
    "length xs = unat (arr_count a)" "length xs < 2 ^ 31"
    "unat (arr_head a) + unat (arr_tail a) + (if xs = [] then 0 else 1) < 256"
  shows "array_rep a xs"
  using assms unfolding array_rep_def array_layout_def by blast

lemma array_repE:
  assumes "array_rep a xs"
  obtains h t where "arr_data a = h @ map Some xs @ t" "length h = unat (arr_head a)" "length t = unat (arr_tail a)"
    "length xs = unat (arr_count a)" "length xs < 2 ^ 31"
    "unat (arr_head a) + unat (arr_tail a) + (if xs = [] then 0 else 1) < 256"
  using assms unfolding array_rep_def array_layout_def by blast

lemma sint_u32: "unat (w :: u32) < 2 ^ 31 \<Longrightarrow> sint w = int (unat w)"
proof -
  assume "unat w < 2 ^ 31"
  then have "uint w < 2 ^ 31" by (metis of_nat_less_numeral_power_cancel_iff uint_nat)
  then show ?thesis
    unfolding sint_uint uint_nat [symmetric]
    by (intro signed_take_bit_int_eq_self) (simp_all add: order_trans [OF _ uint_ge_0])
qed

lemma array_rep_count: "array_rep a xs \<Longrightarrow> array_count a = int (length xs)"
  by (simp add: array_rep_def array_layout_def array_count_def sint_u32)

lemma unat_dec_u8: "(w :: u8) \<noteq> 0 \<Longrightarrow> unat (w - 1) = unat w - 1"
  by (simp add: unat_sub word_le_nat_alt unat_gt_0 Suc_le_eq)

lemma unat_dec_u32: "(w :: u32) \<noteq> 0 \<Longrightarrow> unat (w - 1) = unat w - 1"
  by (simp add: unat_sub word_le_nat_alt unat_gt_0 Suc_le_eq)

lemma unat_inc_u8: "unat (w :: u8) < 255 \<Longrightarrow> unat (w + 1) = Suc (unat w)"
  by (rule unat_increment [of w 255]) (simp add: word_less_nat_alt)

lemma unat_inc_u32: "unat (w :: u32) < 2 ^ 31 \<Longrightarrow> unat (w + 1) = Suc (unat w)"
  by (rule unat_increment [of w "2 ^ 31"]) (simp add: word_less_nat_alt)

section \<open>Making room\<close>

lemma realloc_grow: "length b \<le> n \<Longrightarrow> realloc b n = b @ replicate (n - length b) None"
  by (simp add: realloc_def)

lemma make_tail_room_1:
  assumes "array_rep a xs"
  obtains a' h y t where "make_tail_room a 1 = a'" "arr_data a' = h @ map Some xs @ y # t"
    "length h = unat (arr_head a)" "length t = unat (arr_tail a' - 1)" "arr_head a' = arr_head a" "arr_count a' = arr_count a"
    "unat (arr_tail a' - 1) = unat (arr_tail a) - 1"
proof -
  obtain h t where a: "arr_data a = h @ map Some xs @ t" "length h = unat (arr_head a)" "length t = unat (arr_tail a)"
    "length xs = unat (arr_count a)"
    using assms(1) by (rule array_repE)
  show ?thesis
  proof (cases "arr_tail a = 0")
    case True
    then have "make_tail_room a 1 = a\<lparr>arr_data := h @ map Some xs @ [None], arr_tail := 1\<rparr>"
      using a by (simp add: make_tail_room_def realloc_grow)
    then show ?thesis using that [of _ h None "[]"] a(2) True by simp
  next
    case False
    then obtain y t' where t: "t = y # t'" using a(3) by (cases t) (auto simp: unat_eq_zero)
    have "make_tail_room a 1 = a" using False by (simp add: make_tail_room_def word_less_nat_alt unat_eq_zero)
    then show ?thesis using that [of a h y t'] a False by (simp add: t unat_dec_u8)
  qed
qed

lemma make_head_room_1:
  assumes "array_rep a xs"
  obtains a' h y t where "make_head_room a 1 = Some a'" "arr_data a' = h @ y # map Some xs @ t"
    "length h = unat (arr_head a' - 1)" "unat (arr_head a') = Suc (length h)" "length t = unat (arr_tail a)"
    "arr_tail a' = arr_tail a" "arr_count a' = arr_count a" "unat (arr_head a' - 1) = unat (arr_head a) - 1"
proof -
  obtain h t where a: "arr_data a = h @ map Some xs @ t" "length h = unat (arr_head a)" "length t = unat (arr_tail a)"
    "length xs = unat (arr_count a)"
    using assms(1) by (rule array_repE)
  show ?thesis
  proof (cases "arr_head a = 0")
    case True
    then have d: "arr_data a = map Some xs @ t" using a by simp
    let ?n = "unat (arr_count a) + unat (arr_tail a)"
    have len: "length (arr_data a) = ?n" using d a by simp
    then have r: "realloc (arr_data a) (Suc ?n) = arr_data a @ [None]" by (simp add: realloc_grow)
    have "memmove (arr_data a @ [None]) 1 0 ?n = Some (hd (arr_data a @ [None]) # arr_data a)"
      using memmove_up [of "[]" "arr_data a" None "[]"] len by simp
    then have "make_head_room a 1 = Some (a\<lparr>arr_data := hd (arr_data a @ [None]) # arr_data a, arr_head := 1\<rparr>)"
      using True r by (simp add: make_head_room_def Let_def)
    then show ?thesis using that [of _ "[]" _ t] a(3) True d by simp
  next
    case False
    then obtain h' y where h: "h = h' @ [y]" using a(2) by (cases h rule: rev_cases) (auto simp: unat_eq_zero)
    have "make_head_room a 1 = Some a" using False by (simp add: make_head_room_def word_less_nat_alt unat_eq_zero)
    then show ?thesis using that [of a h' y t] a False by (simp add: h unat_dec_u8)
  qed
qed

section \<open>Insertion\<close>

lemma rep_insert_tail:
  assumes "array_rep a xs" "i \<le> length xs" "length xs < 2 ^ 31 - 1"
    and "arr_tail a \<noteq> 0 \<or> arr_head a = 0"
  obtains a' where "insert_tail a i = Some a'" "unat (arr_head a') + i < length (arr_data a')"
    "array_rep (a'\<lparr>arr_data := (arr_data a')[unat (arr_head a') + i := Some x]\<rparr>) (take i xs @ x # drop i xs)"
proof -
  obtain a1 h y t where m: "make_tail_room a 1 = a1" "arr_data a1 = h @ map Some xs @ y # t"
    "length h = unat (arr_head a)" "length t = unat (arr_tail a1 - 1)" "arr_head a1 = arr_head a" "arr_count a1 = arr_count a"
    "unat (arr_tail a1 - 1) = unat (arr_tail a) - 1"
    using make_tail_room_1 [OF assms(1)] by metis
  let ?A = "map Some (take i xs)" and ?B = "map Some (drop i xs)"
  have cnt: "length xs = unat (arr_count a)"
    and sum: "unat (arr_head a) + unat (arr_tail a) < 256"
    using assms(1) by (auto elim: array_repE)
  have lA: "length ?A = i" and lB: "length ?B = unat (arr_count a1) - i" using assms(2) cnt m(6) by simp_all
  have d: "arr_data a1 = (h @ ?A) @ ?B @ y # t"
    unfolding m(2) by (metis append.assoc append_take_drop_id map_append)
  have mm: "memmove (arr_data a1) (unat (arr_head a1) + i + 1) (unat (arr_head a1) + i) (unat (arr_count a1) - i) =
      Some ((h @ ?A) @ hd (?B @ [y]) # ?B @ t)"
    using memmove_up [of "h @ ?A" ?B y t] by (simp only: d length_append lA lB m(3,5))
  let ?a = "a1\<lparr>arr_data := (h @ ?A) @ hd (?B @ [y]) # ?B @ t, arr_tail := arr_tail a1 - 1, arr_count := arr_count a1 + 1\<rparr>"
  have ins: "insert_tail a i = Some ?a" unfolding insert_tail_def m(1) Let_def mm by simp
  have pos: "length (h @ ?A) = unat (arr_head a1) + i" using assms(2) m(3,5) by simp
  have "arr_data (?a\<lparr>arr_data := (arr_data ?a)[unat (arr_head ?a) + i := Some x]\<rparr>) =
      h @ map Some (take i xs @ x # drop i xs) @ t"
    using pos list_update_length [of "h @ ?A" "hd (?B @ [y])" "?B @ t" "Some x"] by simp
  then have "array_rep (?a\<lparr>arr_data := (arr_data ?a)[unat (arr_head ?a) + i := Some x]\<rparr>) (take i xs @ x # drop i xs)"
    using m assms cnt sum by (intro array_repI [of _ h _ t]) (auto simp: unat_inc_u32 unat_eq_zero [symmetric])
  then show ?thesis using that [OF ins] pos by simp
qed

lemma rep_insert_head:
  assumes "array_rep a xs" "i \<le> length xs" "length xs < 2 ^ 31 - 1"
    and "arr_head a \<noteq> 0 \<or> arr_tail a = 0"
  obtains a' where "insert_head a i = Some a'" "unat (arr_head a') + i < length (arr_data a')"
    "array_rep (a'\<lparr>arr_data := (arr_data a')[unat (arr_head a') + i := Some x]\<rparr>) (take i xs @ x # drop i xs)"
proof -
  obtain a1 h y t where m: "make_head_room a 1 = Some a1" "arr_data a1 = h @ y # map Some xs @ t"
    "length h = unat (arr_head a1 - 1)" "unat (arr_head a1) = Suc (length h)" "length t = unat (arr_tail a)"
    "arr_tail a1 = arr_tail a" "arr_count a1 = arr_count a" "unat (arr_head a1 - 1) = unat (arr_head a) - 1"
    using make_head_room_1 [OF assms(1)] by metis
  let ?A = "map Some (take i xs)" and ?B = "map Some (drop i xs)"
  have cnt: "length xs = unat (arr_count a)"
    and sum: "unat (arr_head a) + unat (arr_tail a) < 256"
    using assms(1) by (auto elim: array_repE)
  have lA: "length ?A = i" using assms(2) by simp
  have d: "arr_data a1 = h @ y # ?A @ ?B @ t"
    unfolding m(2) by (metis append.assoc append_take_drop_id map_append)
  have mm: "memmove (arr_data a1) (unat (arr_head a1) - 1) (unat (arr_head a1)) i =
      Some (h @ ?A @ last (y # ?A) # ?B @ t)"
    using memmove_down [of h y ?A "?B @ t"] by (simp only: d lA m(4) Suc_eq_plus1 add_diff_cancel_right')
  let ?a = "a1\<lparr>arr_data := h @ ?A @ last (y # ?A) # ?B @ t, arr_head := arr_head a1 - 1, arr_count := arr_count a1 + 1\<rparr>"
  have ins: "insert_head a i = Some ?a" unfolding insert_head_def m(1) Option.bind.simps mm ..
  have pos: "length (h @ ?A) = unat (arr_head a1 - 1) + i" using assms(2) m(3) by simp
  have "arr_data (?a\<lparr>arr_data := (arr_data ?a)[unat (arr_head ?a) + i := Some x]\<rparr>) =
      h @ map Some (take i xs @ x # drop i xs) @ t"
    using pos list_update_length [of "h @ ?A" "last (y # ?A)" "?B @ t" "Some x"] by simp
  then have "array_rep (?a\<lparr>arr_data := (arr_data ?a)[unat (arr_head ?a) + i := Some x]\<rparr>) (take i xs @ x # drop i xs)"
    using m assms cnt sum by (intro array_repI [of _ h _ t]) (auto simp: unat_inc_u32 unat_eq_zero [symmetric])
  then show ?thesis using that [OF ins] pos by simp
qed

lemma array_insert_refines:
  assumes "array_rep a xs" "length xs < 2 ^ 31 - 1"
  shows "\<exists>a'. array_insert a idx x = Some a' \<and> array_rep a' (seq_insert xs idx x)"
proof (cases "idx < 0 \<or> idx \<le> int (length xs)")
  case True
  define i where "i = (if idx < 0 then length xs else nat idx)"
  have i: "i \<le> length xs" using True by (auto simp: i_def)
  have nat_i: "(if idx < 0 then array_count a else idx) = int i"
    using True by (auto simp: i_def array_rep_count [OF assms(1)])
  obtain a' where "(if arr_head a \<noteq> 0 \<and> arr_tail a = 0 then insert_head a i
       else if arr_tail a \<noteq> 0 \<and> arr_head a = 0 then insert_tail a i
       else if int i > array_count a div 2 then insert_tail a i else insert_head a i) = Some a'"
    "unat (arr_head a') + i < length (arr_data a')"
    "array_rep (a'\<lparr>arr_data := (arr_data a')[unat (arr_head a') + i := Some x]\<rparr>) (take i xs @ x # drop i xs)"
  proof (cases "arr_tail a \<noteq> 0 \<and> (arr_head a = 0 \<or> int i > array_count a div 2) \<or>
      arr_tail a = 0 \<and> arr_head a = 0 \<and> int i > array_count a div 2")
    case True
    then have cond: "arr_tail a \<noteq> 0 \<or> arr_head a = 0" by auto
    obtain a' where "insert_tail a i = Some a'" "unat (arr_head a') + i < length (arr_data a')"
      "array_rep (a'\<lparr>arr_data := (arr_data a')[unat (arr_head a') + i := Some x]\<rparr>) (take i xs @ x # drop i xs)"
      by (rule rep_insert_tail [OF assms(1) i assms(2) cond, where x = x])
    moreover have "(if arr_head a \<noteq> 0 \<and> arr_tail a = 0 then insert_head a i
       else if arr_tail a \<noteq> 0 \<and> arr_head a = 0 then insert_tail a i
       else if int i > array_count a div 2 then insert_tail a i else insert_head a i) = insert_tail a i"
      using True by auto
    ultimately show ?thesis using that by metis
  next
    case False
    then have cond: "arr_head a \<noteq> 0 \<or> arr_tail a = 0" by auto
    obtain a' where "insert_head a i = Some a'" "unat (arr_head a') + i < length (arr_data a')"
      "array_rep (a'\<lparr>arr_data := (arr_data a')[unat (arr_head a') + i := Some x]\<rparr>) (take i xs @ x # drop i xs)"
      by (rule rep_insert_head [OF assms(1) i assms(2) cond, where x = x])
    moreover have "(if arr_head a \<noteq> 0 \<and> arr_tail a = 0 then insert_head a i
       else if arr_tail a \<noteq> 0 \<and> arr_head a = 0 then insert_tail a i
       else if int i > array_count a div 2 then insert_tail a i else insert_head a i) = insert_head a i"
      using False by auto
    ultimately show ?thesis using that by metis
  qed
  moreover have "seq_insert xs idx x = take i xs @ x # drop i xs"
    using i by (simp add: seq_insert_def i_def Let_def)
  moreover have guard: "idx < 0 \<or> idx \<le> array_count a"
    using True by (simp add: array_rep_count [OF assms(1)])
  ultimately show ?thesis
    unfolding array_insert_def if_P [OF guard] Let_def nat_i nat_int by simp
next
  case False
  then have "seq_insert xs idx x = xs" by (simp add: seq_insert_def Let_def nat_le_iff)
  then show ?thesis using False assms(1) by (simp add: array_insert_def array_rep_count [OF assms(1)])
qed

section \<open>Access and removal\<close>

lemma array_get_refines:
  assumes "array_rep a xs"
  shows "array_get a idx = Some (seq_get xs idx)"
proof -
  define i where "i = (if idx < 0 then length xs - 1 else nat idx)"
  obtain h t where a: "arr_data a = h @ map Some xs @ t" "length h = unat (arr_head a)"
    using assms by (rule array_repE)
  show ?thesis
  proof (cases "i < length xs")
    case True
    then have idx: "nat (if idx < 0 then array_count a - 1 else idx) = i"
      by (auto simp: i_def array_rep_count [OF assms])
    have "\<not> (idx \<ge> 0 \<and> idx \<ge> array_count a)" "\<not> (idx < 0 \<and> array_count a = 0)"
      using True by (auto simp: i_def array_rep_count [OF assms] split: if_splits)
    moreover have "arr_data a ! (unat (arr_head a) + i) = Some (xs ! i)"
      "unat (arr_head a) + i < length (arr_data a)"
      using True by (simp_all add: a(1) nth_append flip: a(2))
    ultimately show ?thesis
      using True unfolding array_get_def idx Let_def by (simp add: seq_get_def i_def)
  next
    case False
    then have "(idx \<ge> 0 \<and> idx \<ge> array_count a) \<or> (idx < 0 \<and> array_count a = 0)"
      by (cases "xs = []") (auto simp: i_def array_rep_count [OF assms] split: if_splits)
    then show ?thesis using False by (auto simp: array_get_def seq_get_def i_def)
  qed
qed

lemma layout_remove_tail:
  assumes "array_rep a xs" "i < length xs"
  obtains a' where "remove_tail a i = Some a'" "array_layout a' (take i xs @ drop (Suc i) xs)"
proof -
  obtain h t where a: "arr_data a = h @ map Some xs @ t" "length h = unat (arr_head a)"
    "length t = unat (arr_tail a)" "length xs = unat (arr_count a)" "length xs < 2 ^ 31"
    "unat (arr_head a) + unat (arr_tail a) + (if xs = [] then 0 else 1) < 256"
    using assms(1) by (rule array_repE)
  let ?A = "map Some (take i xs)" and ?B = "map Some (drop (Suc i) xs)" and ?e = "Some (xs ! i)"
  have "map Some xs = ?A @ ?e # ?B"
    by (metis assms(2) id_take_nth_drop list.simps(9) map_append)
  then have d: "arr_data a = (h @ ?A) @ ?e # ?B @ t" using a(1) by simp
  have lA: "length ?A = i" and lB: "length ?B = unat (arr_count a) - 1 - i" using assms(2) a(4) by simp_all
  have "memmove (arr_data a) (i + unat (arr_head a)) (i + unat (arr_head a) + 1) (unat (arr_count a) - 1 - i) =
      Some ((h @ ?A) @ ?B @ last (?e # ?B) # t)"
    using memmove_down [of "h @ ?A" ?e ?B t]
    by (simp only: d length_append lA lB a(2) add.commute [of i])
  then have "remove_tail a i = Some (a\<lparr>arr_data := (h @ ?A) @ ?B @ last (?e # ?B) # t,
      arr_count := arr_count a - 1, arr_tail := arr_tail a + 1\<rparr>)" (is "_ = Some ?a")
    by (simp only: remove_tail_def Option.bind.simps)
  moreover have "arr_count a \<noteq> 0" "unat (arr_head a) + unat (arr_tail a) < 255"
    using assms(2) a(4,6) by (auto split: if_splits)
  then have "array_layout ?a (take i xs @ drop (Suc i) xs)"
    using a assms(2)
    by (intro layoutI [of _ h _ "last (?e # ?B) # t"]) (auto simp: unat_dec_u32 unat_inc_u8)
  ultimately show ?thesis using that by blast
qed

lemma layout_remove_head:
  assumes "array_rep a xs" "i < length xs"
  obtains a' where "remove_head a i = Some a'" "array_layout a' (take i xs @ drop (Suc i) xs)"
proof -
  obtain h t where a: "arr_data a = h @ map Some xs @ t" "length h = unat (arr_head a)"
    "length t = unat (arr_tail a)" "length xs = unat (arr_count a)" "length xs < 2 ^ 31"
    "unat (arr_head a) + unat (arr_tail a) + (if xs = [] then 0 else 1) < 256"
    using assms(1) by (rule array_repE)
  let ?A = "map Some (take i xs)" and ?B = "map Some (drop (Suc i) xs)" and ?e = "Some (xs ! i)"
  have "map Some xs = ?A @ ?e # ?B"
    by (metis assms(2) id_take_nth_drop list.simps(9) map_append)
  then have d: "arr_data a = h @ ?A @ ?e # ?B @ t" using a(1) by simp
  have lA: "length ?A = i" using assms(2) by simp
  have "memmove (arr_data a) (unat (arr_head a) + 1) (unat (arr_head a)) i =
      Some (h @ hd (?A @ [?e]) # ?A @ ?B @ t)"
    using memmove_up [of h ?A ?e "?B @ t"] by (simp only: d lA a(2))
  then have "remove_head a i = Some (a\<lparr>arr_data := h @ hd (?A @ [?e]) # ?A @ ?B @ t,
      arr_count := arr_count a - 1, arr_head := arr_head a + 1\<rparr>)" (is "_ = Some ?a")
    by (simp only: remove_head_def Option.bind.simps)
  moreover have "arr_count a \<noteq> 0" "unat (arr_head a) + unat (arr_tail a) < 255"
    using assms(2) a(4,6) by (auto split: if_splits)
  then have "array_layout ?a (take i xs @ drop (Suc i) xs)"
    using a assms(2)
    by (intro layoutI [of _ "h @ [hd (?A @ [?e])]" _ t]) (auto simp: unat_dec_u32 unat_inc_u8)
  ultimately show ?thesis using that by blast
qed

lemma compress_layout:
  assumes "array_layout a xs"
  obtains a' where "array_compress a = Some a'" "array_rep a' xs"
proof -
  obtain h t where a: "arr_data a = h @ map Some xs @ t" "length h = unat (arr_head a)"
    "length t = unat (arr_tail a)" "length xs = unat (arr_count a)" "length xs < 2 ^ 31"
    using assms unfolding array_layout_def by blast
  let ?r = "\<lambda>b. realloc b (unat (arr_count a))"
  let ?c = "a\<lparr>arr_data := map Some xs, arr_head := 0, arr_tail := 0\<rparr>"
  have rep: "array_rep ?c xs" using a(4,5) by (intro array_repI [of _ "[]" _ "[]"]) simp_all
  consider (packed) "arr_head a = 0" "arr_tail a = 0" | (tail) "arr_head a = 0" "arr_tail a \<noteq> 0"
    | (head) "arr_head a \<noteq> 0" by blast
  then show ?thesis
  proof cases
    case packed
    then have "array_compress a = Some a" "array_rep a xs"
      using a by (auto simp: array_compress_def intro: array_repI [of _ "[]" _ "[]"])
    then show ?thesis using that by blast
  next
    case tail
    then have "?r (arr_data a) = map Some xs" using a by (simp add: realloc_def)
    then have "array_compress a = Some (a\<lparr>arr_data := map Some xs, arr_tail := 0\<rparr>)"
      using tail by (simp add: array_compress_def unat_eq_zero)
    moreover have "array_rep (a\<lparr>arr_data := map Some xs, arr_tail := 0\<rparr>) xs"
      using a tail by (intro array_repI [of _ "[]" _ "[]"]) simp_all
    ultimately show ?thesis using that by blast
  next
    case head
    have mm: "memmove (arr_data a) 0 (unat (arr_head a)) (unat (arr_count a) + unat (arr_tail a)) =
        Some ((map Some xs @ t) @ drop (length xs + length t) (arr_data a))"
      using a by (simp add: memmove_def)
    moreover have "?r ((map Some xs @ t) @ drop (length xs + length t) (arr_data a)) = map Some xs"
      using a(4) by (simp add: realloc_def)
    ultimately have "array_compress a = Some ?c"
      using head by (simp add: array_compress_def unat_eq_zero)
    then show ?thesis using that rep by blast
  qed
qed

lemma array_remove_refines:
  assumes "array_rep a xs"
  shows "\<exists>a'. array_remove a idx = Some (fst (seq_remove xs idx), a') \<and> array_rep a' (snd (seq_remove xs idx))"
proof -
  define i where "i = (if idx < 0 then length xs - 1 else nat idx)"
  show ?thesis
  proof (cases "i < length xs")
    case True
    then have get: "array_get a idx = Some (Some (xs ! i))"
      by (simp add: array_get_refines [OF assms] seq_get_def i_def)
    have idx: "nat (if idx < 0 then array_count a - 1 else idx) = i"
      using True by (auto simp: i_def array_rep_count [OF assms])
    obtain a1 where a1: "(if (if idx < 0 then array_count a - 1 else idx) > array_count a div 2
        then remove_tail a i else remove_head a i) = Some a1" "array_layout a1 (take i xs @ drop (Suc i) xs)"
    proof (cases "(if idx < 0 then array_count a - 1 else idx) > array_count a div 2")
      case big: True
      show ?thesis by (rule layout_remove_tail [OF assms True]) (use big that in auto)
    next
      case small: False
      show ?thesis by (rule layout_remove_head [OF assms True]) (use small that in auto)
    qed
    obtain a2 where a2: "(if unat (arr_head a1) + unat (arr_tail a1) > ARRAY_MAX_UNUSED then array_compress a1
        else Some a1) = Some a2" "array_rep a2 (take i xs @ drop (Suc i) xs)"
    proof (cases "unat (arr_head a1) + unat (arr_tail a1) > ARRAY_MAX_UNUSED")
      case big: True
      show ?thesis by (rule compress_layout [OF a1(2)]) (use big that in auto)
    next
      case small: False
      then have "array_rep a1 (take i xs @ drop (Suc i) xs)"
        using a1(2) by (simp add: array_rep_def)
      then show ?thesis using small that by auto
    qed
    have "array_remove a idx = Some (Some (xs ! i), a2)"
      unfolding array_remove_def get Option.bind.simps option.case Let_def idx a1(1) a2(1) ..
    moreover have "seq_remove xs idx = (Some (xs ! i), take i xs @ drop (Suc i) xs)"
      unfolding seq_remove_def i_def [symmetric] Let_def using True by simp
    ultimately show ?thesis using a2(2) by simp
  next
    case False
    then have "array_get a idx = Some None" by (simp add: array_get_refines [OF assms] seq_get_def i_def)
    then show ?thesis using False assms by (simp add: array_remove_def seq_remove_def i_def)
  qed
qed

section \<open>Sequences\<close>

text \<open>
  The contract under which the other components use an array: operations that never fail and act on
  the represented list. \<open>append_all\<close> is the loop that collects elements with \<^verbatim>\<open>array_insert\<close> at the
  tail, \<open>drain\<close> the loop that removes from the tail, as \<^verbatim>\<open>clear_packets\<close> does.
\<close>

fun append_all :: "('s \<Rightarrow> int \<Rightarrow> 'a \<Rightarrow> 's option) \<Rightarrow> 's \<Rightarrow> 'a list \<Rightarrow> 's option" where
  "append_all ins s [] = Some s"
| "append_all ins s (x # xs) = do { s \<leftarrow> ins s (-1) x; append_all ins s xs }"

fun drain :: "('s \<Rightarrow> int \<Rightarrow> ('a option \<times> 's) option) \<Rightarrow> nat \<Rightarrow> 's \<Rightarrow> ('a list \<times> 's) option" where
  "drain rem 0 s = None"
| "drain rem (Suc n) s =
     do {
       (r, s) \<leftarrow> rem s (-1);
       (case r of
          None \<Rightarrow> Some ([], s)
        | Some x \<Rightarrow> do { (xs, s) \<leftarrow> drain rem n s; Some (x # xs, s) })
     }"

locale sequence =
  fixes rep :: "'s \<Rightarrow> 'a list \<Rightarrow> bool"
    and new :: 's
    and ins :: "'s \<Rightarrow> int \<Rightarrow> 'a \<Rightarrow> 's option"
    and rem :: "'s \<Rightarrow> int \<Rightarrow> ('a option \<times> 's) option"
    and cap :: nat
  assumes new_rep: "rep new []"
    and ins_rep: "rep s xs \<Longrightarrow> length xs < cap \<Longrightarrow> \<exists>s'. ins s idx x = Some s' \<and> rep s' (seq_insert xs idx x)"
    and rem_rep: "rep s xs \<Longrightarrow> \<exists>s'. rem s idx = Some (fst (seq_remove xs idx), s') \<and> rep s' (snd (seq_remove xs idx))"
begin

lemma append_all_rep:
  "rep s xs \<Longrightarrow> length xs + length ys \<le> cap \<Longrightarrow> \<exists>s'. append_all ins s ys = Some s' \<and> rep s' (xs @ ys)"
proof (induction ys arbitrary: s xs)
  case (Cons y ys)
  obtain s1 where "ins s (-1) y = Some s1" "rep s1 (xs @ [y])"
    using ins_rep [OF Cons.prems(1), of "-1" y] Cons.prems(2) by (auto simp: seq_insert_def)
  then show ?case using Cons.IH [of s1 "xs @ [y]"] Cons.prems(2) by simp
qed simp

lemma drain_rep:
  "rep s xs \<Longrightarrow> length xs < n \<Longrightarrow> \<exists>s'. drain rem n s = Some (rev xs, s') \<and> rep s' []"
proof (induction xs arbitrary: s n rule: rev_induct)
  case Nil
  then obtain s1 m where "rem s (-1) = Some (None, s1)" "rep s1 []" "n = Suc m"
    using rem_rep [OF Nil.prems(1), of "-1"] by (auto simp: seq_remove_def gr0_conv_Suc)
  then show ?case by simp
next
  case (snoc x xs)
  then obtain s1 m where "rem s (-1) = Some (Some x, s1)" "rep s1 xs" "n = Suc m"
    using rem_rep [OF snoc.prems(1), of "-1"] by (cases n) (auto simp: seq_remove_def Let_def nth_append)
  then show ?case using snoc.IH [of s1 m] snoc.prems(2) by auto
qed

lemma collect_and_drain:
  assumes "length ys \<le> cap"
  shows "\<exists>s s'. append_all ins new ys = Some s \<and> rep s ys \<and>
    drain rem (Suc (length ys)) s = Some (rev ys, s') \<and> rep s' []"
  using append_all_rep [OF new_rep, of ys] drain_rep [of _ ys "Suc (length ys)"] assms by fastforce

end

lemma array_create_rep: "array_rep (array_create r) []"
  using unat_u8_less [of r] by (simp add: array_create_def array_rep_def array_layout_def)

interpretation arr: sequence array_rep "array_create r" array_insert array_remove "2 ^ 31 - 1" for r
  by unfold_locales (simp_all only: array_create_rep array_insert_refines array_remove_refines)

section \<open>Properties\<close>

text \<open>
  C33. The dynamic array implements a list: on a well-formed array every insertion, access, removal and
  compression stays inside the allocated buffer, reads only initialised elements, keeps the counters
  from wrapping around, and has the effect of the list operation, for every index an \<^verbatim>\<open>int\<close> can hold,
  negative and out-of-range ones included.
\<close>

theorem array_implements_list:
  assumes "array_rep a xs" "length xs < 2 ^ 31 - 1"
  shows "(\<exists>a'. array_insert a idx x = Some a' \<and> array_rep a' (seq_insert xs idx x)) \<and>
    array_get a idx = Some (seq_get xs idx) \<and>
    (\<exists>a'. array_remove a idx = Some (fst (seq_remove xs idx), a') \<and> array_rep a' (snd (seq_remove xs idx))) \<and>
    (\<exists>a'. array_compress a = Some a' \<and> array_rep a' xs)"
proof -
  have "array_layout a xs" using assms(1) by (simp add: array_rep_def)
  then have "\<exists>a'. array_compress a = Some a' \<and> array_rep a' xs"
    by (rule compress_layout) blast
  then show ?thesis
    using array_insert_refines [OF assms] array_get_refines [OF assms(1)] array_remove_refines [OF assms(1)]
    by blast
qed

theorem array_implements_list_witness:
  "\<exists>a'. array_insert (array_create 0) (-1) True = Some a' \<and> array_rep a' [True]"
  using array_implements_list [OF array_create_rep [of 0], where idx = "-1" and x = True]
  by (simp add: seq_insert_def)

text \<open>
  Collecting elements at the tail of a new array, with any reserved room, keeps all of them in
  order, and the loop that removes from the tail until \<^verbatim>\<open>array_remove\<close> fails ends, returns them in
  reverse order and leaves an empty array.
\<close>

lemma array_collect_and_clear:
  assumes "length ys < 2 ^ 31"
  shows "\<exists>a a'. append_all array_insert (array_create r) ys = Some a \<and> array_rep a ys \<and>
    drain array_remove (Suc (length ys)) a = Some (rev ys, a') \<and> array_rep a' []"
  by (rule arr.collect_and_drain) (use assms in simp)

lemma array_collect_and_clear_witness:
  "\<exists>a a'. append_all array_insert (array_create 2) [1, 2, 3 :: nat] = Some a \<and>
    drain array_remove (Suc (length [1, 2, 3 :: nat])) a = Some (rev [1, 2, 3], a')"
proof -
  have "length [1, 2, 3 :: nat] < 2 ^ 31" by simp
  from array_collect_and_clear [OF this, of 2] show ?thesis by blast
qed

end
