(* ===== verification/Message_Fragment.thy ===== *)
theory Message_Fragment
  imports Message_Rules Dynamic_Array
begin

text \<open>
  Fragmentation and reassembly of IKE messages (RFC 7383 for IKEv2) in
  \<^verbatim>\<open>src/src/libcharon/encoding/message.c\<close>: \<^verbatim>\<open>fragment\<close> splits an outgoing message, the
  \<^verbatim>\<open>add_fragment\<close> family collects received fragments, and the fork's queries
  (\<^verbatim>\<open>get_missing_fragments\<close>, \<^verbatim>\<open>get_received_fragments\<close>, \<^verbatim>\<open>is_fragment_timeout\<close>) report the progress
  on which selective retransmission is built. Key material, header generation and the wire codec are
  arguments of the definitions: \<open>gen\<close> stands for generating and protecting one fragment message,
  \<open>parse_hdr\<close> for parsing the header of a reassembled IKEv1 message, \<open>now\<close> for the clock.
\<close>

section \<open>Splitting a message\<close>

abbreviation (input) IKEV2_UDP_PORT :: u16 where "IKEV2_UDP_PORT \<equiv> 500"
abbreviation (input) MAX_FRAGMENTS :: u16 where "MAX_FRAGMENTS \<equiv> 255"

definition is_encoded :: "private_message_t \<Rightarrow> bool" where
  "is_encoded this \<longleftrightarrow> pkt_data (packet this) \<noteq> None"

definition clone_message :: "private_message_t \<Rightarrow> private_message_t" where
  "clone_message this =
     (message_create_from_packet ((packet this)\<lparr>pkt_data := None\<rparr>))
       \<lparr>major_version := major_version this, minor_version := minor_version this,
        ike_sa_id := ike_sa_id this, message_id := message_id this,
        is_request := is_request this, exchange_type := exchange_type this,
        reserved := reserved this\<rparr>"

text \<open>
  One fragment message. \<open>use_aggressive\<close> is the answer of the peer config of the current IKE_SA,
  consulted for IKEv1 only. The first IKEv2 fragment takes over the unprotected payloads, which are
  removed from the original message.
\<close>

definition create_fragment :: "bool \<Rightarrow> private_message_t \<Rightarrow> payload_type_t \<Rightarrow> u16 \<Rightarrow> u16 \<Rightarrow> bytes \<Rightarrow>
    private_message_t \<times> private_message_t" where
  "create_fragment use_aggressive this next num cnt data =
     (let message = clone_message this
      in if major_version this = 1
         then (this, add_payload
                (message\<lparr>message_id := 0,
                   exchange_type := (if use_aggressive then AGGRESSIVE else ID_PROT)\<rparr>)
                (fragment_payload_create_from_data (ucast num) (num = cnt) data))
         else
           let fragment = encrypted_fragment_payload_create_from_data num cnt data
           in if num = 1
              then (this\<lparr>payloads := filter (\<lambda>p. ptype p = PLV2_ENCRYPTED) (payloads this)\<rparr>,
                    add_payload
                      (foldl add_payload message
                        (filter (\<lambda>p. ptype p \<noteq> PLV2_ENCRYPTED) (payloads this)))
                      (set_next_type fragment next))
              else (this, add_payload message fragment))"

definition reduce_frag_len :: "nat \<Rightarrow> nat \<Rightarrow> nat" where
  "reduce_frag_len fl amount = max 1 (fl - amount)"

text \<open>From the IP datagram size to the size of the IKE message.\<close>

definition ike_frag_len :: "packet_t \<Rightarrow> nat \<Rightarrow> nat" where
  "ike_frag_len pkt fl =
     (let src = the (source pkt); dst = the (destination pkt);
          fl = reduce_frag_len fl (if family src = AF_INET then 20 else 40);
          fl = reduce_frag_len fl 8
      in if port dst \<noteq> IKEV2_UDP_PORT \<and> port src \<noteq> IKEV2_UDP_PORT
         then reduce_frag_len fl 4 else fl)"

record aead_t =
  iv_size :: nat
  icv_size :: nat
  block_size :: nat

definition round_down :: "nat \<Rightarrow> nat \<Rightarrow> nat" where
  "round_down sz alignment = sz - sz mod alignment"

text \<open>From the size of the IKE message to the content size of one fragment payload.\<close>

definition content_frag_len :: "u8 \<Rightarrow> aead_t \<Rightarrow> nat \<Rightarrow> nat" where
  "content_frag_len major aead fl =
     (let fl = reduce_frag_len fl 28
      in if major = 1 then reduce_frag_len fl 8
         else
           let fl = reduce_frag_len fl (iv_size aead);
               fl = reduce_frag_len fl (icv_size aead);
               fl = reduce_frag_len fl 8;
               fl = round_down fl (block_size aead)
           in reduce_frag_len fl 1)"

text \<open>The number of fragments, computed in \<^verbatim>\<open>size_t\<close> and stored in a \<^verbatim>\<open>uint16_t\<close>.\<close>

definition fragment_count :: "nat \<Rightarrow> nat \<Rightarrow> u16" where
  "fragment_count len fl = of_nat (len div fl + (if len mod fl \<noteq> 0 then 1 else 0))"

text \<open>
  The loop over the fragment numbers. It returns the packets, or \<open>None\<close> if a fragment could not be
  generated; it also ends when the data is used up, which is why it terminates for every count.
\<close>

function split_loop :: "bool \<Rightarrow> (private_message_t \<Rightarrow> 'p option) \<Rightarrow> payload_type_t \<Rightarrow> u16 \<Rightarrow> nat \<Rightarrow>
    private_message_t \<Rightarrow> u16 \<Rightarrow> bytes \<Rightarrow> 'p list \<Rightarrow> private_message_t \<times> 'p list option" where
  "split_loop agg gen next cnt fl this num data acc =
     (if num \<le> cnt then
        let len = min (length data) fl
        in if len = 0 then (this, Some acc)
           else
             let (this, fragment) = create_fragment agg this next num cnt (take len data)
             in case gen fragment of
                  None \<Rightarrow> (this, None)
                | Some pkt \<Rightarrow>
                    split_loop agg gen next cnt fl this (num + 1) (drop len data) (acc @ [pkt])
      else (this, Some acc))"
  by pat_completeness auto
termination
  by (relation "measure (\<lambda>(agg, gen, next, cnt, fl, this, num, data, acc). length data)")
     (auto simp: min_def split: if_splits)

declare split_loop.simps [simp del]

text \<open>What \<^verbatim>\<open>fragment\<close> hands out: the single packet, or the fragments.\<close>

datatype fragment_result = FragError status_t | FragSingle | FragMany "packet_t list"

text \<open>
  \<^verbatim>\<open>fragment\<close>. \<open>generate\<close> stands for \<^verbatim>\<open>generate_message\<close>: it returns the message with its payloads
  ordered and wrapped, the length of the unprotected part and the encrypted payload; \<open>finalize\<close> for
  \<^verbatim>\<open>finalize_message\<close>. An encrypted payload is given by its next payload type, its total length and
  the encoding of the payloads it contains.
\<close>

record enc_view =
  view_next :: payload_type_t
  view_length :: nat
  view_plain :: bytes
  view_payload :: payload_t

definition fragment ::
    "(private_message_t \<Rightarrow> status_t \<times> private_message_t \<times> nat \<times> enc_view option) \<Rightarrow>
     (private_message_t \<Rightarrow> enc_view option \<Rightarrow> status_t \<times> private_message_t) \<Rightarrow>
     (private_message_t \<Rightarrow> enc_view option) \<Rightarrow> bool \<Rightarrow> (private_message_t \<Rightarrow> packet_t option) \<Rightarrow>
     aead_t \<Rightarrow> private_message_t \<Rightarrow> nat \<Rightarrow> private_message_t \<times> fragment_result" where
  "fragment generate finalize encoded_enc agg gen aead this flen =
     (let fl = ike_frag_len (packet this) flen;
          encoded = is_encoded this;
          (status, this, len, enc) =
            (if encoded
             then (SUCCESS, this, length (the (pkt_data (packet this))),
                   if major_version this = 2 then encoded_enc this else None)
             else case generate this of (st, m, n, e) \<Rightarrow>
                    (st, m, n + (case e of None \<Rightarrow> 0 | Some v \<Rightarrow> view_length v), e))
      in if status \<noteq> SUCCESS then (this, FragError status)
         else if len \<le> fl \<or> (major_version this = 2 \<and> enc = None)
         then (if encoded then (this, FragSingle)
               else case finalize this enc of (st, m) \<Rightarrow>
                 if st \<noteq> SUCCESS then (m, FragError st) else (m, FragSingle))
         else
           let cl = content_frag_len (major_version this) aead fl;
               (status, this, next, data) =
                 (if major_version this = 1
                  then if encoded
                       then (SUCCESS, this, PL_NONE, the (pkt_data (packet this)))
                       else case finalize this enc of (st, m) \<Rightarrow>
                              (st, m, PL_NONE, the (pkt_data (packet m)))
                  else (SUCCESS,
                        if encoded then this
                        else this\<lparr>payloads := payloads this @ [view_payload (the enc)]\<rparr>,
                        view_next (the enc), view_plain (the enc)))
           in if status \<noteq> SUCCESS then (this, FragError status)
              else
                let cnt = fragment_count (length data) cl
                in case split_loop agg gen next cnt cl this 1 data [] of
                     (this, None) \<Rightarrow> (this\<lparr>out_fragments := None\<rparr>, FragError FAILED)
                   | (this, Some pkts) \<Rightarrow>
                       (this\<lparr>out_fragments := Some pkts\<rparr>, FragMany pkts))"

section \<open>Collecting fragments\<close>

definition reset_defrag :: "private_message_t \<Rightarrow> private_message_t" where
  "reset_defrag this =
     this\<lparr>fragments := None,
          frag := map_option (\<lambda>f. f\<lparr>frag_last := 0, frag_len := 0\<rparr>) (frag this)\<rparr>"

text \<open>\<^verbatim>\<open>array_count\<close> of the fragment array, which is 0 for NULL.\<close>

definition received_count :: "private_message_t \<Rightarrow> nat" where
  "received_count this = (case fragments this of None \<Rightarrow> 0 | Some fs \<Rightarrow> length fs)"

text \<open>The search loop of \<^verbatim>\<open>add_fragment\<close>: a duplicate (\<open>None\<close>), or the position to insert at.\<close>

fun find_slot :: "fragment_t list \<Rightarrow> u16 \<Rightarrow> int \<Rightarrow> int option" where
  "find_slot [] num i = Some (-1)"
| "find_slot (f # fs) num i =
     (if ucast (frag_num f) = num then None
      else if ucast (frag_num f) > num then Some i
      else find_slot fs num (i + 1))"

definition add_fragment :: "private_message_t \<Rightarrow> u16 \<Rightarrow> bytes \<Rightarrow> status_t \<times> private_message_t" where
  "add_fragment this num data =
     (let fs = the (fragments this); fd = the (frag this)
      in case find_slot fs num 0 of
           None \<Rightarrow> (NEED_MORE, this)
         | Some insert_at \<Rightarrow>
             let fd = fd\<lparr>frag_len := frag_len fd + length data\<rparr>;
                 this = this\<lparr>frag := Some fd\<rparr>
             in if frag_len fd > max_packet fd then (FAILED, reset_defrag this)
                else (SUCCESS, this\<lparr>fragments := Some (seq_insert fs insert_at
                                      \<lparr>frag_num = ucast num, frag_data = data\<rparr>)\<rparr>))"

text \<open>\<^verbatim>\<open>merge_fragments\<close>: the joined data, the addresses of the last fragment, defragmentation state freed.\<close>

definition merge_fragments ::
    "private_message_t \<Rightarrow> private_message_t \<Rightarrow> bytes \<times> private_message_t" where
  "merge_fragments this last_msg =
     (concat (map frag_data (the (fragments this))),
      (reset_defrag (this\<lparr>packet := (packet this)\<lparr>source := source (packet last_msg),
                              destination := destination (packet last_msg)\<rparr>\<rparr>))
        \<lparr>frag := None\<rparr>)"

definition add_fragment_v1 ::
    "(private_message_t \<Rightarrow> status_t \<times> private_message_t) \<Rightarrow> private_message_t \<Rightarrow> private_message_t \<Rightarrow>
     status_t \<times> private_message_t" where
  "add_fragment_v1 parse_hdr this message =
     (case frag this of
        None \<Rightarrow> (INVALID_STATE, this)
      | Some _ \<Rightarrow>
          (case map_option pbody (get_payload message PLV1_FRAGMENT) of
             Some (FragV1Body fid num last_frag data) \<Rightarrow>
               let this = (if fragments this = None \<or> message_id this \<noteq> ucast fid
                           then (reset_defrag this)\<lparr>message_id := ucast fid, fragments := Some []\<rparr>
                           else this);
                   fd = the (frag this);
                   fd = (if frag_last fd = 0 \<and> last_frag then fd\<lparr>frag_last := ucast num\<rparr> else fd);
                   (status, this) = add_fragment (this\<lparr>frag := Some fd\<rparr>) (ucast num) data
               in if status \<noteq> SUCCESS then (status, this)
                  else if received_count this \<noteq> unat (frag_last (the (frag this)))
                  then (NEED_MORE, this)
                  else
                    let (data, this) = merge_fragments this message;
                        this = this\<lparr>packet := (packet this)\<lparr>pkt_data := Some data\<rparr>,
                                    parser := Some data\<rparr>;
                        (status, this) = parse_hdr this
                    in (if status \<noteq> SUCCESS then FAILED else SUCCESS, this)
           | _ \<Rightarrow> (INVALID_ARG, this)))"

text \<open>
  \<^verbatim>\<open>add_fragment_v2\<close>. The content of the SKF payload is the decrypted data. The third result is the
  fragment message after its unprotected payloads were moved.
\<close>

definition add_fragment_v2 :: "int \<Rightarrow> private_message_t \<Rightarrow> private_message_t \<Rightarrow>
    status_t \<times> private_message_t \<times> private_message_t" where
  "add_fragment_v2 now this message =
     (case (frag this, get_payload message PLV2_FRAGMENT) of
        (None, _) \<Rightarrow> (INVALID_STATE, this, message)
      | (Some fd, Some p) \<Rightarrow>
          (if message_id this \<noteq> message_id message then (INVALID_ARG, this, message)
           else case pbody p of
             FragV2Body num tot data \<Rightarrow>
               if tot > MAX_FRAGMENTS then (FAILED, reset_defrag this, message)
               else
                 let this = (if fragments this = None \<or> tot > frag_last fd
                             then this\<lparr>fragments := Some [],
                                    frag := Some (fd\<lparr>frag_last := tot, frag_len := 0,
                                      first_received_time :=
                                        (if first_received_time fd = 0 then now
                                         else first_received_time fd)\<rparr>)\<rparr>
                             else this);
                     (status, this) = add_fragment this num data
                 in if status \<noteq> SUCCESS then (status, this, message)
                    else
                      let (this, message) =
                            (if num = 1
                             then (this\<lparr>first_payload := next_payload p,
                                        payloads := payloads this @
                                          filter (\<lambda>q. ptype q \<noteq> PLV2_FRAGMENT) (payloads message)\<rparr>,
                                   message\<lparr>payloads :=
                                     filter (\<lambda>q. ptype q = PLV2_FRAGMENT) (payloads message)\<rparr>)
                             else (this, message))
                      in if received_count this \<noteq> unat tot then (NEED_MORE, this, message)
                         else
                           let (data, this) = merge_fragments this message;
                               enc = \<lparr>ptype = PLV2_ENCRYPTED, next_payload = first_payload this,
                                      pbody = EncBody data, protocol_id = 0\<rparr>;
                               pls = (if payloads this = [] then []
                                      else butlast (payloads this) @
                                           [set_next_type (last (payloads this)) PLV2_ENCRYPTED])
                                     @ [enc]
                           in (SUCCESS, this\<lparr>payloads := pls, first_payload := ptype (hd pls)\<rparr>,
                               message)
           | _ \<Rightarrow> (INVALID_ARG, this, message))
      | _ \<Rightarrow> (INVALID_ARG, this, message))"

definition message_create_defrag :: "nat \<Rightarrow> int \<Rightarrow> private_message_t \<Rightarrow> private_message_t option" where
  "message_create_defrag max_pkt timeout fmsg =
     (if get_payload fmsg PLV1_FRAGMENT = None \<and> get_payload fmsg PLV2_FRAGMENT = None
      then None
      else
        let this = (clone_message fmsg)\<lparr>parser := None\<rparr>;
            this = (if major_version fmsg = 1 then this\<lparr>message_id := 0\<rparr> else this)
        in Some (this\<lparr>frag := Some \<lparr>frag_last = 0, frag_len = 0, max_packet = max_pkt,
                        first_received_time = 0, fragment_timeout = timeout\<rparr>\<rparr>))"

section \<open>Progress of a reassembly\<close>

definition is_fragment_timeout :: "int \<Rightarrow> private_message_t \<Rightarrow> bool" where
  "is_fragment_timeout now this =
     (case frag this of
        None \<Rightarrow> False
      | Some fd \<Rightarrow>
          if first_received_time fd = 0 then False
          else if frag_last fd > 0 \<and> received_count this = unat (frag_last fd) then False
          else now - first_received_time fd > fragment_timeout fd)"

text \<open>The bitmap of received fragment numbers; index 0 is not used.\<close>

definition received_bitmap :: "u16 \<Rightarrow> fragment_t list \<Rightarrow> bool list" where
  "received_bitmap lst fs =
     foldl (\<lambda>bm f. if (ucast (frag_num f) :: u16) \<le> lst
                   then bm[unat (frag_num f) := True] else bm)
       (replicate (Suc (unat lst)) False) fs"

definition get_missing_fragments :: "private_message_t \<Rightarrow> nat list" where
  "get_missing_fragments this =
     (case frag this of
        None \<Rightarrow> []
      | Some fd \<Rightarrow>
          if frag_last fd = 0 then []
          else
            let bm = received_bitmap (frag_last fd)
                       (case fragments this of None \<Rightarrow> [] | Some fs \<Rightarrow> fs)
            in filter (\<lambda>i. \<not> bm ! i) [1..<Suc (unat (frag_last fd))])"

definition get_received_fragments :: "private_message_t \<Rightarrow> u16 list" where
  "get_received_fragments this =
     (if frag this = None then []
      else case fragments this of None \<Rightarrow> [] | Some fs \<Rightarrow> map (\<lambda>f. ucast (frag_num f)) fs)"

definition get_total_fragments :: "private_message_t \<Rightarrow> u16" where
  "get_total_fragments this = (case frag this of None \<Rightarrow> 0 | Some fd \<Rightarrow> frag_last fd)"

end
