(* ===== verification/Reassembly.thy ===== *)
theory Reassembly
  imports Message_Fragment
begin

text \<open>
  Correctness of the splitting and reassembly of IKE messages modelled in
  \<^verbatim>\<open>Message_Fragment\<close>: what a reassembly has collected after any sequence of fragments, that
  it returns exactly the data that was split whatever the order of arrival, the invariant of the
  collected state, and that the progress queries report the fragments that are really missing.
\<close>

section \<open>Inserting in order\<close>

definition part :: "(nat \<Rightarrow> bytes) \<Rightarrow> nat \<Rightarrow> fragment_t" where
  "part c k = \<lparr>frag_num = of_nat k, frag_data = c k\<rparr>"

lemma find_slot_sorted:
  assumes "k < 256" "\<forall>x\<in>set xs. x < 256" "sorted xs"
  shows "find_slot (map (part c) xs) (of_nat k) i =
     (if k \<in> set xs then None
      else Some (if \<forall>x\<in>set xs. x < k then -1 else i + int (length (takeWhile (\<lambda>x. x < k) xs))))"
  using assms(2,3)
proof (induction xs arbitrary: i)
  case (Cons x xs)
  have "k < x \<Longrightarrow> k \<notin> set xs" using Cons.prems by auto
  then show ?case
    using Cons assms(1) 
    by (auto simp: part_def ucast_u8_u16 of_nat_u16_eq of_nat_u16_less)
qed simp

lemma seq_insert_sorted:
  assumes "sorted xs" "k \<notin> set xs"
  shows "seq_insert (map f xs)
      (if \<forall>x\<in>set xs. x < k then -1 else int (length (takeWhile (\<lambda>x. x < k) xs))) (f k)
    = map f (insort k (xs :: nat list))"
proof (cases "\<forall>x\<in>set xs. x < k")
  case True
  then have "insort k xs = xs @ [k]"
    using assms by (induction xs) auto
  then show ?thesis using True by (simp add: seq_insert_def)
next
  case False
  have "insort k xs = takeWhile (\<lambda>x. x < k) xs @ k # dropWhile (\<lambda>x. x < k) xs"
    using assms by (induction xs) auto
  moreover have "take (length (takeWhile (\<lambda>x. x < k) xs)) xs = takeWhile (\<lambda>x. x < k) xs"
    by (metis takeWhile_eq_take)
  moreover have "drop (length (takeWhile (\<lambda>x. x < k) xs)) xs = dropWhile (\<lambda>x. x < k) xs"
    by (metis dropWhile_eq_drop)
  ultimately show ?thesis using False
    by (auto simp: seq_insert_def length_takeWhile_le take_map drop_map)
qed

text \<open>Reassembly of \<open>n\<close> parts \<open>c 1 .. c n\<close> where the parts in \<open>K\<close> have arrived.\<close>

definition collecting :: "nat \<Rightarrow> (nat \<Rightarrow> bytes) \<Rightarrow> nat \<Rightarrow> nat set \<Rightarrow> private_message_t \<Rightarrow> bool" where
  "collecting n c mp K d \<longleftrightarrow>
     (\<exists>fd. frag d = Some fd \<and> max_packet fd = mp \<and>
        (if K = {} then fragments d = None
         else fragments d = Some (map (part c) (sorted_list_of_set K)) \<and>
              frag_last fd = of_nat n \<and> frag_len fd = (\<Sum>k\<in>K. length (c k))))"

definition skf_of :: "private_message_t \<Rightarrow> (payload_type_t \<times> u16 \<times> u16 \<times> bytes) option" where
  "skf_of m = (case get_payload m PLV2_FRAGMENT of
       None \<Rightarrow> None
     | Some p \<Rightarrow> (case pbody p of
           FragV2Body num tot data \<Rightarrow> Some (next_payload p, num, tot, data)
         | _ \<Rightarrow> None))"

lemma add_fragment_sorted:
  assumes "finite K" "\<forall>x\<in>K. x < 256" "k < 256" "k \<notin> K" "fragments d = Some (map (part c) (sorted_list_of_set K))"
    and "frag d = Some fd" "frag_len fd + length (c k) \<le> max_packet fd"
  shows "add_fragment d (of_nat k) (c k) =
    (SUCCESS, d\<lparr>frag := Some (fd\<lparr>frag_len := frag_len fd + length (c k)\<rparr>),
       fragments := Some (map (part c) (sorted_list_of_set (insert k K)))\<rparr>)"
proof -
  let ?xs = "sorted_list_of_set K"
  define slot where "slot = (if \<forall>x\<in>set ?xs. x < k then -1 else int (length (takeWhile (\<lambda>x. x < k) ?xs)))"
  have "find_slot (map (part c) ?xs) (of_nat k) 0 = Some slot"
    using assms find_slot_sorted [of k ?xs c 0] by (simp add: slot_def)
  moreover have "seq_insert (map (part c) ?xs) slot (part c k) = map (part c) (sorted_list_of_set (insert k K))"
    using assms seq_insert_sorted [of ?xs k "part c"] by (simp add: slot_def)
  moreover have "\<lparr>frag_num = ucast (of_nat k :: u16), frag_data = c k\<rparr> = part c k"
    using assms(3) by (simp add: part_def unsigned_of_nat take_bit_nat_def)
  ultimately show ?thesis
    using assms(5-7) by (simp add: add_fragment_def Let_def)
qed

lemma add_fragment_dup:
  assumes "finite K" "\<forall>x\<in>K. x < 256" "k \<in> K" "fragments d = Some (map (part c) (sorted_list_of_set K))"
  shows "add_fragment d (of_nat k) data = (NEED_MORE, d)"
  using assms find_slot_sorted [of k "sorted_list_of_set K" c 0]
  by (simp add: add_fragment_def)
text \<open>The state in which \<^verbatim>\<open>add_fragment\<close> is called: a new reassembly is started if necessary.\<close>

definition prepare :: "int \<Rightarrow> u16 \<Rightarrow> private_message_t \<Rightarrow> private_message_t" where
  "prepare now tot d =
     (let fd = the (frag d)
      in if fragments d = None \<or> tot > frag_last fd
         then d\<lparr>fragments := Some [],
                frag := Some (fd\<lparr>frag_last := tot, frag_len := 0,
                  first_received_time := (if first_received_time fd = 0 then now
                     else first_received_time fd)\<rparr>)\<rparr>
         else d)"

definition take_first :: "private_message_t \<Rightarrow> payload_type_t \<Rightarrow> u16 \<Rightarrow> private_message_t \<Rightarrow> private_message_t" where
  "take_first msg nx num d =
     (if num = 1 then d\<lparr>first_payload := nx, payloads := payloads d @
            filter (\<lambda>q. ptype q \<noteq> PLV2_FRAGMENT) (payloads msg)\<rparr> else d)"

definition strip_first :: "u16 \<Rightarrow> private_message_t \<Rightarrow> private_message_t" where
  "strip_first num msg = (if num = 1
     then msg\<lparr>payloads := filter (\<lambda>q. ptype q = PLV2_FRAGMENT) (payloads msg)\<rparr> else msg)"

definition complete_message :: "private_message_t \<Rightarrow> private_message_t \<Rightarrow> private_message_t" where
  "complete_message d msg =
     (let (data, d) = merge_fragments d msg;
          enc = \<lparr>ptype = PLV2_ENCRYPTED, next_payload = first_payload d, pbody = EncBody data, protocol_id = 0\<rparr>;
          pls = (if payloads d = [] then []
                 else butlast (payloads d) @ [set_next_type (last (payloads d)) PLV2_ENCRYPTED]) @ [enc]
      in d\<lparr>payloads := pls, first_payload := ptype (hd pls)\<rparr>)"

lemma add_fragment_v2_step:
  assumes "frag d = Some fd" "skf_of msg = Some (nx, num, tot, data)"
    and "message_id d = message_id msg" "tot \<le> MAX_FRAGMENTS"
  shows "add_fragment_v2 now d msg =
    (case add_fragment (prepare now tot d) num data of (st, d') \<Rightarrow>
       if st \<noteq> SUCCESS then (st, d', msg)
       else let d'' = take_first msg nx num d'; msg' = strip_first num msg
            in if received_count d'' \<noteq> unat tot then (NEED_MORE, d'', msg')
               else (SUCCESS, complete_message d'' msg', msg'))"
proof -
  from assms(2) obtain p where p: "get_payload msg PLV2_FRAGMENT = Some p" "pbody p = FragV2Body num tot data"
     "next_payload p = nx"
    by (auto simp: skf_of_def split: option.splits payload_body.splits)
  have tot: "\<not> tot > MAX_FRAGMENTS" using assms(4) by simp
  show ?thesis
    unfolding add_fragment_v2_def p assms(1) option.case prod.case payload_body.case if_not_P[OF tot]
    using assms(3) p(3) tot
    by (simp add: prepare_def assms(1) take_first_def strip_first_def complete_message_def Let_def
        split_def not_less)
qed
lemma prepare_collecting:
  assumes "collecting n c mp K d"
  shows "\<exists>fd. frag (prepare now (of_nat n) d) = Some fd \<and> max_packet fd = mp \<and>
    fragments (prepare now (of_nat n) d) = Some (map (part c) (sorted_list_of_set K)) \<and>
    frag_last fd = of_nat n \<and> frag_len fd = (\<Sum>k\<in>K. length (c k)) \<and>
    first_payload (prepare now (of_nat n) d) = first_payload d \<and>
    message_id (prepare now (of_nat n) d) = message_id d"
  using assms by (cases "K = {}") (auto simp: collecting_def prepare_def Let_def)

lemma prepare_started:
  assumes "collecting n c mp K d" "K \<noteq> {}"
  shows "prepare now (of_nat n) d = d"
proof -
  from assms obtain fd fs where "frag d = Some fd" "fragments d = Some fs" "frag_last fd = of_nat n"
    by (auto simp: collecting_def)
  then show ?thesis by (simp add: prepare_def Let_def)
qed

text \<open>A fragment of the expected split: the \<open>k\<close>-th of \<open>n\<close> parts.\<close>

definition fragment_of :: "nat \<Rightarrow> (nat \<Rightarrow> bytes) \<Rightarrow> payload_type_t \<Rightarrow> nat \<Rightarrow> private_message_t \<Rightarrow> bool" where
  "fragment_of n c nx k msg \<longleftrightarrow> k \<in> {1..n} \<and> skf_of msg = Some (nx, of_nat k, of_nat n, c k)"

lemma collect_duplicate:
  assumes "collecting n c mp K d" "K \<subseteq> {1..n}" "n \<le> 255" "k \<in> K"
    and "fragment_of n c nx k msg" "message_id d = message_id msg"
  shows "add_fragment_v2 now d msg = (NEED_MORE, d, msg)"
proof -
  have K: "finite K" "\<forall>x\<in>K. x < 256" and ne: "K \<noteq> {}"
    using assms by (auto intro: finite_subset)
  obtain fd where fd: "frag d = Some fd" "fragments d = Some (map (part c) (sorted_list_of_set K))"
    using assms(1) ne by (auto simp: collecting_def)
  show ?thesis
    using assms(5,6) add_fragment_dup [OF K assms(4) fd(2), of "c k"]
    by (subst add_fragment_v2_step [OF fd(1) _ _ u16_le_255 [OF assms(3)], of msg nx "of_nat k" "c k"])
       (auto simp: fragment_of_def prepare_started [OF assms(1) ne])
qed

lemma collect_new:
  assumes col: "collecting n c mp K d" and K: "K \<subseteq> {1..n}" "k \<notin> K" and n: "n \<le> 255"
    and sz: "(\<Sum>k\<in>{1..n}. length (c k)) \<le> mp"
    and msg: "fragment_of n c nx k msg" "message_id d = message_id msg"
  obtains d' msg' where "collecting n c mp (insert k K) d'" "message_id d' = message_id d"
    "first_payload d' = (if k = 1 then nx else first_payload d)"
    "add_fragment_v2 now d msg =
      (if insert k K = {1..n} then (SUCCESS, complete_message d' msg', msg')
       else (NEED_MORE, d', msg'))"
proof -
  have fin: "finite K" and lt: "\<forall>x\<in>K. x < 256" "k < 256" and k: "k \<in> {1..n}"
    using K msg n by (auto simp: fragment_of_def intro: finite_subset)
  obtain fd0 where fd0: "frag d = Some fd0"
    using col by (auto simp: collecting_def)
  let ?d = "prepare now (of_nat n) d"
  obtain fd where fd: "frag ?d = Some fd" "max_packet fd = mp"
    "fragments ?d = Some (map (part c) (sorted_list_of_set K))"
    "frag_last fd = of_nat n" "frag_len fd = (\<Sum>k\<in>K. length (c k))"
    "first_payload ?d = first_payload d" "message_id ?d = message_id d"
    using prepare_collecting [OF col] by blast
  have "(\<Sum>k\<in>insert k K. length (c k)) \<le> mp"
    using sum_mono2 [of "{1..n}" "insert k K" "\<lambda>k. length (c k)"] K k sz by simp
  then have add: "add_fragment ?d (of_nat k) (c k) =
      (SUCCESS, ?d\<lparr>frag := Some (fd\<lparr>frag_len := frag_len fd + length (c k)\<rparr>),
         fragments := Some (map (part c) (sorted_list_of_set (insert k K)))\<rparr>)" (is "_ = (_, ?d1)")
    using K fin by (intro add_fragment_sorted [OF fin lt K(2) fd(3,1)]) (simp add: fd add.commute)
  let ?d2 = "take_first msg nx (of_nat k) ?d1" and ?msg = "strip_first (of_nat k) msg"
  have "(of_nat k :: u16) = 1 \<longleftrightarrow> k = 1"
    using of_nat_u16_eq [of k 1] lt by simp
  then have d2: "collecting n c mp (insert k K) ?d2" "message_id ?d2 = message_id d"
    "first_payload ?d2 = (if k = 1 then nx else first_payload d)"
    using fin K fd by (auto simp: collecting_def take_first_def)
  have "card (insert k K) = n \<longleftrightarrow> insert k K = {1..n}"
    using card_subset_eq [of "{1..n}" "insert k K"] K k by (metis card_atLeastAtMost
        diff_Suc_1 finite_atLeastAtMost insert_subset)
  then have "received_count ?d2 = unat (of_nat n :: u16) \<longleftrightarrow> insert k K = {1..n}"
    using fin n K by (simp add: received_count_def take_first_def unat_of_nat_u16)
  moreover have "skf_of msg = Some (nx, of_nat k, of_nat n, c k)"
    using msg by (simp add: fragment_of_def)
  ultimately have "add_fragment_v2 now d msg =
      (if insert k K = {1..n} then (SUCCESS, complete_message ?d2 ?msg, ?msg)
       else (NEED_MORE, ?d2, ?msg))"
    using add_fragment_v2_step [OF fd0 _ msg(2) u16_le_255 [OF n], of nx "of_nat k" "c k" now]
    by (auto simp: add Let_def)
  then show ?thesis using that d2 by blast
qed

lemma complete_collected:
  assumes "collecting n c mp {1..n} d" "0 < n"
  shows "frag (complete_message d msg) = None"
    and "last (payloads (complete_message d msg)) = \<lparr>ptype = PLV2_ENCRYPTED,
        next_payload = first_payload d, pbody = EncBody (concat (map c [1..<Suc n])), protocol_id = 0\<rparr>"
proof -
  have "fragments d = Some (map (part c) [1..<Suc n])"
    using assms unfolding sorted_list_of_atLeastAtMost [symmetric] by (auto simp: collecting_def)
  then show "last (payloads (complete_message d msg)) = \<lparr>ptype = PLV2_ENCRYPTED,
        next_payload = first_payload d, pbody = EncBody (concat (map c [1..<Suc n])), protocol_id = 0\<rparr>"
    by (simp add: complete_message_def merge_fragments_def reset_defrag_def Let_def
        part_def comp_def del: upt_Suc)
qed (simp add: complete_message_def merge_fragments_def Let_def)

text \<open>Delivering a sequence of fragment messages to a reassembly, with the statuses returned.\<close>

fun deliver :: "int \<Rightarrow> private_message_t \<Rightarrow> private_message_t list \<Rightarrow> status_t list \<times> private_message_t" where
  "deliver now d [] = ([], d)"
| "deliver now d (m # ms) =
     (case add_fragment_v2 now d m of (st, d, _) \<Rightarrow>
        case deliver now d ms of (sts, d) \<Rightarrow> (st # sts, d))"

lemma deliver_incomplete:
  assumes "collecting n c mp K d" "K \<subseteq> {1..n}" "n \<le> 255" "(\<Sum>k\<in>{1..n}. length (c k)) \<le> mp"
    and "1 \<in> K \<longrightarrow> first_payload d = nx" "\<forall>(k, m)\<in>set kms. fragment_of n c (if k = 1 then nx else PL_NONE) k m \<and> message_id m = message_id d"
    and "K \<union> fst ` set kms \<noteq> {1..n}"
  shows "\<exists>d'. deliver now d (map snd kms) = (replicate (length kms) NEED_MORE, d') \<and>
    collecting n c mp (K \<union> fst ` set kms) d' \<and> message_id d' = message_id d \<and>
    (1 \<in> K \<union> fst ` set kms \<longrightarrow> first_payload d' = nx)"
  using assms(1,2,5,6,7)
proof (induction kms arbitrary: K d)
  case (Cons km kms)
  obtain k m where km: "km = (k, m)" by (cases km)
  let ?nx = "if k = 1 then nx else PL_NONE"
  have frg: "fragment_of n c ?nx k m" "message_id d = message_id m"
    using Cons.prems(4) by (auto simp: km)
  show ?case
  proof (cases "k \<in> K")
    case True
    then have "add_fragment_v2 now d m = (NEED_MORE, d, m)"
      using collect_duplicate [OF Cons.prems(1,2) assms(3) True frg] by blast
    then show ?thesis
      using Cons.IH [OF Cons.prems(1,2,3)] Cons.prems(4,5) True by (auto simp: km insert_absorb)
  next
    case False
    have "insert k K \<noteq> {1..n}"
      using Cons.prems(2,4,5) by (auto simp: km fragment_of_def)
    then obtain d' m' where d': "collecting n c mp (insert k K) d'" "message_id d' = message_id d"
      "first_payload d' = (if k = 1 then ?nx else first_payload d)"
      "add_fragment_v2 now d m = (NEED_MORE, d', m')"
      using collect_new [OF Cons.prems(1,2) False assms(3,4) frg, of now] by (metis (no_types, lifting))
    have "\<exists>d''. deliver now d' (map snd kms) = (replicate (length kms) NEED_MORE, d'') \<and>
      collecting n c mp (insert k K \<union> fst ` set kms) d'' \<and> message_id d'' = message_id d' \<and>
      (1 \<in> insert k K \<union> fst ` set kms \<longrightarrow> first_payload d'' = nx)"
      using Cons.prems d' frg by (intro Cons.IH) (auto simp: km fragment_of_def)
    then show ?thesis using d' by (auto simp: km)
  qed
qed simp

lemma skf_of_add_payload:
  assumes "PLV2_FRAGMENT \<notin> ptype ` set (payloads m)" "ptype p = PLV2_FRAGMENT"
    and "pbody p = FragV2Body num tot data"
  shows "skf_of (add_payload m p) = Some (next_payload p, num, tot, data)"
proof -
  have none: "\<forall>q\<in>set (payloads m). ptype q \<noteq> PLV2_FRAGMENT" using assms(1) by force
  have np: "set_next_type p PL_NONE = p"
    using assms(2,3) by (simp add: set_next_type_def frag_set_next_type_def)
  show ?thesis
  proof (cases "payloads m" rule: rev_cases)
    case Nil
    then show ?thesis using assms np by (simp add: add_payload_def skf_of_def get_payload_def)
  next
    case (snoc qs q)
    then have "List.find (\<lambda>p. ptype p = PLV2_FRAGMENT) (payloads (add_payload m p)) = Some p"
      using none assms np by (auto simp: add_payload_def find_append_notin)
    then show ?thesis using assms by (simp add: skf_of_def get_payload_def)
  qed
qed


lemma payloads_clone_message [simp]: "payloads (clone_message m) = []"
  by (simp add: clone_message_def message_create_from_packet_def)

lemma message_id_clone_message [simp]: "message_id (clone_message m) = message_id m"
  by (simp add: clone_message_def)

lemma message_id_add_payload [simp]: "message_id (add_payload m p) = message_id m"
  by (simp add: add_payload_def)

lemma message_id_foldl_add_payload [simp]: "message_id (foldl add_payload m ps) = message_id m"
  by (induction ps arbitrary: m) auto

lemma major_version_add_payload [simp]: "major_version (add_payload m p) = major_version m"
  by (simp add: add_payload_def)

lemma major_version_foldl_add_payload [simp]:
  "major_version (foldl add_payload m ps) = major_version m"
  by (induction ps arbitrary: m) auto

lemma major_version_clone_message [simp]: "major_version (clone_message m) = major_version m"
  by (simp add: clone_message_def)

lemma create_fragment_v2:
  assumes "major_version m \<noteq> 1" "PLV2_FRAGMENT \<notin> ptype ` set (payloads m)"
    and "create_fragment agg m nx num cnt data = (m', f)"
  shows "skf_of f = Some (if num = 1 then nx else PL_NONE, num, cnt, data)"
    and "message_id f = message_id m" "message_id m' = message_id m" "major_version m' = major_version m"
    and "major_version f = major_version m" "PLV2_FRAGMENT \<notin> ptype ` set (payloads m')"
proof -
  let ?p = "encrypted_fragment_payload_create_from_data num cnt data"
  show "skf_of f = Some (if num = 1 then nx else PL_NONE, num, cnt, data)"
  proof (cases "num = 1")
    case True
    let ?q = "set_next_type ?p nx"
    have q: "ptype ?q = PLV2_FRAGMENT" "pbody ?q = FragV2Body num cnt data" "next_payload ?q = nx"
      using True by (auto simp: encrypted_fragment_payload_create_from_data_def set_next_type_def
          frag_set_next_type_def)
    have "PLV2_FRAGMENT \<notin> ptype ` set (payloads (foldl add_payload (clone_message m)
        (filter (\<lambda>p. ptype p \<noteq> PLV2_ENCRYPTED) (payloads m))))"
      using assms(2) by (auto simp: types_foldl_add_payload)
    from skf_of_add_payload [OF this q(1,2)] show ?thesis
      using assms True q(3) by (auto simp: create_fragment_def Let_def)
  next
    case False
    then show ?thesis
      using assms skf_of_add_payload [of "clone_message m" ?p num cnt data]
      by (auto simp: create_fragment_def Let_def encrypted_fragment_payload_create_from_data_def)
  qed
qed (use assms in \<open>auto simp: create_fragment_def Let_def split: if_splits\<close>)

lemma split_loop_v2:
  assumes "0 < fl" "major_version m \<noteq> 1" "PLV2_FRAGMENT \<notin> ptype ` set (payloads m)"
    and "1 \<le> k" "k + length (chunks fl data) \<le> unat cnt + 1"
  shows "\<exists>m' ms. split_loop agg Some nx cnt fl m (of_nat k) data acc = (m', Some (acc @ ms)) \<and>
    length ms = length (chunks fl data) \<and>
    (\<forall>i<length ms. skf_of (ms ! i) = Some (if k + i = 1 then nx else PL_NONE, of_nat (k + i), cnt, chunks fl data ! i)
       \<and> message_id (ms ! i) = message_id m \<and> major_version (ms ! i) = major_version m)"
  using assms
proof (induction fl data arbitrary: m k acc rule: chunks.induct)
  case (1 fl data)
  show ?case
  proof (cases "data = []")
    case True
    then show ?thesis by (subst split_loop.simps) (simp add: Let_def)
  next
    case False
    have fl: "0 < fl" by (rule 1(2))
    have ch: "chunks fl data = take fl data # chunks fl (drop fl data)"
      using False fl by (rule chunks_unfold)
    have cnt: "unat cnt < 65536" using unsigned_less [of cnt] by simp
    then have k: "k < 65536" and le: "(of_nat k :: u16) \<le> cnt"
      using 1(6) ch by (auto simp: word_le_nat_alt unat_of_nat_u16)
    obtain m1 f where cf: "create_fragment agg m nx (of_nat k) cnt (take fl data) = (m1, f)"
      by fastforce
    note f = create_fragment_v2 [OF 1(3,4) cf]
    have k1: "(of_nat k :: u16) = 1 \<longleftrightarrow> k = 1" using of_nat_u16_eq [of k 1] k by simp
    obtain m' ms where IH: "split_loop agg Some nx cnt fl m1 (of_nat (Suc k)) (drop fl data) (acc @ [f]) =
        (m', Some ((acc @ [f]) @ ms))" "length ms = length (chunks fl (drop fl data))"
      "\<forall>i<length ms. skf_of (ms ! i) = Some (if Suc k + i = 1 then nx else PL_NONE, of_nat (Suc k + i), cnt,
          chunks fl (drop fl data) ! i) \<and> message_id (ms ! i) = message_id m1 \<and> major_version (ms ! i) = major_version m1"
      using "1.IH" [of m1 "Suc k" "acc @ [f]"] False fl f 1 ch by fastforce
    have "split_loop agg Some nx cnt fl m (of_nat k) data acc = (m', Some (acc @ f # ms))"
      using IH(1) le False fl cf by (subst split_loop.simps) (auto simp: Let_def min_def add.commute)
    moreover have "\<forall>i<length (f # ms). skf_of ((f # ms) ! i) = Some (if k + i = 1 then nx else PL_NONE, of_nat (k + i), cnt,
        chunks fl data ! i) \<and> message_id ((f # ms) ! i) = message_id m \<and> major_version ((f # ms) ! i) = major_version m"
      using IH(3) f k1 1(5) by (auto simp: ch nth_Cons split: nat.split)
    ultimately show ?thesis using IH(2) ch by fastforce
  qed
qed


lemma fragment_of_inj:
  "fragment_of n c nx k a \<Longrightarrow> fragment_of n c nx' k' a \<Longrightarrow> n \<le> 255 \<Longrightarrow> k = k'"
  using of_nat_u16_eq [of k k'] by (auto simp: fragment_of_def)

text \<open>What a split produces, as a set of fragments with their numbers.\<close>

lemma split_fragments:
  assumes m: "major_version m = 2" "PLV2_FRAGMENT \<notin> ptype ` set (payloads m)"
    and sizes: "0 < fl" "length (chunks fl data) \<le> 255"
    and split: "split_loop agg Some nx (fragment_count (length data) fl) fl m 1 data [] = (m', Some ms)"
  obtains idx where "idx ` set ms = {1..length (chunks fl data)}"
    "\<forall>a\<in>set ms. fragment_of (length (chunks fl data)) (\<lambda>k. chunks fl data ! (k - 1))
        (if idx a = 1 then nx else PL_NONE) (idx a) a \<and> message_id a = message_id m \<and> major_version a = 2"
    "inj_on idx (set ms)"
proof -
  let ?n = "length (chunks fl data)" and ?c = "\<lambda>k. chunks fl data ! (k - 1)"
  let ?nx = "\<lambda>k. if k = 1 then nx else PL_NONE"
  have "fragment_count (length data) fl = of_nat ?n"
    using sizes(1) by (simp add: fragment_count_def length_chunks)
  moreover have "unat (of_nat ?n :: u16) = ?n"
    using sizes(2) by (intro unat_of_nat_u16) simp
  ultimately have ms: "length ms = ?n"
      "\<And>i. i < ?n \<Longrightarrow> fragment_of ?n ?c (?nx (Suc i)) (Suc i) (ms ! i)"
      "\<And>i. i < ?n \<Longrightarrow> message_id (ms ! i) = message_id m \<and> major_version (ms ! i) = 2"
    using split_loop_v2 [OF sizes(1) _ m(2), of 1 data "of_nat ?n" agg nx "[]"] m split
    by (auto simp: fragment_of_def)
  then have "\<forall>a\<in>set ms. \<exists>k. fragment_of ?n ?c (?nx k) k a \<and> message_id a = message_id m \<and> major_version a = 2"
    by (metis in_set_conv_nth)
  then obtain idx where idx: "\<forall>a\<in>set ms. fragment_of ?n ?c (?nx (idx a)) (idx a) a \<and> message_id a = message_id m \<and> major_version a = 2"
    by metis
  have nth: "idx (ms ! i) = Suc i" if "i < ?n" for i
    using fragment_of_inj [OF _ ms(2) [OF that] sizes(2)] idx ms(1) that by force
  have "idx ` set ms = {1..?n}"
  proof
    show "idx ` set ms \<subseteq> {1..?n}" using idx by (auto simp: fragment_of_def)
    show "{1..?n} \<subseteq> idx ` set ms"
    proof
      fix k assume "k \<in> {1..?n}"
      then have "idx (ms ! (k - 1)) = k" "ms ! (k - 1) \<in> set ms"
        using nth [of "k - 1"] ms(1) by auto
      then show "k \<in> idx ` set ms" by (metis imageI)
    qed
  qed
  moreover have "inj_on idx (set ms)"
    using nth ms(1) by (auto simp: inj_on_def in_set_conv_nth)
  ultimately show ?thesis using that idx by blast
qed

lemma defrag_starts:
  assumes "message_create_defrag mp tmo f = Some d" "major_version f = 2"
  shows "collecting n c mp {} d" "message_id d = message_id f"
  using assms by (auto simp: message_create_defrag_def Let_def collecting_def clone_message_def
      message_create_from_packet_def split: if_splits)

text \<open>
  C1. IKEv2 fragmentation and reassembly are inverse under any arrival order.
\<close>

theorem fragment_reassemble_any_order:
  assumes "major_version m = 2" "PLV2_FRAGMENT \<notin> ptype ` set (payloads m)"
    and sizes: "0 < fl" "length (chunks fl data) \<le> 255" "length data \<le> max_pkt"
    and "split_loop agg Some nx (fragment_count (length data) fl) fl m 1 data [] = (m', Some ms)"
    and arrive: "set arrivals \<union> {x} = set ms" "x \<notin> set arrivals"
    and d: "message_create_defrag max_pkt tmo (hd (arrivals @ [x])) = Some d"
  shows "\<exists>d1 d2 x'. deliver now d arrivals = (replicate (length arrivals) NEED_MORE, d1) \<and>
    add_fragment_v2 now d1 x = (SUCCESS, d2, x') \<and> frag d2 = None \<and>
    last (payloads d2) = \<lparr>ptype = PLV2_ENCRYPTED, next_payload = nx, pbody = EncBody data, protocol_id = 0\<rparr>"
proof -
  let ?n = "length (chunks fl data)" and ?c = "\<lambda>k. chunks fl data ! (k - 1)"
  let ?nx = "\<lambda>k. if k = 1 then nx else PL_NONE"
  obtain idx where idx: "idx ` set ms = {1..?n}"
    "\<forall>a\<in>set ms. fragment_of ?n ?c (?nx (idx a)) (idx a) a \<and> message_id a = message_id m \<and>
       major_version a = 2"
    "inj_on idx (set ms)"
    by (rule split_fragments [OF assms(1,2) sizes(1,2) assms(6)])
  let ?K = "idx ` set arrivals" and ?kms = "map (\<lambda>a. (idx a, a)) arrivals"
  have mem: "x \<in> set ms" "set arrivals \<subseteq> set ms" using arrive(1) by auto
  have "insert (idx x) ?K = idx ` (set arrivals \<union> {x})" by blast
  then have K: "insert (idx x) ?K = {1..?n}" "idx x \<notin> ?K" "?K \<subseteq> {1..?n}"
    using arrive(2) image_mono [OF mem(2), of idx]
    by (simp_all only: arrive(1) idx(1) inj_on_image_mem_iff [OF idx(3) mem] not_False_eq_True)
  have sum: "(\<Sum>k\<in>{1..?n}. length (?c k)) \<le> max_pkt"
    using sum_parts [of "chunks fl data"] sizes by (simp add: concat_chunks)
  have hd: "hd (arrivals @ [x]) \<in> set ms"
    using arrive by (cases arrivals) auto
  have start: "collecting ?n ?c max_pkt {} d" "message_id d = message_id m"
    using defrag_starts [OF d] hd idx(2) by auto
  have kms: "\<forall>(k, m)\<in>set ?kms. fragment_of ?n ?c (?nx k) k m \<and> message_id m = message_id d"
    using idx(2) mem(2) start(2) by (simp add: subset_iff)
  have "{} \<union> fst ` set ?kms \<noteq> {1..?n}"
    using K by (auto simp: image_image)
  from deliver_incomplete [OF start(1) _ sizes(2) sum _ kms this, of now]
  have "\<exists>d1. deliver now d (map snd ?kms) = (replicate (length ?kms) NEED_MORE, d1) \<and>
    collecting ?n ?c max_pkt ({} \<union> fst ` set ?kms) d1 \<and> message_id d1 = message_id d \<and>
    (1 \<in> {} \<union> fst ` set ?kms \<longrightarrow> first_payload d1 = nx)"
    by blast
  then obtain d1 where d1: "deliver now d arrivals = (replicate (length arrivals) NEED_MORE, d1)"
    "collecting ?n ?c max_pkt ?K d1" "message_id d1 = message_id d" "1 \<in> ?K \<longrightarrow> first_payload d1 = nx"
    by (auto simp: comp_def image_image)
  have x: "fragment_of ?n ?c (?nx (idx x)) (idx x) x" "message_id d1 = message_id x"
    using idx(2) mem d1(3) start hd by auto
  obtain d2 x' where d2: "collecting ?n ?c max_pkt {1..?n} d2"
    "first_payload d2 = (if idx x = 1 then ?nx (idx x) else first_payload d1)"
    "add_fragment_v2 now d1 x = (SUCCESS, complete_message d2 x', x')"
    using collect_new [OF d1(2) K(3,2) sizes(2) sum x, of now] K(1) by metis
  have "0 < ?n" using K by auto
  then have "1 \<in> insert (idx x) ?K" unfolding K(1) by (simp add: Suc_le_eq)
  then have "first_payload d2 = nx" using d1(4) d2(2) by auto
  moreover have "concat (map ?c [1..<Suc ?n]) = data"
    unfolding map_nth_from_1 by (rule concat_chunks [OF sizes(1)])
  ultimately have "frag (complete_message d2 x') = None"
    "last (payloads (complete_message d2 x')) =
       \<lparr>ptype = PLV2_ENCRYPTED, next_payload = nx, pbody = EncBody data, protocol_id = 0\<rparr>"
    using complete_collected [OF d2(1) \<open>0 < ?n\<close>, of x'] by simp_all
  then show ?thesis using d1(1) d2(3) by blast
qed

section \<open>The invariant of a reassembly\<close>

text \<open>
  The state a reassembly keeps: the collected fragments are strictly ordered by number and numbered
  between 1 and the announced total, the total is at most 255, and the length counter is the amount
  of buffered data, which stays within the configured packet size.
\<close>

definition defrag_inv :: "private_message_t \<Rightarrow> bool" where
  "defrag_inv d \<longleftrightarrow>
     (case (frag d, fragments d) of
        (Some fd, Some fs) \<Rightarrow>
          sorted_wrt (<) (map frag_num fs) \<and>
          (\<forall>f\<in>set fs. 1 \<le> frag_num f \<and> ucast (frag_num f) \<le> frag_last fd) \<and>
          frag_last fd \<le> MAX_FRAGMENTS \<and>
          frag_len fd = sum_list (map (length \<circ> frag_data) fs) \<and> frag_len fd \<le> max_packet fd
      | (None, Some fs) \<Rightarrow> False
      | _ \<Rightarrow> True)"

lemma find_slot_split:
  assumes "find_slot fs num i = Some j" "sorted_wrt (<) (map frag_num fs)"
  shows "\<exists>as bs. fs = as @ bs \<and> (\<forall>a\<in>set as. ucast (frag_num a) < num) \<and>
     (\<forall>b\<in>set bs. num < ucast (frag_num b)) \<and> (j = -1 \<and> bs = [] \<or> j = i + int (length as))"
  using assms
proof (induction fs num i rule: find_slot.induct)
  case (2 f fs num i)
  show ?case
  proof (cases "ucast (frag_num f) > num")
    case True
    have "\<forall>b\<in>set fs. frag_num f < frag_num b" using 2 by simp
    then have "\<forall>b\<in>set (f # fs). num < ucast (frag_num b)"
      using True by (auto simp: word_less_nat_alt)
    then show ?thesis using 2 True by (intro exI [of _ "[]"] exI [of _ "f # fs"]) (auto split: if_splits)
  next
    case False
    then obtain as bs where "fs = as @ bs" "\<forall>a\<in>set as. ucast (frag_num a) < num"
      "\<forall>b\<in>set bs. num < ucast (frag_num b)" "j = -1 \<and> bs = [] \<or> j = i + 1 + int (length as)"
      using 2 by (auto split: if_splits)
    then show ?thesis using 2 False
      by (intro exI [of _ "f # as"] exI [of _ bs]) (auto split: if_splits simp: not_less order_le_less)
  qed
qed simp

lemma seq_insert_split:
  "j = -1 \<and> bs = [] \<or> j = int (length as) \<Longrightarrow> seq_insert (as @ bs) j x = as @ x # bs"
  by (auto simp: seq_insert_def)

lemma add_fragment_inv:
  assumes "defrag_inv d" "frag d = Some fd" "fragments d = Some fs" "1 \<le> num" "num \<le> frag_last fd"
    and "add_fragment d num data = (st, d')"
  shows "defrag_inv d'"
proof (cases "find_slot fs num 0")
  case (Some j)
  have srt: "sorted_wrt (<) (map frag_num fs)" "\<forall>f\<in>set fs. 1 \<le> frag_num f \<and> ucast (frag_num f) \<le> frag_last fd"
    and len: "frag_len fd = sum_list (map (length \<circ> frag_data) fs)" "frag_len fd \<le> max_packet fd"
      "frag_last fd \<le> MAX_FRAGMENTS"
    using assms(1-3) by (auto simp: defrag_inv_def)
  obtain as bs where split: "fs = as @ bs" "\<forall>a\<in>set as. ucast (frag_num a) < num"
     "\<forall>b\<in>set bs. num < ucast (frag_num b)" "j = -1 \<and> bs = [] \<or> j = int (length as)"
    using find_slot_split [OF Some srt(1)] by auto
  let ?f = "\<lparr>frag_num = ucast num, frag_data = data\<rparr>"
  have "seq_insert fs j ?f = as @ ?f # bs"
    unfolding split(1) by (rule seq_insert_split) (use split(4) in auto)
  moreover have "unat num < 256"
    using assms(5) len(3) by (simp add: word_le_nat_alt)
  then have num: "unat (ucast num :: u8) = unat num"
    by (rule unat_ucast_u16_u8)
  then have "sorted_wrt (<) (map frag_num (as @ ?f # bs))"
    using srt split by (auto simp: sorted_wrt_append word_less_nat_alt)
  moreover have "1 \<le> (ucast num :: u8)" "ucast (ucast num :: u8) \<le> frag_last fd"
    using assms(4,5) num by (auto simp: word_le_nat_alt)
  ultimately show ?thesis
    using assms Some len srt(2) split(1)
    by (auto simp: add_fragment_def defrag_inv_def reset_defrag_def Let_def split: if_splits)
qed (use assms in \<open>auto simp: add_fragment_def\<close>)

lemma defrag_inv_cong:
  "frag d = frag d' \<Longrightarrow> fragments d = fragments d' \<Longrightarrow> defrag_inv d = defrag_inv d'"
  by (simp add: defrag_inv_def)

lemma prepare_inv:
  assumes "defrag_inv d" "frag d = Some fd0" "tot \<le> MAX_FRAGMENTS"
  obtains fd fs where "defrag_inv (prepare now tot d)" "frag (prepare now tot d) = Some fd"
    "fragments (prepare now tot d) = Some fs" "tot \<le> frag_last fd"
proof (cases "fragments d = None \<or> tot > frag_last fd0")
  case True
  then show ?thesis
    using assms that by (auto simp: prepare_def Let_def defrag_inv_def)
next
  case False
  then show ?thesis
    using assms that by (auto simp: prepare_def Let_def)
qed

lemma defrag_inv_take_first [simp]: "defrag_inv (take_first msg nx num d) = defrag_inv d"
  by (rule defrag_inv_cong) (simp_all add: take_first_def)

lemma defrag_inv_complete [simp]: "defrag_inv (complete_message d msg)"
  by (simp add: defrag_inv_def complete_message_def merge_fragments_def reset_defrag_def Let_def)

lemma add_fragment_v2_inv:
  assumes "defrag_inv d" "skf_of msg = Some (nx, num, tot, data)" "1 \<le> num" "num \<le> tot"
    and "add_fragment_v2 now d msg = (st, d', msg')"
  shows "defrag_inv d'"
proof (cases "frag d = None \<or> message_id d \<noteq> message_id msg \<or> tot > MAX_FRAGMENTS")
  case True
  have "defrag_inv (reset_defrag d)" by (simp add: defrag_inv_def reset_defrag_def split: option.splits)
  with True assms(1,2,5) show ?thesis
    by (auto simp: add_fragment_v2_def skf_of_def split: option.splits payload_body.splits if_splits)
next
  case False
  then obtain fd0 where fd0: "frag d = Some fd0" and tot: "tot \<le> MAX_FRAGMENTS" by auto
  obtain fd fs where p: "defrag_inv (prepare now tot d)" "frag (prepare now tot d) = Some fd"
    "fragments (prepare now tot d) = Some fs" "tot \<le> frag_last fd"
    by (rule prepare_inv [OF assms(1) fd0 tot])
  obtain st1 d1 where add: "add_fragment (prepare now tot d) num data = (st1, d1)" by fastforce
  then have "defrag_inv d1"
    using add_fragment_inv [OF p(1-3) assms(3)] assms(4) p(4) by (meson order_trans)
  then show ?thesis
    using add_fragment_v2_step [OF fd0 assms(2) _ tot, of now] assms(5) add False
    by (auto simp: Let_def split: if_splits)
qed

lemma sorted_bytes_bound:
  assumes "sorted_wrt (<) (map frag_num fs)" "\<forall>f\<in>set fs. 1 \<le> frag_num f \<and> ucast (frag_num f) \<le> (l :: u16)"
  shows "length fs \<le> unat l"
proof -
  have "inj_on (unat \<circ> frag_num) (set fs)" "distinct fs"
    using assms(1) by (auto simp: inj_on_def strict_sorted_iff distinct_map word_unat_eq_iff [symmetric])
  then have "length fs = card ((unat \<circ> frag_num) ` set fs)"
    by (metis card_image distinct_card)
  also have "(unat \<circ> frag_num) ` set fs \<subseteq> {1..unat l}"
    using assms(2) by (auto simp: word_le_nat_alt)
  then have "card ((unat \<circ> frag_num) ` set fs) \<le> unat l"
    using card_mono [of "{1..unat l}"] by fastforce
  finally show ?thesis .
qed

lemma defrag_inv_count:
  assumes "defrag_inv d"
  shows "received_count d \<le> 255"
proof (cases "fragments d")
  case (Some fs)
  then obtain fd where "frag d = Some fd" using assms by (auto simp: defrag_inv_def split: option.splits)
  then have "length fs \<le> unat (frag_last fd)" "frag_last fd \<le> 255"
    using sorted_bytes_bound [of fs "frag_last fd"] assms Some by (auto simp: defrag_inv_def)
  then show ?thesis using Some by (simp add: received_count_def word_le_nat_alt)
qed (simp add: received_count_def)

text \<open>
  C4. Memory safety of IKEv2 reassembly: whatever sequence of verified fragments arrives, duplicates,
  changed totals and oversized data included, the buffered data never exceeds the configured packet
  size, at most 255 fragments are kept, they are strictly ordered by number and never numbered beyond
  the announced total.
\<close>

theorem reassembly_bounded:
  assumes "message_create_defrag max_pkt tmo f = Some d"
    and "\<forall>m\<in>set ms. \<forall>p. get_payload m PLV2_FRAGMENT = Some p \<longrightarrow> fst (frag_verify p) = SUCCESS"
  shows "defrag_inv (snd (deliver now d ms)) \<and> received_count (snd (deliver now d ms)) \<le> 255"
proof -
  have "defrag_inv d"
    using assms(1) by (auto simp: message_create_defrag_def Let_def defrag_inv_def clone_message_def
      message_create_from_packet_def split: if_splits)
  then have "defrag_inv (snd (deliver now d ms))"
    using assms(2)
  proof (induction ms arbitrary: d)
    case (Cons m ms)
    obtain st d' m' where step: "add_fragment_v2 now d m = (st, d', m')" by (metis prod_cases3)
    have "defrag_inv d'"
    proof (cases "skf_of m")
      case None
      then have "d' = d"
        using step by (auto simp: add_fragment_v2_def skf_of_def split: option.splits payload_body.splits if_splits)
      then show ?thesis using Cons.prems by simp
    next
      case (Some s)
      obtain nx num tot data where s: "skf_of m = Some (nx, num, tot, data)"
        using Some by (metis prod_cases4)
      then have "num \<noteq> 0 \<and> num \<le> tot"
        using Cons.prems(2) by (auto simp: skf_of_def frag_verify_def not_less
            split: option.splits payload_body.splits if_splits)
      then have "1 \<le> num" "num \<le> tot"
        by (auto simp: word_le_nat_alt unat_gt_0 Suc_le_eq)
      then show ?thesis using add_fragment_v2_inv [OF Cons.prems(1) s _ _ step] by blast
    qed
    then show ?case using Cons step by (simp add: split_def)
  qed simp
  then show ?thesis by (simp add: defrag_inv_count)
qed

definition sample_fragment :: "u16 \<Rightarrow> u16 \<Rightarrow> bytes \<Rightarrow> private_message_t" where
  "sample_fragment num tot data =
     (message_create 2 0)\<lparr>payloads := [encrypted_fragment_payload_create_from_data num tot data]\<rparr>"

lemma get_payload_sample [simp]: "get_payload (sample_fragment num tot data) PLV2_FRAGMENT =
    Some (encrypted_fragment_payload_create_from_data num tot data)"
  by (simp add: sample_fragment_def get_payload_def encrypted_fragment_payload_create_from_data_def)

definition sample_defrag :: "private_message_t" where
  "sample_defrag = the (message_create_defrag 3 5 (sample_fragment 1 3 []))"

lemma sample_defrag: "message_create_defrag 3 5 (sample_fragment 1 3 []) = Some sample_defrag"
  by (simp add: sample_defrag_def message_create_defrag_def Let_def)

definition sample_collecting :: "private_message_t" where
  "sample_collecting = sample_defrag\<lparr>fragments := Some [\<lparr>frag_num = 2, frag_data = [9]\<rparr>],
     frag := Some \<lparr>frag_last = 3, frag_len = 1, max_packet = 2, first_received_time = 4,
                   fragment_timeout = 5\<rparr>\<rparr>"

lemma sample_collecting:
  "frag sample_collecting = Some \<lparr>frag_last = 3, frag_len = 1, max_packet = 2,
     first_received_time = 4, fragment_timeout = 5\<rparr>"
  "fragments sample_collecting = Some [\<lparr>frag_num = 2, frag_data = [9]\<rparr>]"
  "message_id sample_collecting = message_id (sample_fragment num tot data)"
  using defrag_starts(2) [OF sample_defrag]
  by (simp_all add: sample_collecting_def sample_fragment_def message_create_def
      message_create_from_packet_def)

lemma skf_of_sample: "skf_of (sample_fragment num tot data) = Some (PL_NONE, num, tot, data)"
  by (simp add: skf_of_def encrypted_fragment_payload_create_from_data_def)

theorem reassembly_bounded_witness:
  "defrag_inv (snd (deliver 7 sample_defrag [sample_fragment 2 3 [1, 2], sample_fragment 1 3 [3, 4]]))"
  using reassembly_bounded [OF sample_defrag,
      of "[sample_fragment 2 3 [1, 2], sample_fragment 1 3 [3, 4]]" 7]
  by (simp add: frag_verify_def encrypted_fragment_payload_create_from_data_def)

section \<open>Progress queries\<close>

interpretation received: bitset "\<lambda>bm. length bm = Suc (unat lst)" "\<lambda>i. i \<le> unat (lst :: u16)"
  "replicate (Suc (unat lst)) False" "\<lambda>i bm. if i \<le> unat lst then bm[i := True] else bm"
  "\<lambda>bm i. bm ! i" for lst
  by unfold_locales (auto simp: nth_list_update simp del: replicate_Suc)

lemma received_bitmap_nth:
  assumes "i \<le> unat lst"
  shows "received_bitmap lst fs ! i \<longleftrightarrow> (\<exists>f\<in>set fs. unat (frag_num f) = i)"
proof -
  have "received_bitmap lst fs =
      fold (\<lambda>i bm. if i \<le> unat lst then bm[i := True] else bm) (map (unat \<circ> frag_num) fs)
        (replicate (Suc (unat lst)) False)"
    by (simp add: received_bitmap_def foldl_conv_fold fold_map comp_def word_le_nat_alt)
  then show ?thesis using received.mem_fold [OF assms] by auto
qed

text \<open>
  \<^verbatim>\<open>get_missing_fragments\<close> returns, in increasing order and without repetition, exactly the numbers
  from 1 to the announced total of which no fragment has been received.
\<close>

lemma missing_fragments_exact:
  assumes "frag d = Some fd" "fragments d = Some fs"
  shows "sorted_wrt (<) (get_missing_fragments d) \<and>
    set (get_missing_fragments d) = {1..unat (get_total_fragments d)} - unat ` set (get_received_fragments d)"
proof -
  have "get_missing_fragments d =
      filter (\<lambda>i. i \<notin> unat ` frag_num ` set fs) [1..<Suc (unat (frag_last fd))]"
    using assms by (auto simp: get_missing_fragments_def received_bitmap_nth Let_def
        simp del: upt_Suc intro!: filter_cong)
  then show ?thesis
    using assms by (auto simp: get_total_fragments_def get_received_fragments_def image_image
        sorted_wrt_filter simp del: upt_Suc)
qed

lemma missing_fragments_exact_witness:
  "set (get_missing_fragments sample_collecting) = {1, 3}"
proof -
  have "get_total_fragments sample_collecting = 3" "get_received_fragments sample_collecting = [2]"
    by (simp_all add: get_total_fragments_def get_received_fragments_def sample_collecting(1,2))
  then have "set (get_missing_fragments sample_collecting) = {1..3} - {2}"
    using missing_fragments_exact [OF sample_collecting(1,2)] by simp
  also have "{1..3} - {2} = {1, 3 :: nat}"
    by (rule set_eqI) (simp, presburger)
  finally show ?thesis .
qed

text \<open>
  An oversized reassembly is dropped: a new, verified fragment whose data does not fit into the
  configured packet size is answered with FAILED, all fragments collected so far are forgotten, and
  the reassembly starts over with the next fragment.
\<close>

lemma reassembly_over_limit:
  assumes "frag d = Some fd" "fragments d = Some fs" "tot \<le> frag_last fd" "tot \<le> MAX_FRAGMENTS"
    and "skf_of msg = Some (nx, num, tot, data)" "message_id d = message_id msg"
    and "num \<notin> ucast ` frag_num ` set fs"
    and "frag_len fd + length data > max_packet fd"
  shows "\<exists>d'. add_fragment_v2 now d msg = (FAILED, d', msg) \<and> fragments d' = None \<and>
    frag d' = Some (fd\<lparr>frag_last := 0, frag_len := 0\<rparr>)"
proof -
  have "prepare now tot d = d"
    using assms(1-3) by (simp add: prepare_def Let_def not_less)
  moreover have "\<exists>j. find_slot fs num i = Some j" for i
    using assms(7) by (induction fs num i rule: find_slot.induct) auto
  then obtain j where "find_slot fs num 0 = Some j" by blast
  then have "add_fragment d num data =
      (FAILED, reset_defrag (d\<lparr>frag := Some (fd\<lparr>frag_len := frag_len fd + length data\<rparr>)\<rparr>))"
    using assms(1,2,8) by (simp add: add_fragment_def Let_def)
  ultimately show ?thesis
    using add_fragment_v2_step [OF assms(1,5,6,4), of now] by (simp add: reset_defrag_def)
qed

lemma reassembly_over_limit_witness:
  "\<exists>d'. add_fragment_v2 9 sample_collecting (sample_fragment 1 3 [7, 8])
    = (FAILED, d', sample_fragment 1 3 [7, 8]) \<and> fragments d' = None"
  using reassembly_over_limit [OF sample_collecting(1,2) _ _ skf_of_sample sample_collecting(3),
      of 3 1 "[7, 8]" 9]
  by auto

definition sample_message :: "private_message_t" where
  "sample_message = (message_create 2 0)\<lparr>payloads := [sample_payload PLV2_NOTIFY COOKIE]\<rparr>"

definition sample_split :: "private_message_t list" where
  "sample_split =
     (case create_fragment False sample_message PLV2_NONCE 1 2 [1, 2] of
        (m1, f1) \<Rightarrow> [f1, snd (create_fragment False m1 PLV2_NONCE 2 2 [3])])"

lemma split_loop_sample:
  "\<exists>m'. split_loop False Some PLV2_NONCE 2 2 sample_message 1 [1, 2, 3] [] = (m', Some sample_split)"
  by (subst split_loop.simps, simp add: Let_def split_def, subst split_loop.simps,
      simp add: Let_def split_def, subst split_loop.simps, simp add: sample_split_def split_def)

theorem fragment_reassemble_any_order_witness:
  "\<exists>d d1 d2 x'. message_create_defrag 10 5 (sample_split ! 1) = Some d \<and>
     deliver 7 d [sample_split ! 1, sample_split ! 1] = ([NEED_MORE, NEED_MORE], d1) \<and>
     add_fragment_v2 7 d1 (sample_split ! 0) = (SUCCESS, d2, x') \<and>
     last (payloads d2) = \<lparr>ptype = PLV2_ENCRYPTED, next_payload = PLV2_NONCE, pbody = EncBody [1, 2, 3], protocol_id = 0\<rparr>"
proof -
  have m: "major_version sample_message = 2" "PLV2_FRAGMENT \<notin> ptype ` set (payloads sample_message)"
    by (simp_all add: sample_message_def message_create_def message_create_from_packet_def sample_payload_def)
  obtain m1 f1 where c1: "create_fragment False sample_message PLV2_NONCE 1 2 [1, 2] = (m1, f1)"
    by fastforce
  obtain m2 f2 where c2: "create_fragment False m1 PLV2_NONCE 2 2 [3] = (m2, f2)"
    by fastforce
  note v1 = create_fragment_v2 [OF _ m(2) c1] and v2 = create_fragment_v2 [OF _ _ c2]
  have f: "sample_split = [f1, f2]" "f1 \<noteq> f2" "get_payload f2 PLV2_FRAGMENT \<noteq> None"
    using v1 v2 m by (auto simp: sample_split_def c1 c2 skf_of_def split: option.splits)
  obtain m' where split: "split_loop False Some PLV2_NONCE (fragment_count (length [1, 2, 3 :: u8]) 2) 2
      sample_message 1 [1, 2, 3] [] = (m', Some sample_split)"
    using split_loop_sample by (auto simp: fragment_count_def)
  obtain d where d: "message_create_defrag 10 5 f2 = Some d"
    using f by (auto simp: message_create_defrag_def Let_def)
  have "{f2} \<union> {f1} = set sample_split" unfolding f(1) by auto
  then obtain d1 d2 x' where "deliver 7 d [f2, f2] = ([NEED_MORE, NEED_MORE], d1)"
    "add_fragment_v2 7 d1 f1 = (SUCCESS, d2, x')"
    "last (payloads d2) = \<lparr>ptype = PLV2_ENCRYPTED, next_payload = PLV2_NONCE, pbody = EncBody [1, 2, 3], protocol_id = 0\<rparr>"
    using fragment_reassemble_any_order [OF m _ _ _ split, of 10 "[f2, f2]" f1 5 d 7] f(2) d
    by (auto simp: chunks.simps simp del: deliver.simps)
  then show ?thesis
    using d unfolding f(1) nth_Cons_0 One_nat_def nth_Cons_Suc by blast
qed

end
