(* ===== verification/Fragment_Ack.thy ===== *)
theory Fragment_Ack
  imports Reassembly
begin

text \<open>
  Fragment trackers and fragment acknowledgements of
  \<^verbatim>\<open>src/src/libcharon/sa/ikev2/task_manager_v2.c\<close>: the sender keeps one tracker per fragmented
  message, the receiver reports the fragments it holds in the bitmap of a FRAGMENT_ACK notify, and the
  sender marks the reported fragments. \<open>be\<close> tells whether the host is big endian: it determines
  \<^verbatim>\<open>htons\<close>/\<^verbatim>\<open>ntohs\<close> and the layout of a \<^verbatim>\<open>uint16_t\<close> in memory.
\<close>

section \<open>Host and network byte order\<close>

definition htons :: "bool \<Rightarrow> u16 \<Rightarrow> u16" where
  "htons be x = (if be then x else push_bit 8 x OR drop_bit 8 x)"

definition ntohs :: "bool \<Rightarrow> u16 \<Rightarrow> u16" where
  "ntohs be x = htons be x"

definition u16_store :: "bool \<Rightarrow> u16 \<Rightarrow> bytes" where
  "u16_store be x = (if be then [ucast (drop_bit 8 x), ucast x] else [ucast x, ucast (drop_bit 8 x)])"

definition u16_load :: "bool \<Rightarrow> u8 \<Rightarrow> u8 \<Rightarrow> u16" where
  "u16_load be a b =
     (if be then push_bit 8 (ucast a) OR ucast b else push_bit 8 (ucast b) OR ucast a)"

section \<open>Trackers\<close>

record fragment_state_t =
  fragment_id :: u16
  fs_packet :: packet_t
  acknowledged :: bool
  last_sent :: int
  fs_retransmit_count :: u32
  data_size :: u32
  total_transmitted :: u32

record fragment_tracker_t =
  trk_message_id :: u32
  trk_fragments :: "fragment_state_t list"
  total_fragments :: u16
  acked_fragments :: u16
  last_ack_time :: int
  selective_retransmission_supported :: bool
  total_original_size :: u32
  total_transmitted_size :: u32
  retransmission_count :: u32

text \<open>The wire format of an acknowledgement; the fields hold values in network byte order.\<close>

record fragment_ack_data_t =
  ack_message_id :: u16
  ack_total_fragments :: u16
  ack_received_count :: u16
  ack_bitmap :: "u16 list"

definition packet_len :: "packet_t \<Rightarrow> u32" where
  "packet_len p = of_nat (case pkt_data p of None \<Rightarrow> 0 | Some d \<Rightarrow> length d)"

definition create_fragment_tracker :: "int \<Rightarrow> u32 \<Rightarrow> u16 \<Rightarrow> fragment_tracker_t" where
  "create_fragment_tracker now mid tot =
     \<lparr>trk_message_id = mid, trk_fragments = [], total_fragments = tot,
      acked_fragments = 0, last_ack_time = now, selective_retransmission_supported = False,
      total_original_size = 0, total_transmitted_size = 0, retransmission_count = 0\<rparr>"

definition add_fragment_to_tracker :: "int \<Rightarrow> fragment_tracker_t \<Rightarrow> u16 \<Rightarrow> packet_t \<Rightarrow> fragment_tracker_t" where
  "add_fragment_to_tracker now tracker fid pkt =
     (let sz = packet_len pkt;
          fragment = \<lparr>fragment_id = fid, fs_packet = pkt, acknowledged = False, last_sent = now,
                      fs_retransmit_count = 0, data_size = sz, total_transmitted = 0\<rparr>
      in tracker\<lparr>trk_fragments := seq_insert (trk_fragments tracker) (-1) fragment,
                 total_original_size := total_original_size tracker + sz\<rparr>)"

text \<open>The loop of \<^verbatim>\<open>generate_message\<close> that numbers the packets of a message and adds them.\<close>

fun track_packets :: "int \<Rightarrow> fragment_tracker_t \<Rightarrow> u16 \<Rightarrow> packet_t list \<Rightarrow> fragment_tracker_t" where
  "track_packets now tracker fid [] = tracker"
| "track_packets now tracker fid (p # ps) =
     track_packets now (add_fragment_to_tracker now tracker fid p) (fid + 1) ps"

definition find_fragment_in_tracker :: "fragment_tracker_t \<Rightarrow> u16 \<Rightarrow> fragment_state_t option" where
  "find_fragment_in_tracker tracker fid =
     List.find (\<lambda>f. fragment_id f = fid) (trk_fragments tracker)"

section \<open>Acknowledgement bitmaps\<close>

definition is_acked_in :: "bool \<Rightarrow> u16 list \<Rightarrow> u16 \<Rightarrow> bool" where
  "is_acked_in be bitmap fid \<longleftrightarrow>
     fid > 0 \<and> fid \<le> 64 \<and>
     (let bitmap_index = unat ((fid - 1) div 16);
          bit_position = unat ((fid - 1) mod 16);
          bitmap_value = ntohs be (bitmap ! bitmap_index)
      in bitmap_value AND push_bit bit_position 1 \<noteq> 0)"

definition set_ack_bit :: "bool \<Rightarrow> u16 \<Rightarrow> u16 list \<Rightarrow> u16 list" where
  "set_ack_bit be fid bitmap =
     (if fid > 0 \<and> fid \<le> 64
      then let bitmap_index = unat ((fid - 1) div 16);
               bit_position = unat ((fid - 1) mod 16)
           in bitmap[bitmap_index := bitmap ! bitmap_index OR htons be (push_bit bit_position 1)]
      else bitmap)"

text \<open>The enumeration of \<^verbatim>\<open>update_fragment_ack_status\<close>: cumulative, never un-acknowledging.\<close>

fun ack_fragments :: "bool \<Rightarrow> u16 list \<Rightarrow> fragment_state_t list \<Rightarrow> u16 \<Rightarrow> fragment_state_t list \<times> u16" where
  "ack_fragments be bitmap [] acked = ([], acked)"
| "ack_fragments be bitmap (f # fs) acked =
     (let (f, acked) =
            (if is_acked_in be bitmap (fragment_id f) \<and> \<not> acknowledged f
             then (f\<lparr>acknowledged := True\<rparr>, acked + 1) else (f, acked));
          (fs, acked) = ack_fragments be bitmap fs acked
      in (f # fs, acked))"

definition update_fragment_ack_status ::
    "bool \<Rightarrow> int \<Rightarrow> fragment_tracker_t \<Rightarrow> fragment_ack_data_t \<Rightarrow> fragment_tracker_t" where
  "update_fragment_ack_status be now tracker ack =
     (let (fs, acked) = ack_fragments be (ack_bitmap ack) (trk_fragments tracker) (acked_fragments tracker)
      in tracker\<lparr>trk_fragments := fs, acked_fragments := acked, last_ack_time := now\<rparr>)"

text \<open>
  The data of the acknowledgement that \<^verbatim>\<open>send_immediate_fragment_ack\<close> builds from the state of the
  reassembly and the number of the fragment just received. \<open>frags = None\<close> is the NULL pointer.
\<close>

definition build_fragment_ack :: "bool \<Rightarrow> private_message_t \<Rightarrow> u32 \<Rightarrow> u16 \<Rightarrow> fragment_ack_data_t" where
  "build_fragment_ack be defrag mid fragment_number =
     (let tot = get_total_fragments defrag;
          received = get_received_fragments defrag;
          cnt = of_nat (length received) :: u16;
          frags = (if received = [] then None else Some received);
          (tot, cnt, frags, reassembled) =
            (if cnt = 0 \<and> tot = 0
             then (fragment_number, fragment_number,
                   Some (map (\<lambda>i. of_nat i + 1) [0..<unat fragment_number]), True)
             else if cnt = 0 \<and> tot > 0
             then (tot, tot, Some (map (\<lambda>i. of_nat i + 1) [0..<unat tot]), True)
             else (tot, cnt, frags, False));
          zero = replicate 8 0;
          all_bits = fold (set_ack_bit be) (map of_nat [1..<Suc (unat tot)]) zero;
          bitmap =
            (if frags \<noteq> None \<and> cnt > 0
             then fold (set_ack_bit be) (take (unat cnt) (the frags)) zero
             else if reassembled \<and> tot > 0 then all_bits
             else if cnt > 0 \<and> tot > 0 then all_bits
             else set_ack_bit be fragment_number zero)
      in \<lparr>ack_message_id = htons be (ucast mid), ack_total_fragments = htons be tot,
          ack_received_count = htons be cnt, ack_bitmap = bitmap\<rparr>)"

text \<open>The packed structure as a byte string, and the cast of received data to it.\<close>

definition ack_to_bytes :: "bool \<Rightarrow> fragment_ack_data_t \<Rightarrow> bytes" where
  "ack_to_bytes be ack =
     concat (map (u16_store be)
       ([ack_message_id ack, ack_total_fragments ack, ack_received_count ack] @ ack_bitmap ack))"

fun u16s_load :: "bool \<Rightarrow> bytes \<Rightarrow> u16 list" where
  "u16s_load be (a # b # bs) = u16_load be a b # u16s_load be bs"
| "u16s_load be _ = []"

abbreviation (input) ACK_DATA_SIZE :: nat where "ACK_DATA_SIZE \<equiv> 22"

definition ack_from_bytes :: "bool \<Rightarrow> bytes \<Rightarrow> fragment_ack_data_t" where
  "ack_from_bytes be bs =
     (let ws = u16s_load be (take ACK_DATA_SIZE bs)
      in \<lparr>ack_message_id = ws ! 0, ack_total_fragments = ws ! 1, ack_received_count = ws ! 2,
          ack_bitmap = drop 3 ws\<rparr>)"

section \<open>Byte order lemmas\<close>

lemma ntohs_htons [codec_simps, simp]: "ntohs be (htons be x) = x"
  by (rule bit_word_eqI) (auto simp: ntohs_def htons_def bit_simps)

lemma ntohs_or: "ntohs be (x OR y) = ntohs be x OR ntohs be y"
  by (rule bit_word_eqI) (auto simp: ntohs_def htons_def bit_simps)

lemma u16_load_store [codec_simps]:
  "u16_store be x = [a, b] \<Longrightarrow> u16_load be a b = x"
  by (rule bit_word_eqI) (auto simp: u16_store_def u16_load_def bit_simps split: if_splits)

lemma u16s_load_store [codec_simps, simp]: "u16s_load be (concat (map (u16_store be) ws)) = ws"
proof (induction ws)
  case (Cons w ws)
  obtain a b where ab: "u16_store be w = [a, b]" by (cases be) (simp_all add: u16_store_def)
  then show ?case using Cons u16_load_store [OF ab] by simp
qed simp

section \<open>The bitmap as a set of fragment numbers\<close>

lemma ack_bit_position:
  assumes "fid > 0" "fid \<le> (64 :: u16)"
  shows "unat ((fid - 1) div 16) = (unat fid - 1) div 16" "unat ((fid - 1) mod 16) = (unat fid - 1) mod 16"
proof -
  have "unat (fid - 1) = unat fid - 1"
    using assms(1) by (simp add: unat_sub word_le_nat_alt word_less_nat_alt)
  then show "unat ((fid - 1) div 16) = (unat fid - 1) div 16" "unat ((fid - 1) mod 16) = (unat fid - 1) mod 16"
    by (simp_all add: unat_div unat_mod)
qed

lemma is_acked_in_bit:
  "is_acked_in be bitmap fid \<longleftrightarrow> fid > 0 \<and> fid \<le> 64 \<and>
     bit (ntohs be (bitmap ! ((unat fid - 1) div 16))) ((unat fid - 1) mod 16)"
  using ack_bit_position [of fid]
  by (auto simp: is_acked_in_def Let_def bit_iff_and_push_bit_not_eq_0)

lemma set_ack_bit_index:
  "set_ack_bit be fid bitmap =
     (if fid > 0 \<and> fid \<le> 64
      then bitmap[(unat fid - 1) div 16 := bitmap ! ((unat fid - 1) div 16) OR
             htons be (push_bit ((unat fid - 1) mod 16) 1)]
      else bitmap)"
  using ack_bit_position [of fid] by (auto simp: set_ack_bit_def Let_def)

lemma ack_index_less: "fid \<le> (64 :: u16) \<Longrightarrow> (unat fid - 1) div 16 < 8"
  by (auto simp: word_le_nat_alt intro!: less_mult_imp_div_less)

lemma bit_push_one: "bit (push_bit n 1 :: u16) m \<longleftrightarrow> m = n \<and> n < 16"
  by (auto simp: bit_simps)

lemma same_bit:
  assumes "0 < j" "0 < k" "(j - 1) div 16 = (k - 1) div 16" "(j - 1) mod 16 = (k - 1) mod (16 :: nat)"
  shows "j = k"
  using assms by (metis Suc_pred' One_nat_def div_mult_mod_eq)

interpretation ackbits: bitset "\<lambda>bm. length bm = 8" "\<lambda>fid. 0 < fid \<and> fid \<le> (64 :: u16)"
  "replicate 8 0" "set_ack_bit be" "is_acked_in be" for be
proof unfold_locales
  show "length (replicate 8 0 :: u16 list) = 8" by simp
  show "length b = 8 \<Longrightarrow> length (set_ack_bit be k b) = 8" for b k
    by (simp add: set_ack_bit_index)
  show "\<not> is_acked_in be (replicate 8 0) j" if "0 < j \<and> j \<le> (64 :: u16)" for j
  proof -
    have "(unat j - 1) div 16 < 8" using that by (simp only: ack_index_less)
    then show ?thesis by (simp add: is_acked_in_bit ntohs_def htons_def)
  qed
  show "is_acked_in be (set_ack_bit be k b) j \<longleftrightarrow> j = k \<or> is_acked_in be b j"
    if "length b = 8" "0 < j \<and> j \<le> (64 :: u16)" for b j k
  proof (cases "0 < k \<and> k \<le> 64")
    case True
    have idx: "(unat j - 1) div 16 < 8" "(unat k - 1) div 16 < 8"
      using that True by (simp_all only: ack_index_less)
    have eq: "(unat j - 1) div 16 = (unat k - 1) div 16 \<Longrightarrow>
        (unat j - 1) mod 16 = (unat k - 1) mod 16 \<Longrightarrow> j = k"
      using same_bit [of "unat j" "unat k"] that True
      by (simp add: word_less_nat_alt word_unat_eq_iff)
    have pos: "(unat k - 1) mod 16 < 16" "(unat j - 1) mod 16 < 16" by simp_all
    have "bit (ntohs be (set_ack_bit be k b ! ((unat j - 1) div 16))) ((unat j - 1) mod 16) \<longleftrightarrow>
        j = k \<or> bit (ntohs be (b ! ((unat j - 1) div 16))) ((unat j - 1) mod 16)"
    proof (cases "(unat j - 1) div 16 = (unat k - 1) div 16")
      case same: True
      then have "set_ack_bit be k b ! ((unat j - 1) div 16) =
          b ! ((unat j - 1) div 16) OR htons be (push_bit ((unat k - 1) mod 16) 1)"
        using True idx that(1) by (simp add: set_ack_bit_index)
      moreover have "(unat j - 1) mod 16 = (unat k - 1) mod 16 \<longleftrightarrow> j = k"
        using eq same by blast
      ultimately show ?thesis
        using pos by (auto simp only: ntohs_or ntohs_htons bit_or_iff bit_push_one)
    next
      case False
      then show ?thesis using True by (auto simp: set_ack_bit_index)
    qed
    then show ?thesis using that(2) True by (auto simp: is_acked_in_bit)
  next
    case False
    then show ?thesis using that by (auto simp: set_ack_bit_index)
  qed
qed

section \<open>The wire format\<close>

lemma htons_ntohs [codec_simps, simp]: "htons be (ntohs be x) = x"
  by (rule bit_word_eqI) (auto simp: ntohs_def htons_def bit_simps)

text \<open>What one host stores in network byte order, any other host loads in network byte order.\<close>

lemma u16_store_hosts [codec_simps]:
  "u16_store be x = u16_store be' (htons be' (ntohs be x))"
proof (cases "be = be'")
  case False
  have "ucast (push_bit 8 x OR drop_bit 8 x) = (ucast (drop_bit 8 x) :: u8)"
    "ucast (drop_bit 8 (push_bit 8 x OR drop_bit 8 x)) = (ucast x :: u8)"
    by (rule bit_word_eqI; auto simp: bit_simps)+
  then show ?thesis using False by (auto simp: u16_store_def htons_def ntohs_def)
qed simp

definition reread :: "bool \<Rightarrow> bool \<Rightarrow> u16 \<Rightarrow> u16" where
  "reread be be' x = htons be' (ntohs be x)"

lemma length_concat_store: "length (concat (map (u16_store be) ws)) = 2 * length ws"
  by (induction ws) (auto simp: u16_store_def)

lemma ack_from_to_bytes [codec_simps]:
  assumes "length (ack_bitmap ack) = 8"
  shows "ack_from_bytes be' (ack_to_bytes be ack @ rest) =
    \<lparr>ack_message_id = reread be be' (ack_message_id ack),
     ack_total_fragments = reread be be' (ack_total_fragments ack),
     ack_received_count = reread be be' (ack_received_count ack),
     ack_bitmap = map (reread be be') (ack_bitmap ack)\<rparr>"
proof -
  let ?ws = "[ack_message_id ack, ack_total_fragments ack, ack_received_count ack] @ ack_bitmap ack"
  have "u16_store be = u16_store be' \<circ> reread be be'"
    using u16_store_hosts [of be _ be'] by (auto simp: reread_def)
  then have bytes: "ack_to_bytes be ack = concat (map (u16_store be') (map (reread be be') ?ws))"
    by (simp only: ack_to_bytes_def map_map)
  moreover have "length (ack_to_bytes be ack) = 22"
    unfolding ack_to_bytes_def length_concat_store using assms by simp
  ultimately have "u16s_load be' (take 22 (ack_to_bytes be ack @ rest)) = map (reread be be') ?ws"
    by (metis append_eq_conv_conj u16s_load_store)
  then show ?thesis
    by (simp only: ack_from_bytes_def Let_def) simp
qed

lemma is_acked_in_reread:
  assumes "length bm = 8"
  shows "is_acked_in be' (map (reread be be') bm) fid = is_acked_in be bm fid"
proof (cases "0 < fid \<and> fid \<le> 64")
  case True
  then show ?thesis
    using ack_index_less [of fid] assms by (simp add: is_acked_in_bit reread_def)
qed (auto simp: is_acked_in_bit)

section \<open>What an acknowledgement reports\<close>

lemma length_build_bitmap [simp]: "length (ack_bitmap (build_fragment_ack be d mid num)) = 8"
  using ackbits.wf_fold [of be] ackbits.wf_ins [of "replicate 8 0" be num]
  by (simp add: build_fragment_ack_def Let_def split: prod.split)

lemma build_fragment_ack_reports:
  assumes "get_received_fragments d \<noteq> []" "length (get_received_fragments d) < 65536"
  shows "is_acked_in be (ack_bitmap (build_fragment_ack be d mid num)) fid \<longleftrightarrow>
    0 < fid \<and> fid \<le> 64 \<and> fid \<in> set (get_received_fragments d)"
proof -
  let ?r = "get_received_fragments d"
  have "0 < length ?r" using assms(1) by simp
  then have cnt: "unat (of_nat (length ?r) :: u16) = length ?r" "(of_nat (length ?r) :: u16) > 0"
    using assms(2) by (simp_all add: unat_of_nat_u16 word_less_nat_alt)
  then have "ack_bitmap (build_fragment_ack be d mid num) =
      fold (set_ack_bit be) ?r (replicate 8 0)"
    using assms(1) by (auto simp: build_fragment_ack_def Let_def)
  then show ?thesis
    using ackbits.mem_fold [of fid be ?r] by (auto simp: is_acked_in_def)
qed

section \<open>Trackers and acknowledgements\<close>

definition mark :: "bool \<Rightarrow> u16 list \<Rightarrow> fragment_state_t \<Rightarrow> fragment_state_t" where
  "mark be bm f = (if is_acked_in be bm (fragment_id f) then f\<lparr>acknowledged := True\<rparr> else f)"

lemma mark_simps [simp]:
  "fragment_id (mark be bm f) = fragment_id f" "fs_packet (mark be bm f) = fs_packet f"
  "acknowledged (mark be bm f) \<longleftrightarrow> acknowledged f \<or> is_acked_in be bm (fragment_id f)"
  by (simp_all add: mark_def)

definition acked_count :: "fragment_state_t list \<Rightarrow> nat" where
  "acked_count fs = length (filter acknowledged fs)"

lemma acked_count_simps [simp]: "acked_count [] = 0"
  "acked_count (f # fs) = (if acknowledged f then Suc (acked_count fs) else acked_count fs)"
  by (simp_all add: acked_count_def)

lemma acked_count_le: "acked_count fs \<le> length fs"
  by (simp add: acked_count_def)

lemma ack_fragments_mark:
  "ack_fragments be bm fs acked =
     (map (mark be bm) fs, acked + of_nat (acked_count (map (mark be bm) fs)) - of_nat (acked_count fs))"
proof (induction fs arbitrary: acked)
  case (Cons f fs)
  have "acknowledged f \<Longrightarrow> f\<lparr>acknowledged := True\<rparr> = f" by simp
  then show ?case using Cons by (auto simp: mark_def)
qed simp

text \<open>The consistency of a tracker: fragments numbered from 1, counters matching.\<close>

definition tracker_inv :: "fragment_tracker_t \<Rightarrow> bool" where
  "tracker_inv t \<longleftrightarrow>
     map fragment_id (trk_fragments t) = map of_nat [1..<Suc (length (trk_fragments t))] \<and>
     length (trk_fragments t) < 65536 \<and>
     total_fragments t = of_nat (length (trk_fragments t)) \<and>
     acked_fragments t = of_nat (acked_count (trk_fragments t))"

lemma update_tracker_inv:
  "tracker_inv t \<Longrightarrow> tracker_inv (update_fragment_ack_status be now t ack)"
  by (auto simp: tracker_inv_def update_fragment_ack_status_def ack_fragments_mark comp_def)

lemma trk_fragments_update:
  "trk_fragments (update_fragment_ack_status be now t ack) =
     map (mark be (ack_bitmap ack)) (trk_fragments t)"
  by (simp add: update_fragment_ack_status_def ack_fragments_mark)

lemma tracker_fragment_id:
  assumes "tracker_inv t" "i < length (trk_fragments t)"
  shows "fragment_id (trk_fragments t ! i) = of_nat (Suc i)"
proof -
  have "fragment_id (trk_fragments t ! i) = map fragment_id (trk_fragments t) ! i"
    using assms(2) by simp
  also have "\<dots> = of_nat (Suc i)"
    using assms by (simp add: tracker_inv_def del: upt_Suc)
  finally show ?thesis .
qed

lemma tracker_complete_iff:
  assumes "tracker_inv t"
  shows "acked_fragments t = total_fragments t \<longleftrightarrow> (\<forall>f\<in>set (trk_fragments t). acknowledged f)"
proof -
  have "acked_fragments t = total_fragments t \<longleftrightarrow> acked_count (trk_fragments t) = length (trk_fragments t)"
    using assms acked_count_le [of "trk_fragments t"] of_nat_u16_eq by (auto simp: tracker_inv_def)
  also have "\<dots> \<longleftrightarrow> (\<forall>f\<in>set (trk_fragments t). acknowledged f)"
    unfolding acked_count_def by (metis filter_id_conv length_filter_less nat_neq_iff filter_True)
  finally show ?thesis .
qed

section \<open>Properties\<close>

lemma track_packets_fragments:
  "\<exists>fs. trk_fragments (track_packets now t fid ps) = trk_fragments t @ fs \<and>
     map fs_packet fs = ps \<and> map fragment_id fs = map (\<lambda>i. fid + of_nat i) [0..<length ps] \<and>
     (\<forall>f\<in>set fs. \<not> acknowledged f)"
proof (induction ps arbitrary: t fid)
  case (Cons p ps)
  obtain fs where "trk_fragments (track_packets now (add_fragment_to_tracker now t fid p) (fid + 1) ps) =
      trk_fragments (add_fragment_to_tracker now t fid p) @ fs" "map fs_packet fs = ps"
    "map fragment_id fs = map (\<lambda>i. fid + 1 + of_nat i) [0..<length ps]" "\<forall>f\<in>set fs. \<not> acknowledged f"
    using Cons.IH by blast
  moreover have "[0..<Suc (length ps)] = 0 # map Suc [0..<length ps]"
    by (simp add: upt_conv_Cons map_Suc_upt del: upt_Suc)
  ultimately show ?case
    by (intro exI [of _ "\<lparr>fragment_id = fid, fs_packet = p, acknowledged = False, last_sent = now,
          fs_retransmit_count = 0, data_size = packet_len p, total_transmitted = 0\<rparr> # fs"])
       (simp add: add_fragment_to_tracker_def seq_insert_def Let_def comp_def add.assoc del: upt_Suc)
qed simp

lemma track_packets_totals [simp]:
  "total_fragments (track_packets now t fid ps) = total_fragments t"
  "acked_fragments (track_packets now t fid ps) = acked_fragments t"
  "trk_message_id (track_packets now t fid ps) = trk_message_id t"
  by (induction ps arbitrary: t fid) (simp_all add: add_fragment_to_tracker_def Let_def)

text \<open>The tracker a fragmented message starts with.\<close>

definition fresh_tracker :: "int \<Rightarrow> u32 \<Rightarrow> packet_t list \<Rightarrow> fragment_tracker_t" where
  "fresh_tracker now mid ps =
     track_packets now (create_fragment_tracker now mid (of_nat (length ps))) 1 ps"

lemma fresh_tracker:
  assumes "length ps < 65536"
  shows "tracker_inv (fresh_tracker now mid ps)" "length (trk_fragments (fresh_tracker now mid ps)) = length ps"
    "\<forall>f\<in>set (trk_fragments (fresh_tracker now mid ps)). \<not> acknowledged f"
    "map fs_packet (trk_fragments (fresh_tracker now mid ps)) = ps"
proof -
  obtain fs where fs: "trk_fragments (fresh_tracker now mid ps) = fs" "map fs_packet fs = ps"
    "map fragment_id fs = map (\<lambda>i. 1 + of_nat i) [0..<length ps]" "\<forall>f\<in>set fs. \<not> acknowledged f"
    using track_packets_fragments [of now "create_fragment_tracker now mid (of_nat (length ps))" 1 ps]
    by (auto simp: fresh_tracker_def create_fragment_tracker_def)
  have len: "length fs = length ps" using fs(2) by (metis length_map)
  have "acked_count fs = 0" using fs(4) by (simp add: acked_count_def)
  moreover have "map (\<lambda>i. 1 + of_nat i) [0..<length ps] = map of_nat [1..<Suc (length ps)]"
    by (simp add: map_Suc_upt [symmetric] comp_def del: upt_Suc)
  moreover have "total_fragments (fresh_tracker now mid ps) = of_nat (length ps)"
    "acked_fragments (fresh_tracker now mid ps) = 0"
    by (simp_all add: fresh_tracker_def create_fragment_tracker_def)
  ultimately show "tracker_inv (fresh_tracker now mid ps)"
    using fs(1,3) len assms by (simp add: tracker_inv_def del: upt_Suc)
  show "length (trk_fragments (fresh_tracker now mid ps)) = length ps" using fs(1) len by simp
  show "\<forall>f\<in>set (trk_fragments (fresh_tracker now mid ps)). \<not> acknowledged f" using fs(1,4) by simp
  show "map fs_packet (trk_fragments (fresh_tracker now mid ps)) = ps" using fs(1,2) by simp
qed

lemma ack_delivery:
  assumes "tracker_inv t" "get_received_fragments d \<noteq> []" "length (get_received_fragments d) < 65536"
    and "t' = update_fragment_ack_status be' now t
            (ack_from_bytes be' (ack_to_bytes be (build_fragment_ack be d mid num) @ rest))"
  shows "tracker_inv t' \<and> length (trk_fragments t') = length (trk_fragments t) \<and>
    (\<forall>i < length (trk_fragments t). acknowledged (trk_fragments t' ! i) \<longleftrightarrow>
       acknowledged (trk_fragments t ! i) \<or>
       (i < 64 \<and> of_nat (Suc i) \<in> set (get_received_fragments d)))"
proof -
  let ?ack = "build_fragment_ack be d mid num"
  have bm: "ack_bitmap (ack_from_bytes be' (ack_to_bytes be ?ack @ rest)) =
      map (reread be be') (ack_bitmap ?ack)"
    by (simp add: ack_from_to_bytes)
  have "acknowledged (trk_fragments t' ! i) \<longleftrightarrow> acknowledged (trk_fragments t ! i) \<or>
      (i < 64 \<and> of_nat (Suc i) \<in> set (get_received_fragments d))"
    if i: "i < length (trk_fragments t)" for i
  proof -
    have lt: "Suc i < 65536" using i assms(1) by (simp add: tracker_inv_def)
    then have "0 < (of_nat (Suc i) :: u16) \<and> (of_nat (Suc i) :: u16) \<le> 64 \<longleftrightarrow> i < 64"
      using unat_of_nat_u16 [OF lt] by (simp add: word_less_nat_alt word_le_nat_alt Suc_le_eq del: of_nat_Suc)
    then show ?thesis
      using i tracker_fragment_id [OF assms(1) i] build_fragment_ack_reports [OF assms(2,3)]
      by (auto simp: assms(4) trk_fragments_update bm is_acked_in_reread simp del: of_nat_Suc)
  qed
  then show ?thesis
    using update_tracker_inv [OF assms(1)] by (simp add: assms(4) trk_fragments_update)
qed


definition sample_tracker :: "nat \<Rightarrow> fragment_tracker_t" where
  "sample_tracker n = fresh_tracker 0 5 (replicate n \<lparr>source = None, destination = None, pkt_data = Some [7]\<rparr>)"

lemma sample_tracker:
  assumes "n < 65536"
  shows "tracker_inv (sample_tracker n)" "length (trk_fragments (sample_tracker n)) = n"
    "\<forall>f\<in>set (trk_fragments (sample_tracker n)). \<not> acknowledged f"
  using fresh_tracker(1-3) [of "replicate n \<lparr>source = None, destination = None, pkt_data = Some [7]\<rparr>"]
    assms by (simp_all add: sample_tracker_def)


lemma foldl_update:
  "tracker_inv t \<Longrightarrow> tracker_inv (foldl (update_fragment_ack_status be now) t acks) \<and>
     length (trk_fragments (foldl (update_fragment_ack_status be now) t acks)) = length (trk_fragments t) \<and>
     (\<forall>i < length (trk_fragments t).
        acknowledged (trk_fragments (foldl (update_fragment_ack_status be now) t acks) ! i) \<longleftrightarrow>
        acknowledged (trk_fragments t ! i) \<or>
        (\<exists>a\<in>set acks. is_acked_in be (ack_bitmap a) (of_nat (Suc i))))"
proof (induction acks arbitrary: t)
  case (Cons a acks)
  show ?case
    using Cons.IH [OF update_tracker_inv [OF Cons.prems], of be now a] tracker_fragment_id [OF Cons.prems]
    by (auto simp: trk_fragments_update simp del: of_nat_Suc)
qed simp

lemma foldl_complete_iff:
  assumes "tracker_inv t" "\<forall>f\<in>set (trk_fragments t). \<not> acknowledged f"
    and "t' = foldl (update_fragment_ack_status be now) t acks"
  shows "acked_fragments t' = total_fragments t' \<longleftrightarrow>
    (\<forall>i < length (trk_fragments t). \<exists>a\<in>set acks. is_acked_in be (ack_bitmap a) (of_nat (Suc i)))"
  using foldl_update [OF assms(1), of be now acks] assms(2,3) tracker_complete_iff [of t']
  by (simp add: all_set_conv_all_nth del: of_nat_Suc)

text \<open>
  Acknowledgements are cumulative: starting from a tracker without acknowledged fragments, after
  any sequence of acknowledgements the counter of acknowledged fragments equals the total, which is
  what stops the retransmissions, if and only if every fragment was reported in at least one of them.
\<close>

lemma tracker_complete_iff_all_reported:
  assumes "tracker_inv t" "\<forall>f\<in>set (trk_fragments t). \<not> acknowledged f"
    and "t' = foldl (update_fragment_ack_status be now) t acks"
  shows "acked_fragments t' = total_fragments t' \<longleftrightarrow>
    (\<forall>i < length (trk_fragments t). \<exists>a\<in>set acks. is_acked_in be (ack_bitmap a) (of_nat (Suc i)))"
  by (rule foldl_complete_iff [OF assms])

lemma tracker_complete_iff_all_reported_witness:
  "acked_fragments (foldl (update_fragment_ack_status False 9) (sample_tracker 3) []) \<noteq>
   total_fragments (foldl (update_fragment_ack_status False 9) (sample_tracker 3) [])"
  using tracker_complete_iff_all_reported [OF sample_tracker(1,3), of 3 _ False 9 "[]"]
  by (simp add: sample_tracker(2)) (metis zero_less_numeral)

text \<open>
  The bitmap has room for 64 fragments while a message may have up to 255: a tracker of more than
  64 fragments is never completely acknowledged, whatever acknowledgements arrive.
\<close>

lemma tracker_over_64_never_complete:
  assumes "tracker_inv t" "\<forall>f\<in>set (trk_fragments t). \<not> acknowledged f"
    and "64 < length (trk_fragments t)"
  shows "acked_fragments (foldl (update_fragment_ack_status be now) t acks) \<noteq>
    total_fragments (foldl (update_fragment_ack_status be now) t acks)"
proof -
  have "\<not> is_acked_in be bm (of_nat (Suc 64))" for bm
    by (simp add: is_acked_in_def word_le_nat_alt)
  then show ?thesis
    using foldl_complete_iff [OF assms(1,2) refl, of be now acks] assms(3) by blast
qed

lemma tracker_over_64_never_complete_witness:
  "acked_fragments (foldl (update_fragment_ack_status False 9) (sample_tracker 65)
      [build_fragment_ack False sample_collecting 5 2]) \<noteq>
   total_fragments (foldl (update_fragment_ack_status False 9) (sample_tracker 65)
      [build_fragment_ack False sample_collecting 5 2])"
  using sample_tracker(2) [of 65]
  by (intro tracker_over_64_never_complete sample_tracker(1,3)) simp_all

lemma final_ack_prefix:
  assumes "frag d = None"
  shows "is_acked_in be (ack_bitmap (build_fragment_ack be d mid num)) fid \<longleftrightarrow>
    0 < fid \<and> fid \<le> 64 \<and> fid \<le> num"
proof -
  let ?ids = "map (\<lambda>i. of_nat i + 1 :: u16) [0..<unat num]"
  have "ack_bitmap (build_fragment_ack be d mid num) =
      (if num > 0 then fold (set_ack_bit be) ?ids (replicate 8 0) else replicate 8 0)"
    using assms by (auto simp: build_fragment_ack_def get_total_fragments_def get_received_fragments_def
        set_ack_bit_def Let_def word_neq_0_conv)
  moreover have "fid \<in> set ?ids \<longleftrightarrow> 0 < fid \<and> fid \<le> num"
  proof
    assume "fid \<in> set ?ids"
    then obtain i where i: "i < unat num" "fid = of_nat (Suc i)" by (auto simp: add.commute)
    then have "unat fid = Suc i"
      using unat_u16_less [of num] by (simp only: unat_of_nat_u16 Suc_lessI)
    then show "0 < fid \<and> fid \<le> num" using i(1) by (simp add: word_less_nat_alt word_le_nat_alt)
  next
    assume "0 < fid \<and> fid \<le> num"
    then have "unat fid - 1 < unat num" "fid = of_nat (unat fid - 1) + 1"
      by (auto simp: word_less_nat_alt word_le_nat_alt of_nat_diff)
    then show "fid \<in> set ?ids" by auto
  qed
  ultimately show ?thesis
    using ackbits.mem_fold [of fid be ?ids] ackbits.mem_emp [of fid be] by (auto simp: is_acked_in_def)
qed

text \<open>
  Once the reassembly is complete its state is gone, and the last acknowledgement claims exactly
  the fragments up to the number of the fragment that completed it: after out-of-order delivery it
  misses received fragments with higher numbers.
\<close>

lemma final_ack_reports_prefix:
  assumes "frag d = None"
  shows "is_acked_in be (ack_bitmap (build_fragment_ack be d mid num)) fid \<longleftrightarrow>
    0 < fid \<and> fid \<le> 64 \<and> fid \<le> num"
  by (rule final_ack_prefix [OF assms])

lemma final_ack_reports_prefix_witness:
  "\<not> is_acked_in False (ack_bitmap (build_fragment_ack False (message_create 2 0) 5 2)) 3"
  using final_ack_reports_prefix [of "message_create 2 0" False 5 2 3]
  by (simp add: message_create_def message_create_from_packet_def)

end
