(* ===== verification/Task_Manager.thy ===== *)
theory Task_Manager
  imports Fragment_Ack
begin

text \<open>
  State, queues and retransmission of the IKEv2 task manager,
  \<^verbatim>\<open>src/src/libcharon/sa/ikev2/task_manager_v2.c\<close>. Effects on the outside (packets handed to the
  sender, scheduled jobs, alerts on the bus) are returned as a list of events in the order in which
  they happen. What the task manager asks of its surroundings is collected in \<open>env_t\<close>: the clock, the
  configuration switches, the retransmission timeouts (computed in floating point by
  \<^verbatim>\<open>retransmission_timeout\<close>) and the transmission of the MOBIKE task.
\<close>

section \<open>State\<close>

datatype task_type_t =
    TASK_IKE_INIT | TASK_IKE_NATD | TASK_IKE_MOBIKE | TASK_IKE_AUTH | TASK_IKE_AUTH_LIFETIME
  | TASK_IKE_CERT_PRE | TASK_IKE_CERT_POST | TASK_IKE_CONFIG | TASK_IKE_REKEY | TASK_IKE_REAUTH
  | TASK_IKE_REAUTH_COMPLETE | TASK_IKE_REDIRECT | TASK_IKE_VERIFY_PEER_CERT | TASK_IKE_MID_SYNC
  | TASK_IKE_DELETE | TASK_IKE_DPD | TASK_IKE_VENDOR | TASK_IKE_ESTABLISH | TASK_CHILD_CREATE
  | TASK_CHILD_DELETE | TASK_CHILD_REKEY | TASK_MAIN_MODE | TASK_AGGRESSIVE_MODE
  | TASK_INFORMATIONAL | TASK_ISAKMP_DELETE | TASK_XAUTH | TASK_MODE_CONFIG | TASK_QUICK_MODE
  | TASK_QUICK_DELETE | TASK_ISAKMP_VENDOR | TASK_ISAKMP_NATD | TASK_ISAKMP_DPD
  | TASK_ISAKMP_CERT_PRE | TASK_ISAKMP_CERT_POST

datatype task_queue_t = TASK_QUEUE_ACTIVE | TASK_QUEUE_PASSIVE | TASK_QUEUE_QUEUED

text \<open>
  A task object: its type, its identity and, for a MOBIKE task, its \<^verbatim>\<open>check\<close> member, which
  \<^verbatim>\<open>is_probing\<close> returns.
\<close>

record task_t =
  task_type :: task_type_t
  task_ident :: nat
  task_check :: bool

record queued_task_t =
  q_task :: task_t
  q_time :: int

datatype ike_sa_state_t =
    IKE_CREATED | IKE_CONNECTING | IKE_ESTABLISHED | IKE_PASSIVE | IKE_REKEYING | IKE_REKEYED
  | IKE_DELETING | IKE_DESTROYING

text \<open>The part of the IKE_SA that the task manager reads and writes.\<close>

record ike_sa_t =
  ike_state :: ike_sa_state_t
  my_host :: host_t
  other_host :: host_t
  sa_is_initiator :: bool
  has_ike_cfg :: bool
  ext_mobike :: bool
  ext_mid_sync :: bool
  cond_stale :: bool
  stat_inbound :: int

record private_task_manager_t =
  ike_sa :: ike_sa_t
  responding_mid :: u32
  responding_defrag :: "private_message_t option"
  responding_hash :: bytes
  responding_packets :: "packet_t list"
  responding_prev_hash :: bytes
  initiating_mid :: u32
  retransmitted :: u32
  retransmit_sent :: bool
  initiating_packets :: "packet_t list"
  initiating_type :: exchange_type_t
  deferred :: bool
  initiating_defrag :: "private_message_t option"
  queued_tasks :: "queued_task_t list"
  active_tasks :: "task_t list"
  passive_tasks :: "task_t list"
  tries :: u32
  outgoing_tracker :: "fragment_tracker_t option"
  peer_supports_selective_retransmission :: bool
  selective_retransmission_enabled :: bool
  current_retransmit_job :: "u32 option"
  request_original_size :: u32
  request_total_transmitted :: u32
  request_retransmission_count :: u32
  response_original_size :: u32
  response_total_transmitted :: u32
  response_retransmission_count :: u32

datatype alert_t =
    ALERT_RETRANSMIT_SEND_TIMEOUT "packet_t option"
  | ALERT_RETRANSMIT_SEND "packet_t option" u32
  | ALERT_RETRANSMIT_SEND_CLEARED "packet_t option"
  | ALERT_RETRANSMIT_RECEIVE
  | ALERT_PARSE_ERROR_BODY status_t

datatype event =
    Send packet_t
  | Schedule_Retransmit u32 u32
  | Schedule_Retransmit_ms u32 u32
  | Schedule_Delete
  | Schedule_Initiate int
  | Alert alert_t
  | Ike_Down
  | Bus_Message bool

text \<open>
  \<open>mobike_transmit\<close> stands for \<^verbatim>\<open>ike_mobike_t.transmit\<close>: whether a route was found, the \<^verbatim>\<open>check\<close>
  member afterwards, and the packets sent.
\<close>

record env_t =
  now :: int
  simulate_first_fragment_loss :: bool
  timeout_ms :: "u32 \<Rightarrow> u32"
  mobike_transmit :: "task_t \<Rightarrow> packet_t option \<Rightarrow> bool \<times> bool \<times> packet_t list"

text \<open>The state \<^verbatim>\<open>task_manager_v2_create\<close> sets up, for a given IKE_SA and retransmission limit.\<close>

definition task_manager_v2_create :: "ike_sa_t \<Rightarrow> u32 \<Rightarrow> bool \<Rightarrow> private_task_manager_t" where
  "task_manager_v2_create sa max_tries selective =
     \<lparr>ike_sa = sa, responding_mid = 0, responding_defrag = None, responding_hash = replicate 20 0,
      responding_packets = [], responding_prev_hash = replicate 20 0, initiating_mid = 0,
      retransmitted = 0, retransmit_sent = False, initiating_packets = [],
      initiating_type = EXCHANGE_TYPE_UNDEFINED, deferred = False, initiating_defrag = None,
      queued_tasks = [], active_tasks = [], passive_tasks = [], tries = max_tries,
      outgoing_tracker = None, peer_supports_selective_retransmission = False,
      selective_retransmission_enabled = selective, current_retransmit_job = None,
      request_original_size = 0, request_total_transmitted = 0, request_retransmission_count = 0,
      response_original_size = 0, response_total_transmitted = 0, response_retransmission_count = 0\<rparr>"

section \<open>Packets and queues\<close>

definition clear_packets :: "packet_t list \<Rightarrow> packet_t list" where
  "clear_packets ps = []"

definition flush_queue :: "private_task_manager_t \<Rightarrow> task_queue_t \<Rightarrow> private_task_manager_t" where
  "flush_queue this queue =
     (case queue of
        TASK_QUEUE_ACTIVE \<Rightarrow> this\<lparr>active_tasks := []\<rparr>
      | TASK_QUEUE_PASSIVE \<Rightarrow> this\<lparr>passive_tasks := []\<rparr>
      | TASK_QUEUE_QUEUED \<Rightarrow> this\<lparr>queued_tasks := []\<rparr>)"

definition flush :: "private_task_manager_t \<Rightarrow> private_task_manager_t" where
  "flush this =
     flush_queue (flush_queue (flush_queue this TASK_QUEUE_QUEUED) TASK_QUEUE_PASSIVE) TASK_QUEUE_ACTIVE"

definition has_queued :: "private_task_manager_t \<Rightarrow> task_queue_t \<Rightarrow> task_type_t \<Rightarrow> bool" where
  "has_queued this queue type =
     list_ex (\<lambda>t. task_type t = type)
       (case queue of
          TASK_QUEUE_ACTIVE \<Rightarrow> active_tasks this
        | TASK_QUEUE_PASSIVE \<Rightarrow> passive_tasks this
        | TASK_QUEUE_QUEUED \<Rightarrow> map q_task (queued_tasks this))"

text \<open>The enumeration of \<^verbatim>\<open>activate_task\<close>: the first due task of the type is taken out.\<close>

fun take_due :: "int \<Rightarrow> task_type_t \<Rightarrow> queued_task_t list \<Rightarrow> (task_t \<times> queued_task_t list) option" where
  "take_due tm type [] = None"
| "take_due tm type (q # qs) =
     (if task_type (q_task q) = type \<and> \<not> tm < q_time q then Some (q_task q, qs)
      else map_option (\<lambda>(t, rest). (t, q # rest)) (take_due tm type qs))"

definition activate_task :: "env_t \<Rightarrow> private_task_manager_t \<Rightarrow> task_type_t \<Rightarrow> bool \<times> private_task_manager_t" where
  "activate_task env this type =
     (case take_due (now env) type (queued_tasks this) of
        None \<Rightarrow> (False, this)
      | Some (t, rest) \<Rightarrow>
          (True, this\<lparr>queued_tasks := rest, active_tasks := seq_insert (active_tasks this) (-1) t\<rparr>))"

section \<open>Sending\<close>

definition data_len :: "packet_t \<Rightarrow> nat" where
  "data_len p = (case pkt_data p of None \<Rightarrow> 0 | Some d \<Rightarrow> length d)"

definition total_size :: "packet_t list \<Rightarrow> u32" where
  "total_size ps = foldl (\<lambda>s p. s + of_nat (data_len p)) 0 ps"

definition address_packet :: "host_t option \<Rightarrow> host_t option \<Rightarrow> packet_t \<Rightarrow> packet_t" where
  "address_packet src dst p =
     (let p = (case src of None \<Rightarrow> p | Some h \<Rightarrow> p\<lparr>source := Some h\<rparr>)
      in case dst of None \<Rightarrow> p | Some h \<Rightarrow> p\<lparr>destination := Some h\<rparr>)"

text \<open>
  \<^verbatim>\<open>send_packets\<close>: clones with new addresses; a debug switch drops the first packet of the initial
  transmission of a fragmented message. The data volume is added to the statistics of the tracker.
\<close>

definition send_packets :: "env_t \<Rightarrow> private_task_manager_t \<Rightarrow> packet_t list \<Rightarrow> host_t option \<Rightarrow> host_t option \<Rightarrow>
    private_task_manager_t \<times> event list" where
  "send_packets env this ps src dst =
     (let total_data_size = total_size ps;
          simulate_loss = (simulate_first_fragment_loss env \<and> retransmitted this = 0 \<and>
                           length ps > 1 \<and> data_len (hd ps) > 50);
          sent = (if simulate_loss then tl ps else ps)
      in ((case outgoing_tracker this of
             Some t \<Rightarrow>
               if trk_message_id t > 0
               then this\<lparr>outgoing_tracker := Some (t\<lparr>total_transmitted_size :=
                            total_transmitted_size t + total_data_size\<rparr>)\<rparr>
               else this
           | None \<Rightarrow> this),
          map (\<lambda>p. Send (address_packet src dst p)) sent))"

text \<open>
  \<^verbatim>\<open>generate_message\<close>. \<open>fragmented\<close> is the result of \<^verbatim>\<open>generate_message_fragmented\<close> of the IKE_SA;
  the packets are appended to those already stored.
\<close>

definition generate_message :: "env_t \<Rightarrow> private_task_manager_t \<Rightarrow> u32 \<Rightarrow> packet_t list option \<Rightarrow>
    packet_t list \<Rightarrow> bool \<times> private_task_manager_t \<times> packet_t list" where
  "generate_message env this mid fragmented stored =
     (case fragmented of
        None \<Rightarrow> (False, this, stored)
      | Some ps \<Rightarrow>
          let stored = stored @ ps;
              fragment_count = of_nat (length ps) :: u16
          in if fragment_count > 1 \<and> selective_retransmission_enabled this
             then let t = (create_fragment_tracker (now env) mid fragment_count)
                        \<lparr>selective_retransmission_supported := peer_supports_selective_retransmission this,
                         total_original_size := 0, total_transmitted_size := 0\<rparr>
                  in (True, this\<lparr>outgoing_tracker := Some (track_packets (now env) t 1 stored)\<rparr>, stored)
             else (True, this, stored))"

section \<open>Selective retransmission\<close>

text \<open>The enumeration over the tracked fragments: what is sent and how the states change.\<close>

fun resend_unacked :: "int \<Rightarrow> fragment_state_t list \<Rightarrow> fragment_state_t list \<times> packet_t list \<times> u32" where
  "resend_unacked tm [] = ([], [], 0)"
| "resend_unacked tm (f # fs) =
     (let (fs', ps, sz) = resend_unacked tm fs
      in if acknowledged f then (f # fs', ps, sz)
         else (f\<lparr>fs_retransmit_count := fs_retransmit_count f + 1, last_sent := tm,
                 total_transmitted := total_transmitted f + data_size f\<rparr> # fs',
               fs_packet f # ps, data_size f + sz))"

definition retransmit_missing_fragments_simple ::
    "env_t \<Rightarrow> private_task_manager_t \<Rightarrow> status_t \<times> private_task_manager_t \<times> event list" where
  "retransmit_missing_fragments_simple env this =
     (case outgoing_tracker this of
        None \<Rightarrow> (FAILED, this, [])
      | Some t \<Rightarrow>
          if acked_fragments t = total_fragments t then (SUCCESS, this, [])
          else
            let (fs, ps, sz) = resend_unacked (now env) (trk_fragments t);
                t = t\<lparr>trk_fragments := fs\<rparr>
            in if ps \<noteq> []
               then let t = t\<lparr>total_transmitted_size := total_transmitted_size t + sz,
                              retransmission_count := retransmission_count t + 1\<rparr>;
                        (this, ev) = send_packets env (this\<lparr>outgoing_tracker := Some t\<rparr>) ps
                                       (Some (my_host (ike_sa this))) (Some (other_host (ike_sa this)))
                    in (NEED_MORE, this, ev)
               else (SUCCESS, this\<lparr>outgoing_tracker := Some t\<rparr>, []))"

text \<open>The variant with waiting times and exponential backoff (not called by the task manager).\<close>

definition min_retry_delay :: "u32 \<Rightarrow> int" where
  "min_retry_delay cnt = 2 ^ unat (min cnt 4)"

fun resend_backoff :: "int \<Rightarrow> fragment_state_t list \<Rightarrow> fragment_state_t list \<times> packet_t list \<times> u32" where
  "resend_backoff tm [] = ([], [], 0)"
| "resend_backoff tm (f # fs) =
     (let (fs', ps, sz) = resend_backoff tm fs
      in if \<not> acknowledged f \<and> tm - last_sent f \<ge> min_retry_delay (fs_retransmit_count f)
         then (f\<lparr>fs_retransmit_count := fs_retransmit_count f + 1, last_sent := tm,
                 total_transmitted := total_transmitted f + data_size f\<rparr> # fs',
               fs_packet f # ps, data_size f + sz)
         else (f # fs', ps, sz))"

definition retransmit_missing_fragments ::
    "env_t \<Rightarrow> private_task_manager_t \<Rightarrow> status_t \<times> private_task_manager_t \<times> event list" where
  "retransmit_missing_fragments env this =
     (case outgoing_tracker this of
        None \<Rightarrow> (FAILED, this, [])
      | Some t \<Rightarrow>
          let since = now env - last_ack_time t
          in if acked_fragments t = total_fragments t then (SUCCESS, this, [])
             else if acked_fragments t > 0 \<and> acked_fragments t < total_fragments t \<and> since < 2
             then (SUCCESS, this, [])
             else if acked_fragments t = 0 \<and> last_ack_time t \<noteq> 0 \<and> since < 2
             then (SUCCESS, this, [])
             else
               let t = (if acked_fragments t = 0 \<and> last_ack_time t = 0
                        then t\<lparr>last_ack_time := now env\<rparr> else t);
                   (fs, ps, sz) = resend_backoff (now env) (trk_fragments t);
                   t = t\<lparr>trk_fragments := fs\<rparr>
               in if ps \<noteq> []
                  then let t = t\<lparr>total_transmitted_size := total_transmitted_size t + sz,
                                 retransmission_count := retransmission_count t + 1\<rparr>;
                           (this, ev) = send_packets env (this\<lparr>outgoing_tracker := Some t\<rparr>) ps
                                          (Some (my_host (ike_sa this))) (Some (other_host (ike_sa this)))
                       in (SUCCESS, this, ev)
                  else (SUCCESS, this\<lparr>outgoing_tracker := Some t\<rparr>, []))"

section \<open>The retransmission timer\<close>

abbreviation (input) ROUTABILITY_CHECK_INTERVAL :: u32 where "ROUTABILITY_CHECK_INTERVAL \<equiv> 2500"
abbreviation (input) ROUTABILITY_CHECK_TRIES :: u32 where "ROUTABILITY_CHECK_TRIES \<equiv> 10"

definition is_selective_retransmit :: "private_task_manager_t \<Rightarrow> u32 \<Rightarrow> bool" where
  "is_selective_retransmit this mid \<longleftrightarrow>
     selective_retransmission_enabled this \<and>
     (case outgoing_tracker this of None \<Rightarrow> False | Some t \<Rightarrow> trk_message_id t = mid)"

definition find_mobike :: "private_task_manager_t \<Rightarrow> task_t option" where
  "find_mobike this =
     (if initiating_type this = INFORMATIONAL
      then List.find (\<lambda>t. task_type t = TASK_IKE_MOBIKE) (active_tasks this) else None)"

text \<open>The MOBIKE task object after its \<^verbatim>\<open>check\<close> member was set.\<close>

fun set_check :: "bool \<Rightarrow> task_t list \<Rightarrow> task_t list" where
  "set_check c [] = []"
| "set_check c (t # ts) =
     (if task_type t = TASK_IKE_MOBIKE then t\<lparr>task_check := c\<rparr> # ts else t # set_check c ts)"

definition retransmit_selective ::
    "env_t \<Rightarrow> private_task_manager_t \<Rightarrow> status_t \<times> private_task_manager_t \<times> event list" where
  "retransmit_selective env this =
     (let t = the (outgoing_tracker this)
      in if acked_fragments t = total_fragments t then (SUCCESS, this, [])
         else
           let missing_count = of_nat (length (filter (\<lambda>f. \<not> acknowledged f) (trk_fragments t))) :: u16;
               (this, ev) =
                 (if retransmitted this > 0
                  then if missing_count > 0
                       then snd (retransmit_missing_fragments_simple env this)
                       else (this, [])
                  else send_packets env this (initiating_packets this)
                         (Some (my_host (ike_sa this))) (Some (other_host (ike_sa this))));
               this = this\<lparr>retransmitted := retransmitted this + 1\<rparr>;
               t = the (outgoing_tracker this)
           in if acked_fragments t \<ge> total_fragments t then (SUCCESS, this, ev)
              else (SUCCESS, this\<lparr>current_retransmit_job := Some (trk_message_id t)\<rparr>,
                    ev @ [Schedule_Retransmit (trk_message_id t) 1800]))"

text \<open>The end of \<^verbatim>\<open>retransmit\<close>: the next job is scheduled.\<close>

definition schedule_retransmit ::
    "private_task_manager_t \<Rightarrow> u32 \<Rightarrow> u32 \<Rightarrow> event list \<Rightarrow> status_t \<times> private_task_manager_t \<times> event list" where
  "schedule_retransmit this mid timeout ev =
     (let this = this\<lparr>retransmitted := retransmitted this + 1\<rparr>;
          job_message_id = (if is_selective_retransmit this mid then mid else initiating_mid this)
      in (SUCCESS, this\<lparr>current_retransmit_job := Some job_message_id\<rparr>,
          ev @ [Schedule_Retransmit_ms job_message_id timeout]))"

definition defer_exchange :: "private_task_manager_t \<Rightarrow> private_task_manager_t" where
  "defer_exchange this =
     this\<lparr>ike_sa := (ike_sa this)\<lparr>cond_stale := True\<rparr>, deferred := True\<rparr>"

text \<open>The path probing of MOBIKE.\<close>

definition retransmit_probing ::
    "env_t \<Rightarrow> private_task_manager_t \<Rightarrow> u32 \<Rightarrow> task_t \<Rightarrow> packet_t option \<Rightarrow>
     status_t \<times> private_task_manager_t \<times> event list" where
  "retransmit_probing env this mid mobike pkt =
     (if retransmitted this \<le> ROUTABILITY_CHECK_TRIES
      then case mobike_transmit env mobike pkt of (found, check, ps) \<Rightarrow>
             let this = this\<lparr>active_tasks := set_check check (active_tasks this)\<rparr>; ev = map Send ps
             in if \<not> found then (INVALID_STATE, defer_exchange this, ev)
                else schedule_retransmit this mid ROUTABILITY_CHECK_INTERVAL ev
      else (DESTROY_ME, this, []))"

text \<open>The retransmission of all packets of the current exchange.\<close>

definition retransmit_all ::
    "env_t \<Rightarrow> private_task_manager_t \<Rightarrow> u32 \<Rightarrow> task_t option \<Rightarrow> packet_t option \<Rightarrow>
     status_t \<times> private_task_manager_t \<times> event list" where
  "retransmit_all env this mid mobike pkt =
     (let timeout = timeout_ms env (retransmitted this);
          last_packet = (if initiating_packets this = [] then None else Some (last (initiating_packets this)));
          (this, alerts) =
            (if retransmitted this \<noteq> 0
             then (this\<lparr>retransmit_sent := True\<rparr>,
                   [Alert (ALERT_RETRANSMIT_SEND last_packet (retransmitted this))])
             else (this, []))
      in case mobike of
           None \<Rightarrow>
             (case send_packets env this (initiating_packets this)
                     (Some (my_host (ike_sa this))) (Some (other_host (ike_sa this)))
              of (this, ev) \<Rightarrow> schedule_retransmit this mid timeout (alerts @ ev))
         | Some task \<Rightarrow>
             (case mobike_transmit env task pkt of (found, check, ps) \<Rightarrow>
                let this = this\<lparr>active_tasks := set_check check (active_tasks this)\<rparr>;
                    ev = alerts @ map Send ps
                in if \<not> found then (INVALID_STATE, defer_exchange this, ev)
                   else schedule_retransmit this mid
                          (if check then ROUTABILITY_CHECK_INTERVAL else timeout) ev))"

text \<open>The main block of \<^verbatim>\<open>retransmit\<close>.\<close>

definition retransmit_current ::
    "env_t \<Rightarrow> private_task_manager_t \<Rightarrow> u32 \<Rightarrow> status_t \<times> private_task_manager_t \<times> event list" where
  "retransmit_current env this mid =
     (let pkt = (if initiating_packets this = [] then None else Some (hd (initiating_packets this)));
          mobike = find_mobike this
      in case mobike of
           Some task \<Rightarrow>
             if task_check task then retransmit_probing env this mid task pkt
             else if retransmitted this > tries this
             then (DESTROY_ME, this, [Alert (ALERT_RETRANSMIT_SEND_TIMEOUT pkt)])
             else retransmit_all env this mid mobike pkt
         | None \<Rightarrow>
             if retransmitted this > tries this
             then (DESTROY_ME, this, [Alert (ALERT_RETRANSMIT_SEND_TIMEOUT pkt)])
             else if peer_supports_selective_retransmission this \<and> is_selective_retransmit this mid
             then retransmit_selective env this
             else retransmit_all env this mid None pkt)"

function retransmit ::
    "env_t \<Rightarrow> private_task_manager_t \<Rightarrow> u32 \<Rightarrow> status_t \<times> private_task_manager_t \<times> event list" where
  "retransmit env this mid =
     (let this = this\<lparr>current_retransmit_job := None\<rparr>
      in if is_selective_retransmit this mid \<and>
            acked_fragments (the (outgoing_tracker this)) \<ge> total_fragments (the (outgoing_tracker this))
         then (SUCCESS, this, [])
         else if (mid = initiating_mid this \<and> initiating_packets this \<noteq> []) \<or>
                 is_selective_retransmit this mid
         then retransmit_current env this mid
         else if mid < initiating_mid this
         then if is_selective_retransmit this (initiating_mid this) \<and>
                 acked_fragments (the (outgoing_tracker this)) < total_fragments (the (outgoing_tracker this))
              then retransmit env this (initiating_mid this)
              else (SUCCESS, this, [])
         else (INVALID_STATE, this, []))"
  by pat_completeness auto
termination
  by (relation "measure (\<lambda>(env, this, mid). if mid < initiating_mid this then 1 else 0)") auto

declare retransmit.simps [simp del]

section \<open>Acknowledgements\<close>

text \<open>The tracker part and the job part of \<^verbatim>\<open>process_fragment_ack\<close>.\<close>

definition process_fragment_ack ::
    "bool \<Rightarrow> env_t \<Rightarrow> private_task_manager_t \<Rightarrow> private_message_t \<Rightarrow> private_task_manager_t" where
  "process_fragment_ack be env this message =
     (case get_notify message FRAGMENT_ACK of
        None \<Rightarrow> this
      | Some notify \<Rightarrow>
          let ack_data = get_notification_data notify
          in if length ack_data < ACK_DATA_SIZE then this
             else
               let ack = ack_from_bytes be ack_data;
                   mid = ucast (ntohs be (ack_message_id ack)) :: u32
               in case outgoing_tracker this of
                    None \<Rightarrow> this
                  | Some t \<Rightarrow>
                      if trk_message_id t \<noteq> mid then this
                      else
                        let t = update_fragment_ack_status be (now env)
                                  (t\<lparr>last_ack_time := now env\<rparr>) ack;
                            this = this\<lparr>outgoing_tracker := Some t\<rparr>
                        in if acked_fragments t = total_fragments t
                           then this\<lparr>current_retransmit_job := None\<rparr> else this)"

text \<open>
  The message of \<^verbatim>\<open>send_immediate_fragment_ack\<close> and its transmission; \<open>gen\<close> stands for
  \<^verbatim>\<open>generate_message\<close> of the IKE_SA.
\<close>

definition fragment_ack_message ::
    "bool \<Rightarrow> private_task_manager_t \<Rightarrow> private_message_t \<Rightarrow> u32 \<Rightarrow> u16 \<Rightarrow> private_message_t" where
  "fragment_ack_message be this defrag mid fragment_number =
     (let ack = build_fragment_ack be defrag mid fragment_number;
          notify = \<lparr>ptype = PLV2_NOTIFY, next_payload = PL_NONE,
                    pbody = NotifyBody FRAGMENT_ACK (ack_to_bytes be ack), protocol_id = 0\<rparr>;
          msg = (message_create 2 0)\<lparr>exchange_type := INFORMATIONAL, is_request := True, message_id := 0\<rparr>;
          msg = msg\<lparr>packet := (packet msg)\<lparr>source := Some (my_host (ike_sa this)),
                                            destination := Some (other_host (ike_sa this))\<rparr>\<rparr>
      in add_payload msg notify)"

definition send_immediate_fragment_ack ::
    "bool \<Rightarrow> (private_message_t \<Rightarrow> packet_t option) \<Rightarrow> private_task_manager_t \<Rightarrow>
     private_message_t option \<Rightarrow> u32 \<Rightarrow> u16 \<Rightarrow> event list" where
  "send_immediate_fragment_ack be gen this defrag mid fragment_number =
     (case defrag of
        None \<Rightarrow> []
      | Some d \<Rightarrow>
          (case gen (fragment_ack_message be this d mid fragment_number) of
             None \<Rightarrow> []
           | Some pkt \<Rightarrow> [Send pkt]))"

section \<open>Statistics\<close>

definition print_intermediate_transmission_stats :: "private_task_manager_t \<Rightarrow> private_task_manager_t" where
  "print_intermediate_transmission_stats this =
     (case outgoing_tracker this of
        Some t \<Rightarrow>
          this\<lparr>request_original_size := total_original_size t,
               request_total_transmitted := total_transmitted_size t,
               request_retransmission_count := retransmission_count t\<rparr>
      | None \<Rightarrow>
          let sz = total_size (initiating_packets this)
          in this\<lparr>request_original_size := sz,
                  request_total_transmitted :=
                    (if retransmitted this = 0 then sz else sz * retransmitted this)\<rparr>)"

definition update_response_transmission_stats :: "private_task_manager_t \<Rightarrow> u32 \<Rightarrow> u32 \<Rightarrow> private_task_manager_t" where
  "update_response_transmission_stats this response_size retransmissions =
     this\<lparr>response_original_size := response_size,
          response_total_transmitted := response_size * (retransmissions + 1),
          response_retransmission_count := retransmissions\<rparr>"

end
