(* ===== verification/Retransmission.thy ===== *)
theory Retransmission
  imports Task_Manager
begin

text \<open>
  Properties of the retransmission timer and of fragment acknowledgements in the IKEv2 task manager:
  what a run of the timer changes, when the exchange is given up, which fragments are sent again, and
  what an acknowledgement does to the sender.
\<close>

section \<open>Frame lemmas\<close>

text \<open>What a tracker promises about completion does not depend on the statistics.\<close>

definition same_progress :: "fragment_tracker_t option \<Rightarrow> fragment_tracker_t option \<Rightarrow> bool" where
  "same_progress a b \<longleftrightarrow>
     (case (a, b) of
        (None, None) \<Rightarrow> True
      | (Some s, Some t) \<Rightarrow>
          trk_message_id s = trk_message_id t \<and> total_fragments s = total_fragments t \<and>
          acked_fragments s = acked_fragments t \<and>
          map acknowledged (trk_fragments s) = map acknowledged (trk_fragments t) \<and>
          map fragment_id (trk_fragments s) = map fragment_id (trk_fragments t) \<and>
          map fs_packet (trk_fragments s) = map fs_packet (trk_fragments t)
      | _ \<Rightarrow> False)"

lemma same_progress_refl [simp]: "same_progress a a"
  by (simp add: same_progress_def split: option.split)

lemma same_progress_trans: "same_progress a b \<Longrightarrow> same_progress b c \<Longrightarrow> same_progress a c"
  by (auto simp: same_progress_def split: option.splits)

text \<open>Two states in which the same exchange is in flight, with the same acknowledgements.\<close>

definition same_exchange :: "private_task_manager_t \<Rightarrow> private_task_manager_t \<Rightarrow> bool" where
  "same_exchange a b \<longleftrightarrow>
     initiating_mid a = initiating_mid b \<and> initiating_packets a = initiating_packets b \<and>
     initiating_type a = initiating_type b \<and> active_tasks a = active_tasks b \<and>
     tries a = tries b \<and> ike_sa a = ike_sa b \<and>
     selective_retransmission_enabled a = selective_retransmission_enabled b \<and>
     peer_supports_selective_retransmission a = peer_supports_selective_retransmission b \<and>
     same_progress (outgoing_tracker a) (outgoing_tracker b)"

lemma same_exchange_refl [simp]: "same_exchange a a"
  by (simp add: same_exchange_def)

lemma same_exchange_trans: "same_exchange a b \<Longrightarrow> same_exchange b c \<Longrightarrow> same_exchange a c"
  by (auto simp: same_exchange_def dest: same_progress_trans)

lemma same_exchange_update [frame_simps, simp]:
  "same_exchange (a\<lparr>retransmitted := n\<rparr>) b = same_exchange a b"
  "same_exchange (a\<lparr>current_retransmit_job := j\<rparr>) b = same_exchange a b"
  "same_exchange (a\<lparr>retransmit_sent := s\<rparr>) b = same_exchange a b"
  by (simp_all add: same_exchange_def)

lemma send_packets_exchange [frame_simps]:
  "send_packets env this ps src dst = (this', ev) \<Longrightarrow>
     same_exchange this' this \<and> retransmitted this' = retransmitted this"
  by (auto simp: send_packets_def Let_def same_exchange_def same_progress_def
      split: option.splits if_splits)

lemma resend_unacked_spec:
  "resend_unacked tm fs = (fs', ps, sz) \<Longrightarrow>
     ps = map fs_packet (filter (\<lambda>f. \<not> acknowledged f) fs) \<and>
     sz = sum_list (map data_size (filter (\<lambda>f. \<not> acknowledged f) fs)) \<and>
     map acknowledged fs' = map acknowledged fs \<and> map fragment_id fs' = map fragment_id fs \<and>
     map fs_packet fs' = map fs_packet fs"
  by (induction fs arbitrary: fs' ps sz) (auto simp: Let_def split: prod.splits if_splits)

lemma acked_count_acknowledged: "acked_count fs = length (filter id (map acknowledged fs))"
  by (induction fs) auto

lemma same_progress_inv:
  "same_progress (Some s) (Some t) \<Longrightarrow> tracker_inv s = tracker_inv t"
  by (auto simp: same_progress_def tracker_inv_def acked_count_acknowledged dest: map_eq_imp_length_eq)

lemma simple_exchange [frame_simps]:
  assumes "retransmit_missing_fragments_simple env this = (st, this', ev)"
  shows "same_exchange this' this \<and> retransmitted this' = retransmitted this"
proof (cases "outgoing_tracker this")
  case (Some t)
  obtain fs ps sz where r: "resend_unacked (now env) (trk_fragments t) = (fs, ps, sz)"
    by (metis prod_cases3)
  note spec = resend_unacked_spec [OF r]
  show ?thesis
  proof (cases "acked_fragments t = total_fragments t \<or> ps = []")
    case True
    then show ?thesis
      using assms Some r spec by (auto simp: retransmit_missing_fragments_simple_def Let_def
          same_exchange_def same_progress_def split: if_splits)
  next
    case False
    let ?t = "t\<lparr>trk_fragments := fs, total_transmitted_size := total_transmitted_size t + sz,
                retransmission_count := retransmission_count t + 1\<rparr>"
    obtain this1 ev1 where s: "send_packets env (this\<lparr>outgoing_tracker := Some ?t\<rparr>) ps
        (Some (my_host (ike_sa this))) (Some (other_host (ike_sa this))) = (this1, ev1)"
      by (metis prod.exhaust)
    have "same_exchange (this\<lparr>outgoing_tracker := Some ?t\<rparr>) this"
      using spec Some by (simp add: same_exchange_def same_progress_def)
    then show ?thesis
      using assms Some r False send_packets_exchange [OF s] s
      by (auto simp: retransmit_missing_fragments_simple_def Let_def dest: same_exchange_trans)
  qed
qed (use assms in \<open>auto simp: retransmit_missing_fragments_simple_def\<close>)

section \<open>One run of the timer\<close>

text \<open>An exchange without MOBIKE task that waits for its response or for acknowledgements.\<close>

definition unanswered :: "private_task_manager_t \<Rightarrow> u32 \<Rightarrow> bool" where
  "unanswered this mid \<longleftrightarrow>
     mid = initiating_mid this \<and> initiating_packets this \<noteq> [] \<and> find_mobike this = None \<and>
     (is_selective_retransmit this mid \<longrightarrow>
        acked_fragments (the (outgoing_tracker this)) < total_fragments (the (outgoing_tracker this)))"

lemma unanswered_same_exchange:
  "same_exchange a b \<Longrightarrow> unanswered a mid = unanswered b mid"
  by (auto simp: same_exchange_def unanswered_def find_mobike_def is_selective_retransmit_def
      same_progress_def split: option.splits)

lemma is_selective_same_exchange:
  "same_exchange a b \<Longrightarrow> is_selective_retransmit a mid = is_selective_retransmit b mid"
  by (auto simp: same_exchange_def is_selective_retransmit_def same_progress_def split: option.splits)

lemma is_selective_update [simp]:
  "is_selective_retransmit (a\<lparr>retransmitted := n\<rparr>) mid = is_selective_retransmit a mid"
  "is_selective_retransmit (a\<lparr>current_retransmit_job := j\<rparr>) mid = is_selective_retransmit a mid"
  "is_selective_retransmit (a\<lparr>retransmit_sent := s\<rparr>) mid = is_selective_retransmit a mid"
  by (simp_all add: is_selective_retransmit_def)

lemma retransmit_unanswered:
  assumes "unanswered this mid"
  shows "retransmit env this mid = retransmit_current env (this\<lparr>current_retransmit_job := None\<rparr>) mid"
  using assms by (subst retransmit.simps) (auto simp: unanswered_def Let_def)

lemma selective_step:
  assumes "unanswered this mid" "is_selective_retransmit this mid"
    and "retransmit_selective env this = (st, this', ev)"
  shows "st = SUCCESS \<and> same_exchange this' this \<and> retransmitted this' = retransmitted this + 1 \<and>
    (\<exists>ev'. ev = ev' @ [Schedule_Retransmit mid 1800]) \<and> current_retransmit_job this' = Some mid"
proof -
  obtain t where t: "outgoing_tracker this = Some t" "trk_message_id t = mid"
      "acked_fragments t < total_fragments t"
    using assms(1,2) by (auto simp: unanswered_def is_selective_retransmit_def split: option.splits)
  let ?missing = "of_nat (length (filter (\<lambda>f. \<not> acknowledged f) (trk_fragments t))) :: u16"
  obtain this1 ev1 where s: "(if retransmitted this > 0
      then if ?missing > 0 then snd (retransmit_missing_fragments_simple env this) else (this, [])
      else send_packets env this (initiating_packets this)
             (Some (my_host (ike_sa this))) (Some (other_host (ike_sa this)))) = (this1, ev1)"
    by (metis prod.exhaust)
  then have ex: "same_exchange this1 this \<and> retransmitted this1 = retransmitted this"
    using simple_exchange [of env this] send_packets_exchange
    by (cases "retransmit_missing_fragments_simple env this") (auto split: if_splits)
  then obtain t1 where t1: "outgoing_tracker this1 = Some t1" "trk_message_id t1 = mid"
      "acked_fragments t1 < total_fragments t1"
    using t by (auto simp: same_exchange_def same_progress_def split: option.splits)
  have "retransmit_selective env this =
      (SUCCESS, this1\<lparr>retransmitted := retransmitted this1 + 1, current_retransmit_job := Some mid\<rparr>,
       ev1 @ [Schedule_Retransmit mid 1800])"
    unfolding retransmit_selective_def t(1) option.sel Let_def s prod.case
    using t(3) t1 by auto
  then show ?thesis using assms(3) ex by auto
qed

lemma all_step:
  assumes "unanswered this mid" "retransmit_all env this mid None pkt = (st, this', ev)"
  shows "st = SUCCESS \<and> same_exchange this' this \<and> retransmitted this' = retransmitted this + 1 \<and>
    (\<exists>ev'. ev = ev' @ [Schedule_Retransmit_ms mid (timeout_ms env (retransmitted this))]) \<and>
    current_retransmit_job this' = Some mid"
proof -
  let ?tm = "if retransmitted this \<noteq> 0 then this\<lparr>retransmit_sent := True\<rparr> else this"
  have ex0: "same_exchange ?tm this" "retransmitted ?tm = retransmitted this"
    "initiating_packets ?tm = initiating_packets this" "ike_sa ?tm = ike_sa this"
    by simp_all
  obtain this1 ev1 where s: "send_packets env ?tm (initiating_packets this)
      (Some (my_host (ike_sa this))) (Some (other_host (ike_sa this))) = (this1, ev1)"
    by (metis prod.exhaust)
  have ex: "same_exchange this1 this" "retransmitted this1 = retransmitted this"
    using send_packets_exchange [OF s] ex0 same_exchange_trans by auto
  have mid: "(if is_selective_retransmit this1 mid then mid else initiating_mid this1) = mid"
    using assms(1) ex(1) by (simp add: unanswered_def same_exchange_def)
  then show ?thesis
    using assms(2) s ex by (auto simp: retransmit_all_def schedule_retransmit_def Let_def split: if_splits)
qed

lemma retransmit_step:
  assumes "unanswered this mid" "retransmit env this mid = (st, this', ev)"
  shows "if retransmitted this > tries this
    then st = DESTROY_ME \<and> ev = [Alert (ALERT_RETRANSMIT_SEND_TIMEOUT (Some (hd (initiating_packets this))))]
    else st = SUCCESS \<and> same_exchange this' this \<and> retransmitted this' = retransmitted this + 1 \<and>
      current_retransmit_job this' = Some mid"
proof -
  let ?tm = "this\<lparr>current_retransmit_job := None\<rparr>"
  let ?pkt = "Some (hd (initiating_packets this))"
  have un: "unanswered ?tm mid" "find_mobike ?tm = None" "initiating_packets ?tm \<noteq> []"
    using assms(1) unanswered_same_exchange [of ?tm this mid] by (simp_all add: unanswered_def)
  have cur: "retransmit_current env ?tm mid = (st, this', ev)"
    using assms by (simp add: retransmit_unanswered)
  consider (giveup) "retransmitted this > tries this"
    | (sel) "\<not> retransmitted this > tries this" "retransmit_selective env ?tm = (st, this', ev)"
        "is_selective_retransmit ?tm mid"
    | (all) "\<not> retransmitted this > tries this" "retransmit_all env ?tm mid None ?pkt = (st, this', ev)"
    using cur un(2,3) by (auto simp: retransmit_current_def Let_def split: if_splits)
  then show ?thesis
  proof cases
    case giveup
    then show ?thesis using cur un(2,3) by (auto simp: retransmit_current_def Let_def)
  next
    case sel
    then show ?thesis using selective_step [OF un(1) sel(3,2)] same_exchange_trans by force
  next
    case all
    then show ?thesis using all_step [OF un(1) all(2)] same_exchange_trans by force
  qed
qed

section \<open>Giving up\<close>

text \<open>The timer fires \<open>n\<close> times without any message in between; the list of returned states.\<close>

fun timer_runs :: "env_t \<Rightarrow> private_task_manager_t \<Rightarrow> u32 \<Rightarrow> nat \<Rightarrow> status_t list" where
  "timer_runs env this mid 0 = []"
| "timer_runs env this mid (Suc n) =
     (case retransmit env this mid of (st, this, ev) \<Rightarrow> st # timer_runs env this mid n)"


definition sample_host :: "u8 \<Rightarrow> host_t" where
  "sample_host n = \<lparr>family = AF_INET, address = [10, 0, 0, n], port = 4500\<rparr>"

definition sample_env :: "env_t" where
  "sample_env = \<lparr>now = 100, simulate_first_fragment_loss = False, timeout_ms = (\<lambda>n. 4000),
     mobike_transmit = (\<lambda>t p. (True, False, []))\<rparr>"

definition sample_sa :: "ike_sa_state_t \<Rightarrow> ike_sa_t" where
  "sample_sa st = \<lparr>ike_state = st, my_host = sample_host 1, other_host = sample_host 2,
     sa_is_initiator = True, has_ike_cfg = True, ext_mobike = False, ext_mid_sync = False,
     cond_stale = False, stat_inbound = 0\<rparr>"

definition sample_manager :: "private_task_manager_t" where
  "sample_manager = (task_manager_v2_create (sample_sa IKE_CONNECTING) 5 True)
     \<lparr>initiating_packets := [\<lparr>source = None, destination = None, pkt_data = Some [1]\<rparr>],
      initiating_type := IKE_INTERMEDIATE, initiating_mid := 5\<rparr>"


section \<open>Selective retransmission\<close>

text \<open>
  C36. Selective retransmission sends exactly the fragments that are not acknowledged, in order, with
  the current addresses of the IKE_SA; it changes no acknowledgement, so the tracker stays consistent.
\<close>

theorem selective_resends_exactly_missing:
  assumes "outgoing_tracker this = Some t" "tracker_inv t" "acked_fragments t \<noteq> total_fragments t"
    and "\<not> simulate_first_fragment_loss env"
  shows "\<exists>t' this'. retransmit_missing_fragments_simple env this =
      (NEED_MORE, this',
       map (\<lambda>f. Send ((fs_packet f)\<lparr>source := Some (my_host (ike_sa this)),
                                  destination := Some (other_host (ike_sa this))\<rparr>))
         (filter (\<lambda>f. \<not> acknowledged f) (trk_fragments t))) \<and>
    outgoing_tracker this' = Some t' \<and> tracker_inv t' \<and>
    map acknowledged (trk_fragments t') = map acknowledged (trk_fragments t)"
proof -
  obtain fs ps sz where r: "resend_unacked (now env) (trk_fragments t) = (fs, ps, sz)"
    by (metis prod_cases3)
  note spec = resend_unacked_spec [OF r]
  have "\<exists>f\<in>set (trk_fragments t). \<not> acknowledged f"
    using tracker_complete_iff [OF assms(2)] assms(3) by blast
  then have ne: "ps \<noteq> []" using spec by (auto simp: filter_empty_conv)
  obtain st this' ev where res: "retransmit_missing_fragments_simple env this = (st, this', ev)"
    by (metis prod_cases3)
  have prog: "same_progress (outgoing_tracker this') (Some t)"
    using simple_exchange [OF res] assms(1) by (simp add: same_exchange_def)
  then obtain t' where t': "outgoing_tracker this' = Some t'"
    by (auto simp: same_progress_def split: option.splits)
  have "st = NEED_MORE" "ev = map (\<lambda>p. Send (address_packet (Some (my_host (ike_sa this)))
      (Some (other_host (ike_sa this))) p)) ps"
    using res assms r ne by (auto simp: retransmit_missing_fragments_simple_def send_packets_def Let_def)
  moreover have "tracker_inv t'" "map acknowledged (trk_fragments t') = map acknowledged (trk_fragments t)"
    using prog t' same_progress_inv [of t' t] assms(2) by (auto simp: same_progress_def)
  ultimately show ?thesis
    using res t' spec by (auto simp: address_packet_def)
qed

text \<open>
  The transmission statistics count retransmitted fragments twice: once in
  \<^verbatim>\<open>retransmit_missing_fragments_simple\<close> and once more in \<^verbatim>\<open>send_packets\<close>, for every message ID except 0.
\<close>

lemma selective_resend_counted_twice:
  assumes "outgoing_tracker this = Some t" "tracker_inv t" "acked_fragments t \<noteq> total_fragments t"
    and "trk_message_id t \<noteq> 0" "\<forall>f\<in>set (trk_fragments t). data_size f = packet_len (fs_packet f)"
  shows "\<exists>st this' ev t'. retransmit_missing_fragments_simple env this = (st, this', ev) \<and>
    outgoing_tracker this' = Some t' \<and>
    total_transmitted_size t' = total_transmitted_size t +
      2 * sum_list (map data_size (filter (\<lambda>f. \<not> acknowledged f) (trk_fragments t)))"
proof -
  obtain fs ps sz where r: "resend_unacked (now env) (trk_fragments t) = (fs, ps, sz)"
    by (metis prod_cases3)
  note spec = resend_unacked_spec [OF r]
  have "\<exists>f\<in>set (trk_fragments t). \<not> acknowledged f"
    using tracker_complete_iff [OF assms(2)] assms(3) by blast
  then have ne: "ps \<noteq> []" using spec by (auto simp: filter_empty_conv)
  have "foldl (\<lambda>s p. s + of_nat (data_len p)) a xs = a + sum_list (map packet_len xs)" for a :: u32 and xs
    by (induction xs arbitrary: a) (simp_all add: packet_len_def data_len_def add.assoc)
  then have "total_size ps = sum_list (map packet_len ps)" by (simp add: total_size_def)
  also have "\<dots> = sum_list (map data_size (filter (\<lambda>f. \<not> acknowledged f) (trk_fragments t)))"
    using spec assms(5) by (auto simp: comp_def intro!: arg_cong [where f = sum_list] map_cong)
  finally have "total_size ps = sz" using spec by simp
  moreover have "trk_message_id t > 0" using assms(4) by (simp add: word_neq_0_conv)
  ultimately show ?thesis
    using assms(1,3) r ne spec
    by (simp add: retransmit_missing_fragments_simple_def send_packets_def Let_def)
qed

definition selective_manager :: "private_task_manager_t" where
  "selective_manager = sample_manager\<lparr>outgoing_tracker := Some (sample_tracker 3),
     peer_supports_selective_retransmission := True\<rparr>"

lemma selective_manager:
  "outgoing_tracker selective_manager = Some (sample_tracker 3)" "tracker_inv (sample_tracker 3)"
  "acked_fragments (sample_tracker 3) = 0" "total_fragments (sample_tracker 3) = 3"
  "trk_message_id (sample_tracker 3) = 5"
  "\<forall>f\<in>set (trk_fragments (sample_tracker 3)). data_size f = packet_len (fs_packet f)"
  using sample_tracker(1) [of 3]
  by (simp_all add: selective_manager_def sample_tracker_def fresh_tracker_def
      create_fragment_tracker_def numeral_3_eq_3 add_fragment_to_tracker_def seq_insert_def Let_def)

theorem selective_resends_exactly_missing_witness:
  "\<exists>this' ev. retransmit_missing_fragments_simple sample_env selective_manager = (NEED_MORE, this', ev) \<and>
     length ev = 3"
  using selective_resends_exactly_missing [OF selective_manager(1,2), of sample_env]
    sample_tracker(2,3) [of 3] selective_manager(3,4)
  by (auto simp: sample_env_def)

lemma selective_resend_counted_twice_witness:
  "\<exists>st this' ev t'. retransmit_missing_fragments_simple sample_env selective_manager = (st, this', ev) \<and>
     outgoing_tracker this' = Some t' \<and>
     total_transmitted_size t' = total_transmitted_size (sample_tracker 3) +
       2 * sum_list (map data_size (filter (\<lambda>f. \<not> acknowledged f) (trk_fragments (sample_tracker 3))))"
  using selective_manager(3-5)
  by (intro selective_resend_counted_twice selective_manager(1,2,6)) simp_all

section \<open>Acknowledgements and the timer\<close>

lemma get_notify_ack_message [simp]:
  "map_option get_notification_data (get_notify (fragment_ack_message be that d mid num) FRAGMENT_ACK) =
     Some (ack_to_bytes be (build_fragment_ack be d mid num))"
  by (simp add: fragment_ack_message_def Let_def add_payload_def get_notify_def set_next_type_def
      message_create_def message_create_from_packet_def get_notify_type.simps)

lemma ntohs_reread [codec_simps, simp]: "ntohs be' (reread be be' x) = ntohs be x"
  by (simp add: reread_def)

lemma ack_message_id_build [simp]:
  "ack_message_id (build_fragment_ack be d mid num) = htons be (ucast mid)"
  by (simp add: build_fragment_ack_def Let_def split: prod.split)

lemma unat_mid16: "unat (ucast (ucast (mid :: u32) :: u16) :: u32) = unat mid mod 65536"
  by (simp add: unsigned_ucast_eq unsigned_take_bit_eq take_bit_nat_def)

lemma process_ack_message:
  assumes "outgoing_tracker this = Some t"
  shows "process_fragment_ack be' env this (fragment_ack_message be that d mid num) =
    (if trk_message_id t \<noteq> ucast (ucast mid :: u16) then this
     else let t = update_fragment_ack_status be' (now env) (t\<lparr>last_ack_time := now env\<rparr>)
                    (ack_from_bytes be' (ack_to_bytes be (build_fragment_ack be d mid num)));
              this = this\<lparr>outgoing_tracker := Some t\<rparr>
          in if acked_fragments t = total_fragments t
             then this\<lparr>current_retransmit_job := None\<rparr> else this)"
proof -
  let ?ack = "build_fragment_ack be d mid num"
  obtain n where n: "get_notify (fragment_ack_message be that d mid num) FRAGMENT_ACK = Some n"
    "get_notification_data n = ack_to_bytes be ?ack"
    using get_notify_ack_message [of be that d mid num] by (auto simp del: get_notify_ack_message)
  have len: "length (ack_to_bytes be ?ack) = 22"
    unfolding ack_to_bytes_def length_concat_store by simp
  have mid: "ntohs be' (ack_message_id (ack_from_bytes be' (ack_to_bytes be ?ack))) = ucast mid"
    using ack_from_to_bytes [of ?ack be' be "[]"] by simp
  show ?thesis
    unfolding process_fragment_ack_def n(1) option.case n(2) assms Let_def len mid
    by simp
qed



text \<open>
  The acknowledgement carries only 16 bits of the message ID: from message ID 65536 on, an
  acknowledgement built for the tracked message is never applied to its tracker.
\<close>

lemma large_message_id_ack_ignored:
  assumes "outgoing_tracker this = Some t" "trk_message_id t = mid" "65536 \<le> mid"
  shows "process_fragment_ack be' env this (fragment_ack_message be that d mid num) = this"
proof -
  have "unat (ucast (ucast mid :: u16) :: u32) < 65536"
    unfolding unat_mid16 by simp
  moreover have "65536 \<le> unat mid" using assms(3) by (simp add: word_le_nat_alt)
  ultimately have "mid \<noteq> ucast (ucast mid :: u16)" by (metis not_less)
  then show ?thesis using process_ack_message [OF assms(1)] assms(2) by simp
qed

lemma large_message_id_ack_ignored_witness:
  "process_fragment_ack False sample_env
     (selective_manager\<lparr>outgoing_tracker := Some ((sample_tracker 3)\<lparr>trk_message_id := 65536\<rparr>)\<rparr>)
     (fragment_ack_message False selective_manager sample_collecting 65536 2) =
   selective_manager\<lparr>outgoing_tracker := Some ((sample_tracker 3)\<lparr>trk_message_id := 65536\<rparr>)\<rparr>"
  by (intro large_message_id_ack_ignored [where t = "(sample_tracker 3)\<lparr>trk_message_id := 65536\<rparr>"]) simp_all

text \<open>
  The timer of selective retransmission is armed in seconds: every run that leaves the message
  incomplete schedules the next one with \<^verbatim>\<open>schedule_job\<close> and the value 1800, although the comment
  beside it promises 1.8 seconds.
\<close>

lemma selective_timer_in_seconds:
  assumes "unanswered this mid" "is_selective_retransmit this mid"
    "peer_supports_selective_retransmission this" "retransmitted this \<le> tries this"
  shows "\<exists>this' ev. retransmit env this mid = (SUCCESS, this', ev @ [Schedule_Retransmit mid 1800])"
proof -
  let ?tm = "this\<lparr>current_retransmit_job := None\<rparr>"
  have un: "unanswered ?tm mid" using assms(1) unanswered_same_exchange [of ?tm this mid] by simp
  obtain st this' ev where sel: "retransmit_selective env ?tm = (st, this', ev)" by (metis prod_cases3)
  have "retransmit env this mid = retransmit_selective env ?tm"
    unfolding retransmit_unanswered [OF assms(1)]
    using un assms(2-4) by (auto simp: retransmit_current_def unanswered_def Let_def)
  then show ?thesis
    using selective_step [OF un _ sel] assms(2) sel by auto
qed

lemma selective_timer_in_seconds_witness:
  "\<exists>this' ev. retransmit sample_env selective_manager 5 = (SUCCESS, this', ev @ [Schedule_Retransmit 5 1800])"
proof (rule selective_timer_in_seconds)
  show "unanswered selective_manager 5" "is_selective_retransmit selective_manager 5"
    using selective_manager
    by (simp_all add: unanswered_def is_selective_retransmit_def find_mobike_def selective_manager_def
        sample_manager_def task_manager_v2_create_def)
  show "peer_supports_selective_retransmission selective_manager"
    "retransmitted selective_manager \<le> tries selective_manager"
    by (simp_all add: selective_manager_def sample_manager_def task_manager_v2_create_def)
qed

end
