(* ===== verification/Process_Message.thy ===== *)
theory Process_Message
  imports Retransmission
begin

text \<open>
  The receive path of the IKEv2 task manager in
  \<^verbatim>\<open>src/src/libcharon/sa/ikev2/task_manager_v2.c\<close>: retransmit detection, message IDs, rejected
  requests, reassembly with immediate acknowledgements, and the dispatch to request and response
  processing. What the receive path calls outside of this file is collected in \<open>rx_env\<close>: message
  generation and body parsing with the keys of the IKE_SA, the SHA-1 hasher, the config backends, the
  bus listeners, the tasks (\<open>process_request\<close>, \<open>process_response\<close>) and the IKE_SA's own
  \<^verbatim>\<open>process_message\<close> to which a reassembled message is handed (\<open>reinject\<close>).
\<close>

section \<open>Order of IKE_SA states\<close>

fun ike_state_index :: "ike_sa_state_t \<Rightarrow> nat" where
  "ike_state_index IKE_CREATED = 0"
| "ike_state_index IKE_CONNECTING = 1"
| "ike_state_index IKE_ESTABLISHED = 2"
| "ike_state_index IKE_PASSIVE = 3"
| "ike_state_index IKE_REKEYING = 4"
| "ike_state_index IKE_REKEYED = 5"
| "ike_state_index IKE_DELETING = 6"
| "ike_state_index IKE_DESTROYING = 7"

lemma ike_state_index_inj: "ike_state_index a = ike_state_index b \<Longrightarrow> a = b"
  by (cases a; cases b) simp_all

instantiation ike_sa_state_t :: linorder
begin

definition less_eq_ike_sa_state_t :: "ike_sa_state_t \<Rightarrow> ike_sa_state_t \<Rightarrow> bool" where
  "less_eq_ike_sa_state_t a b \<longleftrightarrow> ike_state_index a \<le> ike_state_index b"

definition less_ike_sa_state_t :: "ike_sa_state_t \<Rightarrow> ike_sa_state_t \<Rightarrow> bool" where
  "less_ike_sa_state_t a b \<longleftrightarrow> ike_state_index a < ike_state_index b"

instance
  by standard (auto simp: less_eq_ike_sa_state_t_def less_ike_sa_state_t_def dest: ike_state_index_inj)

end

section \<open>Surroundings\<close>

record rx_env =
  tx :: env_t
  big_endian :: bool
  gen_packet :: "private_message_t \<Rightarrow> packet_t option"
  ike_init_derive :: "task_t \<Rightarrow> status_t"
  parse_body :: "private_message_t \<Rightarrow> status_t \<times> private_message_t"
  sha1 :: "bytes \<Rightarrow> bytes option"
  find_ike_cfg :: "host_t option \<Rightarrow> host_t option \<Rightarrow> bool"
  bus_listeners :: "private_message_t \<Rightarrow> private_message_t"
  update_hosts :: "ike_sa_t \<Rightarrow> host_t option \<Rightarrow> host_t option \<Rightarrow> bool \<Rightarrow> ike_sa_t"
  process_request :: "private_task_manager_t \<Rightarrow> private_message_t \<Rightarrow>
    status_t \<times> private_task_manager_t \<times> event list"
  process_response :: "private_task_manager_t \<Rightarrow> private_message_t \<Rightarrow>
    status_t \<times> private_task_manager_t \<times> event list"
  reinject :: "private_task_manager_t \<Rightarrow> private_message_t \<Rightarrow>
    status_t \<times> private_task_manager_t \<times> event list"
  max_packet_setting :: nat
  fragment_timeout_setting :: int

section \<open>Message IDs and hashes\<close>

definition incr_mid :: "private_task_manager_t \<Rightarrow> bool \<Rightarrow> private_task_manager_t" where
  "incr_mid this initiate =
     (if initiate then this\<lparr>initiating_mid := initiating_mid this + 1\<rparr>
      else this\<lparr>responding_mid := responding_mid this + 1\<rparr>)"

definition get_mid :: "private_task_manager_t \<Rightarrow> bool \<Rightarrow> u32" where
  "get_mid this initiate = (if initiate then initiating_mid this else responding_mid this)"

definition packet_bytes :: "private_message_t \<Rightarrow> bytes" where
  "packet_bytes msg = (case pkt_data (packet msg) of None \<Rightarrow> [] | Some d \<Rightarrow> d)"

definition hash_message :: "rx_env \<Rightarrow> private_message_t \<Rightarrow> bytes option" where
  "hash_message env msg = sha1 env (packet_bytes msg)"

definition store_hash :: "rx_env \<Rightarrow> private_task_manager_t \<Rightarrow> private_message_t \<Rightarrow> private_task_manager_t" where
  "store_hash env this msg =
     (case hash_message env msg of None \<Rightarrow> this | Some h \<Rightarrow> this\<lparr>responding_hash := h\<rparr>)"

definition set_statistic_inbound :: "rx_env \<Rightarrow> private_task_manager_t \<Rightarrow> private_task_manager_t" where
  "set_statistic_inbound env this = this\<lparr>ike_sa := (ike_sa this)\<lparr>stat_inbound := now (tx env)\<rparr>\<rparr>"

section \<open>Fragments\<close>

definition get_defrag :: "bool \<Rightarrow> private_task_manager_t \<Rightarrow> private_message_t option" where
  "get_defrag responder this = (if responder then responding_defrag this else initiating_defrag this)"

definition set_defrag :: "bool \<Rightarrow> private_message_t option \<Rightarrow> private_task_manager_t \<Rightarrow> private_task_manager_t" where
  "set_defrag responder d this =
     (if responder then this\<lparr>responding_defrag := d\<rparr> else this\<lparr>initiating_defrag := d\<rparr>)"

definition get_fragment_number :: "payload_t \<Rightarrow> u16" where
  "get_fragment_number p = (case pbody p of FragV2Body num tot data \<Rightarrow> num | _ \<Rightarrow> 0)"

text \<open>
  \<^verbatim>\<open>handle_fragment\<close>. \<open>responder\<close> selects which of the two reassembly pointers is passed,
  \<open>is_defrag\<close> tells whether the message is the reassembled one itself.
\<close>

definition handle_fragment :: "rx_env \<Rightarrow> bool \<Rightarrow> bool \<Rightarrow> private_task_manager_t \<Rightarrow> private_message_t \<Rightarrow>
    status_t \<times> private_task_manager_t \<times> event list" where
  "handle_fragment env responder is_defrag this msg =
     (case get_payload msg PLV2_FRAGMENT of
        None \<Rightarrow> (SUCCESS, if is_defrag then this else store_hash env this msg, [])
      | Some skf \<Rightarrow>
          (case (case get_defrag responder this of
                   Some d \<Rightarrow> Some d
                 | None \<Rightarrow> message_create_defrag (max_packet_setting env)
                             (fragment_timeout_setting env) msg) of
             None \<Rightarrow> (FAILED, this, [])
           | Some d \<Rightarrow>
               let (status, d, msg) = add_fragment_v2 (now (tx env)) d msg;
                   this = set_defrag responder (Some d) this;
                   num = get_fragment_number skf;
                   (this, ev) =
                     (if status = NEED_MORE \<or> status = SUCCESS
                      then let this = (if num = 1 then store_hash env this msg else this)
                           in (this, if selective_retransmission_enabled this
                                     then send_immediate_fragment_ack (big_endian env) (gen_packet env) this
                                            (Some d) (message_id msg) num
                                     else [])
                      else (this, []))
               in if status = SUCCESS
                  then if responding_mid this \<ge> message_id msg \<and> ike_state (ike_sa this) > IKE_CONNECTING
                       then (NEED_MORE, set_defrag responder None this, ev)
                       else case reinject env this d of (status, this, ev') \<Rightarrow>
                              (if status = SUCCESS then NEED_MORE else status,
                               set_defrag responder None this, ev @ ev')
                  else (status, this, ev)))"

section \<open>Responses to invalid requests\<close>

definition is_anyaddr :: "host_t \<Rightarrow> bool" where
  "is_anyaddr h \<longleftrightarrow> list_all (\<lambda>b. b = 0) (address h)"

definition send_notify_response :: "rx_env \<Rightarrow> private_task_manager_t \<Rightarrow> private_message_t \<Rightarrow> notify_type_t \<Rightarrow> bytes \<Rightarrow>
    private_task_manager_t \<times> event list" where
  "send_notify_response env this request type data =
     (let response = (message_create 2 0)\<lparr>exchange_type := exchange_type request, is_request := False,
                        message_id := message_id request\<rparr>;
          response = add_notify response False type data;
          sa = ike_sa this;
          sa = (if is_anyaddr (my_host sa)
                then sa\<lparr>my_host := the (destination (packet request))\<rparr> else sa);
          sa = (if is_anyaddr (other_host sa)
                then sa\<lparr>other_host := the (source (packet request))\<rparr> else sa);
          response = response\<lparr>packet := (packet response)\<lparr>source := Some (my_host sa),
                                          destination := Some (other_host sa)\<rparr>\<rparr>
      in (this\<lparr>ike_sa := sa\<rparr>,
          case gen_packet env response of None \<Rightarrow> [] | Some pkt \<Rightarrow> [Send pkt]))"

definition send_invalid_syntax :: "rx_env \<Rightarrow> private_task_manager_t \<Rightarrow> private_message_t \<Rightarrow>
    status_t \<times> private_task_manager_t \<times> event list" where
  "send_invalid_syntax env this msg =
     (case send_notify_response env this msg INVALID_SYNTAX [] of (this, ev) \<Rightarrow>
        (if exchange_type msg = IKE_SA_INIT then FAILED else DESTROY_ME, incr_mid this False, ev))"

definition has_unsupported_critical_payload :: "private_message_t \<Rightarrow> status_t \<times> u8" where
  "has_unsupported_critical_payload msg =
     (case List.find (\<lambda>p. ptype p = PL_UNKNOWN \<and>
                          (case pbody p of UnknownBody crit t d \<Rightarrow> crit | _ \<Rightarrow> False)) (payloads msg) of
        None \<Rightarrow> (SUCCESS, 0)
      | Some p \<Rightarrow> (NOT_SUPPORTED, case pbody p of UnknownBody crit t d \<Rightarrow> t | _ \<Rightarrow> 0))"

text \<open>The enumeration of \<^verbatim>\<open>derive_keys\<close>: only the first IKE_INIT task is asked.\<close>

fun derive_keys :: "rx_env \<Rightarrow> task_t list \<Rightarrow> bool \<times> task_t list" where
  "derive_keys env [] = (True, [])"
| "derive_keys env (t # ts) =
     (if task_type t = TASK_IKE_INIT
      then case ike_init_derive env t of
             SUCCESS \<Rightarrow> (True, ts)
           | NEED_MORE \<Rightarrow> (True, t # ts)
           | _ \<Rightarrow> (False, t # ts)
      else case derive_keys env ts of (ok, ts) \<Rightarrow> (ok, t # ts))"

definition parse_message :: "rx_env \<Rightarrow> private_task_manager_t \<Rightarrow> private_message_t \<Rightarrow>
    status_t \<times> private_task_manager_t \<times> private_message_t \<times> event list" where
  "parse_message env this msg =
     (let (ok, passive) = derive_keys env (passive_tasks this);
          this = this\<lparr>passive_tasks := passive\<rparr>;
          (parse_status, msg) = (if ok then parse_body env msg else (INVALID_STATE, msg));
          (parse_status, type) =
            (if ok \<and> parse_status = SUCCESS then has_unsupported_critical_payload msg
             else (parse_status, 0));
          status = (if ok then parse_status else DESTROY_ME)
      in if parse_status = SUCCESS then (status, this, msg, [])
         else
           let (status, this, ev) =
                 (if parse_status = NOT_SUPPORTED
                  then if is_request msg
                       then case send_notify_response env this msg UNSUPPORTED_CRITICAL_PAYLOAD [type] of
                              (this, ev) \<Rightarrow> (status, incr_mid this False, ev)
                       else (status, this, [])
                  else if parse_status = PARSE_ERROR \<or> parse_status = VERIFY_ERROR
                  then if is_request msg then send_invalid_syntax env this msg else (status, this, [])
                  else (status, this, []));
               ev = ev @ [Alert (ALERT_PARSE_ERROR_BODY parse_status)];
               state = ike_state (ike_sa this)
           in if state = IKE_CREATED then (DESTROY_ME, this, msg, ev)
              else if state = IKE_CONNECTING \<or> state = IKE_REKEYED then (status, this, msg, ev)
              else (status, this, msg, if status = DESTROY_ME then ev @ [Ike_Down] else ev))"

section \<open>Classification of requests\<close>

definition has_fragment_ack_notify :: "private_message_t \<Rightarrow> bool" where
  "has_fragment_ack_notify msg \<longleftrightarrow> get_notify msg FRAGMENT_ACK \<noteq> None"

definition reject_request :: "private_task_manager_t \<Rightarrow> private_message_t \<Rightarrow> bool" where
  "reject_request this msg \<longleftrightarrow>
     (let state = ike_state (ike_sa this); type = exchange_type msg;
          reject =
            (case type of
               IKE_SA_INIT \<Rightarrow> state \<noteq> IKE_CREATED
             | IKE_INTERMEDIATE \<Rightarrow>
                 state \<noteq> IKE_CONNECTING \<or> \<not> has_queued this TASK_QUEUE_PASSIVE TASK_IKE_INIT
             | IKE_AUTH \<Rightarrow> state \<noteq> IKE_CONNECTING
             | _ \<Rightarrow> False)
      in if reject then True
         else case state of
                IKE_REKEYED \<Rightarrow> type \<noteq> INFORMATIONAL
              | IKE_CREATED \<Rightarrow>
                  sa_is_initiator (ike_sa this) \<and> \<not> (type = INFORMATIONAL \<and> has_fragment_ack_notify msg)
              | IKE_CONNECTING \<Rightarrow>
                  sa_is_initiator (ike_sa this) \<and> \<not> (type = INFORMATIONAL \<and> has_fragment_ack_notify msg)
              | _ \<Rightarrow> False)"

fun mid_sync_loop :: "payload_t list \<Rightarrow> bool \<Rightarrow> bool \<times> bool" where
  "mid_sync_loop [] found = (found, False)"
| "mid_sync_loop (p # ps) found =
     (if ptype p = PLV2_NOTIFY \<and>
         (get_notify_type p = IKEV2_MESSAGE_ID_SYNC \<or> get_notify_type p = IPSEC_REPLAY_COUNTER_SYNC)
      then mid_sync_loop ps True else (found, True))"

definition is_mid_sync :: "private_message_t \<Rightarrow> bool" where
  "is_mid_sync msg = (case mid_sync_loop (payloads msg) False of (found, other) \<Rightarrow> found \<and> \<not> other)"

definition is_potential_mid_sync :: "private_task_manager_t \<Rightarrow> private_message_t \<Rightarrow> bool" where
  "is_potential_mid_sync this msg \<longleftrightarrow>
     exchange_type msg = INFORMATIONAL \<and> ike_state (ike_sa this) = IKE_ESTABLISHED \<and>
     ext_mid_sync (ike_sa this)"

definition is_retransmit :: "rx_env \<Rightarrow> private_task_manager_t \<Rightarrow> private_message_t \<Rightarrow> status_t" where
  "is_retransmit env this msg =
     (let mid = message_id msg
      in if mid = 0 \<and> has_fragment_ack_notify msg then NEED_MORE
         else if mid = responding_mid this then NEED_MORE
         else if mid = responding_mid this - 1 \<and> responding_packets this \<noteq> []
         then case hash_message env msg of
                None \<Rightarrow> FAILED
              | Some h \<Rightarrow> if h = responding_prev_hash this then ALREADY_DONE else INVALID_ARG
         else INVALID_ARG)"

section \<open>Receiving a message\<close>

text \<open>
  The result of the first part of \<^verbatim>\<open>process_message\<close>: a return value, an unexpected message ID, or the
  status of parsing the message.
\<close>

datatype verdict = Return status_t | Unexpected | Parsed status_t

definition check_request :: "rx_env \<Rightarrow> private_task_manager_t \<Rightarrow> private_message_t \<Rightarrow>
    verdict \<times> private_task_manager_t \<times> private_message_t \<times> event list" where
  "check_request env this msg =
     (case is_retransmit env this msg of
        ALREADY_DONE \<Rightarrow>
          (case send_packets (tx env) (set_statistic_inbound env this) (responding_packets this)
                  (destination (packet msg)) (source (packet msg)) of
             (this, ev) \<Rightarrow> (Return SUCCESS, this, msg, Alert ALERT_RETRANSMIT_RECEIVE # ev))
      | INVALID_ARG \<Rightarrow>
          if message_id msg = 0 \<and> is_potential_mid_sync this msg
          then (case parse_message env this msg of (status, this, msg, ev) \<Rightarrow>
                  if status = SUCCESS \<and> \<not> is_mid_sync msg then (Unexpected, this, msg, ev)
                  else (Parsed status, this, msg, ev))
          else (Unexpected, this, msg, [])
      | NEED_MORE \<Rightarrow>
          (case parse_message env this msg of (status, this, msg, ev) \<Rightarrow> (Parsed status, this, msg, ev))
      | _ \<Rightarrow> (Return FAILED, this, msg, []))"

definition check_response :: "rx_env \<Rightarrow> private_task_manager_t \<Rightarrow> private_message_t \<Rightarrow>
    verdict \<times> private_task_manager_t \<times> private_message_t \<times> event list" where
  "check_response env this msg =
     (if message_id msg = initiating_mid this
      then case parse_message env this msg of (status, this, msg, ev) \<Rightarrow>
             (Parsed status,
              if status = SUCCESS \<and> has_fragment_ack_notify msg
              then process_fragment_ack (big_endian env) (tx env) this msg else this,
              msg, ev)
      else if message_id msg = 0 \<and> has_fragment_ack_notify msg
      then case parse_message env this msg of (status, this, msg, ev) \<Rightarrow>
             (Return status,
              if status = SUCCESS then process_fragment_ack (big_endian env) (tx env) this msg else this,
              msg, ev)
      else (Unexpected, this, msg, []))"

text \<open>The handling of an unexpected message ID, which looks for acknowledgements.\<close>

definition handle_unexpected :: "rx_env \<Rightarrow> private_task_manager_t \<Rightarrow> private_message_t \<Rightarrow> bool \<Rightarrow>
    status_t \<times> private_task_manager_t \<times> event list" where
  "handle_unexpected env this msg is_ack_request =
     (case parse_message env this msg of (status, this, msg, ev) \<Rightarrow>
        (SUCCESS,
         if status = SUCCESS \<and> (is_ack_request \<or> has_fragment_ack_notify msg)
         then process_fragment_ack (big_endian env) (tx env) this msg else this,
         ev))"

text \<open>Requests and responses with the expected message ID.\<close>

definition accept_request :: "rx_env \<Rightarrow> bool \<Rightarrow> u32 \<Rightarrow> host_t option \<Rightarrow> host_t option \<Rightarrow>
    private_task_manager_t \<Rightarrow> private_message_t \<Rightarrow>
    status_t option \<times> private_task_manager_t \<times> event list" where
  "accept_request env is_defrag mid me other this msg =
     (if reject_request this msg then (Some FAILED, this, [])
      else
        let this = (if ext_mobike (ike_sa this) then this
                    else this\<lparr>ike_sa := update_hosts env (ike_sa this) me other (mid = 1)\<rparr>)
        in case handle_fragment env True is_defrag this msg of (status, this, ev) \<Rightarrow>
             if status = NEED_MORE then (Some NEED_MORE, set_statistic_inbound env this, ev)
             else if status \<noteq> SUCCESS then (Some status, this, ev)
             else
               let msg = bus_listeners env msg; ev = ev @ [Bus_Message True]
               in if exchange_type msg = EXCHANGE_TYPE_UNDEFINED then (Some SUCCESS, this, ev)
                  else case process_request env this msg of (status, this, ev') \<Rightarrow>
                         if status = SUCCESS
                         then (None, (set_statistic_inbound env this)
                                       \<lparr>responding_mid := responding_mid this + 1,
                                        responding_prev_hash := responding_hash this\<rparr>, ev @ ev')
                         else if status = NEED_MORE then (None, this, ev @ ev')
                         else (Some DESTROY_ME, flush this, ev @ ev'))"

definition accept_response :: "rx_env \<Rightarrow> bool \<Rightarrow> u32 \<Rightarrow> host_t option \<Rightarrow> host_t option \<Rightarrow>
    private_task_manager_t \<Rightarrow> private_message_t \<Rightarrow>
    status_t option \<times> private_task_manager_t \<times> event list" where
  "accept_response env is_defrag mid me other this msg =
     (let sa = ike_sa this;
          this = (if (ike_state sa = IKE_CREATED \<or> ike_state sa = IKE_CONNECTING \<or>
                      exchange_type msg \<noteq> IKE_SA_INIT) \<and> \<not> ext_mobike sa
                  then this\<lparr>ike_sa := update_hosts env sa me other (mid = 0)\<rparr>
                  else this)
      in case handle_fragment env False is_defrag this msg of (status, this, ev) \<Rightarrow>
           if status = NEED_MORE then (Some NEED_MORE, set_statistic_inbound env this, ev)
           else if status \<noteq> SUCCESS then (Some status, this, ev)
           else
             let msg = bus_listeners env msg; ev = ev @ [Bus_Message True]
             in if exchange_type msg = EXCHANGE_TYPE_UNDEFINED then (Some SUCCESS, this, ev)
                else case process_response env this msg of (status, this, ev') \<Rightarrow>
                       if status \<noteq> SUCCESS then (Some DESTROY_ME, flush this, ev @ ev')
                       else (None, set_statistic_inbound env this, ev @ ev'))"

text \<open>
  \<^verbatim>\<open>process_message\<close>; \<open>is_defrag\<close> is set when a reassembled message is handed back. The deletion job is
  scheduled for an IKE_SA that had no configuration before.
\<close>

definition process_message :: "rx_env \<Rightarrow> bool \<Rightarrow> private_task_manager_t \<Rightarrow> private_message_t \<Rightarrow>
    status_t \<times> private_task_manager_t \<times> event list" where
  "process_message env is_defrag this msg =
     (let is_ack_request = (is_request msg \<and> message_id msg = 0 \<and> exchange_type msg = INFORMATIONAL \<and>
                            has_fragment_ack_notify msg);
          mid = message_id msg; me = destination (packet msg); other = source (packet msg);
          ev0 = [Bus_Message False];
          (verdict, this, msg, ev1) =
            (if is_request msg then check_request env this msg else check_response env this msg)
      in case verdict of
           Return status \<Rightarrow> (status, this, ev0 @ ev1)
         | Unexpected \<Rightarrow>
             (case handle_unexpected env this msg is_ack_request of
                (status, this, ev2) \<Rightarrow> (status, this, ev0 @ ev1 @ ev2))
         | Parsed status \<Rightarrow>
             if status \<noteq> SUCCESS then (status, this, ev0 @ ev1)
             else if \<not> has_ike_cfg (ike_sa this) \<and> \<not> find_ike_cfg env me other
             then (case send_notify_response env this msg NO_PROPOSAL_CHOSEN [] of (this, ev2) \<Rightarrow>
                     (DESTROY_ME, this, ev0 @ ev1 @ ev2))
             else
               let schedule_delete_job = (\<not> has_ike_cfg (ike_sa this));
                   this = this\<lparr>ike_sa := (ike_sa this)\<lparr>has_ike_cfg := True\<rparr>\<rparr>
               in case (if is_request msg then accept_request env is_defrag mid me other this msg
                        else accept_response env is_defrag mid me other this msg) of
                    (Some status, this, ev2) \<Rightarrow> (status, this, ev0 @ ev1 @ ev2)
                  | (None, this, ev2) \<Rightarrow>
                      (SUCCESS, this, ev0 @ ev1 @ ev2 @ (if schedule_delete_job then [Schedule_Delete] else [])))"

section \<open>Properties\<close>

definition sample_rx :: "status_t \<Rightarrow> rx_env" where
  "sample_rx st = \<lparr>tx = sample_env, big_endian = False, gen_packet = (\<lambda>m. None),
     ike_init_derive = (\<lambda>t. NEED_MORE), parse_body = (\<lambda>m. (st, m)), sha1 = (\<lambda>b. Some b),
     find_ike_cfg = (\<lambda>a b. True), bus_listeners = (\<lambda>m. m), update_hosts = (\<lambda>sa a b f. sa),
     process_request = (\<lambda>t m. (SUCCESS, t\<lparr>responding_packets := [\<lparr>source = None, destination = None, pkt_data = Some [9]\<rparr>]\<rparr>, [])),
     process_response = (\<lambda>t m. (SUCCESS, t, [])), reinject = (\<lambda>t m. (SUCCESS, t, [])),
     max_packet_setting = 10000, fragment_timeout_setting = 60\<rparr>"

definition sample_request :: "u32 \<Rightarrow> private_message_t" where
  "sample_request mid = (message_create 2 0)\<lparr>exchange_type := INFORMATIONAL, message_id := mid,
     packet := \<lparr>source = Some (sample_host 2), destination = Some (sample_host 1), pkt_data = Some [1, 2, 3]\<rparr>\<rparr>"

lemma sample_request [simp]: "is_request (sample_request mid)" "payloads (sample_request mid) = []"
  "message_id (sample_request mid) = mid" "exchange_type (sample_request mid) = INFORMATIONAL"
  "packet_bytes (sample_request mid) = [1, 2, 3]" "get_payload (sample_request mid) t = None"
  "packet (sample_request mid) =
     \<lparr>source = Some (sample_host 2), destination = Some (sample_host 1), pkt_data = Some [1, 2, 3]\<rparr>"
  by (simp_all add: sample_request_def message_create_def message_create_from_packet_def packet_bytes_def
      get_payload_def)

lemma sample_rx [simp]: "sha1 (sample_rx st) b = Some b" "\<not> simulate_first_fragment_loss (tx (sample_rx st))"
  by (simp_all add: sample_rx_def sample_env_def)

definition responder :: "u32 \<Rightarrow> packet_t list \<Rightarrow> private_task_manager_t" where
  "responder mid ps = (task_manager_v2_create (sample_sa IKE_ESTABLISHED) 5 True)
     \<lparr>responding_mid := mid, responding_packets := ps, responding_prev_hash := [1, 2, 3]\<rparr>"

lemma responder [simp]: "responding_mid (responder mid ps) = mid"
  "responding_packets (responder mid ps) = ps" "responding_prev_hash (responder mid ps) = [1, 2, 3]"
  "passive_tasks (responder mid ps) = []" "ike_sa (responder mid ps) = sample_sa IKE_ESTABLISHED"
  by (simp_all add: responder_def task_manager_v2_create_def)

text \<open>
  Retransmit detection: for a request that is not a bare acknowledgement, \<^verbatim>\<open>is_retransmit\<close> says
  "process" exactly for the expected message ID, and "answer from the stored packets" exactly for the
  previous message ID (modulo \<open>2^32\<close>) when a response is stored and the SHA-1 hash of the packet equals
  that of the request last processed.
\<close>

lemma is_retransmit_spec:
  assumes "\<not> (message_id msg = 0 \<and> has_fragment_ack_notify msg)"
  shows "(is_retransmit env this msg = NEED_MORE \<longleftrightarrow> message_id msg = responding_mid this) \<and>
    (is_retransmit env this msg = ALREADY_DONE \<longleftrightarrow>
       message_id msg = responding_mid this - 1 \<and> responding_packets this \<noteq> [] \<and>
       sha1 env (packet_bytes msg) = Some (responding_prev_hash this))"
  using assms by (auto simp: is_retransmit_def hash_message_def Let_def split: option.splits)

lemma is_retransmit_spec_witness:
  "is_retransmit (sample_rx SUCCESS) (responder 4 [\<lparr>source = None, destination = None, pkt_data = None\<rparr>])
     (sample_request 3) = ALREADY_DONE"
  using is_retransmit_spec [of "sample_request 3" "sample_rx SUCCESS"
      "responder 4 [\<lparr>source = None, destination = None, pkt_data = None\<rparr>]"]
  by (simp add: sample_rx_def)

lemma send_packets_responding [frame_simps]:
  "send_packets env this ps src dst = (this', ev) \<Longrightarrow>
     responding_mid this' = responding_mid this \<and> responding_packets this' = responding_packets this \<and>
     responding_prev_hash this' = responding_prev_hash this \<and>
     (\<not> simulate_first_fragment_loss env \<longrightarrow> ev = map (\<lambda>p. Send (address_packet src dst p)) ps)"
  by (auto simp: send_packets_def Let_def split: option.splits if_splits)

lemma answered_from_store:
  assumes "is_request msg" "payloads msg = []" "message_id msg = responding_mid this - 1"
    and "responding_packets this \<noteq> []" "sha1 env (packet_bytes msg) = Some (responding_prev_hash this)"
    and "\<not> simulate_first_fragment_loss (tx env)"
  shows "\<exists>this'. process_message env is_defrag this msg =
      (SUCCESS, this', Bus_Message False # Alert ALERT_RETRANSMIT_RECEIVE #
         map (\<lambda>p. Send (address_packet (destination (packet msg)) (source (packet msg)) p))
           (responding_packets this)) \<and>
    responding_mid this' = responding_mid this \<and> responding_packets this' = responding_packets this \<and>
    responding_prev_hash this' = responding_prev_hash this"
proof -
  have noack: "\<not> has_fragment_ack_notify msg"
    using assms(2) by (simp add: has_fragment_ack_notify_def get_notify_def)
  then have rt: "is_retransmit env this msg = ALREADY_DONE"
    using assms(3-5) by (auto simp: is_retransmit_def hash_message_def Let_def)
  obtain this1 ev1 where s: "send_packets (tx env) (set_statistic_inbound env this) (responding_packets this)
      (destination (packet msg)) (source (packet msg)) = (this1, ev1)"
    by (metis prod.exhaust)
  have "process_message env is_defrag this msg =
      (SUCCESS, this1, [Bus_Message False] @ (Alert ALERT_RETRANSMIT_RECEIVE # ev1))"
    using assms(1) by (simp add: process_message_def check_request_def rt s Let_def)
  then show ?thesis
    using send_packets_responding [OF s] assms(6) by (simp add: set_statistic_inbound_def)
qed

text \<open>
  A retransmitted request is answered from the stored response: the stored packets, and nothing
  else, are sent back to the addresses the request came from, no task sees the request again and the
  expected message ID does not change.
\<close>

lemma retransmitted_request_answered:
  assumes "is_request msg" "payloads msg = []" "message_id msg = responding_mid this - 1"
    and "responding_packets this \<noteq> []" "sha1 env (packet_bytes msg) = Some (responding_prev_hash this)"
    and "\<not> simulate_first_fragment_loss (tx env)"
  shows "\<exists>this'. process_message env is_defrag this msg =
      (SUCCESS, this', Bus_Message False # Alert ALERT_RETRANSMIT_RECEIVE #
         map (\<lambda>p. Send (address_packet (destination (packet msg)) (source (packet msg)) p))
           (responding_packets this)) \<and>
    responding_mid this' = responding_mid this \<and> responding_packets this' = responding_packets this"
  using answered_from_store [OF assms] by blast

lemma retransmitted_request_answered_witness:
  "\<exists>this'. process_message (sample_rx SUCCESS) False
     (responder 4 [\<lparr>source = None, destination = None, pkt_data = None\<rparr>]) (sample_request 3) =
     (SUCCESS, this', [Bus_Message False, Alert ALERT_RETRANSMIT_RECEIVE,
        Send \<lparr>source = Some (sample_host 1), destination = Some (sample_host 2), pkt_data = None\<rparr>])"
  using retransmitted_request_answered [of "sample_request 3"
      "responder 4 [\<lparr>source = None, destination = None, pkt_data = None\<rparr>]" "sample_rx SUCCESS" False]
  by (auto simp: address_packet_def)

lemma parse_message_ok:
  assumes "fst (derive_keys env (passive_tasks this))" "parse_body env msg = (SUCCESS, msg')"
    and "has_unsupported_critical_payload msg' = (SUCCESS, 0)"
  shows "parse_message env this msg =
    (SUCCESS, this\<lparr>passive_tasks := snd (derive_keys env (passive_tasks this))\<rparr>, msg', [])"
  using assms by (simp add: parse_message_def Let_def split_def)

lemma store_hash_some:
  "sha1 env (packet_bytes msg) = Some h \<Longrightarrow> store_hash env this msg = this\<lparr>responding_hash := h\<rparr>"
  by (simp add: store_hash_def hash_message_def)

text \<open>
  The request processing of the tasks stores a response and leaves the message ID and the hash of the
  responding side alone.
\<close>

definition responds :: "rx_env \<Rightarrow> private_message_t \<Rightarrow> bool" where
  "responds env msg \<longleftrightarrow>
     (\<forall>t. \<exists>t' ev. process_request env t msg = (SUCCESS, t', ev) \<and> responding_mid t' = responding_mid t \<and>
        responding_hash t' = responding_hash t \<and> responding_packets t' \<noteq> [])"

lemma accept_request_processed:
  assumes "responds env msg" "exchange_type msg = INFORMATIONAL \<or> exchange_type msg = CREATE_CHILD_SA"
    and "ike_state (ike_sa this) = IKE_ESTABLISHED" "get_payload msg PLV2_FRAGMENT = None"
    and "bus_listeners env msg = msg" "sha1 env (packet_bytes msg) = Some h"
  shows "\<exists>this' ev. accept_request env False mid me other this msg = (None, this', ev) \<and>
    responding_mid this' = responding_mid this + 1 \<and> responding_packets this' \<noteq> [] \<and>
    responding_prev_hash this' = h"
proof -
  let ?tm = "if ext_mobike (ike_sa this) then this
             else this\<lparr>ike_sa := update_hosts env (ike_sa this) me other (mid = 1)\<rparr>"
  have rej: "\<not> reject_request this msg"
    using assms(2,3) by (auto simp: reject_request_def Let_def)
  have hf: "handle_fragment env True False ?tm msg = (SUCCESS, ?tm\<lparr>responding_hash := h\<rparr>, [])"
    using assms(4,6) by (simp add: handle_fragment_def store_hash_some)
  obtain t' ev where pr: "process_request env (?tm\<lparr>responding_hash := h\<rparr>) msg = (SUCCESS, t', ev)"
    "responding_mid t' = responding_mid (?tm\<lparr>responding_hash := h\<rparr>)"
    "responding_hash t' = responding_hash (?tm\<lparr>responding_hash := h\<rparr>)" "responding_packets t' \<noteq> []"
    using assms(1) unfolding responds_def by blast
  have "accept_request env False mid me other this msg =
      (None, (set_statistic_inbound env t')\<lparr>responding_mid := responding_mid t' + 1,
                responding_prev_hash := responding_hash t'\<rparr>, [Bus_Message True] @ ev)"
    unfolding accept_request_def Let_def hf prod.case assms(5)
    using rej pr(1) assms(2) by auto
  then show ?thesis using pr by (simp add: set_statistic_inbound_def)
qed

lemma process_new_request:
  assumes "is_request msg" "payloads msg = []" "message_id msg = responding_mid this"
    and "fst (derive_keys env (passive_tasks this))" "parse_body env msg = (SUCCESS, msg')"
    and "has_unsupported_critical_payload msg' = (SUCCESS, 0)" "is_request msg'" "packet msg' = packet msg"
    and "exchange_type msg' = INFORMATIONAL \<or> exchange_type msg' = CREATE_CHILD_SA"
    and "ike_state (ike_sa this) = IKE_ESTABLISHED" "has_ike_cfg (ike_sa this)"
    and "get_payload msg' PLV2_FRAGMENT = None" "bus_listeners env msg' = msg'" "responds env msg'"
    and "sha1 env (packet_bytes msg) = Some h"
  shows "\<exists>this' ev. process_message env False this msg = (SUCCESS, this', ev) \<and>
    responding_mid this' = responding_mid this + 1 \<and> responding_packets this' \<noteq> [] \<and>
    responding_prev_hash this' = h"
proof -
  let ?tm = "this\<lparr>passive_tasks := snd (derive_keys env (passive_tasks this)),
                   ike_sa := (ike_sa this)\<lparr>has_ike_cfg := True\<rparr>\<rparr>"
  have "is_retransmit env this msg = NEED_MORE"
    using assms(3) by (simp add: is_retransmit_def Let_def)
  then have chk: "check_request env this msg =
      (Parsed SUCCESS, this\<lparr>passive_tasks := snd (derive_keys env (passive_tasks this))\<rparr>, msg', [])"
    by (simp add: check_request_def parse_message_ok [OF assms(4,5,6)])
  obtain this' ev where "accept_request env False (message_id msg) (destination (packet msg))
      (source (packet msg)) ?tm msg' = (None, this', ev)"
    "responding_mid this' = responding_mid ?tm + 1" "responding_packets this' \<noteq> []"
    "responding_prev_hash this' = h"
    using accept_request_processed [OF assms(14,9) _ assms(12,13), of ?tm h "message_id msg"
        "destination (packet msg)" "source (packet msg)"] assms(8,10,15)
    by (auto simp: packet_bytes_def)
  then show ?thesis
    using assms(1,7,11) by (simp add: process_message_def chk Let_def)
qed





text \<open>
  Which requests are rejected before any payload is looked at: in the half-open states the
  initiator accepts no request except INFORMATIONAL ones that carry a fragment acknowledgement, after
  rekeying only INFORMATIONAL requests are accepted, and an established IKE_SA rejects every request of
  the initial exchanges.
\<close>

lemma reject_request_spec:
  "(ike_state (ike_sa this) \<in> {IKE_CREATED, IKE_CONNECTING} \<and> sa_is_initiator (ike_sa this) \<and>
      \<not> reject_request this msg \<longrightarrow>
        exchange_type msg = INFORMATIONAL \<and> has_fragment_ack_notify msg) \<and>
   (ike_state (ike_sa this) = IKE_REKEYED \<longrightarrow>
      reject_request this msg = (exchange_type msg \<noteq> INFORMATIONAL)) \<and>
   (ike_state (ike_sa this) > IKE_CONNECTING \<and>
      exchange_type msg \<in> {IKE_SA_INIT, IKE_INTERMEDIATE, IKE_AUTH} \<longrightarrow> reject_request this msg)"
proof -
  have "ike_state (ike_sa this) > IKE_CONNECTING \<Longrightarrow>
      ike_state (ike_sa this) \<noteq> IKE_CREATED \<and> ike_state (ike_sa this) \<noteq> IKE_CONNECTING"
    by (auto simp: less_ike_sa_state_t_def)
  then show ?thesis
    by (auto simp: reject_request_def Let_def split: exchange_type_t.splits if_splits)
qed

lemma reject_request_spec_witness:
  "reject_request (responder 4 []) ((sample_request 4)\<lparr>exchange_type := IKE_AUTH\<rparr>)"
  using reject_request_spec [of "responder 4 []" "(sample_request 4)\<lparr>exchange_type := IKE_AUTH\<rparr>"]
  by (simp add: sample_sa_def less_ike_sa_state_t_def)

end
