(* ===== verification/Task_Queue.thy ===== *)
theory Task_Queue
  imports Task_Manager
begin

text \<open>
  The queues of the IKEv2 task manager, \<^verbatim>\<open>src/src/libcharon/sa/ikev2/task_manager_v2.c\<close>: queueing of tasks,
  adoption of the tasks of another IKE_SA and the reset of the manager. The constructors of the tasks
  and what a task does when it is migrated to another IKE_SA are parameters, as are the settings of
  the peer configuration that are read here. Of a MOBIKE task only the member \<^verbatim>\<open>check\<close> is represented; its
  other members are read by the task alone.
\<close>

record task_env =
  create_task :: "task_type_t \<Rightarrow> bool \<Rightarrow> task_t"
  migrate_task :: "task_t \<Rightarrow> task_t"
  use_mobike :: bool
  cond_original_initiator :: bool

text \<open>What the code relies on: constructors set the type, migration keeps it.\<close>

definition task_env_ok :: "task_env \<Rightarrow> bool" where
  "task_env_ok te \<longleftrightarrow> (\<forall>ty i. task_type (create_task te ty i) = ty) \<and> (\<forall>t. task_type (migrate_task te t) = task_type t)"

section \<open>Queueing\<close>

definition queue_task_delayed ::
    "env_t \<Rightarrow> private_task_manager_t \<Rightarrow> task_t \<Rightarrow> u32 \<Rightarrow> private_task_manager_t \<times> event list" where
  "queue_task_delayed env this task delay =
     (let time = now env + (if delay \<noteq> 0 then uint delay else 0)
      in (this\<lparr>queued_tasks := seq_insert (queued_tasks this) (-1) \<lparr>q_task = task, q_time = time\<rparr>\<rparr>,
          if delay \<noteq> 0 then [Schedule_Initiate time] else []))"

definition queue_task :: "env_t \<Rightarrow> private_task_manager_t \<Rightarrow> task_t \<Rightarrow> private_task_manager_t" where
  "queue_task env this task = fst (queue_task_delayed env this task 0)"

text \<open>The pattern of \<^verbatim>\<open>queue_ike\<close>: a new task of the type is queued unless there is one.\<close>

definition queue_missing ::
    "env_t \<Rightarrow> task_env \<Rightarrow> task_type_t \<Rightarrow> private_task_manager_t \<Rightarrow> private_task_manager_t" where
  "queue_missing env te type this =
     (if has_queued this TASK_QUEUE_QUEUED type then this
      else queue_task env this (create_task te type True))"

text \<open>\<^verbatim>\<open>queue_ike\<close> and its halves ask the peer configuration before a MOBIKE task is queued.\<close>

definition queue_missing_mobike :: "env_t \<Rightarrow> task_env \<Rightarrow> private_task_manager_t \<Rightarrow> private_task_manager_t" where
  "queue_missing_mobike env te this =
     (if has_queued this TASK_QUEUE_QUEUED TASK_IKE_MOBIKE then this
      else if use_mobike te then queue_task env this (create_task te TASK_IKE_MOBIKE True) else this)"

definition queue_ike_init_only :: "env_t \<Rightarrow> task_env \<Rightarrow> private_task_manager_t \<Rightarrow> private_task_manager_t" where
  "queue_ike_init_only env te this =
     (let this = queue_missing env te TASK_IKE_VENDOR this;
          this = queue_missing env te TASK_IKE_INIT this
      in queue_missing env te TASK_IKE_NATD this)"

definition queue_ike_auth_only :: "env_t \<Rightarrow> task_env \<Rightarrow> private_task_manager_t \<Rightarrow> private_task_manager_t" where
  "queue_ike_auth_only env te this =
     (let this = queue_missing env te TASK_IKE_CERT_PRE this;
          this = queue_missing env te TASK_IKE_AUTH this;
          this = queue_missing env te TASK_IKE_CERT_POST this;
          this = queue_missing env te TASK_IKE_CONFIG this;
          this = queue_missing env te TASK_IKE_AUTH_LIFETIME this;
          this = queue_missing_mobike env te this
      in queue_missing env te TASK_IKE_ESTABLISH this)"

definition queue_ike :: "env_t \<Rightarrow> task_env \<Rightarrow> private_task_manager_t \<Rightarrow> private_task_manager_t" where
  "queue_ike env te this =
     (let this = queue_missing env te TASK_IKE_VENDOR this;
          this = queue_missing env te TASK_IKE_INIT this;
          this = queue_missing env te TASK_IKE_NATD this;
          this = queue_missing env te TASK_IKE_CERT_PRE this;
          this = queue_missing env te TASK_IKE_AUTH this;
          this = queue_missing env te TASK_IKE_CERT_POST this;
          this = queue_missing env te TASK_IKE_CONFIG this;
          this = queue_missing env te TASK_IKE_AUTH_LIFETIME this;
          this = queue_missing_mobike env te this
      in queue_missing env te TASK_IKE_ESTABLISH this)"

definition queue_ike_rekey :: "env_t \<Rightarrow> task_env \<Rightarrow> private_task_manager_t \<Rightarrow> private_task_manager_t" where
  "queue_ike_rekey env te this = queue_task env this (create_task te TASK_IKE_REKEY True)"

definition queue_ike_delete :: "env_t \<Rightarrow> task_env \<Rightarrow> private_task_manager_t \<Rightarrow> private_task_manager_t" where
  "queue_ike_delete env te this = queue_task env this (create_task te TASK_IKE_DELETE True)"

text \<open>
  \<^verbatim>\<open>queue_mobike_task\<close> returns the queued MOBIKE task, which the callers change. Here the change is the
  argument \<open>f\<close>, applied to the first MOBIKE task of the queue.
\<close>

fun update_first :: "task_type_t \<Rightarrow> (task_t \<Rightarrow> task_t) \<Rightarrow> queued_task_t list \<Rightarrow> queued_task_t list" where
  "update_first ty f [] = []"
| "update_first ty f (q # qs) =
     (if task_type (q_task q) = ty then q\<lparr>q_task := f (q_task q)\<rparr> # qs else q # update_first ty f qs)"

definition queue_mobike_task ::
    "env_t \<Rightarrow> task_env \<Rightarrow> (task_t \<Rightarrow> task_t) \<Rightarrow> private_task_manager_t \<Rightarrow> private_task_manager_t" where
  "queue_mobike_task env te f this =
     (let this = (if has_queued this TASK_QUEUE_QUEUED TASK_IKE_MOBIKE then this
                  else queue_task env this (create_task te TASK_IKE_MOBIKE True))
      in this\<lparr>queued_tasks := update_first TASK_IKE_MOBIKE f (queued_tasks this)\<rparr>)"

definition queue_mobike :: "env_t \<Rightarrow> task_env \<Rightarrow> private_task_manager_t \<Rightarrow> bool \<Rightarrow> private_task_manager_t" where
  "queue_mobike env te this roam =
     (if roam
      then let this = queue_mobike_task env te (\<lambda>t. t\<lparr>task_check := True\<rparr>) this
           in this\<lparr>active_tasks := set_check True (active_tasks this)\<rparr>
      else queue_mobike_task env te (\<lambda>t. t) this)"

definition queue_dpd :: "env_t \<Rightarrow> task_env \<Rightarrow> private_task_manager_t \<Rightarrow> private_task_manager_t" where
  "queue_dpd env te this =
     (if ext_mobike (ike_sa this) \<and> cond_original_initiator te
      then queue_mobike_task env te (\<lambda>t. t) this
      else queue_task env this (create_task te TASK_IKE_DPD True))"

definition queue_child :: "env_t \<Rightarrow> task_env \<Rightarrow> private_task_manager_t \<Rightarrow> private_task_manager_t" where
  "queue_child env te this = queue_task env this (create_task te TASK_CHILD_CREATE True)"

definition queue_child_rekey :: "env_t \<Rightarrow> task_env \<Rightarrow> private_task_manager_t \<Rightarrow> private_task_manager_t" where
  "queue_child_rekey env te this = queue_task env this (create_task te TASK_CHILD_REKEY True)"

definition queue_child_delete :: "env_t \<Rightarrow> task_env \<Rightarrow> private_task_manager_t \<Rightarrow> private_task_manager_t" where
  "queue_child_delete env te this = queue_task env this (create_task te TASK_CHILD_DELETE True)"

definition busy :: "private_task_manager_t \<Rightarrow> bool" where
  "busy this \<longleftrightarrow> length (active_tasks this) > 0"

text \<open>\<^verbatim>\<open>remove_task\<close> removes the element at the position of an enumerator.\<close>

definition remove_task :: "private_task_manager_t \<Rightarrow> task_queue_t \<Rightarrow> nat \<Rightarrow> private_task_manager_t" where
  "remove_task this queue i =
     (case queue of
        TASK_QUEUE_ACTIVE \<Rightarrow> this\<lparr>active_tasks := snd (seq_remove (active_tasks this) (int i))\<rparr>
      | TASK_QUEUE_PASSIVE \<Rightarrow> this\<lparr>passive_tasks := snd (seq_remove (passive_tasks this) (int i))\<rparr>
      | TASK_QUEUE_QUEUED \<Rightarrow> this\<lparr>queued_tasks := snd (seq_remove (queued_tasks this) (int i))\<rparr>)"

section \<open>Moving tasks\<close>

text \<open>The loops take elements from the tail of one array and put them at the head of the queue.\<close>

lemma seq_remove_shorter: "(Some x, ys) = seq_remove xs i \<Longrightarrow> length ys < length xs"
  by (auto simp: seq_remove_def Let_def split: if_splits)

function adopt_loop :: "env_t \<Rightarrow> task_env \<Rightarrow> queued_task_t list \<Rightarrow> queued_task_t list \<Rightarrow>
    queued_task_t list \<times> queued_task_t list" where
  "adopt_loop env te mine theirs =
     (case seq_remove theirs (-1) of
        (None, rest) \<Rightarrow> (mine, rest)
      | (Some q, rest) \<Rightarrow>
          adopt_loop env te (seq_insert mine 0 \<lparr>q_task = migrate_task te (q_task q), q_time = now env\<rparr>) rest)"
  by pat_completeness auto
termination
  by (relation "measure (\<lambda>(env, te, mine, theirs). length theirs)") (auto intro: seq_remove_shorter)

declare adopt_loop.simps [simp del]

definition adopt_tasks :: "env_t \<Rightarrow> task_env \<Rightarrow> private_task_manager_t \<Rightarrow> private_task_manager_t \<Rightarrow>
    private_task_manager_t \<times> private_task_manager_t" where
  "adopt_tasks env te this other =
     (case adopt_loop env te (queued_tasks this) (queued_tasks other) of
        (mine, theirs) \<Rightarrow> (this\<lparr>queued_tasks := mine\<rparr>, other\<lparr>queued_tasks := theirs\<rparr>))"

function requeue_loop :: "env_t \<Rightarrow> task_env \<Rightarrow> queued_task_t list \<Rightarrow> task_t list \<Rightarrow> queued_task_t list \<times> task_t list" where
  "requeue_loop env te queued active =
     (case seq_remove active (-1) of
        (None, rest) \<Rightarrow> (queued, rest)
      | (Some t, rest) \<Rightarrow>
          requeue_loop env te (seq_insert queued 0 \<lparr>q_task = migrate_task te t, q_time = now env\<rparr>) rest)"
  by pat_completeness auto
termination
  by (relation "measure (\<lambda>(env, te, queued, active). length active)") (auto intro: seq_remove_shorter)

declare requeue_loop.simps [simp del]

text \<open>\<^verbatim>\<open>reset\<close>; \<open>0xFFFFFFFF\<close> leaves a message ID alone.\<close>

definition reset_manager ::
    "env_t \<Rightarrow> task_env \<Rightarrow> private_task_manager_t \<Rightarrow> u32 \<Rightarrow> u32 \<Rightarrow> private_task_manager_t" where
  "reset_manager env te this initiate respond =
     (let this = this\<lparr>responding_packets := clear_packets (responding_packets this),
                      initiating_packets := clear_packets (initiating_packets this),
                      responding_defrag := None, initiating_defrag := None, outgoing_tracker := None\<rparr>;
          this = (if initiate \<noteq> 0xFFFFFFFF then this\<lparr>initiating_mid := initiate\<rparr> else this);
          this = (if respond \<noteq> 0xFFFFFFFF then this\<lparr>responding_mid := respond\<rparr> else this);
          this = this\<lparr>initiating_type := EXCHANGE_TYPE_UNDEFINED\<rparr>;
          queued = map (\<lambda>q. q\<lparr>q_time := now env, q_task := migrate_task te (q_task q)\<rparr>) (queued_tasks this)
      in case requeue_loop env te queued (active_tasks this) of
           (queued, active) \<Rightarrow> this\<lparr>queued_tasks := queued, active_tasks := active\<rparr>)"

section \<open>No task is lost\<close>

lemma seq_ends [simp]: "seq_insert xs 0 x = x # xs" "seq_insert xs (-1) x = xs @ [x]"
  "seq_remove [] (-1) = (None, [])" "seq_remove (xs @ [x]) (-1) = (Some x, xs)"
  by (simp_all add: seq_insert_def seq_remove_def nth_append)

lemma adopt_loop_eq:
  "adopt_loop env te mine theirs =
     (map (\<lambda>q. \<lparr>q_task = migrate_task te (q_task q), q_time = now env\<rparr>) theirs @ mine, [])"
  by (induction theirs arbitrary: mine rule: rev_induct) (subst adopt_loop.simps, simp)+

lemma requeue_loop_eq:
  "requeue_loop env te queued active =
     (map (\<lambda>t. \<lparr>q_task = migrate_task te t, q_time = now env\<rparr>) active @ queued, [])"
  by (induction active arbitrary: queued rule: rev_induct) (subst requeue_loop.simps, simp)+

definition all_tasks :: "private_task_manager_t \<Rightarrow> task_t list" where
  "all_tasks this = active_tasks this @ map q_task (queued_tasks this)"

lemma reset_queue:
  "queued_tasks (reset_manager env te this i r) =
     map (\<lambda>t. \<lparr>q_task = migrate_task te t, q_time = now env\<rparr>) (all_tasks this)"
  "active_tasks (reset_manager env te this i r) = []"
  by (simp_all add: reset_manager_def Let_def requeue_loop_eq all_tasks_def)

text \<open>
  C10. No task is lost when an IKE_SA is reset or its tasks move to another one. A reset puts the active tasks
  in front of the queued ones, in their order, ends the exchange in progress and makes all of them
  due at once. Adopting the tasks of another manager puts all of its queued tasks, in their order, in front of
  the own ones and leaves the other queue empty.
\<close>

theorem tasks_survive_moving:
  "active_tasks (reset_manager env te this i r) = [] \<and>
   initiating_type (reset_manager env te this i r) = EXCHANGE_TYPE_UNDEFINED \<and>
   map q_task (queued_tasks (reset_manager env te this i r)) = map (migrate_task te) (all_tasks this) \<and>
   list_all (\<lambda>q. q_time q = now env) (queued_tasks (reset_manager env te this i r)) \<and>
   all_tasks (fst (adopt_tasks env te this other)) =
     active_tasks this @ map (migrate_task te) (map q_task (queued_tasks other)) @ map q_task (queued_tasks this) \<and>
   queued_tasks (snd (adopt_tasks env te this other)) = []"
proof -
  have "initiating_type (reset_manager env te this i r) = EXCHANGE_TYPE_UNDEFINED"
    by (simp add: reset_manager_def Let_def requeue_loop_eq)
  then show ?thesis
    by (auto simp: reset_queue adopt_tasks_def adopt_loop_eq all_tasks_def list_all_iff)
qed

text \<open>
  Queueing the tasks of IKE_SA_INIT and those of IKE_AUTH separately queues the same tasks in the same
  order as \<^verbatim>\<open>queue_ike\<close>, and queueing again adds nothing.
\<close>

lemma queue_ike_phases: "queue_ike_auth_only env te (queue_ike_init_only env te this) = queue_ike env te this"
  by (simp add: queue_ike_def queue_ike_auth_only_def queue_ike_init_only_def Let_def)

lemma has_queued_missing:
  assumes "task_env_ok te"
  shows "has_queued (queue_missing env te ty this) TASK_QUEUE_QUEUED ty' \<longleftrightarrow>
    ty = ty' \<or> has_queued this TASK_QUEUE_QUEUED ty'"
  using assms
  by (auto simp: queue_missing_def queue_task_def queue_task_delayed_def has_queued_def task_env_ok_def Let_def list_ex_iff)

lemma has_queued_missing_mobike:
  assumes "task_env_ok te"
  shows "has_queued (queue_missing_mobike env te this) TASK_QUEUE_QUEUED ty' \<longleftrightarrow>
    use_mobike te \<and> ty' = TASK_IKE_MOBIKE \<or> has_queued this TASK_QUEUE_QUEUED ty'"
  using assms
  by (auto simp: queue_missing_mobike_def queue_task_def queue_task_delayed_def has_queued_def task_env_ok_def Let_def list_ex_iff)

lemma queue_missing_again: "has_queued this TASK_QUEUE_QUEUED ty \<Longrightarrow> queue_missing env te ty this = this"
  by (simp add: queue_missing_def)

lemma queue_missing_mobike_again:
  "has_queued this TASK_QUEUE_QUEUED TASK_IKE_MOBIKE \<or> \<not> use_mobike te \<Longrightarrow> queue_missing_mobike env te this = this"
  by (auto simp: queue_missing_mobike_def)

lemma queue_ike_again:
  assumes "task_env_ok te"
  shows "queue_ike env te (queue_ike env te this) = queue_ike env te this"
proof -
  define that where "that = queue_ike env te this"
  have "\<forall>ty \<in> {TASK_IKE_VENDOR, TASK_IKE_INIT, TASK_IKE_NATD, TASK_IKE_CERT_PRE, TASK_IKE_AUTH, TASK_IKE_CERT_POST,
      TASK_IKE_CONFIG, TASK_IKE_AUTH_LIFETIME, TASK_IKE_ESTABLISH}. has_queued that TASK_QUEUE_QUEUED ty"
    and "use_mobike te \<longrightarrow> has_queued that TASK_QUEUE_QUEUED TASK_IKE_MOBIKE"
    by (simp_all add: that_def queue_ike_def Let_def has_queued_missing[OF assms] has_queued_missing_mobike[OF assms])
  then show ?thesis
    unfolding that_def [symmetric]
    by (subst queue_ike_def) (auto simp: Let_def queue_missing_again queue_missing_mobike_again)
qed

end
