(* ===== verification/Exchange.thy ===== *)
theory Exchange
  imports Process_Message Task_Queue
begin

text \<open>
  The exchanges of the IKEv2 task manager, \<^verbatim>\<open>src/src/libcharon/sa/ikev2/task_manager_v2.c\<close>: which tasks are
  activated, how they build a request (\<^verbatim>\<open>initiate\<close>), how a response is given to them
  (\<^verbatim>\<open>process_response\<close>), and how requests of the peer create passive tasks (\<^verbatim>\<open>process_request\<close>) and are
  answered (\<^verbatim>\<open>build_response\<close>). The methods of the tasks are parameters.
\<close>

section \<open>Tasks\<close>

text \<open>
  What a method of a task does: its status, the task afterwards, the IKE_SA and the queue of tasks it
  leaves (a task may queue others), the arguments of a \<^verbatim>\<open>reset\<close> of the task manager it asks for, the message
  afterwards, and events. Optional methods are missing for some types of tasks.
\<close>

record task_result =
  tr_status :: status_t
  tr_task :: task_t
  tr_sa :: ike_sa_t
  tr_queued :: "queued_task_t list"
  tr_reset :: "(u32 \<times> u32) option"
  tr_message :: private_message_t
  tr_events :: "event list"

type_synonym task_method = "task_t \<Rightarrow> private_task_manager_t \<Rightarrow> private_message_t \<Rightarrow> task_result"

record exch_env =
  rx :: rx_env
  te :: task_env
  op_build :: task_method
  op_process :: task_method
  op_pre_process :: "task_type_t \<Rightarrow> task_method option"
  op_post_process :: "task_type_t \<Rightarrow> task_method option"
  op_post_build :: "task_type_t \<Rightarrow> task_method option"
  op_collide :: "task_t \<Rightarrow> task_t \<Rightarrow> bool \<times> task_t"
  gen_fragmented :: "bool \<Rightarrow> private_task_manager_t \<Rightarrow> private_message_t \<Rightarrow> packet_t list option"

definition get_tasks :: "task_queue_t \<Rightarrow> private_task_manager_t \<Rightarrow> task_t list" where
  "get_tasks q this = (if q = TASK_QUEUE_ACTIVE then active_tasks this else passive_tasks this)"

definition set_tasks :: "task_queue_t \<Rightarrow> task_t list \<Rightarrow> private_task_manager_t \<Rightarrow> private_task_manager_t" where
  "set_tasks q ts this = (if q = TASK_QUEUE_ACTIVE then this\<lparr>active_tasks := ts\<rparr> else this\<lparr>passive_tasks := ts\<rparr>)"

definition apply_result :: "exch_env \<Rightarrow> task_result \<Rightarrow> private_task_manager_t \<Rightarrow> private_task_manager_t" where
  "apply_result ee r this =
     (let this = this\<lparr>ike_sa := tr_sa r, queued_tasks := tr_queued r\<rparr>
      in case tr_reset r of None \<Rightarrow> this | Some (i, s) \<Rightarrow> reset_manager (tx (rx ee)) (te ee) this i s)"

text \<open>
  The loops over the active or passive tasks call a method of every task that has it and, depending on
  the status, keep the task, remove it, or leave the loop (removing the task or not). A failing
  \<^verbatim>\<open>post_build\<close> is only remembered. A task that resets the manager takes all active tasks away.
\<close>

datatype after_call = Keep | Keep_Failed | Drop | Leave bool status_t

datatype loop_end = Finished bool | Left status_t | Was_Reset bool

fun run_tasks :: "exch_env \<Rightarrow> task_queue_t \<Rightarrow> (task_type_t \<Rightarrow> task_method option) \<Rightarrow> (status_t \<Rightarrow> after_call) \<Rightarrow>
    bool \<Rightarrow> task_t list \<Rightarrow> task_t list \<Rightarrow> private_task_manager_t \<Rightarrow> private_message_t \<Rightarrow> event list \<Rightarrow>
    loop_end \<times> private_task_manager_t \<times> private_message_t \<times> event list" where
  "run_tasks ee q meth decide ok past [] this msg ev = (Finished ok, set_tasks q past this, msg, ev)"
| "run_tasks ee q meth decide ok past (t # ts) this msg ev =
     (case meth (task_type t) of
        None \<Rightarrow> run_tasks ee q meth decide ok (past @ [t]) ts this msg ev
      | Some f \<Rightarrow>
          let r = f t (set_tasks q (past @ t # ts) this) msg;
              this = apply_result ee r (set_tasks q (past @ tr_task r # ts) this);
              msg = tr_message r;
              ev = ev @ tr_events r;
              was_reset = (tr_reset r \<noteq> None \<and> q = TASK_QUEUE_ACTIVE)
          in case decide (tr_status r) of
               Keep \<Rightarrow> if was_reset then (Was_Reset ok, this, msg, ev)
                       else run_tasks ee q meth decide ok (past @ [tr_task r]) ts this msg ev
             | Keep_Failed \<Rightarrow> if was_reset then (Was_Reset False, this, msg, ev)
                       else run_tasks ee q meth decide False (past @ [tr_task r]) ts this msg ev
             | Drop \<Rightarrow> if was_reset then (Was_Reset ok, this, msg, ev)
                       else run_tasks ee q meth decide ok past ts this msg ev
             | Leave remove status \<Rightarrow>
                 (Left status, if remove \<and> \<not> was_reset then set_tasks q (past @ ts) this else this, msg, ev))"

definition for_tasks :: "exch_env \<Rightarrow> task_queue_t \<Rightarrow> (task_type_t \<Rightarrow> task_method option) \<Rightarrow> (status_t \<Rightarrow> after_call) \<Rightarrow>
    private_task_manager_t \<Rightarrow> private_message_t \<Rightarrow> loop_end \<times> private_task_manager_t \<times> private_message_t \<times> event list" where
  "for_tasks ee q meth decide this msg = run_tasks ee q meth decide True [] (get_tasks q this) this msg []"

text \<open>
  What the loops do with a status: \<^verbatim>\<open>build\<close> and \<^verbatim>\<open>process\<close>, \<^verbatim>\<open>pre_process\<close>, \<^verbatim>\<open>post_process\<close> and
  \<^verbatim>\<open>post_build\<close>. A failure that is reported on the bus is \<open>FAILED\<close>, one that is not \<open>DESTROY_ME\<close>.
\<close>

definition after_build :: "status_t \<Rightarrow> after_call" where
  "after_build st =
     (case st of SUCCESS \<Rightarrow> Drop | NEED_MORE \<Rightarrow> Keep | DESTROY_ME \<Rightarrow> Leave False DESTROY_ME | _ \<Rightarrow> Leave False FAILED)"

definition after_process :: "status_t \<Rightarrow> after_call" where
  "after_process st =
     (case st of SUCCESS \<Rightarrow> Drop | NEED_MORE \<Rightarrow> Keep | DESTROY_ME \<Rightarrow> Leave True DESTROY_ME | _ \<Rightarrow> Leave True FAILED)"

definition after_pre_process :: "status_t \<Rightarrow> after_call" where
  "after_pre_process st =
     (case st of SUCCESS \<Rightarrow> Keep | DESTROY_ME \<Rightarrow> Leave False DESTROY_ME | _ \<Rightarrow> Leave False FAILED)"

definition after_post_process :: "status_t \<Rightarrow> after_call" where
  "after_post_process st = (case st of SUCCESS \<Rightarrow> Drop | NEED_MORE \<Rightarrow> Keep | _ \<Rightarrow> Leave True DESTROY_ME)"

definition after_post_build :: "status_t \<Rightarrow> after_call" where
  "after_post_build st = (case st of SUCCESS \<Rightarrow> Drop | NEED_MORE \<Rightarrow> Keep | _ \<Rightarrow> Keep_Failed)"

section \<open>Initiating an exchange\<close>

fun activate_all :: "env_t \<Rightarrow> task_type_t list \<Rightarrow> private_task_manager_t \<Rightarrow> private_task_manager_t" where
  "activate_all env [] this = this"
| "activate_all env (ty # tys) this = activate_all env tys (snd (activate_task env this ty))"

fun activate_first :: "env_t \<Rightarrow> (task_type_t \<times> exchange_type_t) list \<Rightarrow> private_task_manager_t \<Rightarrow>
    exchange_type_t option \<times> private_task_manager_t" where
  "activate_first env [] this = (None, this)"
| "activate_first env ((ty, x) # tys) this =
     (case activate_task env this ty of
        (True, this) \<Rightarrow> (Some x, this)
      | (False, this) \<Rightarrow> activate_first env tys this)"

definition init_tasks :: "task_type_t list" where
  "init_tasks = [TASK_IKE_NATD, TASK_IKE_CERT_PRE, TASK_IKE_AUTH, TASK_IKE_CERT_POST, TASK_IKE_CONFIG,
     TASK_IKE_AUTH_LIFETIME, TASK_IKE_MOBIKE, TASK_IKE_ESTABLISH, TASK_CHILD_CREATE]"

definition established_tasks :: "(task_type_t \<times> exchange_type_t) list" where
  "established_tasks =
     [(TASK_IKE_MOBIKE, INFORMATIONAL), (TASK_IKE_DELETE, INFORMATIONAL), (TASK_IKE_REDIRECT, INFORMATIONAL),
      (TASK_CHILD_DELETE, INFORMATIONAL), (TASK_IKE_REAUTH, INFORMATIONAL), (TASK_CHILD_CREATE, CREATE_CHILD_SA),
      (TASK_CHILD_REKEY, CREATE_CHILD_SA), (TASK_IKE_REKEY, CREATE_CHILD_SA), (TASK_IKE_DPD, INFORMATIONAL),
      (TASK_IKE_AUTH_LIFETIME, INFORMATIONAL), (TASK_IKE_REAUTH_COMPLETE, INFORMATIONAL),
      (TASK_IKE_VERIFY_PEER_CERT, INFORMATIONAL)]"

definition activate_new :: "env_t \<Rightarrow> private_task_manager_t \<Rightarrow> exchange_type_t option \<times> private_task_manager_t" where
  "activate_new env this =
     (case ike_state (ike_sa this) of
        IKE_CREATED \<Rightarrow>
          (case activate_task env (snd (activate_task env this TASK_IKE_VENDOR)) TASK_IKE_INIT of
             (True, this) \<Rightarrow> (Some IKE_SA_INIT, activate_all env init_tasks (this\<lparr>initiating_mid := 0\<rparr>))
           | (False, this) \<Rightarrow> (None, this))
      | IKE_ESTABLISHED \<Rightarrow> activate_first env (established_tasks @ [(TASK_IKE_DELETE, INFORMATIONAL)]) this
      | IKE_REKEYING \<Rightarrow> activate_first env [(TASK_IKE_DELETE, INFORMATIONAL)] this
      | IKE_REKEYED \<Rightarrow> activate_first env [(TASK_IKE_DELETE, INFORMATIONAL)] this
      | _ \<Rightarrow> (None, this))"

fun active_exchange :: "task_t list \<Rightarrow> exchange_type_t option" where
  "active_exchange [] = None"
| "active_exchange (t # ts) =
     (case task_type t of
        TASK_IKE_INIT \<Rightarrow> Some IKE_SA_INIT
      | TASK_IKE_AUTH \<Rightarrow> Some IKE_AUTH
      | TASK_CHILD_CREATE \<Rightarrow> Some CREATE_CHILD_SA
      | TASK_CHILD_REKEY \<Rightarrow> Some CREATE_CHILD_SA
      | TASK_IKE_REKEY \<Rightarrow> Some CREATE_CHILD_SA
      | TASK_IKE_MOBIKE \<Rightarrow> Some INFORMATIONAL
      | _ \<Rightarrow> active_exchange ts)"

text \<open>The first part of \<^verbatim>\<open>initiate\<close>: the exchange to initiate, or \<open>None\<close> if key derivation failed.\<close>

definition select_exchange ::
    "exch_env \<Rightarrow> private_task_manager_t \<Rightarrow> exchange_type_t option option \<times> private_task_manager_t" where
  "select_exchange ee this =
     (if active_tasks this = [] then apfst Some (activate_new (tx (rx ee)) this)
      else case derive_keys (rx ee) (active_tasks this) of (ok, ts) \<Rightarrow>
             let this = this\<lparr>active_tasks := ts\<rparr>
             in if \<not> ok then (None, this) else (Some (active_exchange ts), this))"

definition new_request :: "private_task_manager_t \<Rightarrow> exchange_type_t \<Rightarrow> private_message_t" where
  "new_request this x =
     (let m = (message_create 2 0)\<lparr>message_id := initiating_mid this, exchange_type := x\<rparr>
      in m\<lparr>packet := (packet m)\<lparr>source := Some (my_host (ike_sa this)), destination := Some (other_host (ike_sa this))\<rparr>\<rparr>)"

definition close_sa :: "private_task_manager_t \<Rightarrow> event list" where
  "close_sa this =
     (if ike_state (ike_sa this) \<noteq> IKE_CONNECTING \<and> ike_state (ike_sa this) \<noteq> IKE_REKEYED then [Ike_Down] else [])"

text \<open>The end of \<^verbatim>\<open>initiate\<close>, once all tasks have built the request.\<close>

definition send_request :: "exch_env \<Rightarrow> private_task_manager_t \<Rightarrow> private_message_t \<Rightarrow> event list \<Rightarrow>
    status_t \<times> private_task_manager_t \<times> event list" where
  "send_request ee this msg ev =
     (let (result, this, ps) = generate_message (tx (rx ee)) this (message_id msg) (gen_fragmented ee False this msg)
                                 (initiating_packets this);
          this = this\<lparr>initiating_packets := ps\<rparr>;
          (result, this, ev) =
            (if result
             then case for_tasks ee TASK_QUEUE_ACTIVE (op_post_build ee) after_post_build this msg of
                    (e, this, _, ev') \<Rightarrow> (e \<noteq> Finished False \<and> e \<noteq> Was_Reset False, this, ev @ ev')
             else (False, this, ev))
      in if \<not> result then (let this = flush this in (DESTROY_ME, this, ev @ close_sa this))
         else case retransmit (tx (rx ee)) this (initiating_mid this) of (st, this, ev') \<Rightarrow> (st, this, ev @ ev'))"

partial_function (option) initiate ::
    "exch_env \<Rightarrow> private_task_manager_t \<Rightarrow> (status_t \<times> private_task_manager_t \<times> event list) option" where
  "initiate ee this =
     (if initiating_type this \<noteq> EXCHANGE_TYPE_UNDEFINED then
        if deferred this
        then Some (retransmit (tx (rx ee)) (this\<lparr>deferred := False, retransmitted := 0\<rparr>) (initiating_mid this))
        else Some (SUCCESS, this, [])
      else
        case select_exchange ee this of
          (None, this) \<Rightarrow> Some (DESTROY_ME, this, [])
        | (Some None, this) \<Rightarrow> Some (SUCCESS, this, [])
        | (Some (Some x), this) \<Rightarrow>
            let msg = new_request this x;
                this = this\<lparr>initiating_type := x, retransmitted := 0, retransmit_sent := False, deferred := False\<rparr>
            in case for_tasks ee TASK_QUEUE_ACTIVE (\<lambda>_. Some (op_build ee)) after_build this msg of
                 (Left st, this, msg, ev) \<Rightarrow>
                   let this = (if st = FAILED then this\<lparr>initiating_type := EXCHANGE_TYPE_UNDEFINED\<rparr> else this);
                       down = (if st = FAILED then close_sa this else [])
                   in Some (DESTROY_ME, flush this, ev @ down)
               | (_, this, msg, ev) \<Rightarrow>
                   let this = this\<lparr>initiating_type := exchange_type msg\<rparr>
                   in if exchange_type msg = EXCHANGE_TYPE_UNDEFINED
                      then Option.bind (initiate ee this) (\<lambda>(st, this, ev'). Some (st, this, ev @ ev'))
                      else Some (send_request ee this msg ev))"

section \<open>Responses\<close>

text \<open>The statistics at the start of \<^verbatim>\<open>process_response\<close>; the fallback size is a constant of the code.\<close>

definition response_stats :: "private_task_manager_t \<Rightarrow> private_message_t \<Rightarrow> private_task_manager_t" where
  "response_stats this msg =
     (let len = of_nat (data_len (packet msg)) :: u32
      in if exchange_type msg = IKE_INTERMEDIATE
         then update_response_transmission_stats (print_intermediate_transmission_stats this)
                (if len = 0 then 4512 else len) 0
         else if exchange_type msg = IKE_AUTH then update_response_transmission_stats this len 0
         else this)"

definition note_selective_support :: "private_task_manager_t \<Rightarrow> private_message_t \<Rightarrow> private_task_manager_t" where
  "note_selective_support this msg =
     (if get_notify msg SELECTIVE_FRAGMENT_RETRANSMISSION_SUPPORTED \<noteq> None
      then this\<lparr>peer_supports_selective_retransmission := True\<rparr> else this)"

text \<open>The end of \<^verbatim>\<open>process_response\<close>: the exchange is complete, the next one is initiated.\<close>

definition complete_exchange :: "private_task_manager_t \<Rightarrow> private_task_manager_t" where
  "complete_exchange this =
     this\<lparr>initiating_mid := initiating_mid this + 1, current_retransmit_job := None,
          initiating_type := EXCHANGE_TYPE_UNDEFINED, initiating_packets := clear_packets (initiating_packets this)\<rparr>"

definition resume :: "event list \<Rightarrow> (status_t \<times> private_task_manager_t \<times> event list) option \<Rightarrow>
    (status_t \<times> private_task_manager_t \<times> event list) option" where
  "resume ev r = map_option (\<lambda>(st, this, ev'). (st, this, ev @ ev')) r"

definition tm_process_response :: "exch_env \<Rightarrow> private_task_manager_t \<Rightarrow> private_message_t \<Rightarrow>
    (status_t \<times> private_task_manager_t \<times> event list) option" where
  "tm_process_response ee this msg =
     (let this = note_selective_support (response_stats this msg) msg;
          x = exchange_type msg
      in if x \<noteq> initiating_type this \<and> \<not> (x = INFORMATIONAL \<and> initiating_type this = EXCHANGE_TYPE_UNDEFINED)
         then Some (DESTROY_ME, this, [Ike_Down])
         else if (x = CREATE_CHILD_SA \<or> x = INFORMATIONAL) \<and> get_notify msg INVALID_SYNTAX \<noteq> None
         then Some (DESTROY_ME, this, [Ike_Down])
         else
           case for_tasks ee TASK_QUEUE_ACTIVE (op_pre_process ee) after_pre_process this msg of
             (Left st, this, msg, ev) \<Rightarrow> Some (if st = DESTROY_ME then DESTROY_ME else SUCCESS, this, ev)
           | (_, this, msg, ev) \<Rightarrow>
               let ev = ev @ (if retransmit_sent this
                              then [Alert (ALERT_RETRANSMIT_SEND_CLEARED (seq_get (initiating_packets this) 0))] else [])
               in case for_tasks ee TASK_QUEUE_ACTIVE (\<lambda>_. Some (op_process ee)) after_process this msg of
                    (Left st, this, msg, ev') \<Rightarrow>
                      Some (DESTROY_ME, this, ev @ ev' @ (if st = FAILED then [Ike_Down] else []))
                  | (Was_Reset _, this, msg, ev') \<Rightarrow> resume (ev @ ev') (initiate ee this)
                  | (Finished _, this, msg, ev') \<Rightarrow>
                      (case for_tasks ee TASK_QUEUE_ACTIVE (op_post_process ee) after_post_process this msg of
                         (Left st, this, msg, ev'') \<Rightarrow> Some (DESTROY_ME, this, ev @ ev' @ ev'')
                       | (_, this, msg, ev'') \<Rightarrow>
                           resume (ev @ ev' @ ev'') (initiate ee (complete_exchange this))))"

section \<open>Answering requests\<close>

fun collide_first :: "(task_t \<Rightarrow> task_t \<Rightarrow> bool \<times> task_t) \<Rightarrow> task_t \<Rightarrow> task_t list \<Rightarrow> bool \<times> task_t list" where
  "collide_first collide task [] = (False, [])"
| "collide_first collide task (a # as) =
     (if task_type a = TASK_IKE_REKEY \<and> task_type task \<in> {TASK_IKE_REKEY, TASK_IKE_DELETE} \<or>
         task_type a = TASK_CHILD_REKEY \<and> task_type task = TASK_CHILD_REKEY
      then case collide a task of (adopted, a) \<Rightarrow> (adopted, a # as)
      else case collide_first collide task as of (adopted, as) \<Rightarrow> (adopted, a # as))"

definition handle_collisions :: "exch_env \<Rightarrow> private_task_manager_t \<Rightarrow> task_t \<Rightarrow> bool \<times> private_task_manager_t" where
  "handle_collisions ee this task =
     (if task_type task \<in> {TASK_IKE_REKEY, TASK_IKE_DELETE, TASK_CHILD_REKEY}
      then case collide_first (op_collide ee) task (active_tasks this) of
             (adopted, ts) \<Rightarrow> (adopted, this\<lparr>active_tasks := ts\<rparr>)
      else (False, this))"

text \<open>
  The loop of \<^verbatim>\<open>build_response\<close>. A task that an active task adopts after a collision leaves the list; the
  first failure ends the loop.
\<close>

fun build_passive :: "exch_env \<Rightarrow> task_t list \<Rightarrow> task_t list \<Rightarrow> private_task_manager_t \<Rightarrow> private_message_t \<Rightarrow>
    event list \<Rightarrow> status_t option \<times> private_task_manager_t \<times> private_message_t \<times> event list" where
  "build_passive ee past [] this msg ev = (None, this\<lparr>passive_tasks := past\<rparr>, msg, ev)"
| "build_passive ee past (t # ts) this msg ev =
     (let r = op_build ee t (this\<lparr>passive_tasks := past @ t # ts\<rparr>) msg;
          this = apply_result ee r this;
          (adopted, this) = handle_collisions ee this (tr_task r);
          msg = tr_message r;
          ev = ev @ tr_events r;
          kept = (if adopted then [] else [tr_task r])
      in case tr_status r of
           SUCCESS \<Rightarrow> build_passive ee past ts this msg ev
         | NEED_MORE \<Rightarrow> build_passive ee (past @ kept) ts this msg ev
         | DESTROY_ME \<Rightarrow> (Some DESTROY_ME, this\<lparr>passive_tasks := past @ kept @ ts\<rparr>, msg, ev)
         | _ \<Rightarrow> (Some FAILED, this\<lparr>passive_tasks := past @ kept @ ts\<rparr>, msg, ev))"

definition new_response :: "private_task_manager_t \<Rightarrow> private_message_t \<Rightarrow> private_message_t" where
  "new_response this request =
     (let m = (message_create 2 0)\<lparr>exchange_type := exchange_type request, message_id := responding_mid this,
                                    is_request := False\<rparr>
      in m\<lparr>packet := (packet m)\<lparr>source := destination (packet request), destination := source (packet request)\<rparr>\<rparr>)"

definition build_response :: "exch_env \<Rightarrow> private_task_manager_t \<Rightarrow> private_message_t \<Rightarrow>
    status_t \<times> private_task_manager_t \<times> event list" where
  "build_response ee this request =
     (let mid_sync = list_ex (\<lambda>t. task_type t = TASK_IKE_MID_SYNC) (passive_tasks this);
          (failure, this, msg, ev) = build_passive ee [] (passive_tasks this) this (new_response this request) [];
          zero_spi = (failure \<noteq> None \<and> exchange_type request = IKE_SA_INIT);
          msg = (if selective_retransmission_enabled this \<and> exchange_type request = IKE_SA_INIT
                 then add_notify msg False SELECTIVE_FRAGMENT_RETRANSMISSION_SUPPORTED [] else msg);
          (result, this, ps) = generate_message (tx (rx ee)) this (message_id msg) (gen_fragmented ee zero_spi this msg)
                                 (clear_packets (responding_packets this));
          this = this\<lparr>responding_packets := ps\<rparr>;
          (result, this, ev) =
            (if result \<and> failure = None
             then case for_tasks ee TASK_QUEUE_PASSIVE (op_post_build ee) after_post_build this msg of
                    (e, this, _, ev') \<Rightarrow> (e \<noteq> Finished False, this, ev @ ev')
             else (result, this, ev))
      in if \<not> result then (DESTROY_ME, this, ev @ [Ike_Down])
         else case send_packets (tx (rx ee)) this (responding_packets this) None None of (this, sent) \<Rightarrow>
                if failure \<noteq> None
                then (DESTROY_ME, this, ev @ sent @ (if failure = Some FAILED then [Ike_Down] else []))
                else if mid_sync
                then (NEED_MORE, this\<lparr>responding_packets := clear_packets (responding_packets this)\<rparr>, ev @ sent)
                else (SUCCESS, this, ev @ sent))"

section \<open>Requests\<close>

definition responder_tasks :: "task_type_t list" where
  "responder_tasks = [TASK_IKE_VENDOR, TASK_IKE_INIT, TASK_IKE_NATD, TASK_IKE_CERT_PRE, TASK_IKE_AUTH,
     TASK_IKE_CERT_POST, TASK_IKE_CONFIG, TASK_IKE_MOBIKE, TASK_IKE_ESTABLISH, TASK_IKE_AUTH_LIFETIME, TASK_CHILD_CREATE]"

text \<open>Which task handles a CREATE_CHILD_SA request.\<close>

definition child_task :: "payload_t list \<Rightarrow> task_type_t" where
  "child_task ps =
     (let notify_found = list_ex (\<lambda>p. ptype p = PLV2_NOTIFY \<and> get_notify_type p = REKEY_SA \<and>
                                    (protocol_id p = 2 \<or> protocol_id p = 3)) ps;
          ts_found = list_ex (\<lambda>p. ptype p = PLV2_TS_INITIATOR \<or> ptype p = PLV2_TS_RESPONDER) ps
      in if ts_found then if notify_found then TASK_CHILD_REKEY else TASK_CHILD_CREATE
         else TASK_IKE_REKEY)"

text \<open>Which task handles a notify of an INFORMATIONAL request.\<close>

definition notify_task :: "notify_type_t \<Rightarrow> task_type_t option" where
  "notify_task n =
     (if n \<in> {ADDITIONAL_IP4_ADDRESS, ADDITIONAL_IP6_ADDRESS, NO_ADDITIONAL_ADDRESSES, UPDATE_SA_ADDRESSES,
              NO_NATS_ALLOWED, UNACCEPTABLE_ADDRESSES, UNEXPECTED_NAT_DETECTED, COOKIE2, NAT_DETECTION_SOURCE_IP,
              NAT_DETECTION_DESTINATION_IP} then Some TASK_IKE_MOBIKE
      else if n = AUTH_LIFETIME then Some TASK_IKE_AUTH_LIFETIME
      else if n = INVALID_SYNTAX \<or> n = AUTHENTICATION_FAILED then Some TASK_IKE_DELETE
      else if n = REDIRECT then Some TASK_IKE_REDIRECT
      else if n = IKEV2_MESSAGE_ID_SYNC then Some TASK_IKE_MID_SYNC
      else None)"

text \<open>The loop over the payloads of an INFORMATIONAL request; acknowledgements are applied on the way.\<close>

fun informational_task :: "exch_env \<Rightarrow> ike_sa_state_t \<Rightarrow> private_message_t \<Rightarrow> payload_t list \<Rightarrow>
    private_task_manager_t \<Rightarrow> task_type_t option \<times> private_task_manager_t" where
  "informational_task ee state msg [] this = (None, this)"
| "informational_task ee state msg (p # ps) this =
     (if ptype p = PLV2_NOTIFY then
        if state = IKE_REKEYED then informational_task ee state msg ps this
        else if get_notify_type p = FRAGMENT_ACK
        then informational_task ee state msg ps (process_fragment_ack (big_endian (rx ee)) (tx (rx ee)) this msg)
        else case notify_task (get_notify_type p) of
               Some ty \<Rightarrow> (Some ty, this)
             | None \<Rightarrow> informational_task ee state msg ps this
      else if ptype p = PLV2_DELETE
      then (Some (if protocol_id p = 1 then TASK_IKE_DELETE else TASK_CHILD_DELETE), this)
      else informational_task ee state msg ps this)"

text \<open>The tasks created for a request, or \<open>None\<close> if it is rejected.\<close>

definition create_passive :: "exch_env \<Rightarrow> private_task_manager_t \<Rightarrow> private_message_t \<Rightarrow>
    private_task_manager_t option" where
  "create_passive ee this msg =
     (let state = ike_state (ike_sa this);
          new = (\<lambda>tys this. this\<lparr>passive_tasks := map (\<lambda>ty. create_task (te ee) ty False) tys\<rparr>)
      in if passive_tasks this \<noteq> [] then Some this
         else case exchange_type msg of
                IKE_SA_INIT \<Rightarrow> Some (new responder_tasks this)
              | CREATE_CHILD_SA \<Rightarrow>
                  if state = IKE_CREATED \<or> state = IKE_CONNECTING then None
                  else Some (new [child_task (payloads msg)] this)
              | INFORMATIONAL \<Rightarrow>
                  (case informational_task ee state msg (payloads msg) this of
                     (ty, this) \<Rightarrow> Some (new [case ty of Some ty \<Rightarrow> ty | None \<Rightarrow> TASK_IKE_DPD] this))
              | _ \<Rightarrow> Some this)"

definition tm_process_request :: "exch_env \<Rightarrow> private_task_manager_t \<Rightarrow> private_message_t \<Rightarrow>
    status_t \<times> private_task_manager_t \<times> event list" where
  "tm_process_request ee this msg =
     (let this = note_selective_support this msg
      in case create_passive ee this msg of
           None \<Rightarrow> (FAILED, this, [])
         | Some this \<Rightarrow>
             (case for_tasks ee TASK_QUEUE_PASSIVE (op_pre_process ee) after_pre_process this msg of
                (Left st, this, msg, ev) \<Rightarrow>
                  if st = DESTROY_ME \<or> exchange_type msg = IKE_SA_INIT then (DESTROY_ME, this, ev)
                  else if exchange_type msg = IKE_AUTH then (NEED_MORE, this, ev)
                  else (NEED_MORE, flush_queue this TASK_QUEUE_PASSIVE, ev)
              | (_, this, msg, ev) \<Rightarrow>
                  (case for_tasks ee TASK_QUEUE_PASSIVE (\<lambda>_. Some (op_process ee)) after_process this msg of
                     (Left st, this, msg, ev') \<Rightarrow>
                       (DESTROY_ME, this, ev @ ev' @ (if st = FAILED then [Ike_Down] else []))
                   | (_, this, msg, ev') \<Rightarrow>
                       (case for_tasks ee TASK_QUEUE_PASSIVE (op_post_process ee) after_post_process this msg of
                          (Left st, this, msg, ev'') \<Rightarrow> (DESTROY_ME, this, ev @ ev' @ ev'')
                        | (_, this, msg, ev'') \<Rightarrow>
                            (case build_response ee this msg of
                               (st, this, ev3) \<Rightarrow> (st, this, ev @ ev' @ ev'' @ ev3))))))"

end
