(* ===== verification/Exchange_Proofs.thy ===== *)
theory Exchange_Proofs
  imports Exchange
begin

text \<open>
  Properties of the exchanges of the task manager: \<^verbatim>\<open>initiate\<close> ends, and there is one request in flight,
  with the message ID of the manager.
\<close>

section \<open>What sending keeps\<close>

text \<open>The message ID, the type and the packets of the exchange in flight.\<close>

definition flight :: "private_task_manager_t \<Rightarrow> u32 \<times> exchange_type_t \<times> packet_t list" where
  "flight this = (initiating_mid this, initiating_type this, initiating_packets this)"

named_theorems flight_simps

lemma flight_update [flight_simps]:
  "flight (this\<lparr>current_retransmit_job := j\<rparr>) = flight this"
  "flight (this\<lparr>retransmitted := n\<rparr>) = flight this"
  "flight (this\<lparr>outgoing_tracker := t\<rparr>) = flight this"
  "flight (this\<lparr>active_tasks := ts\<rparr>) = flight this"
  "flight (this\<lparr>passive_tasks := ts\<rparr>) = flight this"
  "flight (this\<lparr>queued_tasks := qs\<rparr>) = flight this"
  "flight (this\<lparr>retransmit_sent := b\<rparr>) = flight this"
  "flight (this\<lparr>ike_sa := sa\<rparr>) = flight this"
  "flight (this\<lparr>deferred := b\<rparr>) = flight this"
  by (simp_all add: flight_def)

lemma send_packets_flight [flight_simps]: "flight (fst (send_packets env this ps src dst)) = flight this"
  by (simp add: send_packets_def Let_def flight_def split: option.split)

lemma simple_flight [flight_simps]: "flight (fst (snd (retransmit_missing_fragments_simple env this))) = flight this"
proof (cases "outgoing_tracker this")
  case None
  then show ?thesis by (simp add: retransmit_missing_fragments_simple_def)
next
  case (Some t)
  obtain fs ps sz where "resend_unacked (now env) (trk_fragments t) = (fs, ps, sz)" by (metis prod_cases3)
  then show ?thesis
    using Some by (simp add: retransmit_missing_fragments_simple_def Let_def flight_simps case_prod_beta)
qed

lemma selective_flight [flight_simps]: "flight (fst (snd (retransmit_selective env this))) = flight this"
proof -
  let ?s = "if retransmitted this > 0
      then if (of_nat (length (filter (\<lambda>f. \<not> acknowledged f) (trk_fragments (the (outgoing_tracker this))))) :: u16) > 0
           then snd (retransmit_missing_fragments_simple env this) else (this, [])
      else send_packets env this (initiating_packets this) (Some (my_host (ike_sa this))) (Some (other_host (ike_sa this)))"
  obtain this' ev where s: "?s = (this', ev)" by fastforce
  then have "flight this' = flight this"
    using simple_flight[of env this] send_packets_flight[of env this]
    by (auto split: if_splits) (metis fst_conv snd_conv)+
  then show ?thesis
    unfolding retransmit_selective_def Let_def s by (simp add: flight_simps)
qed

lemma schedule_flight [flight_simps]: "flight (fst (snd (schedule_retransmit this mid t ev))) = flight this"
  by (simp add: schedule_retransmit_def Let_def flight_simps)

lemma defer_flight [flight_simps]: "flight (defer_exchange this) = flight this"
  by (simp add: defer_exchange_def flight_def)

lemma probing_flight [flight_simps]: "flight (fst (snd (retransmit_probing env this mid task pkt))) = flight this"
  by (simp add: retransmit_probing_def Let_def flight_simps split: prod.split)

lemma all_flight [flight_simps]: "flight (fst (snd (retransmit_all env this mid mobike pkt))) = flight this"
proof (cases mobike)
  case None
  then show ?thesis
    by (simp add: retransmit_all_def Let_def flight_simps case_prod_beta)
next
  case (Some t)
  then show ?thesis by (simp add: retransmit_all_def Let_def flight_simps split: prod.split)
qed

lemma current_flight [flight_simps]: "flight (fst (snd (retransmit_current env this mid))) = flight this"
  by (simp add: retransmit_current_def Let_def flight_simps split: option.split)

lemma retransmit_flight: "flight (fst (snd (retransmit env this mid))) = flight this"
proof (induction env this mid rule: retransmit.induct)
  case (1 env this mid)
  show ?case
    by (subst retransmit.simps) (use 1 in \<open>simp add: Let_def flight_simps\<close>)
qed

section \<open>Tasks that are waiting\<close>

definition due_queued :: "env_t \<Rightarrow> queued_task_t list \<Rightarrow> nat" where
  "due_queued env qs = length (filter (\<lambda>q. \<not> now env < q_time q) qs)"

definition pending :: "env_t \<Rightarrow> private_task_manager_t \<Rightarrow> nat" where
  "pending env this = length (active_tasks this) + due_queued env (queued_tasks this)"

lemma take_due_pending: "take_due (now env) ty qs = Some (t, rest) \<Longrightarrow> due_queued env qs = Suc (due_queued env rest)"
  by (induction qs arbitrary: rest) (auto simp: due_queued_def split: if_splits)

lemma activate_task_pending [simp]: "pending env (snd (activate_task env this ty)) = pending env this"
  by (auto simp: activate_task_def pending_def dest: take_due_pending split: option.split)

lemma activate_task_flight [flight_simps]: "flight (snd (activate_task env this ty)) = flight this"
  by (auto simp: activate_task_def flight_def split: option.split)

lemma activate_all_keeps [simp]:
  "pending env (activate_all env tys this) = pending env this" "flight (activate_all env tys this) = flight this"
  by (induction tys arbitrary: this) (simp_all add: flight_simps)

lemma activate_first_keeps:
  "pending env (snd (activate_first env tys this)) = pending env this \<and>
   flight (snd (activate_first env tys this)) = flight this \<and>
   (fst (activate_first env tys this) = Some x \<longrightarrow> x \<in> snd ` set tys)"
proof (induction tys arbitrary: this)
  case (Cons p tys)
  obtain ty y where p: "p = (ty, y)" by fastforce
  obtain b this' where a: "activate_task env this ty = (b, this')" by fastforce
  then have "pending env this' = pending env this" "flight this' = flight this"
    using activate_task_pending[of env this ty] activate_task_flight[of env this ty] by simp_all
  then show ?case using a Cons.IH[of this'] by (cases b) (auto simp: p)
qed simp

text \<open>Selecting an exchange does not start one, and a new IKE_SA_INIT exchange starts with message ID 0.\<close>

definition restarted :: "private_task_manager_t \<Rightarrow> private_task_manager_t \<Rightarrow> bool" where
  "restarted this this' \<longleftrightarrow> initiating_type this' = initiating_type this \<and>
     initiating_packets this' = initiating_packets this \<and> initiating_mid this' \<in> {initiating_mid this, 0}"

lemma activate_new_keeps:
  assumes "activate_new env this = (x, this')"
  shows "pending env this' = pending env this" "restarted this this'"
    "x = Some y \<Longrightarrow> y \<noteq> EXCHANGE_TYPE_UNDEFINED"
proof -
  note first = activate_first_keeps[of env _ this]
  have mid: "pending env (this\<lparr>initiating_mid := 0\<rparr>) = pending env this" for this
    by (simp add: pending_def)
  have created: "(x, this') =
      (let r = activate_task env (snd (activate_task env this TASK_IKE_VENDOR)) TASK_IKE_INIT
       in if fst r then (Some IKE_SA_INIT, activate_all env init_tasks ((snd r)\<lparr>initiating_mid := 0\<rparr>)) else (None, snd r))"
    if "ike_state (ike_sa this) = IKE_CREATED"
    using assms that by (auto simp: activate_new_def Let_def split: prod.splits bool.splits)
  have fl: "flight (snd (activate_task env (snd (activate_task env this TASK_IKE_VENDOR)) TASK_IKE_INIT)) = flight this"
    by (simp add: flight_simps)
  have all: "flight (activate_all env init_tasks (m\<lparr>initiating_mid := 0\<rparr>)) = (0, snd (flight m))" for m
    by (simp only: activate_all_keeps) (simp add: flight_def)
  have "pending env this' = pending env this \<and> restarted this this' \<and> (x = Some y \<longrightarrow> y \<noteq> EXCHANGE_TYPE_UNDEFINED)"
  proof (cases "ike_state (ike_sa this) = IKE_CREATED")
    case True
    show ?thesis
      using created[OF True] fl all[of "snd (activate_task env (snd (activate_task env this TASK_IKE_VENDOR)) TASK_IKE_INIT)"]
      by (auto simp: Let_def mid restarted_def flight_def split: if_splits)
  next
    case False
    define tys where "tys = (case ike_state (ike_sa this) of
        IKE_ESTABLISHED \<Rightarrow> established_tasks @ [(TASK_IKE_DELETE, INFORMATIONAL)]
      | IKE_REKEYING \<Rightarrow> [(TASK_IKE_DELETE, INFORMATIONAL)]
      | IKE_REKEYED \<Rightarrow> [(TASK_IKE_DELETE, INFORMATIONAL)] | _ \<Rightarrow> [])"
    have "activate_first env tys this = (x, this')"
      using False assms by (cases "ike_state (ike_sa this)") (simp_all add: tys_def activate_new_def del: activate_first.simps(2))
    moreover have "EXCHANGE_TYPE_UNDEFINED \<notin> snd ` set tys"
      by (cases "ike_state (ike_sa this)") (simp_all add: tys_def established_tasks_def)
    ultimately show ?thesis using first[of tys y] by (force simp: restarted_def flight_def)
  qed
  then show "pending env this' = pending env this" "restarted this this'"
    "x = Some y \<Longrightarrow> y \<noteq> EXCHANGE_TYPE_UNDEFINED" by blast+
qed

lemma derive_keys_shorter: "derive_keys env ts = (ok, ts') \<Longrightarrow> length ts' \<le> length ts"
  by (induction ts arbitrary: ok ts') (auto split: if_splits status_t.splits prod.splits)

lemma select_exchange_keeps:
  assumes "select_exchange ee this = (x, this')"
  shows "pending (tx (rx ee)) this' \<le> pending (tx (rx ee)) this" "restarted this this'"
    "x = Some (Some y) \<Longrightarrow> y \<noteq> EXCHANGE_TYPE_UNDEFINED"
proof -
  have act: "active_exchange ts = Some y \<Longrightarrow> y \<noteq> EXCHANGE_TYPE_UNDEFINED" for ts
    by (induction ts) (auto split: task_type_t.splits)
  have "pending (tx (rx ee)) this' \<le> pending (tx (rx ee)) this \<and> restarted this this' \<and>
    (x = Some (Some y) \<longrightarrow> y \<noteq> EXCHANGE_TYPE_UNDEFINED)"
  proof (cases "active_tasks this = []")
    case True
    then obtain z where "activate_new (tx (rx ee)) this = (z, this')" "x = Some z"
      using assms by (cases "activate_new (tx (rx ee)) this") (auto simp: select_exchange_def)
    then show ?thesis
      using activate_new_keeps(1,2)[of "tx (rx ee)" this z this'] activate_new_keeps(3)[of "tx (rx ee)" this z this' y]
      by auto
  next
    case False
    obtain ok ts where "derive_keys (rx ee) (active_tasks this) = (ok, ts)" by fastforce
    then show ?thesis using assms False act derive_keys_shorter
      by (auto simp: select_exchange_def pending_def restarted_def Let_def split: if_splits)
  qed
  then show "pending (tx (rx ee)) this' \<le> pending (tx (rx ee)) this" "restarted this this'"
    "x = Some (Some y) \<Longrightarrow> y \<noteq> EXCHANGE_TYPE_UNDEFINED" by blast+
qed

section \<open>What is expected of tasks\<close>

text \<open>
  A task that withdraws the exchange by resetting the exchange type of the request has completed; no
  task changes the header of a request otherwise, resets the manager while a request is built, or
  queues new tasks that are due at once while it builds a request.
\<close>

definition builds_settle :: "exch_env \<Rightarrow> bool" where
  "builds_settle ee \<longleftrightarrow>
     (\<forall>t this msg. let r = op_build ee t this msg in
        tr_reset r = None \<and> due_queued (tx (rx ee)) (tr_queued r) \<le> due_queued (tx (rx ee)) (queued_tasks this) \<and>
        (exchange_type (tr_message r) = EXCHANGE_TYPE_UNDEFINED \<longrightarrow>
           exchange_type msg = EXCHANGE_TYPE_UNDEFINED \<or> tr_status r = SUCCESS) \<and>
        message_id (tr_message r) = message_id msg \<and> is_request (tr_message r) = is_request msg) \<and>
     (\<forall>ty f t this msg. op_post_build ee ty = Some f \<longrightarrow> tr_reset (f t this msg) = None)"

lemma build_no_reset: "builds_settle ee \<Longrightarrow> Some (op_build ee) = Some f \<Longrightarrow> tr_reset (f t this msg) = None"
  by (auto simp: builds_settle_def Let_def)

lemma set_tasks_flight [flight_simps]: "flight (set_tasks q ts this) = flight this"
  by (simp add: set_tasks_def flight_simps)

lemma apply_result_flight: "tr_reset r = None \<Longrightarrow> flight (apply_result ee r this) = flight this"
  by (simp add: apply_result_def flight_simps)

lemma run_tasks_flight:
  assumes "\<And>ty f t this msg. meth ty = Some f \<Longrightarrow> tr_reset (f t this msg) = None"
  shows "flight (fst (snd (run_tasks ee q meth decide ok past ts this msg ev))) = flight this"
proof (induction ts arbitrary: ok past this msg ev)
  case (Cons t ts)
  show ?case
  proof (cases "meth (task_type t)")
    case (Some f)
    note r = assms[OF Some]
    show ?thesis
      by (cases "decide (tr_status (f t (set_tasks q (past @ t # ts) this) msg))")
        (simp_all add: Some Let_def Cons.IH r apply_result_flight flight_simps)
  qed (simp add: Cons.IH)
qed (simp add: flight_simps)

lemma after_build_simps: "after_build SUCCESS = Drop" "after_build NEED_MORE = Keep"
  by (simp_all add: after_build_def)

lemma run_tasks_build:
  assumes "builds_settle ee"
    and "run_tasks ee TASK_QUEUE_ACTIVE (\<lambda>_. Some (op_build ee)) after_build ok past ts this msg ev = (e, this', msg', ev')"
  shows "(\<exists>st. e = Left st) \<or>
    (e = Finished ok \<and> message_id msg' = message_id msg \<and> is_request msg' = is_request msg \<and>
     pending (tx (rx ee)) this' \<le> length past + length ts + due_queued (tx (rx ee)) (queued_tasks this) \<and>
     (exchange_type msg' = EXCHANGE_TYPE_UNDEFINED \<longrightarrow> exchange_type msg = EXCHANGE_TYPE_UNDEFINED \<or>
        pending (tx (rx ee)) this' < length past + length ts + due_queued (tx (rx ee)) (queued_tasks this)))"
  using assms(2)
proof (induction ts arbitrary: past this msg ev)
  case Nil
  then show ?case by (auto simp: pending_def set_tasks_def)
next
  case (Cons t ts)
  define r where "r = op_build ee t (set_tasks TASK_QUEUE_ACTIVE (past @ t # ts) this) msg"
  define this1 where "this1 = apply_result ee r (set_tasks TASK_QUEUE_ACTIVE (past @ tr_task r # ts) this)"
  have "queued_tasks (set_tasks TASK_QUEUE_ACTIVE (past @ t # ts) this) = queued_tasks this" by (simp add: set_tasks_def)
  then have c: "tr_reset r = None" "due_queued (tx (rx ee)) (tr_queued r) \<le> due_queued (tx (rx ee)) (queued_tasks this)"
    "exchange_type (tr_message r) = EXCHANGE_TYPE_UNDEFINED \<longrightarrow> exchange_type msg = EXCHANGE_TYPE_UNDEFINED \<or> tr_status r = SUCCESS"
    "message_id (tr_message r) = message_id msg" "is_request (tr_message r) = is_request msg"
    using assms(1) unfolding builds_settle_def Let_def r_def by metis+
  have q: "queued_tasks this1 = tr_queued r" by (simp add: this1_def apply_result_def c)
  have run: "run_tasks ee TASK_QUEUE_ACTIVE (\<lambda>_. Some (op_build ee)) after_build ok past (t # ts) this msg ev =
    (case after_build (tr_status r) of
       Keep \<Rightarrow> run_tasks ee TASK_QUEUE_ACTIVE (\<lambda>_. Some (op_build ee)) after_build ok (past @ [tr_task r]) ts this1 (tr_message r) (ev @ tr_events r)
     | Keep_Failed \<Rightarrow> run_tasks ee TASK_QUEUE_ACTIVE (\<lambda>_. Some (op_build ee)) after_build False (past @ [tr_task r]) ts this1 (tr_message r) (ev @ tr_events r)
     | Drop \<Rightarrow> run_tasks ee TASK_QUEUE_ACTIVE (\<lambda>_. Some (op_build ee)) after_build ok past ts this1 (tr_message r) (ev @ tr_events r)
     | Leave remove status \<Rightarrow>
         (Left status, if remove then set_tasks TASK_QUEUE_ACTIVE (past @ ts) this1 else this1, tr_message r, ev @ tr_events r))"
    by (simp add: Let_def r_def [symmetric] this1_def c split: after_call.split)
  consider "tr_status r = SUCCESS" | "tr_status r = NEED_MORE" | st where "after_build (tr_status r) = Leave False st"
    by (cases "tr_status r") (auto simp: after_build_def)
  then show ?case
  proof cases
    case 1
    then have "run_tasks ee TASK_QUEUE_ACTIVE (\<lambda>_. Some (op_build ee)) after_build ok past ts this1 (tr_message r)
      (ev @ tr_events r) = (e, this', msg', ev')"
      using Cons.prems by (simp only: run after_build_simps after_call.case)
    then show ?thesis using Cons.IH[of past this1 "tr_message r"] c q by fastforce
  next
    case 2
    then have "run_tasks ee TASK_QUEUE_ACTIVE (\<lambda>_. Some (op_build ee)) after_build ok (past @ [tr_task r]) ts this1
      (tr_message r) (ev @ tr_events r) = (e, this', msg', ev')"
      using Cons.prems by (simp only: run after_build_simps after_call.case)
    then show ?thesis using Cons.IH[of "past @ [tr_task r]" this1 "tr_message r"] 2 c q by fastforce
  next
    case 3
    then show ?thesis using Cons.prems by (simp only: run after_call.case) auto
  qed
qed

section \<open>One request in flight\<close>

text \<open>
  The packets in flight are those of one request that carries the message ID of the manager and the type
  of the exchange; without an exchange there are none.
\<close>

definition request_in_flight :: "exch_env \<Rightarrow> private_task_manager_t \<Rightarrow> bool" where
  "request_in_flight ee this \<longleftrightarrow>
     initiating_packets this = [] \<or>
     initiating_type this \<noteq> EXCHANGE_TYPE_UNDEFINED \<and>
     (\<exists>m s. gen_fragmented ee False s m = Some (initiating_packets this) \<and> message_id m = initiating_mid this \<and>
        exchange_type m = initiating_type this \<and> is_request m)"

lemma request_in_flight_cong: "flight a = flight b \<Longrightarrow> request_in_flight ee a = request_in_flight ee b"
  by (simp add: request_in_flight_def flight_def)

lemma flush_flight [flight_simps]: "flight (flush this) = flight this"
  by (simp add: flush_def flush_queue_def flight_def)

lemma generate_message_None: "generate_message env this mid None stored = (False, this, stored)"
  by (simp add: generate_message_def)

lemma generate_message_Some:
  "\<exists>this'. generate_message env this mid (Some ps) stored = (True, this', stored @ ps) \<and> flight this' = flight this"
  by (simp add: generate_message_def Let_def flight_simps)

lemma send_request_flight:
  assumes "builds_settle ee" "initiating_packets this = []" "message_id msg = initiating_mid this" "is_request msg"
    "exchange_type msg = initiating_type this" "initiating_type this \<noteq> EXCHANGE_TYPE_UNDEFINED"
  shows "request_in_flight ee (fst (snd (send_request ee this msg ev)))"
    "initiating_mid (fst (snd (send_request ee this msg ev))) = initiating_mid this"
proof -
  let ?f = "gen_fragmented ee False this msg"
  have "request_in_flight ee (fst (snd (send_request ee this msg ev))) \<and>
    initiating_mid (fst (snd (send_request ee this msg ev))) = initiating_mid this"
  proof (cases ?f)
    case None
    then show ?thesis
      using assms(2)
      by (simp add: send_request_def Let_def request_in_flight_def flush_def flush_queue_def generate_message_None)
  next
    case (Some ps)
    then obtain this' where gen: "generate_message (tx (rx ee)) this (message_id msg) ?f [] = (True, this', ps)"
      "flight this' = flight this"
      using generate_message_Some[of "tx (rx ee)" this "message_id msg" ps "[]"] by auto
    define this1 where "this1 = this'\<lparr>initiating_packets := ps\<rparr>"
    define l where "l = for_tasks ee TASK_QUEUE_ACTIVE (op_post_build ee) after_post_build this1 msg"
    have 1: "flight this1 = (initiating_mid this, initiating_type this, ps)"
      using gen(2) by (simp add: this1_def flight_def)
    have l: "flight (fst (snd l)) = flight this1"
      unfolding l_def for_tasks_def using assms(1) by (intro run_tasks_flight) (auto simp: builds_settle_def)
    have "flight (fst (snd (send_request ee this msg ev))) = flight this1"
      using gen(1) assms(2) l retransmit_flight
      by (simp add: send_request_def Let_def this1_def[symmetric] l_def[symmetric] case_prod_beta flight_simps)
    then show ?thesis using 1 Some assms by (auto simp: request_in_flight_def flight_def)
  qed
  then show "request_in_flight ee (fst (snd (send_request ee this msg ev)))"
    "initiating_mid (fst (snd (send_request ee this msg ev))) = initiating_mid this" by blast+
qed

lemma new_request_fields [simp]: "message_id (new_request this x) = initiating_mid this" "is_request (new_request this x)"
  "exchange_type (new_request this x) = x"
  by (simp_all add: new_request_def Let_def message_create_def message_create_from_packet_def)

text \<open>What \<^verbatim>\<open>initiate\<close> does with the exchange it selected.\<close>

lemma initiate_idle:
  assumes "initiating_type this = EXCHANGE_TYPE_UNDEFINED"
  shows "initiate ee this =
     (case select_exchange ee this of
          (None, this) \<Rightarrow> Some (DESTROY_ME, this, [])
        | (Some None, this) \<Rightarrow> Some (SUCCESS, this, [])
        | (Some (Some x), this) \<Rightarrow>
            let msg = new_request this x;
                this = this\<lparr>initiating_type := x, retransmitted := 0, retransmit_sent := False, deferred := False\<rparr>
            in case for_tasks ee TASK_QUEUE_ACTIVE (\<lambda>_. Some (op_build ee)) after_build this msg of
                 (Left st, this, msg, ev) \<Rightarrow>
                   let this = (if st = FAILED then this\<lparr>initiating_type := EXCHANGE_TYPE_UNDEFINED\<rparr> else this);
                       down = (if st = FAILED then close_sa this else [])
                   in Some (DESTROY_ME, flush this, ev @ down)
               | (_, this, msg, ev) \<Rightarrow>
                   let this = this\<lparr>initiating_type := exchange_type msg\<rparr>
                   in if exchange_type msg = EXCHANGE_TYPE_UNDEFINED
                      then Option.bind (initiate ee this) (\<lambda>(st, this, ev'). Some (st, this, ev @ ev'))
                      else Some (send_request ee this msg ev))"
  by (subst initiate.simps) (simp only: assms simp_thms if_False)

lemma initiate_from_idle:
  assumes "builds_settle ee" "initiating_type this = EXCHANGE_TYPE_UNDEFINED" "initiating_packets this = []"
  shows "\<exists>st this' ev. initiate ee this = Some (st, this', ev) \<and> request_in_flight ee this' \<and>
    initiating_mid this' \<in> {initiating_mid this, 0}"
  using assms(2,3)
proof (induction "pending (tx (rx ee)) this" arbitrary: this rule: less_induct)
  case less
  obtain x this1 where sel: "select_exchange ee this = (x, this1)" by fastforce
  have pend: "pending (tx (rx ee)) this1 \<le> pending (tx (rx ee)) this" and res: "restarted this this1"
    using select_exchange_keeps(1,2)[OF sel] by blast+
  then have idle: "initiating_packets this1 = []" "initiating_mid this1 \<in> {initiating_mid this, 0}"
    using less.prems by (auto simp: restarted_def)
  show ?case
  proof (cases "\<exists>y. x = Some (Some y)")
    case False
    then show ?thesis using idle
      by (cases x) (auto simp: initiate_idle[OF less.prems(1)] sel request_in_flight_def split: option.split)
  next
    case True
    then obtain y where y: "x = Some (Some y)" by blast
    have defined: "y \<noteq> EXCHANGE_TYPE_UNDEFINED" using select_exchange_keeps(3)[OF sel y] .
    define this2 where "this2 = this1\<lparr>initiating_type := y, retransmitted := 0, retransmit_sent := False, deferred := False\<rparr>"
    obtain e this3 msg ev where run:
      "for_tasks ee TASK_QUEUE_ACTIVE (\<lambda>_. Some (op_build ee)) after_build this2 (new_request this1 y) = (e, this3, msg, ev)"
      by (metis prod_cases4)
    have fl: "flight this3 = (initiating_mid this1, y, [])"
      using run_tasks_flight[of "\<lambda>_. Some (op_build ee)" ee TASK_QUEUE_ACTIVE after_build True "[]"
          "get_tasks TASK_QUEUE_ACTIVE this2" this2 "new_request this1 y" "[]"] run build_no_reset[OF assms(1)] idle
      by (simp add: for_tasks_def flight_def) (simp add: this2_def)
    note build = run_tasks_build[OF assms(1) run[unfolded for_tasks_def]]
    have pend2: "length (get_tasks TASK_QUEUE_ACTIVE this2) + due_queued (tx (rx ee)) (queued_tasks this2) =
      pending (tx (rx ee)) this1" by (simp add: this2_def get_tasks_def pending_def)
    show ?thesis
    proof (cases "\<exists>st. e = Left st")
      case True
      then show ?thesis using fl idle
        by (auto simp: initiate_idle[OF less.prems(1)] sel y this2_def[symmetric] run Let_def request_in_flight_def
            flight_def flush_def flush_queue_def)
    next
      case False
      then have e: "e = Finished True" and hdr: "message_id msg = initiating_mid this1" "is_request msg"
        and le: "pending (tx (rx ee)) this3 \<le> pending (tx (rx ee)) this1"
          "exchange_type msg = EXCHANGE_TYPE_UNDEFINED \<Longrightarrow> pending (tx (rx ee)) this3 < pending (tx (rx ee)) this1"
        using build pend2 defined by auto
      let ?this4 = "this3\<lparr>initiating_type := exchange_type msg\<rparr>"
      have 4: "initiating_mid ?this4 = initiating_mid this1" "initiating_packets ?this4 = []"
        using fl by (simp_all add: flight_def)
      have eq: "initiate ee this = (if exchange_type msg = EXCHANGE_TYPE_UNDEFINED
          then Option.bind (initiate ee ?this4) (\<lambda>(st, this, ev'). Some (st, this, ev @ ev'))
          else Some (send_request ee ?this4 msg ev))"
        by (simp add: initiate_idle[OF less.prems(1)] sel y this2_def[symmetric] run Let_def e)
      show ?thesis
      proof (cases "exchange_type msg = EXCHANGE_TYPE_UNDEFINED")
        case True
        have "pending (tx (rx ee)) ?this4 < pending (tx (rx ee)) this"
          using le(2)[OF True] pend by (simp add: pending_def)
        from less.hyps[OF this] show ?thesis using True 4 idle by (auto simp: eq)
      next
        case False
        then show ?thesis
          using send_request_flight[of ee ?this4 msg ev] assms(1) 4 hdr idle by (cases "send_request ee ?this4 msg ev") (auto simp: eq)
      qed
    qed
  qed
qed

lemma request_in_flight_idle:
  "request_in_flight ee this \<Longrightarrow> initiating_type this = EXCHANGE_TYPE_UNDEFINED \<Longrightarrow> initiating_packets this = []"
  by (auto simp: request_in_flight_def)

lemma initiate_result:
  assumes "builds_settle ee" "request_in_flight ee this"
  shows "\<exists>st this' ev. initiate ee this = Some (st, this', ev) \<and> request_in_flight ee this' \<and>
    (initiating_type this \<noteq> EXCHANGE_TYPE_UNDEFINED \<longrightarrow> flight this' = flight this) \<and>
    initiating_mid this' \<in> {initiating_mid this, 0}"
proof (cases "initiating_type this = EXCHANGE_TYPE_UNDEFINED")
  case True
  then show ?thesis using initiate_from_idle[OF assms(1) True request_in_flight_idle[OF assms(2) True]] by blast
next
  case False
  define this1 where "this1 = this\<lparr>deferred := False, retransmitted := 0\<rparr>"
  obtain st this2 ev where r: "retransmit (tx (rx ee)) this1 (initiating_mid this) = (st, this2, ev)" by (metis prod_cases3)
  then have "flight this2 = flight this1" using retransmit_flight[of "tx (rx ee)" this1 "initiating_mid this"] by simp
  then have 2: "flight this2 = flight this" by (simp add: this1_def flight_def)
  have eq: "initiate ee this = Some (if deferred this then (st, this2, ev) else (SUCCESS, this, []))"
    using False r by (subst initiate.simps) (simp add: this1_def)
  have "initiating_mid this2 = initiating_mid this" using 2 by (simp add: flight_def)
  then show ?thesis
    using assms(2) 2 request_in_flight_cong[OF 2, of ee] by (cases "deferred this") (simp_all add: eq)
qed


section \<open>Responses\<close>

text \<open>
  Tasks that process a response reset the manager only to start over with message ID 0; the methods
  called before and after processing do not reset it.
\<close>

definition processes_settle :: "exch_env \<Rightarrow> bool" where
  "processes_settle ee \<longleftrightarrow>
     (\<forall>t this msg. case tr_reset (op_process ee t this msg) of None \<Rightarrow> True | Some (i, s) \<Rightarrow> i = 0) \<and>
     (\<forall>ty f t this msg. op_pre_process ee ty = Some f \<or> op_post_process ee ty = Some f \<longrightarrow> tr_reset (f t this msg) = None)"

lemma apply_reset_flight: "tr_reset r = Some (0, s) \<Longrightarrow> flight (apply_result ee r this) = (0, EXCHANGE_TYPE_UNDEFINED, [])"
  by (simp add: apply_result_def reset_manager_def Let_def flight_def clear_packets_def requeue_loop_eq)

lemma run_tasks_process:
  assumes "processes_settle ee"
    and "run_tasks ee TASK_QUEUE_ACTIVE (\<lambda>_. Some (op_process ee)) after_process ok past ts this msg ev = (e, this', msg', ev')"
  shows "flight this' = flight this \<or> (\<forall>ok. e \<noteq> Finished ok) \<and> flight this' = (0, EXCHANGE_TYPE_UNDEFINED, [])"
    and "e = Was_Reset ok' \<Longrightarrow> flight this' = (0, EXCHANGE_TYPE_UNDEFINED, [])"
proof -
  have "(flight this' = flight this \<or> (\<forall>ok. e \<noteq> Finished ok) \<and> flight this' = (0, EXCHANGE_TYPE_UNDEFINED, [])) \<and>
    (\<forall>ok'. e = Was_Reset ok' \<longrightarrow> flight this' = (0, EXCHANGE_TYPE_UNDEFINED, []))"
    using assms(2)
  proof (induction ts arbitrary: ok past this msg ev)
    case Nil
    then show ?case by (auto simp: flight_simps)
  next
    case (Cons t ts)
    define r where "r = op_process ee t (set_tasks TASK_QUEUE_ACTIVE (past @ t # ts) this) msg"
    define this1 where "this1 = apply_result ee r (set_tasks TASK_QUEUE_ACTIVE (past @ tr_task r # ts) this)"
    have prems: "(case after_process (tr_status r) of
        Keep \<Rightarrow> if tr_reset r \<noteq> None then (Was_Reset ok, this1, tr_message r, ev @ tr_events r)
          else run_tasks ee TASK_QUEUE_ACTIVE (\<lambda>_. Some (op_process ee)) after_process ok (past @ [tr_task r]) ts this1 (tr_message r) (ev @ tr_events r)
      | Keep_Failed \<Rightarrow> if tr_reset r \<noteq> None then (Was_Reset False, this1, tr_message r, ev @ tr_events r)
          else run_tasks ee TASK_QUEUE_ACTIVE (\<lambda>_. Some (op_process ee)) after_process False (past @ [tr_task r]) ts this1 (tr_message r) (ev @ tr_events r)
      | Drop \<Rightarrow> if tr_reset r \<noteq> None then (Was_Reset ok, this1, tr_message r, ev @ tr_events r)
          else run_tasks ee TASK_QUEUE_ACTIVE (\<lambda>_. Some (op_process ee)) after_process ok past ts this1 (tr_message r) (ev @ tr_events r)
      | Leave remove status \<Rightarrow>
          (Left status, if remove \<and> tr_reset r = None then set_tasks TASK_QUEUE_ACTIVE (past @ ts) this1 else this1,
           tr_message r, ev @ tr_events r)) = (e, this', msg', ev')"
      unfolding Cons.prems[symmetric]
      by (cases "tr_reset r") (simp_all add: Let_def r_def [symmetric] this1_def split: after_call.split)
    have f: "flight this1 = (if tr_reset r = None then flight this else (0, EXCHANGE_TYPE_UNDEFINED, []))"
    proof (cases "tr_reset r")
      case None
      then show ?thesis by (simp add: this1_def apply_result_flight flight_simps)
    next
      case (Some ids)
      then have "fst ids = 0" using assms(1) unfolding processes_settle_def r_def by (metis (mono_tags, lifting) case_prod_beta option.case(2))
      then show ?thesis using Some apply_reset_flight[of r "snd ids"] by (cases ids) (simp add: this1_def)
    qed
    have rec: "?case" if "run_tasks ee TASK_QUEUE_ACTIVE (\<lambda>_. Some (op_process ee)) after_process ok' past' ts this1 m ev1 =
        (e, this', msg', ev')" "tr_reset r = None" for ok' past' m ev1
      using Cons.IH[OF that(1)] f that(2) by simp
    show ?case
    proof (cases "tr_reset r = None")
      case True
      then show ?thesis using prems rec f by (cases "after_process (tr_status r)") (auto simp: flight_simps split: if_splits)
    next
      case False
      then show ?thesis using prems f by (cases "after_process (tr_status r)") auto
    qed
  qed
  then show "flight this' = flight this \<or> (\<forall>ok. e \<noteq> Finished ok) \<and> flight this' = (0, EXCHANGE_TYPE_UNDEFINED, [])"
    "e = Was_Reset ok' \<Longrightarrow> flight this' = (0, EXCHANGE_TYPE_UNDEFINED, [])" by blast+
qed

lemma stats_flight [flight_simps]: "flight (note_selective_support (response_stats this msg) msg) = flight this"
  by (simp add: note_selective_support_def response_stats_def print_intermediate_transmission_stats_def
      update_response_transmission_stats_def Let_def flight_def split: option.split)

lemma complete_exchange_flight:
  "flight (complete_exchange this) = (initiating_mid this + 1, EXCHANGE_TYPE_UNDEFINED, [])"
  by (simp add: complete_exchange_def clear_packets_def flight_def)

text \<open>The next exchange after a response: the message ID stays or starts over.\<close>

lemma initiate_next:
  assumes "builds_settle ee" "flight this = (mid, EXCHANGE_TYPE_UNDEFINED, [])"
  shows "\<exists>st this' ev'. resume ev (initiate ee this) = Some (st, this', ev') \<and> request_in_flight ee this' \<and>
    initiating_mid this' \<in> {mid, 0}"
proof -
  have "request_in_flight ee this" "initiating_mid this = mid" using assms(2) by (auto simp: request_in_flight_def flight_def)
  then show ?thesis using initiate_result[OF assms(1), of this] by (auto simp: resume_def)
qed

lemma for_tasks_flight:
  assumes "\<And>ty f t this msg. meth ty = Some f \<Longrightarrow> tr_reset (f t this msg) = None"
    and "for_tasks ee q meth decide this msg = (e, this', msg', ev)"
  shows "flight this' = flight this"
  using run_tasks_flight[of meth ee q decide True "[]" "get_tasks q this" this msg "[]"] assms by (simp add: for_tasks_def)

lemma processed_response:
  assumes "builds_settle ee" "processes_settle ee" "request_in_flight ee this"
  shows "\<exists>st this' ev. tm_process_response ee this msg = Some (st, this', ev) \<and> request_in_flight ee this' \<and>
    initiating_mid this' \<in> {initiating_mid this, initiating_mid this + 1, 0}"
proof -
  define this1 where "this1 = note_selective_support (response_stats this msg) msg"
  have f1: "flight this1 = flight this" by (simp add: this1_def flight_simps)
  have keep: "\<lbrakk>flight a = flight this \<or> flight a = (0, EXCHANGE_TYPE_UNDEFINED, [])\<rbrakk> \<Longrightarrow> request_in_flight ee a \<and>
      initiating_mid a \<in> {initiating_mid this, initiating_mid this + 1, 0}" for a
  proof (elim disjE)
    assume "flight a = flight this"
    then show ?thesis using assms(3) request_in_flight_cong[of a this ee] by (simp add: flight_def)
  qed (simp add: flight_def request_in_flight_def)
  define bad where "bad \<longleftrightarrow> exchange_type msg \<noteq> initiating_type this1 \<and>
      \<not> (exchange_type msg = INFORMATIONAL \<and> initiating_type this1 = EXCHANGE_TYPE_UNDEFINED) \<or>
    (exchange_type msg = CREATE_CHILD_SA \<or> exchange_type msg = INFORMATIONAL) \<and> get_notify msg INVALID_SYNTAX \<noteq> None"
  obtain e2 this2 msg2 ev2 where run2: "for_tasks ee TASK_QUEUE_ACTIVE (op_pre_process ee) after_pre_process this1 msg = (e2, this2, msg2, ev2)"
    by (metis prod_cases4)
  obtain e3 this3 msg3 ev3 where run3: "for_tasks ee TASK_QUEUE_ACTIVE (\<lambda>_. Some (op_process ee)) after_process this2 msg2 = (e3, this3, msg3, ev3)"
    by (metis prod_cases4)
  obtain e4 this4 msg4 ev4 where run4: "for_tasks ee TASK_QUEUE_ACTIVE (op_post_process ee) after_post_process this3 msg3 = (e4, this4, msg4, ev4)"
    by (metis prod_cases4)
  have f2: "flight this2 = flight this" using for_tasks_flight[OF _ run2] assms(2) f1 by (auto simp: processes_settle_def)
  have f3: "flight this3 = flight this \<or> (\<forall>ok. e3 \<noteq> Finished ok) \<and> flight this3 = (0, EXCHANGE_TYPE_UNDEFINED, [])"
    "\<And>ok. e3 = Was_Reset ok \<Longrightarrow> flight this3 = (0, EXCHANGE_TYPE_UNDEFINED, [])"
    using run_tasks_process[OF assms(2) run3[unfolded for_tasks_def]] f2 by auto
  have f4: "flight this4 = flight this3" using for_tasks_flight[OF _ run4] assms(2) by (auto simp: processes_settle_def)
  have ev: "resume ev' r = resume [] (resume ev' r)" for ev' r by (cases r) (auto simp: resume_def)
  consider "bad" | "\<not> bad" "\<exists>st. e2 = Left st" | "\<not> bad" "\<forall>st. e2 \<noteq> Left st" "\<exists>st. e3 = Left st"
    | ok where "\<not> bad" "\<forall>st. e2 \<noteq> Left st" "e3 = Was_Reset ok"
    | ok st where "\<not> bad" "\<forall>st. e2 \<noteq> Left st" "e3 = Finished ok" "e4 = Left st"
    | ok where "\<not> bad" "\<forall>st. e2 \<noteq> Left st" "e3 = Finished ok" "\<forall>st. e4 \<noteq> Left st"
    by (metis loop_end.exhaust)
  then show ?thesis
  proof cases
    case 1
    then have "tm_process_response ee this msg = Some (DESTROY_ME, this1, [Ike_Down])"
      by (auto simp: tm_process_response_def this1_def[symmetric] bad_def Let_def)
    then show ?thesis using keep[of this1] f1 by auto
  next
    case 2
    then show ?thesis using keep[of this2] f2
      by (auto simp: tm_process_response_def this1_def[symmetric] bad_def Let_def run2)
  next
    case 3
    then show ?thesis using keep[of this3] f3(1)
      by (cases e2) (auto simp: tm_process_response_def this1_def[symmetric] bad_def Let_def run2 run3)
  next
    case 4
    then obtain ev where "tm_process_response ee this msg = resume ev (initiate ee this3)"
      by (cases e2) (auto simp: tm_process_response_def this1_def[symmetric] bad_def Let_def run2 run3)
    then show ?thesis using initiate_next[OF assms(1) f3(2)[OF 4(3)], of ev] by auto
  next
    case 5
    then show ?thesis using keep[of this4] f3(1) f4
      by (cases e2) (auto simp: tm_process_response_def this1_def[symmetric] bad_def Let_def run2 run3 run4)
  next
    case 6
    then obtain ev where eq: "tm_process_response ee this msg = resume ev (initiate ee (complete_exchange this4))"
      by (cases e2; cases e4) (auto simp: tm_process_response_def this1_def[symmetric] bad_def Let_def run2 run3 run4)
    have "flight this4 = flight this" using 6(3) f3(1) f4 by auto
    then have "initiating_mid this4 = initiating_mid this" by (simp add: flight_def)
    then show ?thesis using initiate_next[OF assms(1) complete_exchange_flight, of ev this4] eq by auto
  qed
qed


section \<open>An example\<close>

text \<open>
  Tasks that delete a CHILD_SA withdraw the exchange, others need the response, which completes them.
\<close>

definition sample_result :: "task_t \<Rightarrow> private_task_manager_t \<Rightarrow> private_message_t \<Rightarrow> status_t \<Rightarrow> task_result" where
  "sample_result t this msg st = \<lparr>tr_status = st, tr_task = t, tr_sa = ike_sa this, tr_queued = queued_tasks this,
     tr_reset = None, tr_message = msg, tr_events = []\<rparr>"

definition sample_exch :: exch_env where
  "sample_exch =
     \<lparr>rx = sample_rx SUCCESS,
      te = \<lparr>create_task = (\<lambda>ty i. \<lparr>task_type = ty, task_ident = 0, task_check = False\<rparr>), migrate_task = (\<lambda>t. t),
            use_mobike = False, cond_original_initiator = True\<rparr>,
      op_build = (\<lambda>t this msg. if task_type t = TASK_CHILD_DELETE
                    then sample_result t this (msg\<lparr>exchange_type := EXCHANGE_TYPE_UNDEFINED\<rparr>) SUCCESS
                    else sample_result t this msg NEED_MORE),
      op_process = (\<lambda>t this msg. sample_result t this msg SUCCESS),
      op_pre_process = (\<lambda>ty. None), op_post_process = (\<lambda>ty. None), op_post_build = (\<lambda>ty. None),
      op_collide = (\<lambda>a t. (False, a)),
      gen_fragmented = (\<lambda>z this msg. Some [\<lparr>source = None, destination = None, pkt_data = Some [1, 2]\<rparr>])\<rparr>"

lemma sample_exch_settles: "builds_settle sample_exch" "processes_settle sample_exch"
  by (simp_all add: builds_settle_def processes_settle_def sample_exch_def sample_result_def Let_def)

definition sample_busy :: private_task_manager_t where
  "sample_busy = (task_manager_v2_create (sample_sa IKE_ESTABLISHED) 5 True)
     \<lparr>queued_tasks := [\<lparr>q_task = \<lparr>task_type = TASK_CHILD_DELETE, task_ident = 1, task_check = False\<rparr>, q_time = 0\<rparr>,
                       \<lparr>q_task = \<lparr>task_type = TASK_IKE_DPD, task_ident = 2, task_check = False\<rparr>, q_time = 0\<rparr>]\<rparr>"

lemma sample_busy_idle: "request_in_flight sample_exch sample_busy" "initiating_type sample_busy = EXCHANGE_TYPE_UNDEFINED"
  "initiating_mid sample_busy = 0"
  by (simp_all add: request_in_flight_def sample_busy_def task_manager_v2_create_def)



section \<open>Acknowledgements and message IDs\<close>

text \<open>
  Fragment acknowledgements are INFORMATIONAL requests with message ID 0. The first one an initiator receives while
  it connects is processed like any request: a DPD task answers it and the expected message ID becomes 1. When the
  peer later sends its first own request, which has message ID 0, it counts as unexpected and is ignored.
\<close>

definition ack_parser :: "private_message_t \<Rightarrow> status_t \<times> private_message_t" where
  "ack_parser m = (SUCCESS, if packet_bytes m = [1] then add_notify m False FRAGMENT_ACK (replicate 24 0) else m)"

definition ack_exch :: exch_env where
  "ack_exch = sample_exch\<lparr>rx := (sample_rx SUCCESS)\<lparr>parse_body := ack_parser\<rparr>\<rparr>"

definition ack_env :: rx_env where
  "ack_env = (rx ack_exch)\<lparr>process_request := tm_process_request ack_exch\<rparr>"

definition peer_request :: "bytes \<Rightarrow> private_message_t" where
  "peer_request d = (message_create 2 0)\<lparr>exchange_type := INFORMATIONAL, message_id := 0,
     packet := \<lparr>source = Some (sample_host 2), destination = Some (sample_host 1), pkt_data = Some d\<rparr>\<rparr>"

definition after_ack :: private_task_manager_t where
  "after_ack = fst (snd (process_message ack_env False
     (task_manager_v2_create (sample_sa IKE_CONNECTING) 5 True) (peer_request [1])))"

lemma fragment_ack_uses_up_message_id: "responding_mid after_ack = 1"
  by code_simp

lemma first_peer_request_unexpected:
  "is_retransmit ack_env after_ack (peer_request [2]) = INVALID_ARG"
  by code_simp

end
