(* ===== verification/Bio.thy ===== *)
theory Bio
  imports Dynamic_Array
begin

text \<open>
  The byte writer and reader of \<^verbatim>\<open>src/src/libstrongswan/bio\<close>, with which protocol data is composed
  and taken apart. The writer keeps an allocated buffer and the number of bytes used; as for arrays,
  a write outside of the buffer would make an operation return \<open>None\<close>. The reader keeps the remaining
  data. Integers are in network byte order (\<^verbatim>\<open>byteorder.h\<close>).
\<close>

section \<open>Network byte order\<close>

text \<open>The \<open>n\<close> low bytes of a number, most significant first, and back.\<close>

fun be_encode :: "nat \<Rightarrow> nat \<Rightarrow> bytes" where
  "be_encode 0 v = []"
| "be_encode (Suc n) v = be_encode n (v div 256) @ [of_nat v]"

definition be_decode :: "bytes \<Rightarrow> nat" where
  "be_decode bs = foldl (\<lambda>acc b. acc * 256 + unat b) 0 bs"

section \<open>Writer\<close>

record bio_writer_t =
  w_buf :: "u8 option list"
  w_used :: nat
  w_increase :: nat

definition bio_writer_create :: "u32 \<Rightarrow> bio_writer_t" where
  "bio_writer_create bufsize =
     \<lparr>w_buf = replicate (unat bufsize) None, w_used = 0,
      w_increase = (if bufsize \<noteq> 0 then max (unat bufsize) 4 else 32)\<rparr>"

text \<open>
  The loop of \<^verbatim>\<open>increase\<close>. The increment of a writer is never 0, which would make the C loop
  run for ever.
\<close>

function grow :: "nat \<Rightarrow> nat \<Rightarrow> nat \<Rightarrow> nat" where
  "grow inc target len = (if len < target \<and> 0 < inc then grow inc target (len + inc) else len)"
  by pat_completeness auto
termination
  by (relation "measure (\<lambda>(inc, target, len). target - len)") auto

declare grow.simps [simp del]

definition increase :: "bio_writer_t \<Rightarrow> nat \<Rightarrow> bio_writer_t" where
  "increase w required =
     (if w_used w + required > length (w_buf w)
      then w\<lparr>w_buf := realloc (w_buf w) (grow (w_increase w) (w_used w + required) (length (w_buf w)))\<rparr>
      else w)"

text \<open>Copying bytes to a position of the buffer.\<close>

definition store :: "u8 option list \<Rightarrow> nat \<Rightarrow> bytes \<Rightarrow> u8 option list option" where
  "store b pos bs =
     (if pos + length bs \<le> length b
      then Some (take pos b @ map Some bs @ drop (pos + length bs) b) else None)"

definition write_bytes :: "bio_writer_t \<Rightarrow> bytes \<Rightarrow> bio_writer_t option" where
  "write_bytes w bs =
     (let w = increase w (length bs)
      in do { b \<leftarrow> store (w_buf w) (w_used w) bs;
              Some (w\<lparr>w_buf := b, w_used := w_used w + length bs\<rparr>) })"

definition write_uint8 :: "bio_writer_t \<Rightarrow> u8 \<Rightarrow> bio_writer_t option" where
  "write_uint8 w v = write_bytes w [v]"

definition write_uint16 :: "bio_writer_t \<Rightarrow> u16 \<Rightarrow> bio_writer_t option" where
  "write_uint16 w v = write_bytes w (be_encode 2 (unat v))"

definition write_uint24 :: "bio_writer_t \<Rightarrow> u32 \<Rightarrow> bio_writer_t option" where
  "write_uint24 w v = write_bytes w (be_encode 3 (unat v))"

definition write_uint32 :: "bio_writer_t \<Rightarrow> u32 \<Rightarrow> bio_writer_t option" where
  "write_uint32 w v = write_bytes w (be_encode 4 (unat v))"

definition write_uint64 :: "bio_writer_t \<Rightarrow> u64 \<Rightarrow> bio_writer_t option" where
  "write_uint64 w v = write_bytes w (be_encode 8 (unat v))"

definition write_data :: "bio_writer_t \<Rightarrow> bytes \<Rightarrow> bio_writer_t option" where
  "write_data w v = write_bytes w v"

definition write_data8 :: "bio_writer_t \<Rightarrow> bytes \<Rightarrow> bio_writer_t option" where
  "write_data8 w v =
     do { w \<leftarrow> write_uint8 (increase w (1 + length v)) (of_nat (length v)); write_data w v }"

definition write_data16 :: "bio_writer_t \<Rightarrow> bytes \<Rightarrow> bio_writer_t option" where
  "write_data16 w v =
     do { w \<leftarrow> write_uint16 (increase w (2 + length v)) (of_nat (length v)); write_data w v }"

definition write_data24 :: "bio_writer_t \<Rightarrow> bytes \<Rightarrow> bio_writer_t option" where
  "write_data24 w v =
     do { w \<leftarrow> write_uint24 (increase w (3 + length v)) (of_nat (length v)); write_data w v }"

definition write_data32 :: "bio_writer_t \<Rightarrow> bytes \<Rightarrow> bio_writer_t option" where
  "write_data32 w v =
     do { w \<leftarrow> write_uint32 (increase w (4 + length v)) (of_nat (length v)); write_data w v }"

text \<open>The \<^verbatim>\<open>wrap\<close> functions: a length field of \<open>n\<close> bytes in front of everything written so far.\<close>

definition wrap :: "nat \<Rightarrow> bio_writer_t \<Rightarrow> bio_writer_t option" where
  "wrap n w =
     (let w = increase w n
      in do { b \<leftarrow> memmove (w_buf w) n 0 (w_used w);
              b \<leftarrow> store b 0 (be_encode n (w_used w));
              Some (w\<lparr>w_buf := b, w_used := w_used w + n\<rparr>) })"

definition skip :: "bio_writer_t \<Rightarrow> nat \<Rightarrow> bio_writer_t" where
  "skip w len = (let w = increase w len in w\<lparr>w_used := w_used w + len\<rparr>)"

definition get_buf :: "bio_writer_t \<Rightarrow> u8 option list" where
  "get_buf w = take (w_used w) (w_buf w)"

definition extract_buf :: "bio_writer_t \<Rightarrow> u8 option list \<times> bio_writer_t" where
  "extract_buf w = (get_buf w, w\<lparr>w_buf := [], w_used := 0\<rparr>)"

section \<open>Reader\<close>

definition chunk_skip_end :: "bytes \<Rightarrow> nat \<Rightarrow> bool \<Rightarrow> bytes" where
  "chunk_skip_end c n from_end =
     (if length c > n then (if from_end then take (length c - n) c else drop n c) else [])"

definition get_ptr_end :: "bytes \<Rightarrow> nat \<Rightarrow> bool \<Rightarrow> bytes" where
  "get_ptr_end buf len from_end = (if from_end then drop (length buf - len) buf else buf)"

text \<open>Reading returns the value and the remaining data, or \<open>None\<close> for the return value FALSE.\<close>

definition read_data_internal :: "bytes \<Rightarrow> nat \<Rightarrow> bool \<Rightarrow> (bytes \<times> bytes) option" where
  "read_data_internal buf len from_end =
     (if length buf < len then None
      else Some (take len (get_ptr_end buf len from_end), chunk_skip_end buf len from_end))"

definition read_uint8_internal :: "bytes \<Rightarrow> bool \<Rightarrow> (u8 \<times> bytes) option" where
  "read_uint8_internal buf from_end =
     (if length buf < 1 then None
      else Some (hd (get_ptr_end buf 1 from_end), chunk_skip_end buf 1 from_end))"

definition read_uint16_internal :: "bytes \<Rightarrow> bool \<Rightarrow> (u16 \<times> bytes) option" where
  "read_uint16_internal buf from_end =
     (if length buf < 2 then None
      else Some (of_nat (be_decode (take 2 (get_ptr_end buf 2 from_end))), chunk_skip_end buf 2 from_end))"

definition read_uint24_internal :: "bytes \<Rightarrow> bool \<Rightarrow> (u32 \<times> bytes) option" where
  "read_uint24_internal buf from_end =
     (if length buf < 3 then None
      else Some (of_nat (be_decode (take 3 (get_ptr_end buf 3 from_end))), chunk_skip_end buf 3 from_end))"

definition read_uint32_internal :: "bytes \<Rightarrow> bool \<Rightarrow> (u32 \<times> bytes) option" where
  "read_uint32_internal buf from_end =
     (if length buf < 4 then None
      else Some (of_nat (be_decode (take 4 (get_ptr_end buf 4 from_end))), chunk_skip_end buf 4 from_end))"

definition read_uint64_internal :: "bytes \<Rightarrow> bool \<Rightarrow> (u64 \<times> bytes) option" where
  "read_uint64_internal buf from_end =
     (if length buf < 8 then None
      else Some (of_nat (be_decode (take 8 (get_ptr_end buf 8 from_end))), chunk_skip_end buf 8 from_end))"

definition read_data8 :: "bytes \<Rightarrow> (bytes \<times> bytes) option" where
  "read_data8 buf =
     do { (len, buf) \<leftarrow> read_uint8_internal buf False; read_data_internal buf (unat len) False }"

definition read_data16 :: "bytes \<Rightarrow> (bytes \<times> bytes) option" where
  "read_data16 buf =
     do { (len, buf) \<leftarrow> read_uint16_internal buf False; read_data_internal buf (unat len) False }"

definition read_data24 :: "bytes \<Rightarrow> (bytes \<times> bytes) option" where
  "read_data24 buf =
     do { (len, buf) \<leftarrow> read_uint24_internal buf False; read_data_internal buf (unat len) False }"

definition read_data32 :: "bytes \<Rightarrow> (bytes \<times> bytes) option" where
  "read_data32 buf =
     do { (len, buf) \<leftarrow> read_uint32_internal buf False; read_data_internal buf (unat len) False }"

section \<open>Encodings\<close>

lemma length_be_encode [codec_simps, simp]: "length (be_encode n v) = n"
  by (induction n arbitrary: v) simp_all

lemma be_decode_snoc: "be_decode (bs @ [b]) = be_decode bs * 256 + unat b"
  by (simp add: be_decode_def)

lemma be_decode_encode [codec_simps]: "be_decode (be_encode n v) = v mod 256 ^ n"
proof (induction n arbitrary: v)
  case 0
  then show ?case by (simp add: be_decode_def)
next
  case (Suc n)
  have "unat (of_nat v :: u8) = v mod 256" by (simp add: unsigned_of_nat take_bit_nat_def)
  then show ?case using Suc mod_mult2_eq [of v 256 "256 ^ n"] by (simp add: be_decode_snoc)
qed

section \<open>The writer stays inside its buffer\<close>

definition writer_ok :: "bio_writer_t \<Rightarrow> bool" where
  "writer_ok w \<longleftrightarrow> w_used w \<le> length (w_buf w) \<and> 0 < w_increase w"

lemma grow_bounds: "0 < inc \<Longrightarrow> target \<le> grow inc target len \<and> len \<le> grow inc target len"
proof (induction inc target len rule: grow.induct)
  case (1 inc target len)
  then show ?case by (subst (1 2) grow.simps) auto
qed

lemma increase_ok:
  assumes "writer_ok w"
  shows "writer_ok (increase w n)" "w_used (increase w n) = w_used w" "get_buf (increase w n) = get_buf w"
    "w_used w + n \<le> length (w_buf (increase w n))"
  using assms grow_bounds [of "w_increase w" "w_used w + n" "length (w_buf w)"]
  by (auto simp: writer_ok_def increase_def realloc_def get_buf_def)

lemma write_bytes_ok:
  assumes "writer_ok w"
  shows "\<exists>w'. write_bytes w bs = Some w' \<and> writer_ok w' \<and> get_buf w' = get_buf w @ map Some bs"
proof -
  let ?w = "increase w (length bs)"
  note i = increase_ok [OF assms, of "length bs"]
  let ?b = "take (w_used w) (w_buf ?w) @ map Some bs @ drop (w_used w + length bs) (w_buf ?w)"
  let ?v = "?w\<lparr>w_buf := ?b, w_used := w_used w + length bs\<rparr>"
  have "write_bytes w bs = Some ?v"
    using i by (simp add: write_bytes_def store_def Let_def)
  moreover have "writer_ok ?v" using i(1,4) by (auto simp: writer_ok_def)
  moreover have "get_buf ?v = get_buf w @ map Some bs"
    using i assms unfolding writer_ok_def by (simp add: get_buf_def flip: i(3))
  ultimately show ?thesis by blast
qed

lemma wrap_ok:
  assumes "writer_ok w"
  shows "\<exists>w'. wrap n w = Some w' \<and> writer_ok w' \<and> get_buf w' = map Some (be_encode n (w_used w)) @ get_buf w"
proof -
  let ?w = "increase w n"
  note i = increase_ok [OF assms, of n]
  let ?b = "take n (w_buf ?w) @ take (w_used w) (w_buf ?w) @ drop (n + w_used w) (w_buf ?w)"
  have mm: "memmove (w_buf ?w) n 0 (w_used w) = Some ?b" using i by (simp add: memmove_def add.commute)
  have len: "n \<le> length ?b" using i by simp
  let ?v = "?w\<lparr>w_buf := map Some (be_encode n (w_used w)) @ drop n ?b, w_used := w_used w + n\<rparr>"
  have "wrap n w = Some ?v"
    unfolding wrap_def Let_def i(2) mm Option.bind.simps using len by (simp add: store_def)
  moreover have "writer_ok ?v" using i(1,4) by (auto simp: writer_ok_def)
  moreover have "get_buf ?v = map Some (be_encode n (w_used w)) @ get_buf w"
    using i assms unfolding writer_ok_def by (simp add: get_buf_def flip: i(3))
  ultimately show ?thesis by blast
qed

lemma writer_create_ok: "writer_ok (bio_writer_create n)" "get_buf (bio_writer_create n) = []"
  by (simp_all add: writer_ok_def bio_writer_create_def get_buf_def less_max_iff_disj)

section \<open>Reading what was written\<close>

lemma skip_front: "length bs = n \<Longrightarrow> chunk_skip_end (bs @ rest) n False = rest"
  by (cases rest) (simp_all add: chunk_skip_end_def)

lemma skip_back: "length bs = n \<Longrightarrow> chunk_skip_end (rest @ bs) n True = rest"
  by (cases rest) (simp_all add: chunk_skip_end_def)

lemma read_front [codec_simps]:
  "read_uint8_internal (b # rest) False = Some (b, rest)"
  "read_uint16_internal (be_encode 2 v @ rest) False = Some (of_nat (v mod 256 ^ 2), rest)"
  "read_uint24_internal (be_encode 3 v @ rest) False = Some (of_nat (v mod 256 ^ 3), rest)"
  "read_uint32_internal (be_encode 4 v @ rest) False = Some (of_nat (v mod 256 ^ 4), rest)"
  "read_uint64_internal (be_encode 8 v @ rest) False = Some (of_nat (v mod 256 ^ 8), rest)"
  using skip_front [of "[b]" 1 rest]
  by (simp_all add: read_uint8_internal_def read_uint16_internal_def read_uint24_internal_def
      read_uint32_internal_def read_uint64_internal_def get_ptr_end_def skip_front be_decode_encode
      del: power_numeral)

lemma read_back [codec_simps]:
  "read_uint8_internal (rest @ [b]) True = Some (b, rest)"
  "read_uint16_internal (rest @ be_encode 2 v) True = Some (of_nat (v mod 256 ^ 2), rest)"
  "read_uint24_internal (rest @ be_encode 3 v) True = Some (of_nat (v mod 256 ^ 3), rest)"
  "read_uint32_internal (rest @ be_encode 4 v) True = Some (of_nat (v mod 256 ^ 4), rest)"
  "read_uint64_internal (rest @ be_encode 8 v) True = Some (of_nat (v mod 256 ^ 8), rest)"
  using skip_back [of "[b]" 1 rest]
  by (simp_all add: read_uint8_internal_def read_uint16_internal_def read_uint24_internal_def
      read_uint32_internal_def read_uint64_internal_def get_ptr_end_def skip_back be_decode_encode
      del: power_numeral)

lemma read_data_front [codec_simps]: "read_data_internal (bs @ rest) (length bs) False = Some (bs, rest)"
  by (simp add: read_data_internal_def get_ptr_end_def skip_front)

lemma unat_mod_self [codec_simps]:
  "(of_nat (unat (a :: u16) mod 256 ^ 2) :: u16) = a"
  "(of_nat (unat (c :: u32) mod 256 ^ 4) :: u32) = c"
  "(of_nat (unat (d :: u64) mod 256 ^ 8) :: u64) = d"
  using unsigned_less [of a, where 'a = nat] unsigned_less [of c, where 'a = nat] unsigned_less [of d, where 'a = nat]
  by simp_all

section \<open>Sequences of fields\<close>

datatype kind = K8 | K16 | K24 | K32 | K64 | KD8 | KD16 | KD24 | KD32

datatype field =
    F8 u8 | F16 u16 | F24 u32 | F32 u32 | F64 u64
  | FD8 bytes | FD16 bytes | FD24 bytes | FD32 bytes

fun kind_of :: "field \<Rightarrow> kind" where
  "kind_of (F8 v) = K8" | "kind_of (F16 v) = K16" | "kind_of (F24 v) = K24" | "kind_of (F32 v) = K32"
| "kind_of (F64 v) = K64" | "kind_of (FD8 v) = KD8" | "kind_of (FD16 v) = KD16"
| "kind_of (FD24 v) = KD24" | "kind_of (FD32 v) = KD32"

text \<open>Values that fit their field: 24-bit integers and data whose length fits the length field.\<close>

fun fits :: "field \<Rightarrow> bool" where
  "fits (F24 v) = (unat v < 256 ^ 3)" | "fits (FD8 v) = (length v < 256)"
| "fits (FD16 v) = (length v < 256 ^ 2)" | "fits (FD24 v) = (length v < 256 ^ 3)"
| "fits (FD32 v) = (length v < 256 ^ 4)" | "fits _ = True"

fun write_field :: "bio_writer_t \<Rightarrow> field \<Rightarrow> bio_writer_t option" where
  "write_field w (F8 v) = write_uint8 w v" | "write_field w (F16 v) = write_uint16 w v"
| "write_field w (F24 v) = write_uint24 w v" | "write_field w (F32 v) = write_uint32 w v"
| "write_field w (F64 v) = write_uint64 w v" | "write_field w (FD8 v) = write_data8 w v"
| "write_field w (FD16 v) = write_data16 w v" | "write_field w (FD24 v) = write_data24 w v"
| "write_field w (FD32 v) = write_data32 w v"

fun read_field :: "kind \<Rightarrow> bytes \<Rightarrow> (field \<times> bytes) option" where
  "read_field K8 b = map_option (map_prod F8 id) (read_uint8_internal b False)"
| "read_field K16 b = map_option (map_prod F16 id) (read_uint16_internal b False)"
| "read_field K24 b = map_option (map_prod F24 id) (read_uint24_internal b False)"
| "read_field K32 b = map_option (map_prod F32 id) (read_uint32_internal b False)"
| "read_field K64 b = map_option (map_prod F64 id) (read_uint64_internal b False)"
| "read_field KD8 b = map_option (map_prod FD8 id) (read_data8 b)"
| "read_field KD16 b = map_option (map_prod FD16 id) (read_data16 b)"
| "read_field KD24 b = map_option (map_prod FD24 id) (read_data24 b)"
| "read_field KD32 b = map_option (map_prod FD32 id) (read_data32 b)"

fun field_bytes :: "field \<Rightarrow> bytes" where
  "field_bytes (F8 v) = [v]" | "field_bytes (F16 v) = be_encode 2 (unat v)"
| "field_bytes (F24 v) = be_encode 3 (unat v)" | "field_bytes (F32 v) = be_encode 4 (unat v)"
| "field_bytes (F64 v) = be_encode 8 (unat v)" | "field_bytes (FD8 v) = of_nat (length v) # v"
| "field_bytes (FD16 v) = be_encode 2 (unat (of_nat (length v) :: u16)) @ v"
| "field_bytes (FD24 v) = be_encode 3 (unat (of_nat (length v) :: u32)) @ v"
| "field_bytes (FD32 v) = be_encode 4 (unat (of_nat (length v) :: u32)) @ v"

text \<open>The contract of an encoder and a decoder of self-delimiting fields.\<close>

fun decode_all :: "('k \<Rightarrow> bytes \<Rightarrow> ('v \<times> bytes) option) \<Rightarrow> 'k list \<Rightarrow> bytes \<Rightarrow> ('v list \<times> bytes) option" where
  "decode_all dec [] b = Some ([], b)"
| "decode_all dec (k # ks) b =
     do { (v, b) \<leftarrow> dec k b; (vs, b) \<leftarrow> decode_all dec ks b; Some (v # vs, b) }"

locale field_codec =
  fixes valid :: "'v \<Rightarrow> bool"
    and kind :: "'v \<Rightarrow> 'k"
    and enc :: "'v \<Rightarrow> bytes"
    and dec :: "'k \<Rightarrow> bytes \<Rightarrow> ('v \<times> bytes) option"
  assumes dec_enc: "valid v \<Longrightarrow> dec (kind v) (enc v @ rest) = Some (v, rest)"
begin

lemma decode_all_enc:
  "\<forall>v\<in>set vs. valid v \<Longrightarrow> decode_all dec (map kind vs) (concat (map enc vs) @ rest) = Some (vs, rest)"
  by (induction vs) (simp_all add: dec_enc)

lemma enc_injective:
  assumes "valid v" "valid v'" "kind v = kind v'" "enc v @ rest = enc v' @ rest'"
  shows "v = v' \<and> rest = rest'"
proof -
  have "Some (v, rest) = Some (v', rest')"
    using dec_enc [OF assms(1), of rest] dec_enc [OF assms(2), of rest'] unfolding assms(3,4) by metis
  then show ?thesis by simp
qed

end

lemma unat_of_nat_u32: "n < 256 ^ 4 \<Longrightarrow> unat (of_nat n :: u32) = n"
  by (simp add: unsigned_of_nat take_bit_nat_eq_self_iff)

lemma length_field [codec_simps]:
  "n < 256 \<Longrightarrow> unat (of_nat n :: u8) = n"
  "n < 256 ^ 2 \<Longrightarrow> unat (of_nat (unat (of_nat n :: u16) mod 256 ^ 2) :: u16) = n"
  "n < 256 ^ 3 \<Longrightarrow> unat (of_nat (unat (of_nat n :: u32) mod 256 ^ 3) :: u32) = n"
  "n < 256 ^ 4 \<Longrightarrow> unat (of_nat (unat (of_nat n :: u32) mod 256 ^ 4) :: u32) = n"
  by (simp_all add: unat_of_nat_u32 unat_of_nat_u16 unsigned_of_nat take_bit_nat_eq_self)

lemma read_data_written:
  "length v < 256 \<Longrightarrow> read_data8 (of_nat (length v) # v @ rest) = Some (v, rest)"
  "length v < 256 ^ 2 \<Longrightarrow> read_data16 (be_encode 2 (unat (of_nat (length v) :: u16)) @ v @ rest) = Some (v, rest)"
  "length v < 256 ^ 3 \<Longrightarrow> read_data24 (be_encode 3 (unat (of_nat (length v) :: u32)) @ v @ rest) = Some (v, rest)"
  "length v < 256 ^ 4 \<Longrightarrow> read_data32 (be_encode 4 (unat (of_nat (length v) :: u32)) @ v @ rest) = Some (v, rest)"
  by (simp_all only: read_data8_def read_data16_def read_data24_def read_data32_def read_front
      Option.bind.simps prod.case length_field read_data_front)

lemma u24_value: "unat (v :: u32) < 256 ^ 3 \<Longrightarrow> (of_nat (unat v mod 256 ^ 3) :: u32) = v"
  by simp

interpretation field: field_codec fits kind_of field_bytes read_field
proof
  fix v rest
  assume fits: "fits v"
  show "read_field (kind_of v) (field_bytes v @ rest) = Some (v, rest)"
  proof (cases v)
    case (F24 x)
    then have "unat x < 256 ^ 3" using fits by (simp only: fits.simps)
    then show ?thesis unfolding F24 field_bytes.simps kind_of.simps read_field.simps read_front
      by (simp only: u24_value option.map map_prod_simp id_apply)
  qed (use fits in \<open>simp_all only: fits.simps field_bytes.simps kind_of.simps read_field.simps read_front
        read_data_written unat_mod_self option.map map_prod_simp id_apply append_Cons append_Nil append_assoc\<close>)
qed

section \<open>Properties\<close>

lemma write_field_ok:
  assumes "writer_ok w"
  shows "\<exists>w'. write_field w f = Some w' \<and> writer_ok w' \<and> get_buf w' = get_buf w @ map Some (field_bytes f)"
proof -
  have data: "\<exists>w'. do { w \<leftarrow> write_bytes (increase w n) as; write_data w bs } = Some w' \<and> writer_ok w' \<and>
      get_buf w' = get_buf w @ map Some (as @ bs)" for n as bs
  proof -
    obtain w1 where "write_bytes (increase w n) as = Some w1" "writer_ok w1" "get_buf w1 = get_buf w @ map Some as"
      using write_bytes_ok [OF increase_ok(1) [OF assms]] increase_ok(3) [OF assms] by metis
    then show ?thesis using write_bytes_ok [of w1 bs] by (simp add: write_data_def)
  qed
  show ?thesis
  proof (cases f)
    case (F8 x)
    then show ?thesis using write_bytes_ok [OF assms, of "[x]"] by (simp add: write_uint8_def)
  next
    case (FD8 x)
    then show ?thesis
      using data [of "Suc (length x)" "[of_nat (length x)]" x] by (simp add: write_data8_def write_uint8_def)
  qed (use write_bytes_ok [OF assms] data in \<open>simp_all add: write_uint8_def write_uint16_def write_uint24_def write_uint32_def
        write_uint64_def write_data8_def write_data16_def write_data24_def write_data32_def del: map_append\<close>)
qed

fun write_fields :: "bio_writer_t \<Rightarrow> field list \<Rightarrow> bio_writer_t option" where
  "write_fields w [] = Some w"
| "write_fields w (f # fs) = do { w \<leftarrow> write_field w f; write_fields w fs }"

lemma write_fields_ok:
  "writer_ok w \<Longrightarrow> \<exists>w'. write_fields w fs = Some w' \<and> writer_ok w' \<and>
     get_buf w' = get_buf w @ map Some (concat (map field_bytes fs))"
proof (induction fs arbitrary: w)
  case (Cons f fs)
  obtain w1 where "write_field w f = Some w1" "writer_ok w1" "get_buf w1 = get_buf w @ map Some (field_bytes f)"
    using write_field_ok [OF Cons.prems] by blast
  then show ?case using Cons.IH [of w1] by simp
qed simp

text \<open>
  C32. Writing and reading are inverse: any sequence of integers and length-prefixed data that fit their
  fields, written to a new writer of any initial size, never leaves the allocated buffer and is read
  back field by field, leaving exactly the data that follows.
\<close>

theorem bio_roundtrip:
  assumes "\<forall>f\<in>set fs. fits f"
  shows "\<exists>w bs. write_fields (bio_writer_create n) fs = Some w \<and> get_buf w = map Some bs \<and>
    decode_all read_field (map kind_of fs) (bs @ rest) = Some (fs, rest)"
  using write_fields_ok [OF writer_create_ok(1) [of n], of fs] field.decode_all_enc [OF assms, of rest]
  by (auto simp: writer_create_ok(2))

theorem bio_roundtrip_witness:
  "\<exists>w bs. write_fields (bio_writer_create 0) [F16 1000, FD8 [1, 2]] = Some w \<and> get_buf w = map Some bs \<and>
    decode_all read_field [K16, KD8] (bs @ [7]) = Some ([F16 1000, FD8 [1, 2]], [7])"
  using bio_roundtrip [of "[F16 1000, FD8 [1, 2]]" 0 "[7]"] by simp

text \<open>
  Wrapping prefixes everything written so far with its length: after \<^verbatim>\<open>wrap8\<close>, \<^verbatim>\<open>wrap16\<close>,
  \<^verbatim>\<open>wrap24\<close> or \<^verbatim>\<open>wrap32\<close> the buffer holds the length in network byte order, modulo the size of the
  field, followed by the previous contents, and \<^verbatim>\<open>read_data16\<close> returns them if they fit.
\<close>

lemma bio_wrap_prefixes_length:
  assumes "writer_ok w" "get_buf w = map Some bs"
  shows "\<exists>w'. wrap n w = Some w' \<and> writer_ok w' \<and> get_buf w' = map Some (be_encode n (length bs) @ bs) \<and>
    (n = 2 \<and> length bs < 256 ^ 2 \<longrightarrow> read_data16 (be_encode n (length bs) @ bs @ rest) = Some (bs, rest))"
proof -
  have "length (get_buf w) = length bs" using assms(2) by simp
  then have used: "w_used w = length bs" using assms(1) by (simp add: get_buf_def writer_ok_def)
  have "length bs < 256 ^ 2 \<Longrightarrow> unat (of_nat (length bs) :: u16) = length bs"
    by (simp add: unat_of_nat_u16)
  then show ?thesis
    using wrap_ok [OF assms(1), of n] read_data_written(2) [of bs rest] by (auto simp: used assms(2))
qed

lemma bio_wrap_prefixes_length_witness:
  "\<exists>w'. wrap 2 (bio_writer_create 0) = Some w' \<and> get_buf w' = map Some (be_encode 2 (length ([] :: bytes)) @ [])"
  using bio_wrap_prefixes_length [OF writer_create_ok(1) [of 0], of "[]" 2 "[]"] writer_create_ok(2) [of 0] by auto

end
