(* ===== verification/Host.thy ===== *)
theory Host
  imports Bio
begin

text \<open>
  Host objects, \<^verbatim>\<open>src/src/libstrongswan/networking/host.c\<close>: an address of a family with a port. The
  socket address structure is represented by the family, the address bytes in network order and the
  port. Parsing and printing of addresses as text belongs to the C library and is not modelled.
\<close>

datatype family = AF_UNSPEC | AF_INET | AF_INET6 | AF_OTHER

record host_t =
  h_family :: family
  h_bytes :: bytes
  h_port :: u16

abbreviation (input) IPV4_LEN :: nat where "IPV4_LEN \<equiv> 4"
abbreviation (input) IPV6_LEN :: nat where "IPV6_LEN \<equiv> 16"

definition is_anyaddr :: "host_t \<Rightarrow> bool" where
  "is_anyaddr this =
     (case h_family this of
        AF_INET \<Rightarrow> take IPV4_LEN (h_bytes this) = replicate IPV4_LEN 0
      | AF_INET6 \<Rightarrow> take IPV6_LEN (h_bytes this) = replicate IPV6_LEN 0
      | _ \<Rightarrow> False)"

definition get_address :: "host_t \<Rightarrow> bytes" where
  "get_address this =
     (case h_family this of
        AF_INET \<Rightarrow> take IPV4_LEN (h_bytes this)
      | AF_INET6 \<Rightarrow> take IPV6_LEN (h_bytes this)
      | _ \<Rightarrow> [])"

definition get_port :: "host_t \<Rightarrow> u16" where
  "get_port this = (case h_family this of AF_INET \<Rightarrow> h_port this | AF_INET6 \<Rightarrow> h_port this | _ \<Rightarrow> 0)"

definition set_port :: "host_t \<Rightarrow> u16 \<Rightarrow> host_t" where
  "set_port this port =
     (case h_family this of
        AF_INET \<Rightarrow> this\<lparr>h_port := port\<rparr>
      | AF_INET6 \<Rightarrow> this\<lparr>h_port := port\<rparr>
      | _ \<Rightarrow> this)"

definition ip_equals :: "host_t \<Rightarrow> host_t \<Rightarrow> bool" where
  "ip_equals this other =
     (if h_family this \<noteq> h_family other then is_anyaddr this \<and> is_anyaddr other
      else case h_family this of
        AF_INET \<Rightarrow> take IPV4_LEN (h_bytes this) = take IPV4_LEN (h_bytes other)
      | AF_INET6 \<Rightarrow> take IPV6_LEN (h_bytes this) = take IPV6_LEN (h_bytes other)
      | _ \<Rightarrow> False)"

text \<open>The ports of both address structures are at one place, so they compare across families.\<close>

definition host_equals :: "host_t \<Rightarrow> host_t \<Rightarrow> bool" where
  "host_equals this other =
     (if \<not> ip_equals this other then False
      else case h_family this of
        AF_INET \<Rightarrow> h_port this = h_port other
      | AF_INET6 \<Rightarrow> h_port this = h_port other
      | _ \<Rightarrow> False)"

definition host_create_from_chunk :: "family \<Rightarrow> bytes \<Rightarrow> u16 \<Rightarrow> host_t option" where
  "host_create_from_chunk fam addr port =
     (case fam of
        AF_INET \<Rightarrow> if length addr < IPV4_LEN then None
          else Some \<lparr>h_family = AF_INET, h_bytes = take IPV4_LEN addr, h_port = port\<rparr>
      | AF_INET6 \<Rightarrow> if length addr < IPV6_LEN then None
          else Some \<lparr>h_family = AF_INET6, h_bytes = take IPV6_LEN addr, h_port = port\<rparr>
      | AF_UNSPEC \<Rightarrow>
          if length addr = IPV4_LEN then Some \<lparr>h_family = AF_INET, h_bytes = addr, h_port = port\<rparr>
          else if length addr = IPV6_LEN then Some \<lparr>h_family = AF_INET6, h_bytes = addr, h_port = port\<rparr>
          else None
      | AF_OTHER \<Rightarrow> None)"

definition host_create_any :: "family \<Rightarrow> host_t option" where
  "host_create_any fam =
     (case fam of
        AF_INET \<Rightarrow> Some \<lparr>h_family = AF_INET, h_bytes = replicate IPV4_LEN 0, h_port = 0\<rparr>
      | AF_INET6 \<Rightarrow> Some \<lparr>h_family = AF_INET6, h_bytes = replicate IPV6_LEN 0, h_port = 0\<rparr>
      | _ \<Rightarrow> None)"

text \<open>The bytes of a network mask; \<^verbatim>\<open>0xff << 8\<close> is truncated to 0.\<close>

definition netmask_bytes :: "nat \<Rightarrow> nat \<Rightarrow> bytes" where
  "netmask_bytes len netbits =
     (let nb = netbits div 8; bits = 8 - netbits mod 8
      in if nb < len
         then replicate nb 0xFF @ [push_bit bits 0xFF] @ replicate (len - nb - 1) 0
         else replicate nb 0xFF)"

definition host_create_netmask :: "family \<Rightarrow> int \<Rightarrow> host_t option" where
  "host_create_netmask fam netbits =
     (case fam of
        AF_INET \<Rightarrow> if netbits < 0 \<or> netbits > 32 then None
          else Some \<lparr>h_family = AF_INET, h_bytes = netmask_bytes 4 (nat netbits), h_port = 0\<rparr>
      | AF_INET6 \<Rightarrow> if netbits < 0 \<or> netbits > 128 then None
          else Some \<lparr>h_family = AF_INET6, h_bytes = netmask_bytes 16 (nat netbits), h_port = 0\<rparr>
      | _ \<Rightarrow> None)"

section \<open>Well-formed hosts\<close>

definition family_len :: "family \<Rightarrow> nat" where
  "family_len f = (case f of AF_INET \<Rightarrow> IPV4_LEN | AF_INET6 \<Rightarrow> IPV6_LEN | _ \<Rightarrow> 0)"

text \<open>Every host a constructor returns has one of the two families and an address of its length.\<close>

definition host_ok :: "host_t \<Rightarrow> bool" where
  "host_ok h \<longleftrightarrow> (h_family h = AF_INET \<or> h_family h = AF_INET6) \<and> length (h_bytes h) = family_len (h_family h)"

lemma length_netmask_bytes: "n \<le> 8 * len \<Longrightarrow> length (netmask_bytes len n) = len"
  by (auto simp: netmask_bytes_def Let_def)

lemma host_create_ok:
  "host_create_from_chunk f a p = Some h \<Longrightarrow> host_ok h"
  "host_create_any f = Some h \<Longrightarrow> host_ok h"
  "host_create_netmask f n = Some h \<Longrightarrow> host_ok h"
  by (auto simp: host_create_from_chunk_def host_create_any_def host_create_netmask_def host_ok_def
      family_len_def length_netmask_bytes split: family.splits if_splits)

lemma get_address_ok: "host_ok h \<Longrightarrow> get_address h = h_bytes h"
  by (auto simp: host_ok_def get_address_def family_len_def)

lemma host_equals_iff:
  assumes "host_ok a" "host_ok b" "h_family a = h_family b"
  shows "ip_equals a b \<longleftrightarrow> h_bytes a = h_bytes b" "host_equals a b \<longleftrightarrow> a = b"
  using assms by (auto simp: host_ok_def ip_equals_def host_equals_def family_len_def)

lemma ip_equals_equiv:
  assumes "host_ok a" "host_ok b" "host_ok c"
  shows "ip_equals a a" "ip_equals a b \<Longrightarrow> ip_equals b a" "ip_equals a b \<Longrightarrow> ip_equals b c \<Longrightarrow> ip_equals a c"
  using assms by (auto simp: host_ok_def ip_equals_def is_anyaddr_def family_len_def split: if_splits)

lemma host_from_own_address:
  "host_ok h \<Longrightarrow> host_create_from_chunk (h_family h) (get_address h) (get_port h) = Some h"
  by (auto simp: host_ok_def host_create_from_chunk_def get_address_def get_port_def family_len_def)

section \<open>Comparing byte strings\<close>

text \<open>
  \<^verbatim>\<open>memcmp\<close> of the C library on the first \<open>n\<close> bytes, of which only the sign of the result is
  specified.
\<close>

fun bytes_cmp :: "bytes \<Rightarrow> bytes \<Rightarrow> int" where
  "bytes_cmp (x # xs) (y # ys) = (if x < y then -1 else if y < x then 1 else bytes_cmp xs ys)"
| "bytes_cmp _ _ = 0"

definition memcmp :: "bytes \<Rightarrow> bytes \<Rightarrow> nat \<Rightarrow> int" where
  "memcmp a b n = bytes_cmp (take n a) (take n b)"

lemma be_decode_Nil [codec_simps, simp]: "be_decode [] = 0"
  by (simp add: be_decode_def)

lemma be_decode_append: "be_decode (xs @ ys) = be_decode xs * 256 ^ length ys + be_decode ys"
proof (induction ys rule: rev_induct)
  case (snoc y ys)
  then show ?case using be_decode_snoc [of "xs @ ys" y] be_decode_snoc [of ys y] by (simp add: algebra_simps)
qed simp

lemma be_decode_Cons: "be_decode (x # xs) = unat x * 256 ^ length xs + be_decode xs"
  using be_decode_append [of "[x]" xs] by (simp add: be_decode_def)

lemma be_decode_less: "be_decode xs < 256 ^ length xs"
proof (induction xs)
  case (Cons x xs)
  have "unat x * 256 ^ length xs + be_decode xs < (unat x + 1) * 256 ^ length xs" using Cons by simp
  also have "\<dots> \<le> 256 * 256 ^ length xs" using unat_u8_less [of x] by (intro mult_right_mono) auto
  finally show ?case by (simp add: be_decode_Cons)
qed simp

text \<open>Comparing addresses of one length compares the numbers they stand for.\<close>

lemma bytes_cmp_decode:
  "length xs = length ys \<Longrightarrow>
     bytes_cmp xs ys = (if be_decode xs < be_decode ys then -1 else if be_decode ys < be_decode xs then 1 else 0)"
proof (induction xs ys rule: bytes_cmp.induct)
  case (1 x xs y ys)
  then have len: "length xs = length ys" by simp
  have less: "be_decode (a # as) < be_decode (b # bs)" if "a < b" "length as = length bs" for a b as bs
  proof -
    have "unat a * 256 ^ length as + be_decode as < (unat a + 1) * 256 ^ length as"
      using be_decode_less [of as] by simp
    also have "\<dots> \<le> unat b * 256 ^ length as"
      using that(1) by (intro mult_right_mono) (simp_all add: word_less_nat_alt)
    finally show ?thesis using that(2) by (simp add: be_decode_Cons)
  qed
  consider "x < y" | "y < x" | "x = y" by fastforce
  then show ?case
  proof cases
    case 1
    then show ?thesis using less [of x y xs ys] len by simp
  next
    case 2
    then show ?thesis using less [of y x ys xs] len by simp
  next
    case 3
    then show ?thesis using "1.IH" len by (simp add: be_decode_Cons)
  qed
qed simp_all

lemma be_decode_inj: "length xs = length ys \<Longrightarrow> be_decode xs = be_decode ys \<longleftrightarrow> xs = ys"
proof (induction xs ys rule: list_induct2)
  case (Cons x xs y ys)
  have "unat x = be_decode (x # xs) div 256 ^ length xs" for x :: u8 and xs
    using be_decode_less [of xs] by (simp add: be_decode_Cons)
  then have "be_decode (x # xs) = be_decode (y # ys) \<Longrightarrow> x = y"
    using Cons.hyps by (metis unsigned_word_eqI)
  then show ?case using Cons by (auto simp: be_decode_Cons)
qed simp

section \<open>The bits of an address\<close>

text \<open>Most significant bit first, the order in which address prefixes are compared.\<close>

definition byte_bits :: "u8 \<Rightarrow> bool list" where
  "byte_bits b = map (bit b) (rev [0..<8])"

definition addr_bits :: "bytes \<Rightarrow> bool list" where
  "addr_bits bs = concat (map byte_bits bs)"

definition bval :: "bool list \<Rightarrow> nat" where
  "bval bs = horner_sum of_bool 2 (rev bs)"

lemma bval_append: "bval (xs @ ys) = bval xs * 2 ^ length ys + bval ys"
  by (simp add: bval_def horner_sum_append)

lemma bval_Cons: "bval (z # zs) = of_bool z * 2 ^ length zs + bval zs"
  using bval_append [of "[z]" zs] by (simp add: bval_def)

lemma bval_less: "bval xs < 2 ^ length xs"
  using horner_sum_of_bool_2_less [of "rev xs"] by (simp add: bval_def)

lemma bval_replicate: "bval (replicate m False) = 0" "bval (replicate m True) = 2 ^ m - 1"
  by (induction m) (simp_all add: bval_Cons, simp_all add: bval_def)

lemma bval_inj: "length xs = length ys \<Longrightarrow> bval xs = bval ys \<longleftrightarrow> xs = ys"
proof (induction xs ys rule: list_induct2)
  case (Cons x xs y ys)
  then show ?case using bval_less [of xs] bval_less [of ys] by (cases x; cases y) (auto simp: bval_Cons)
qed simp

lemma length_byte_bits [simp]: "length (byte_bits b) = 8"
  by (simp add: byte_bits_def)

lemma bval_byte: "bval (byte_bits b) = unat b"
proof -
  have "bval (byte_bits b) = horner_sum of_bool 2 (map (bit (unat b)) [0..<8])"
    unfolding bval_def byte_bits_def rev_map rev_rev_ident
    by (intro arg_cong [where f = "horner_sum of_bool 2"] map_cong) (auto simp: bit_unsigned_iff)
  also have "\<dots> = take_bit 8 (unat b)" by (rule horner_sum_bit_eq_take_bit)
  also have "\<dots> = unat b" using unat_u8_less [of b] by (simp add: take_bit_nat_eq_self)
  finally show ?thesis .
qed

lemma addr_bits_simps [simp]:
  "addr_bits [] = []" "addr_bits (b # bs) = byte_bits b @ addr_bits bs" "addr_bits (as @ bs) = addr_bits as @ addr_bits bs"
  by (simp_all add: addr_bits_def)

lemma length_addr_bits [simp]: "length (addr_bits bs) = 8 * length bs"
  by (induction bs) simp_all

lemma bval_addr_bits: "bval (addr_bits bs) = be_decode bs"
proof (induction bs)
  case (Cons b bs)
  have "(2 :: nat) ^ (8 * n) = 256 ^ n" for n by (simp add: power_mult)
  then show ?case using Cons by (simp add: bval_append be_decode_Cons bval_byte)
qed (simp add: bval_def)

lemma range_prefix:
  assumes "length P = n" "length x = n + m"
  shows "bval (P @ replicate m False) \<le> bval x \<and> bval x \<le> bval (P @ replicate m True) \<longleftrightarrow> take n x = P"
proof -
  let ?T = "take n x" and ?R = "drop n x"
  have x: "bval x = bval ?T * 2 ^ m + bval ?R" using bval_append [of ?T ?R] assms by simp
  have R: "bval ?R < 2 ^ m" using bval_less [of ?R] assms by simp
  have "bval x div 2 ^ m = bval ?T" using x R by simp
  moreover have "bval ?T = bval P \<longleftrightarrow> ?T = P" using bval_inj [of ?T P] assms by simp
  moreover have "bval P * 2 ^ m \<le> bval x \<and> bval x < (bval P + 1) * 2 ^ m \<longleftrightarrow> bval x div 2 ^ m = bval P"
    using dividend_less_times_div [of "2 ^ m" "bval x"]
    by (auto intro!: div_nat_eqI simp: mult.commute) (metis div_times_less_eq_dividend)
  ultimately show ?thesis using R by (auto simp: bval_append bval_replicate algebra_simps)
qed

lemma byte_bits_masked:
  assumes "k < 8"
  shows "byte_bits (b AND NOT (push_bit k 1 - 1)) = take (8 - k) (byte_bits b) @ replicate k False"
    "byte_bits (b OR (push_bit k 1 - 1)) = take (8 - k) (byte_bits b) @ replicate k True"
proof -
  have bit: "bit (push_bit k 1 - 1 :: u8) j \<longleftrightarrow> j < k" for j
    using assms bit_mask_iff [of k j, where 'a = u8] by (auto simp: mask_eq_exp_minus_1)
  show "byte_bits (b AND NOT (push_bit k 1 - 1)) = take (8 - k) (byte_bits b) @ replicate k False"
    "byte_bits (b OR (push_bit k 1 - 1)) = take (8 - k) (byte_bits b) @ replicate k True"
    using assms by (auto intro!: nth_equalityI simp: byte_bits_def nth_append rev_nth bit_and_iff bit_or_iff bit_not_iff bit
        simp del: push_bit_of_1 split: if_splits)
qed

lemma addr_bits_last:
  assumes "0 < n" "n \<le> length bs"
  shows "addr_bits (take n (bs[n - 1 := v])) = addr_bits (take (n - 1) bs) @ byte_bits v"
proof -
  have "take n (bs[n - 1 := v]) = take (n - 1) bs @ [v]"
    using assms by (intro nth_equalityI) (auto simp: nth_append nth_list_update)
  then show ?thesis by simp
qed

lemma take_addr_bits: "take (8 * k) (addr_bits bs) = addr_bits (take k bs)"
proof -
  have "addr_bits bs = addr_bits (take k bs) @ addr_bits (drop k bs)"
    by (metis addr_bits_simps(3) append_take_drop_id)
  then show ?thesis by (cases "k \<le> length bs") simp_all
qed

lemma take_addr_bits_part:
  assumes "k < length bs" "j \<le> 8"
  shows "take (8 * k + j) (addr_bits bs) = addr_bits (take k bs) @ take j (byte_bits (bs ! k))"
proof -
  have "addr_bits bs = addr_bits (take k bs) @ byte_bits (bs ! k) @ addr_bits (drop (Suc k) bs)"
    using assms(1) by (metis addr_bits_simps(2,3) id_take_nth_drop)
  then show ?thesis using assms by simp
qed

lemma addr_bits_const: "addr_bits (replicate n 0) = replicate (8 * n) False" "addr_bits (replicate n 255) = replicate (8 * n) True"
proof -
  have "byte_bits 0 = replicate 8 False" "byte_bits 255 = replicate 8 True"
    by (simp_all add: byte_bits_def upt_rec eval_nat_numeral bit_simps)
  then show "addr_bits (replicate n 0) = replicate (8 * n) False" "addr_bits (replicate n 255) = replicate (8 * n) True"
    by (induction n) (simp_all add: replicate_add)
qed

text \<open>The bytes of the first and the last address of a subnet of \<open>n\<close> bits.\<close>

lemma masked_bits:
  fixes bs :: bytes and n len :: nat
  defines "nb \<equiv> (n + 7) div 8"
  defines "k \<equiv> nb * 8 - n"
  assumes "n \<le> 8 * len" "len \<le> length bs" "0 < n"
  shows "addr_bits ((take nb bs)[nb - 1 := bs ! (nb - 1) AND NOT (push_bit k 1 - 1)] @ replicate (len - nb) 0) =
      take n (addr_bits bs) @ replicate (8 * len - n) False"
    "addr_bits ((take nb bs)[nb - 1 := bs ! (nb - 1) OR (push_bit k 1 - 1)] @ replicate (len - nb) 255) =
      take n (addr_bits bs) @ replicate (8 * len - n) True"
proof -
  have nb: "0 < nb" "nb \<le> len" "k < 8" "n = 8 * (nb - 1) + (8 - k)" "8 * len - n = k + 8 * (len - nb)"
  proof -
    have "8 * nb \<le> n + 7" "n < 8 * nb + 1" unfolding nb_def by linarith+
    then show "0 < nb" "nb \<le> len" "k < 8" "n = 8 * (nb - 1) + (8 - k)" "8 * len - n = k + 8 * (len - nb)"
      using assms(3,5) unfolding k_def by linarith+
  qed
  have t: "take n (addr_bits bs) = addr_bits (take (nb - 1) bs) @ take (8 - k) (byte_bits (bs ! (nb - 1)))"
    unfolding nb(4) by (rule take_addr_bits_part) (use nb assms(4) in auto)
  have u: "addr_bits ((take nb bs)[nb - 1 := v]) = addr_bits (take (nb - 1) bs) @ byte_bits v" for v
    using addr_bits_last [of nb "take nb bs" v] nb assms(4) by (simp add: min_def)
  show "addr_bits ((take nb bs)[nb - 1 := bs ! (nb - 1) AND NOT (push_bit k 1 - 1)] @ replicate (len - nb) 0) =
      take n (addr_bits bs) @ replicate (8 * len - n) False"
    "addr_bits ((take nb bs)[nb - 1 := bs ! (nb - 1) OR (push_bit k 1 - 1)] @ replicate (len - nb) 255) =
      take n (addr_bits bs) @ replicate (8 * len - n) True"
    unfolding addr_bits_simps(3) u t byte_bits_masked [OF nb(3)] addr_bits_const nb(5) replicate_add
    by simp_all
qed

end
