(* ===== verification/Ip_Packet.thy ===== *)
theory Ip_Packet
  imports Host "HOL-Library.Sublist"
begin

text \<open>
  Parsing of IP packets, \<^verbatim>\<open>src/src/libipsec/ip_packet.c\<close>: addresses, ports and the transport protocol of
  IPv4 and IPv6 packets, with IPv6 extension headers skipped. \<open>None\<close> stands for a packet that is refused.
\<close>

abbreviation (input) IPPROTO_IPIP :: u8 where "IPPROTO_IPIP \<equiv> 4"
abbreviation (input) IPPROTO_TCP :: u8 where "IPPROTO_TCP \<equiv> 6"
abbreviation (input) IPPROTO_UDP :: u8 where "IPPROTO_UDP \<equiv> 17"
abbreviation (input) IPPROTO_IPV6 :: u8 where "IPPROTO_IPV6 \<equiv> 41"
abbreviation (input) IPPROTO_ESP :: u8 where "IPPROTO_ESP \<equiv> 50"
abbreviation (input) IPPROTO_NONE :: u8 where "IPPROTO_NONE \<equiv> 59"

record ip_packet_t =
  ip_src :: host_t
  ip_dst :: host_t
  ip_encoding :: bytes
  ip_payload :: bytes
  ip_version :: u8
  ip_next_header :: u8

definition chunk_skip :: "bytes \<Rightarrow> nat \<Rightarrow> bytes" where
  "chunk_skip c n = (if length c > n then drop n c else [])"

text \<open>A 16-bit field in network order at an offset that is inside of the data.\<close>

definition untoh16 :: "bytes \<Rightarrow> nat \<Rightarrow> nat" where
  "untoh16 c off = be_decode (take 2 (drop off c))"

definition bytes_at :: "bytes \<Rightarrow> nat \<Rightarrow> nat \<Rightarrow> bytes" where
  "bytes_at c off n = take n (drop off c)"

text \<open>The ports of the packet, 0 where the protocol has none.\<close>

definition parse_transport_header :: "bytes \<Rightarrow> u8 \<Rightarrow> (u16 \<times> u16) option" where
  "parse_transport_header packet proto =
     (if proto = IPPROTO_UDP then
        if length packet < 8 then None
        else Some (of_nat (untoh16 packet 0), of_nat (untoh16 packet 2))
      else if proto = IPPROTO_TCP then
        if length packet < 20 then None
        else Some (of_nat (untoh16 packet 0), of_nat (untoh16 packet 2))
      else Some (0, 0))"

text \<open>
  The loop over the extension headers. Every skipped header has at least eight bytes, so the loop
  ends. The result is the payload, its protocol and the ports.
\<close>

definition is_extension_header :: "u8 \<Rightarrow> bool" where
  "is_extension_header proto \<longleftrightarrow> proto \<in> {44, 0, 43, 60, 135, 139, 140}"

function skip_extension_headers :: "bool \<Rightarrow> u8 \<Rightarrow> bytes \<Rightarrow> (bytes \<times> u8 \<times> u16 \<times> u16) option" where
  "skip_extension_headers fragmented proto payload =
     (if length payload \<ge> 2 then
        if is_extension_header proto
        then skip_extension_headers (fragmented \<or> proto = 44) (payload ! 0)
               (chunk_skip payload (8 * (unat (payload ! 1) + 1)))
        else if fragmented then Some (payload, proto, 0, 0)
        else map_option (\<lambda>(sport, dport). (payload, proto, sport, dport)) (parse_transport_header payload proto)
      else Some (payload, proto, 0, 0))"
  by pat_completeness auto
termination
  by (relation "measure (\<lambda>(fragmented, proto, payload). length payload)") (auto simp: chunk_skip_def)

declare skip_extension_headers.simps [simp del]

definition parse_transport_header_v6 :: "bytes \<Rightarrow> u8 \<Rightarrow> (bytes \<times> u8 \<times> u16 \<times> u16) option" where
  "parse_transport_header_v6 packet nxt = skip_extension_headers False nxt (chunk_skip packet 40)"

definition ip_packet_create_v4 :: "bytes \<Rightarrow> ip_packet_t option" where
  "ip_packet_create_v4 packet =
     (if length packet < 20 then None
      else
        let enc = take (min (length packet) (untoh16 packet 2)) packet;
            payload = chunk_skip enc (unat (packet ! 0 AND 0x0F) * 4);
            ports = (if untoh16 packet 6 mod 0x2000 = 0 then parse_transport_header payload (packet ! 9)
                     else Some (0, 0))
        in do { (sport, dport) \<leftarrow> ports;
                src \<leftarrow> host_create_from_chunk AF_INET (bytes_at packet 12 4) sport;
                dst \<leftarrow> host_create_from_chunk AF_INET (bytes_at packet 16 4) dport;
                Some \<lparr>ip_src = src, ip_dst = dst, ip_encoding = enc, ip_payload = payload, ip_version = 4,
                      ip_next_header = packet ! 9\<rparr> })"

definition ip_packet_create_v6 :: "bytes \<Rightarrow> ip_packet_t option" where
  "ip_packet_create_v6 packet =
     (if length packet < 40 then None
      else
        let enc = take (min (length packet) (40 + untoh16 packet 4)) packet
        in do { (payload, next_header, sport, dport) \<leftarrow> parse_transport_header_v6 enc (packet ! 6);
                src \<leftarrow> host_create_from_chunk AF_INET6 (bytes_at packet 8 16) sport;
                dst \<leftarrow> host_create_from_chunk AF_INET6 (bytes_at packet 24 16) dport;
                Some \<lparr>ip_src = src, ip_dst = dst, ip_encoding = enc, ip_payload = payload, ip_version = 6,
                      ip_next_header = next_header\<rparr> })"

definition ip_packet_create :: "bytes \<Rightarrow> ip_packet_t option" where
  "ip_packet_create packet =
     (if length packet < 1 then None
      else
        let ver = drop_bit 4 (packet ! 0 AND 0xF0)
        in if ver = 4 then ip_packet_create_v4 packet
           else if ver = 6 then ip_packet_create_v6 packet
           else None)"

definition ip_packet_clone :: "ip_packet_t \<Rightarrow> ip_packet_t option" where
  "ip_packet_clone this = ip_packet_create (ip_encoding this)"

section \<open>Properties of parsed packets\<close>

definition packet_ok :: "ip_packet_t \<Rightarrow> bool" where
  "packet_ok p \<longleftrightarrow> host_ok (ip_src p) \<and> host_ok (ip_dst p) \<and> h_family (ip_src p) = h_family (ip_dst p) \<and>
     (ip_version p = 4 \<longleftrightarrow> h_family (ip_src p) = AF_INET) \<and> (ip_version p = 6 \<longleftrightarrow> h_family (ip_src p) = AF_INET6) \<and>
     suffix (ip_payload p) (ip_encoding p)"

lemma chunk_skip_suffix: "suffix (chunk_skip c n) c"
  by (simp add: chunk_skip_def suffix_drop)

lemma skip_extension_suffix:
  "skip_extension_headers fr proto payload = Some (p, q) \<Longrightarrow> suffix p payload"
proof (induction fr proto payload rule: skip_extension_headers.induct)
  case (1 fr proto payload)
  show ?case
  proof (cases "length payload \<ge> 2 \<and> is_extension_header proto")
    case True
    then have "suffix p (chunk_skip payload (8 * (unat (payload ! 1) + 1)))"
      using 1 by (subst (asm) (2) skip_extension_headers.simps) auto
    then show ?thesis using chunk_skip_suffix suffix_order.trans by blast
  next
    case False
    then show ?thesis using 1(2) by (subst (asm) skip_extension_headers.simps) (auto split: if_splits)
  qed
qed

lemma host_create_fields:
  "host_create_from_chunk AF_INET a p = Some h \<longleftrightarrow> 4 \<le> length a \<and> h = \<lparr>h_family = AF_INET, h_bytes = take 4 a, h_port = p\<rparr>"
  "host_create_from_chunk AF_INET6 a p = Some h \<longleftrightarrow> 16 \<le> length a \<and> h = \<lparr>h_family = AF_INET6, h_bytes = take 16 a, h_port = p\<rparr>"
  by (auto simp: host_create_from_chunk_def)

lemma ip_packet_create_v4_ok: "ip_packet_create_v4 bs = Some p \<Longrightarrow> packet_ok p"
  using chunk_skip_suffix
  by (auto simp: ip_packet_create_v4_def packet_ok_def Let_def host_create_fields host_ok_def family_len_def
      split: if_splits bind_splits)

lemma ip_packet_create_v6_ok:
  assumes "ip_packet_create_v6 bs = Some p"
  shows "packet_ok p"
proof -
  let ?enc = "take (min (length bs) (40 + untoh16 bs 4)) bs"
  obtain payload nh sp dp where e: "parse_transport_header_v6 ?enc (bs ! 6) = Some (payload, nh, sp, dp)"
    and p: "host_create_from_chunk AF_INET6 (bytes_at bs 8 16) sp = Some (ip_src p)"
      "host_create_from_chunk AF_INET6 (bytes_at bs 24 16) dp = Some (ip_dst p)"
      "ip_encoding p = ?enc" "ip_payload p = payload" "ip_version p = 6"
    using assms by (auto simp: ip_packet_create_v6_def Let_def split: if_splits bind_splits)
  have "suffix payload ?enc"
    using skip_extension_suffix chunk_skip_suffix suffix_order.trans e unfolding parse_transport_header_v6_def by blast
  then show ?thesis
    using p host_create_ok(1) [OF p(1)] host_create_ok(1) [OF p(2)] by (auto simp: packet_ok_def host_create_fields)
qed

lemma ip_packet_create_ok: "ip_packet_create bs = Some p \<Longrightarrow> packet_ok p"
  using ip_packet_create_v4_ok ip_packet_create_v6_ok
  by (auto simp: ip_packet_create_def Let_def split: if_splits)

lemma fields_take:
  "off + 2 \<le> m \<Longrightarrow> untoh16 (take m c) off = untoh16 c off" "off + n \<le> m \<Longrightarrow> bytes_at (take m c) off n = bytes_at c off n"
  by (simp_all add: untoh16_def bytes_at_def drop_take min_def)

text \<open>Parsing the encoding of a parsed packet again returns the same packet.\<close>

lemma reparse:
  assumes "ip_packet_create bs = Some p" "20 \<le> length (ip_encoding p)"
  shows "ip_packet_create (ip_encoding p) = Some p"
proof -
  let ?ver = "drop_bit 4 (bs ! 0 AND 0xF0)"
  consider (v4) "?ver = 4" "ip_packet_create_v4 bs = Some p" | (v6) "?ver = 6" "ip_packet_create_v6 bs = Some p"
    using assms(1) by (auto simp: ip_packet_create_def Let_def split: if_splits)
  then show ?thesis
  proof cases
    case v4
    define m where "m = min (length bs) (untoh16 bs 2)"
    have enc: "ip_encoding p = take m bs" "20 \<le> length bs"
      using v4(2) by (auto simp: ip_packet_create_v4_def m_def Let_def split: if_splits bind_splits)
    then have m: "20 \<le> m" "m \<le> length bs" "min m (untoh16 bs 2) = m" using assms(2) by (auto simp: m_def)
    have "ip_packet_create (take m bs) = ip_packet_create_v4 (take m bs)"
      using m v4(1) by (auto simp: ip_packet_create_def Let_def)
    also have "\<dots> = ip_packet_create_v4 bs"
      using m enc(2) by (simp add: ip_packet_create_v4_def Let_def fields_take m_def [symmetric])
    finally show ?thesis using v4(2) enc(1) by simp
  next
    case v6
    define m where "m = min (length bs) (40 + untoh16 bs 4)"
    have enc: "ip_encoding p = take m bs" "40 \<le> length bs"
      using v6(2) by (auto simp: ip_packet_create_v6_def m_def Let_def split: if_splits bind_splits)
    then have m: "40 \<le> m" "m \<le> length bs" "min m (40 + untoh16 bs 4) = m" by (auto simp: m_def)
    have "ip_packet_create (take m bs) = ip_packet_create_v6 (take m bs)"
      using m v6(1) by (auto simp: ip_packet_create_def Let_def)
    also have "\<dots> = ip_packet_create_v6 bs"
      using m enc(2) by (simp add: ip_packet_create_v6_def Let_def fields_take m_def [symmetric])
    finally show ?thesis using v6(2) enc(1) by simp
  qed
qed

text \<open>An example: an ICMP packet without payload.\<close>

definition small_packet :: ip_packet_t where
  "small_packet =
     \<lparr>ip_src = \<lparr>h_family = AF_INET, h_bytes = [10, 0, 0, 1], h_port = 0\<rparr>,
      ip_dst = \<lparr>h_family = AF_INET, h_bytes = [10, 0, 0, 2], h_port = 0\<rparr>,
      ip_encoding = [0x45, 0, 0, 20, 0, 0, 0, 0, 64, 1, 0, 0, 10, 0, 0, 1, 10, 0, 0, 2],
      ip_payload = [], ip_version = 4, ip_next_header = 1\<rparr>"

lemma small_packet_parses: "ip_packet_create (ip_encoding small_packet) = Some small_packet"
  by (simp add: ip_packet_create_def ip_packet_create_v4_def small_packet_def untoh16_def be_decode_def bytes_at_def
      parse_transport_header_def host_create_from_chunk_def chunk_skip_def Let_def drop_bit_eq_div)

end
