(* ===== verification/Esp_Replay.thy ===== *)
theory Esp_Replay
  imports Prelude
begin

text \<open>
  Sequence numbers and the anti-replay window of user-space IPsec,
  \<^verbatim>\<open>src/src/libipsec/esp_context.c\<close>: a circular bitmap over the last 128 sequence numbers that
  ends at the highest authenticated one. The cryptographic part of the context is not modelled.
\<close>

record esp_context_t =
  last_seqno :: u32
  seqno_index :: u32
  window_size :: u32
  window :: bytes
  inbound :: bool

abbreviation (input) ESP_DEFAULT_WINDOW_SIZE :: u32 where "ESP_DEFAULT_WINDOW_SIZE \<equiv> 128"

definition esp_context_create :: "bool \<Rightarrow> esp_context_t" where
  "esp_context_create inb =
     \<lparr>last_seqno = 0, seqno_index = 0, window_size = ESP_DEFAULT_WINDOW_SIZE,
      window = (if inb then replicate (unat ESP_DEFAULT_WINDOW_SIZE div 8 + 1) 0 else []), inbound = inb\<rparr>"

definition set_window_bit :: "esp_context_t \<Rightarrow> u32 \<Rightarrow> bool \<Rightarrow> esp_context_t" where
  "set_window_bit this index set_it =
     (let i = unat (index div 8); m = push_bit (unat (index mod 8)) 1 :: u8
      in this\<lparr>window := (window this)[i := (if set_it then window this ! i OR m
                                             else window this ! i AND NOT m)]\<rparr>)"

definition get_window_bit :: "esp_context_t \<Rightarrow> u32 \<Rightarrow> bool" where
  "get_window_bit this index \<longleftrightarrow>
     window this ! unat (index div 8) AND push_bit (unat (index mod 8)) 1 \<noteq> 0"

definition check_window :: "esp_context_t \<Rightarrow> u32 \<Rightarrow> bool" where
  "check_window this seqno =
     (let offset = last_seqno this - seqno;
          offset = (seqno_index this - offset) mod window_size this
      in \<not> get_window_bit this offset)"

definition verify_seqno :: "esp_context_t \<Rightarrow> u32 \<Rightarrow> bool" where
  "verify_seqno this seqno =
     (if \<not> inbound this then False
      else if seqno > last_seqno this then True
      else if seqno > 0 \<and> window_size this > last_seqno this - seqno then check_window this seqno
      else False)"

text \<open>The loop that moves the window forward, one position at a time.\<close>

fun shift_window :: "nat \<Rightarrow> esp_context_t \<Rightarrow> esp_context_t" where
  "shift_window 0 this = this"
| "shift_window (Suc n) this =
     (let i = (seqno_index this + 1) mod window_size this
      in shift_window n (set_window_bit (this\<lparr>seqno_index := i\<rparr>) i False))"

definition set_authenticated_seqno :: "esp_context_t \<Rightarrow> u32 \<Rightarrow> esp_context_t" where
  "set_authenticated_seqno this seqno =
     (if \<not> inbound this then this
      else if seqno > last_seqno this
      then let shift = seqno - last_seqno this;
               shift = (if shift < window_size this then shift else window_size this);
               this = shift_window (unat shift) this;
               this = set_window_bit this (seqno_index this) True
           in this\<lparr>last_seqno := seqno\<rparr>
      else set_window_bit this
             ((seqno_index this - (last_seqno this - seqno)) mod window_size this) True)"

definition next_seqno :: "esp_context_t \<Rightarrow> (u32 \<times> esp_context_t) option" where
  "next_seqno this =
     (if inbound this \<or> last_seqno this = 0xFFFFFFFF then None
      else Some (last_seqno this + 1, this\<lparr>last_seqno := last_seqno this + 1\<rparr>))"

section \<open>The window as a circular bitmap\<close>

definition window_ok :: "esp_context_t \<Rightarrow> bool" where
  "window_ok c \<longleftrightarrow> inbound c \<and> window_size c = 128 \<and> length (window c) = 17 \<and> unat (seqno_index c) < 128"

lemma bit_and_push: "(w :: u8) AND push_bit k 1 \<noteq> 0 \<longleftrightarrow> bit w k"
  by (simp add: bit_iff_and_push_bit_not_eq_0)

lemma get_window_bit_bit:
  "get_window_bit c i \<longleftrightarrow> bit (window c ! (unat i div 8)) (unat i mod 8)"
  unfolding get_window_bit_def bit_and_push unat_div unat_mod by simp

lemma bit_clear_other: "bit (w AND NOT (2 ^ k :: u8)) j \<longleftrightarrow> bit w j \<and> \<not> (j = k \<and> k < 8)"
  by (auto simp: bit_simps dest: bit_imp_le_length)

lemma bit_set_other: "bit (w OR (2 ^ k :: u8)) j \<longleftrightarrow> bit w j \<or> (j = k \<and> k < 8)"
  by (auto simp: bit_simps)

lemma same_position: "(i :: nat) div 8 = j div 8 \<and> i mod 8 = j mod 8 \<longleftrightarrow> i = j"
  by (metis div_mult_mod_eq)

lemma get_set_window_bit:
  assumes "length (window c) = 17" "unat i < 128"
  shows "get_window_bit (set_window_bit c i b) j \<longleftrightarrow> (if unat j = unat i then b else get_window_bit c j)"
proof -
  have i: "unat i div 8 < 17" using assms(2) by simp
  have lt: "unat i mod 8 < 8" by simp
  have win: "window (set_window_bit c i b) = (window c)[unat i div 8 := (if b
      then window c ! (unat i div 8) OR push_bit (unat i mod 8) 1
      else window c ! (unat i div 8) AND NOT (push_bit (unat i mod 8) 1))]"
    by (simp add: set_window_bit_def unat_div unat_mod Let_def)
  show ?thesis
  proof (cases "unat j div 8 = unat i div 8")
    case True
    then have "unat j mod 8 = unat i mod 8 \<longleftrightarrow> unat j = unat i" using same_position by blast
    then show ?thesis
      using True assms(1) i lt
      by (auto simp: get_window_bit_bit win bit_set_other bit_clear_other)
  next
    case False
    then show ?thesis by (auto simp: get_window_bit_bit win)
  qed
qed

lemma window_ok_set [simp]: "window_ok (set_window_bit c i b) = window_ok c"
  by (simp add: window_ok_def set_window_bit_def Let_def)

lemma window_ok_last [simp]: "window_ok (c\<lparr>last_seqno := s\<rparr>) = window_ok c"
  by (simp add: window_ok_def)

lemma set_window_bit_frame [frame_simps, simp]:
  "last_seqno (set_window_bit c i b) = last_seqno c" "seqno_index (set_window_bit c i b) = seqno_index c"
  by (simp_all add: set_window_bit_def Let_def)

text \<open>The bit at a position, and the position of a sequence number.\<close>

definition bit_at :: "esp_context_t \<Rightarrow> nat \<Rightarrow> bool" where
  "bit_at c p = get_window_bit c (of_nat p)"

definition slot :: "nat \<Rightarrow> nat \<Rightarrow> nat \<Rightarrow> nat" where
  "slot idx lst s = nat ((int idx - (int lst - int s)) mod 128)"

lemma slot_less: "slot idx lst s < 128"
  by (simp add: slot_def)

lemma word_slot:
  "unat ((idx - d) mod (128 :: u32)) = nat ((int (unat idx) - int (unat d)) mod 128)"
proof -
  have "uint ((idx - d) mod 128) = (uint idx - uint d) mod 2 ^ 32 mod 128"
    by (simp add: uint_mod uint_word_ariths)
  also have "\<dots> = (uint idx - uint d) mod 128"
    by (rule mod_mod_cancel) simp
  finally have "nat (uint ((idx - d) mod 128)) = nat ((uint idx - uint d) mod 128)" by simp
  then show ?thesis unfolding nat_uint_eq of_nat_unat .
qed

lemma bit_at_set:
  assumes "window_ok c" "unat i < 128" "p < 128"
  shows "bit_at (set_window_bit c i b) p \<longleftrightarrow> (if p = unat i then b else bit_at c p)"
proof -
  have "unat (of_nat p :: u32) = p" using assms(3) by (simp add: unsigned_of_nat take_bit_nat_eq_self)
  then show ?thesis
    using get_set_window_bit [of c i b "of_nat p"] assms(1,2) by (simp add: bit_at_def window_ok_def)
qed

lemma bit_at_index [simp]: "bit_at (c\<lparr>seqno_index := i\<rparr>) p = bit_at c p"
  "bit_at (c\<lparr>last_seqno := s\<rparr>) p = bit_at c p"
  by (simp_all add: bit_at_def get_window_bit_def)

lemma ex_positive_Suc: "(\<exists>k. 0 < k \<and> k \<le> Suc n \<and> P k) \<longleftrightarrow> P 1 \<or> (\<exists>k. 0 < k \<and> k \<le> n \<and> P (Suc k))"
proof -
  have "(\<exists>k. 0 < k \<and> k \<le> Suc n \<and> P k) \<longleftrightarrow> (\<exists>j\<le>n. P (Suc j))"
    by (auto simp: gr0_conv_Suc)
  also have "\<dots> \<longleftrightarrow> P (Suc 0) \<or> (\<exists>k. 0 < k \<and> k \<le> n \<and> P (Suc k))"
    by (auto intro: exI [of _ 0] gr0I)
  finally show ?thesis by simp
qed

lemma shift_window_spec:
  "window_ok c \<Longrightarrow> window_ok (shift_window n c) \<and> last_seqno (shift_window n c) = last_seqno c \<and>
     unat (seqno_index (shift_window n c)) = (unat (seqno_index c) + n) mod 128 \<and>
     (\<forall>p<128. bit_at (shift_window n c) p \<longleftrightarrow>
        bit_at c p \<and> \<not> (\<exists>k. 0 < k \<and> k \<le> n \<and> p = (unat (seqno_index c) + k) mod 128))"
proof (induction n arbitrary: c)
  case 0
  then show ?case by (auto simp: window_ok_def)
next
  case (Suc n)
  let ?i = "(seqno_index c + 1) mod 128"
  let ?c = "set_window_bit (c\<lparr>seqno_index := ?i\<rparr>) ?i False"
  have sz: "window_size c = 128" using Suc.prems by (simp add: window_ok_def)
  have "unat (seqno_index c + 1) = Suc (unat (seqno_index c))"
    using Suc.prems by (intro unat_increment [of _ 128]) (simp add: window_ok_def word_less_nat_alt)
  then have i: "unat ?i = Suc (unat (seqno_index c)) mod 128" by (simp add: unat_mod)
  then have lt: "unat ?i < 128" by simp
  have ok: "window_ok (c\<lparr>seqno_index := ?i\<rparr>)" using Suc.prems lt by (simp add: window_ok_def)
  have bits: "bit_at ?c p \<longleftrightarrow> p \<noteq> unat ?i \<and> bit_at c p" if "p < 128" for p
    using bit_at_set [OF ok lt that] by auto
  have pos: "(unat ?i + k) mod 128 = (unat (seqno_index c) + Suc k) mod 128" for k
    by (simp add: i mod_add_left_eq)
  have "(\<exists>k. 0 < k \<and> k \<le> Suc n \<and> p = (unat (seqno_index c) + k) mod 128) \<longleftrightarrow>
      p = unat ?i \<or> (\<exists>k. 0 < k \<and> k \<le> n \<and> p = (unat ?i + k) mod 128)" for p
    unfolding ex_positive_Suc pos by (auto simp: i)
  then show ?case
    using Suc.IH [of ?c] ok bits pos [of n] by (simp add: sz Let_def, blast)
qed

section \<open>The window as a set of accepted numbers\<close>

text \<open>
  What the window promises: a number is accepted if it is not zero, was not accepted before and is
  less than 128 below every accepted one.
\<close>

definition replay_accepts :: "nat set \<Rightarrow> nat \<Rightarrow> bool" where
  "replay_accepts A s \<longleftrightarrow> 0 < s \<and> s \<notin> A \<and> (\<forall>a\<in>A. a < s + 128)"

text \<open>The context \<open>c\<close> represents the set \<open>A\<close> of accepted numbers.\<close>

definition represents :: "esp_context_t \<Rightarrow> nat set \<Rightarrow> bool" where
  "represents c A \<longleftrightarrow> window_ok c \<and>
     A \<subseteq> {1..unat (last_seqno c)} \<and> (last_seqno c = 0 \<or> unat (last_seqno c) \<in> A) \<and>
     (\<forall>s. 0 < s \<and> s \<le> unat (last_seqno c) \<and> unat (last_seqno c) < s + 128 \<longrightarrow>
        (bit_at c (slot (unat (seqno_index c)) (unat (last_seqno c)) s) \<longleftrightarrow> s \<in> A))"

lemma representsD:
  assumes "represents c A"
  shows "window_ok c" "inbound c" "window_size c = 128" "a \<in> A \<Longrightarrow> 0 < a \<and> a \<le> unat (last_seqno c)"
    "last_seqno c = 0 \<or> unat (last_seqno c) \<in> A"
    "0 < s \<Longrightarrow> s \<le> unat (last_seqno c) \<Longrightarrow> unat (last_seqno c) < s + 128 \<Longrightarrow>
       bit_at c (slot (unat (seqno_index c)) (unat (last_seqno c)) s) \<longleftrightarrow> s \<in> A"
  using assms by (auto simp: represents_def window_ok_def)

lemma slot_inj:
  assumes "t \<le> l" "l < t + 128" "u \<le> l" "l < u + 128"
  shows "slot i l t = slot i l u \<longleftrightarrow> t = u"
proof -
  have "slot i l t = slot i l u \<longleftrightarrow> (int i - (int l - int t)) mod 128 = (int i - (int l - int u)) mod 128"
    by (simp add: slot_def eq_nat_nat_iff)
  also have "\<dots> \<longleftrightarrow> 128 dvd (int t - int u)" by (simp add: mod_eq_dvd_iff)
  also have "\<dots> \<longleftrightarrow> t = u" using assms dvd_imp_le_int [of "int t - int u" 128] by fastforce
  finally show ?thesis .
qed

lemma verify_seqno_iff:
  assumes "represents c A"
  shows "verify_seqno c s \<longleftrightarrow> replay_accepts A (unat s)"
proof -
  note r = representsD [OF assms]
  let ?l = "unat (last_seqno c)"
  show ?thesis
  proof (cases "unat s \<le> ?l")
    case False
    then have "\<forall>a\<in>A. 0 < a \<and> a < unat s" using r(4) by fastforce
    moreover have "last_seqno c < s" using False by (simp add: word_less_nat_alt)
    ultimately show ?thesis using r(2) False by (auto simp: verify_seqno_def replay_accepts_def)
  next
    case le: True
    then have off: "unat (last_seqno c - s) = ?l - unat s" by (simp add: word_le_nat_alt unat_sub)
    have pos: "s > 0 \<longleftrightarrow> 0 < unat s" by (simp add: word_less_nat_alt)
    show ?thesis
    proof (cases "0 < unat s \<and> ?l < unat s + 128")
      case True
      let ?p = "slot (unat (seqno_index c)) ?l (unat s)"
      have "unat ((seqno_index c - (last_seqno c - s)) mod 128) = ?p"
        using le unfolding word_slot off by (simp add: slot_def of_nat_diff)
      then have "(seqno_index c - (last_seqno c - s)) mod 128 = of_nat ?p"
        by (metis of_nat_unat ucast_id)
      then have "check_window c s \<longleftrightarrow> \<not> bit_at c ?p"
        using r(3) by (simp add: check_window_def bit_at_def)
      also have "\<dots> \<longleftrightarrow> unat s \<notin> A" using r(6) True le by simp
      finally have "check_window c s \<longleftrightarrow> unat s \<notin> A" .
      moreover have "128 > last_seqno c - s" using True le by (auto simp: word_less_nat_alt off)
      moreover have "\<forall>a\<in>A. a < unat s + 128" using r(4) True by fastforce
      ultimately show ?thesis
        using True le r(2,3) pos by (simp add: verify_seqno_def replay_accepts_def word_less_nat_alt)
    next
      case False
      have "128 > last_seqno c - s \<longleftrightarrow> ?l < unat s + 128" using le by (auto simp: word_less_nat_alt off)
      moreover have "unat s = 0 \<or> (\<exists>a\<in>A. \<not> a < unat s + 128)"
        using False r(5) by (auto simp: unat_gt_0 intro!: bexI [of _ ?l])
      ultimately show ?thesis
        using False le r(2,3) pos by (auto simp: verify_seqno_def replay_accepts_def word_less_nat_alt)
    qed
  qed
qed

lemma represents_create: "represents (esp_context_create True) {}"
  by (simp add: represents_def esp_context_create_def window_ok_def)

text \<open>Recording a number that was in the window, and one that moves it forward.\<close>

lemma represents_inside:
  assumes "represents c A" and s: "0 < unat s" "unat s \<le> unat (last_seqno c)" "unat (last_seqno c) < unat s + 128"
  shows "represents (set_authenticated_seqno c s) (insert (unat s) A)"
proof -
  note r = representsD [OF assms(1)]
  let ?i = "(seqno_index c - (last_seqno c - s)) mod 128"
  have off: "unat (last_seqno c - s) = unat (last_seqno c) - unat s" using s by (simp add: word_le_nat_alt unat_sub)
  have i: "unat ?i = slot (unat (seqno_index c)) (unat (last_seqno c)) (unat s)"
    using s unfolding word_slot off by (simp add: slot_def of_nat_diff)
  have lt: "unat ?i < 128" using i slot_less by simp
  have "\<not> last_seqno c < s" using s by (simp add: word_less_nat_alt)
  then have c': "set_authenticated_seqno c s = set_window_bit c ?i True"
    using r(2,3) by (simp add: set_authenticated_seqno_def)
  have "bit_at (set_window_bit c ?i True) (slot (unat (seqno_index c)) (unat (last_seqno c)) t) \<longleftrightarrow>
      t \<in> insert (unat s) A" if "0 < t" "t \<le> unat (last_seqno c)" "unat (last_seqno c) < t + 128" for t
    using bit_at_set [OF r(1) lt slot_less] r(6) [of t] slot_inj [of t "unat (last_seqno c)" "unat s"] that s
    by (auto simp: i)
  then show ?thesis using assms unfolding c' represents_def by auto
qed

lemma slot_shift: "l \<le> s \<Longrightarrow> slot ((i + (s - l)) mod 128) s t = slot i l t"
proof -
  assume "l \<le> s"
  then have "(int ((i + (s - l)) mod 128) - (int s - int t)) mod 128 = (int i + (int s - int l) - (int s - int t)) mod 128"
    by (simp add: zmod_int of_nat_diff mod_diff_left_eq)
  also have "\<dots> = (int i - (int l - int t)) mod 128" by (simp add: algebra_simps)
  finally show ?thesis unfolding slot_def by (rule arg_cong)
qed

lemma slot_self: "i < 128 \<Longrightarrow> slot i l l = i"
  by (simp add: slot_def flip: zmod_int)

lemma slot_above: "l < t \<Longrightarrow> slot i l t = (i + (t - l)) mod 128"
  by (simp add: slot_def nat_mod_as_int of_nat_diff algebra_simps)

lemma slot_below:
  assumes "t \<le> l" "0 < k" "l + k < t + 128"
  shows "slot i l t \<noteq> (i + k) mod 128"
proof -
  have "slot i l (l + k) = (i + k) mod 128" using slot_above [of l "l + k"] assms(2) by simp
  moreover have "slot i l u = slot (i + k) (l + k) u" for u by (simp add: slot_def algebra_simps)
  ultimately show ?thesis using slot_inj [of t "l + k" "l + k" "i + k"] assms by auto
qed

lemma full_turn:
  assumes "i < 128" "p < 128"
  shows "\<exists>k. 0 < k \<and> k \<le> 128 \<and> p = (i + k) mod (128 :: nat)"
  using assms by (intro exI [of _ "if i < p then p - i else p + 128 - i"]) (auto simp: mod_add_self2)

lemma shift_window_bit:
  assumes "represents c A" "unat (last_seqno c) < s" "t < s" "0 < t" "s < t + 128"
    and n: "n = min (s - unat (last_seqno c)) 128"
  shows "bit_at (shift_window n c) (slot ((unat (seqno_index c) + n) mod 128) s t) \<longleftrightarrow> t \<in> A"
proof -
  note r = representsD [OF assms(1)]
  let ?l = "unat (last_seqno c)" and ?I = "unat (seqno_index c)"
  let ?p = "slot ((?I + n) mod 128) s t"
  have bit: "bit_at (shift_window n c) ?p \<longleftrightarrow>
      bit_at c ?p \<and> \<not> (\<exists>k. 0 < k \<and> k \<le> n \<and> ?p = (?I + k) mod 128)"
    using shift_window_spec [OF r(1)] slot_less by blast
  consider "128 \<le> s - ?l" | "s - ?l < 128" "?l < t" | "s - ?l < 128" "t \<le> ?l" by linarith
  then show ?thesis
  proof cases
    case 1
    moreover have "?I < 128" using r(1) by (simp add: window_ok_def)
    moreover have "t \<notin> A" using r(4) [of t] 1 assms(2,5) by auto
    moreover have "n = 128" using 1 by (simp add: n)
    ultimately show ?thesis using full_turn [OF _ slot_less, of ?I] bit by metis
  next
    case 2
    then have "?p = (?I + (t - ?l)) mod 128"
      using slot_shift [of ?l s ?I t] slot_above [of ?l t ?I] assms(2) by (simp add: n min_def)
    moreover have "t \<notin> A" using r(4) [of t] 2 by auto
    moreover have "0 < t - ?l" "t - ?l \<le> n" using 2 assms(3) by (auto simp: n)
    ultimately show ?thesis unfolding bit by blast
  next
    case 3
    then have p: "?p = slot ?I ?l t" using slot_shift [of ?l s ?I t] assms(2) by (simp add: n min_def)
    have "?p \<noteq> (?I + k) mod 128" if "0 < k" "k \<le> n" for k
      using slot_below [of t ?l k ?I] 3 that assms(2,5) unfolding p by (simp add: n)
    then show ?thesis using r(6) [of t] 3 assms(2,4,5) bit p by (auto simp del: bit_at_index)
  qed
qed

lemma represents_forward:
  assumes "represents c A" and s: "unat (last_seqno c) < unat s"
  shows "represents (set_authenticated_seqno c s) (insert (unat s) A)"
proof -
  note r = representsD [OF assms(1)]
  let ?l = "unat (last_seqno c)" and ?I = "unat (seqno_index c)"
  let ?n = "min (unat s - ?l) 128"
  let ?m = "shift_window ?n c"
  let ?c = "set_window_bit ?m (seqno_index ?m) True"
  note m = shift_window_spec [OF r(1), of ?n]
  have sub: "unat (s - last_seqno c) = unat s - ?l" using s by (simp add: word_le_nat_alt unat_sub)
  have "unat (if s - last_seqno c < window_size c then s - last_seqno c else window_size c) = ?n"
    using r(3) by (simp add: word_less_nat_alt sub min_def)
  moreover have "last_seqno c < s" using s by (simp add: word_less_nat_alt)
  ultimately have c': "set_authenticated_seqno c s = ?c\<lparr>last_seqno := s\<rparr>"
    using r(2) by (simp only: set_authenticated_seqno_def Let_def) simp
  have idx: "unat (seqno_index ?m) = (?I + ?n) mod 128" and ok: "window_ok ?m" using m by auto
  have lt: "unat (seqno_index ?m) < 128" by (simp add: idx)
  have "bit_at ?c (slot (unat (seqno_index ?m)) (unat s) t) \<longleftrightarrow> t \<in> insert (unat s) A"
    if t: "0 < t" "t \<le> unat s" "unat s < t + 128" for t
  proof -
    let ?p = "slot (unat (seqno_index ?m)) (unat s) t"
    have self: "slot (unat (seqno_index ?m)) (unat s) (unat s) = unat (seqno_index ?m)"
      using lt slot_self by simp
    have top: "?p = unat (seqno_index ?m) \<longleftrightarrow> t = unat s"
      using slot_inj [of t "unat s" "unat s" "unat (seqno_index ?m)"] t unfolding self by simp
    have b: "bit_at ?c ?p \<longleftrightarrow> t = unat s \<or> bit_at ?m ?p"
      using bit_at_set [OF ok lt slot_less] top by auto
    have "bit_at ?m ?p \<longleftrightarrow> t \<in> A" if "t \<noteq> unat s"
      using shift_window_bit [OF assms, of t ?n] t that by (simp add: idx)
    then show ?thesis using b by blast
  qed
  moreover have "A \<subseteq> {1..unat s}" using r(4) s by fastforce
  moreover have "window_ok (?c\<lparr>last_seqno := s\<rparr>)" using ok by simp
  ultimately show ?thesis using s unfolding c' represents_def by auto
qed

lemma represents_accepted:
  assumes "represents c A" "verify_seqno c s"
  shows "represents (set_authenticated_seqno c s) (insert (unat s) A)"
proof (cases "unat s \<le> unat (last_seqno c)")
  case True
  have acc: "replay_accepts A (unat s)" using verify_seqno_iff [OF assms(1)] assms(2) by simp
  then have "unat (last_seqno c) < unat s + 128"
    using representsD(5) [OF assms(1)] by (auto simp: replay_accepts_def)
  then show ?thesis using represents_inside [OF assms(1)] True acc by (simp add: replay_accepts_def)
next
  case False
  then show ?thesis using represents_forward [OF assms(1)] by simp
qed

section \<open>The receiver\<close>

text \<open>
  Every packet is checked against the window first; the window moves only after the integrity
  check of the packet succeeded (the order of \<open>decrypt\<close> in \<^verbatim>\<open>esp_packet.c\<close>). Of the packet the
  sequence number matters here, and whether its integrity check will succeed.
\<close>

fun esp_receive_all :: "esp_context_t \<Rightarrow> (u32 \<times> bool) list \<Rightarrow> u32 list" where
  "esp_receive_all c [] = []"
| "esp_receive_all c ((s, ok) # ps) =
     (if verify_seqno c s \<and> ok then s # esp_receive_all (set_authenticated_seqno c s) ps
      else esp_receive_all c ps)"

text \<open>The same on the set of numbers accepted so far.\<close>

fun replay_filter :: "nat set \<Rightarrow> (u32 \<times> bool) list \<Rightarrow> u32 list" where
  "replay_filter A [] = []"
| "replay_filter A ((s, ok) # ps) =
     (if replay_accepts A (unat s) \<and> ok then s # replay_filter (insert (unat s) A) ps
      else replay_filter A ps)"

lemma receive_refines: "represents c A \<Longrightarrow> esp_receive_all c ps = replay_filter A ps"
  by (induction A ps arbitrary: c rule: replay_filter.induct)
     (auto simp: verify_seqno_iff represents_accepted)

lemma replay_filter_fresh: "distinct (replay_filter A ps) \<and> unat ` set (replay_filter A ps) \<inter> A = {}"
  by (induction A ps rule: replay_filter.induct) (auto simp: replay_accepts_def)

text \<open>
  C31. The circular bitmap is a faithful anti-replay window: on every sequence of packets, with
  arbitrary numbers, order, repetitions and integrity failures, an inbound context accepts exactly
  the packets that the set of all previously accepted numbers allows (number not zero, not accepted
  before, less than 128 below the highest accepted one).
\<close>

theorem replay_window_refines_set:
  "esp_receive_all (esp_context_create True) ps = replay_filter {} ps"
  by (rule receive_refines [OF represents_create])

text \<open>
  However packets are reordered, duplicated or forged, an inbound context never accepts two packets
  with one sequence number.
\<close>

lemma no_replay: "distinct (esp_receive_all (esp_context_create True) ps)"
  using replay_filter_fresh [of "{}" ps] by (simp add: receive_refines [OF represents_create])

section \<open>The sender\<close>

fun send_all :: "nat \<Rightarrow> esp_context_t \<Rightarrow> u32 list" where
  "send_all 0 c = []"
| "send_all (Suc n) c = (case next_seqno c of None \<Rightarrow> [] | Some (s, c) \<Rightarrow> s # send_all n c)"

lemma send_all_numbers:
  "\<not> inbound c \<Longrightarrow> map unat (send_all n c) =
     [Suc (unat (last_seqno c)) ..< Suc (min (unat (last_seqno c) + n) (2 ^ 32 - 1))]"
proof (induction n arbitrary: c)
  case (Suc n)
  show ?case
  proof (cases "last_seqno c = 0xFFFFFFFF")
    case True
    then show ?thesis by (simp add: next_seqno_def)
  next
    case False
    then have "unat (last_seqno c) \<noteq> unat (0xFFFFFFFF :: u32)" by (simp add: word_unat_eq_iff)
    then have lt: "unat (last_seqno c) < 2 ^ 32 - 1" using unsigned_less [of "last_seqno c", where 'a = nat] by simp
    then have "last_seqno c < 0xFFFFFFFF" by (simp add: word_less_nat_alt)
    then have inc: "unat (last_seqno c + 1) = Suc (unat (last_seqno c))" by (rule unat_increment)
    show ?thesis
      using Suc.IH [of "c\<lparr>last_seqno := last_seqno c + 1\<rparr>"] Suc.prems False lt
      by (simp add: next_seqno_def inc upt_conv_Cons del: upt_Suc)
  qed
qed simp

text \<open>
  An outbound context numbers its packets 1, 2, 3, \<dots> and stops for good after \<open>2^32 - 1\<close>
  packets: the number never wraps around, so a receiver is never asked to accept a number twice.
\<close>

lemma outbound_numbers_never_wrap:
  "map unat (send_all n (esp_context_create False)) = [1 ..< Suc (min n (2 ^ 32 - 1))]"
  using send_all_numbers [of "esp_context_create False" n] by (simp add: esp_context_create_def)

end
