(* ===== verification/Esp_Packet.thy ===== *)
theory Esp_Packet
  imports Ip_Packet Esp_Replay
begin

text \<open>
  ESP packets, \<^verbatim>\<open>src/src/libipsec/esp_packet.c\<close>: parsing, decryption with the checks of the replay window
  and the padding, and encryption. The AEAD of an SA and its generator of initialisation vectors come
  from cryptographic plugins and are parameters. An SPI, which the code keeps in network order, is
  represented by its value.
\<close>

record aead_t =
  aead_block_size :: nat
  aead_iv_size :: nat
  aead_icv_size :: nat
  aead_encrypt :: "bytes \<Rightarrow> bytes \<Rightarrow> bytes \<Rightarrow> bytes option"
  aead_decrypt :: "bytes \<Rightarrow> bytes \<Rightarrow> bytes \<Rightarrow> bytes option"
  aead_iv_gen :: "(u32 \<Rightarrow> nat \<Rightarrow> bytes option) option"

record esp_packet_t =
  ep_src :: host_t
  ep_dst :: host_t
  ep_data :: bytes
  ep_payload :: "ip_packet_t option"
  ep_next_header :: u8

definition esp_packet_create_from_packet :: "host_t \<Rightarrow> host_t \<Rightarrow> bytes \<Rightarrow> esp_packet_t" where
  "esp_packet_create_from_packet src dst data =
     \<lparr>ep_src = src, ep_dst = dst, ep_data = data, ep_payload = None, ep_next_header = IPPROTO_NONE\<rparr>"

definition esp_packet_create_from_payload :: "host_t \<Rightarrow> host_t \<Rightarrow> ip_packet_t option \<Rightarrow> esp_packet_t" where
  "esp_packet_create_from_payload src dst payload =
     (esp_packet_create_from_packet src dst [])
       \<lparr>ep_payload := payload,
        ep_next_header := (case payload of
            Some p \<Rightarrow> if ip_version p = 4 then IPPROTO_IPIP else IPPROTO_IPV6
          | None \<Rightarrow> IPPROTO_NONE)\<rparr>"

definition parse_header :: "esp_packet_t \<Rightarrow> u32 option" where
  "parse_header this =
     do { (spi, r) \<leftarrow> read_uint32_internal (ep_data this) False;
          (seq, r) \<leftarrow> read_uint32_internal r False;
          Some spi }"

section \<open>Decryption\<close>

fun check_padding_from :: "nat \<Rightarrow> bytes \<Rightarrow> bool" where
  "check_padding_from i [] = True"
| "check_padding_from i (b # bs) = (if b \<noteq> of_nat (i + 1) then False else check_padding_from (Suc i) bs)"

definition check_padding :: "bytes \<Rightarrow> bool" where
  "check_padding padding = check_padding_from 0 padding"

definition remove_padding :: "esp_packet_t \<Rightarrow> bytes \<Rightarrow> esp_packet_t option" where
  "remove_padding this plaintext =
     do { (next_header, r) \<leftarrow> read_uint8_internal plaintext True;
          (pad_length, r) \<leftarrow> read_uint8_internal r True;
          (padding, r) \<leftarrow> read_data_internal r (unat pad_length) True;
          if \<not> check_padding padding then None
          else do { payload \<leftarrow> ip_packet_create r;
                    Some (this\<lparr>ep_payload := Some payload, ep_next_header := next_header\<rparr>) } }"

text \<open>The fields of the packet: sequence number, IV, ciphertext and ICV.\<close>

definition esp_fields :: "aead_t \<Rightarrow> bytes \<Rightarrow> (u32 \<times> bytes \<times> bytes \<times> bytes) option" where
  "esp_fields aead data =
     do { (spi, r) \<leftarrow> read_uint32_internal data False;
          (seq, r) \<leftarrow> read_uint32_internal r False;
          (iv, r) \<leftarrow> read_data_internal r (aead_iv_size aead) False;
          (icv, r) \<leftarrow> read_data_internal r (aead_icv_size aead) True;
          if length r mod aead_block_size aead \<noteq> 0 then None else Some (seq, iv, r, icv) }"

definition decrypt :: "esp_packet_t \<Rightarrow> aead_t \<Rightarrow> esp_context_t \<Rightarrow> status_t \<times> esp_packet_t \<times> esp_context_t" where
  "decrypt this aead ctx =
     (let this = this\<lparr>ep_payload := None\<rparr>; data = ep_data this
      in case esp_fields aead data of
        None \<Rightarrow> (PARSE_ERROR, this, ctx)
      | Some (seq, iv, ciphertext, icv) \<Rightarrow>
          if \<not> verify_seqno ctx seq then (VERIFY_ERROR, this, ctx)
          else case aead_decrypt aead (ciphertext @ icv) (take 8 data) iv of
              None \<Rightarrow> (FAILED, this, ctx)
            | Some plaintext \<Rightarrow>
                let ctx = set_authenticated_seqno ctx seq
                in case remove_padding this plaintext of
                     None \<Rightarrow> (PARSE_ERROR, this, ctx)
                   | Some this \<Rightarrow> (SUCCESS, this, ctx))"

section \<open>Encryption\<close>

definition pad_len :: "nat \<Rightarrow> nat \<Rightarrow> nat" where
  "pad_len sz alignment =
     (let remainder = sz mod alignment in if remainder \<noteq> 0 then alignment - remainder else 0)"

definition generate_padding :: "nat \<Rightarrow> bytes" where
  "generate_padding n = map (\<lambda>i. of_nat (i + 1)) [0..<n]"

text \<open>Reading initialised bytes of a buffer; \<open>None\<close> if they are outside of it or not written yet.\<close>

definition load :: "u8 option list \<Rightarrow> nat \<Rightarrow> nat \<Rightarrow> bytes option" where
  "load b pos n =
     (if pos + n \<le> length b \<and> None \<notin> set (take n (drop pos b)) then Some (map the (take n (drop pos b)))
      else None)"

text \<open>Space reserved with \<^verbatim>\<open>skip\<close> and filled through the pointer it returns.\<close>

definition fill :: "bio_writer_t \<Rightarrow> bytes \<Rightarrow> bio_writer_t option" where
  "fill w bs =
     (let w' = skip w (length bs)
      in do { b \<leftarrow> store (w_buf w') (w_used w) bs; Some (w'\<lparr>w_buf := b\<rparr>) })"

definition padding_len :: "aead_t \<Rightarrow> nat \<Rightarrow> nat" where
  "padding_len aead plainlen =
     (let pad = pad_len plainlen (aead_block_size aead)
      in pad + pad_len (aead_iv_size aead + plainlen + pad) 4)"

text \<open>
  The packet is composed in a writer of exactly the size of the packet; pointers into its buffer (IV,
  padding, plaintext, AAD) are used after later writes, which is only possible while the buffer is not
  reallocated. A reallocation, like any access outside of the buffer, makes the result \<open>None\<close>.
\<close>

definition esp_compose ::
  "aead_t \<Rightarrow> u32 \<Rightarrow> u32 \<Rightarrow> bytes \<Rightarrow> bytes \<Rightarrow> u8 \<Rightarrow> (bytes option) option" where
  "esp_compose aead spi seq iv payload next_header =
     (let pad = padding_len aead (length payload + 2);
          plainlen = length payload + 2 + pad;
          w0 = bio_writer_create (of_nat (8 + aead_iv_size aead + plainlen + aead_icv_size aead))
      in do { w \<leftarrow> write_uint32 w0 spi;
              w \<leftarrow> write_uint32 w seq;
              w \<leftarrow> fill w iv;
              let ct = w_used w;
              w \<leftarrow> write_data w payload;
              w \<leftarrow> fill w (generate_padding pad);
              w \<leftarrow> write_uint8 w (of_nat pad);
              w \<leftarrow> write_uint8 w next_header;
              let w = skip w (aead_icv_size aead);
              if length (w_buf w) \<noteq> length (w_buf w0) then None
              else do { plain \<leftarrow> load (w_buf w) ct plainlen;
                        aad \<leftarrow> load (w_buf w) 0 8;
                        iv \<leftarrow> load (w_buf w) 8 (length iv);
                        case aead_encrypt aead plain aad iv of
                          None \<Rightarrow> Some None
                        | Some c \<Rightarrow> do { b \<leftarrow> store (w_buf w) ct c;
                                         data \<leftarrow> load b 0 (w_used w);
                                         Some (Some data) } } })"

definition encrypt ::
  "esp_packet_t \<Rightarrow> aead_t \<Rightarrow> esp_context_t \<Rightarrow> u32 \<Rightarrow> (status_t \<times> esp_packet_t \<times> esp_context_t) option" where
  "encrypt this aead ctx spi =
     (let this = this\<lparr>ep_data := []\<rparr>
      in case next_seqno ctx of
        None \<Rightarrow> Some (FAILED, this, ctx)
      | Some (seq, ctx) \<Rightarrow>
          (case aead_iv_gen aead of
             None \<Rightarrow> Some (NOT_FOUND, this, ctx)
           | Some get_iv \<Rightarrow>
               (let payload = (case ep_payload this of Some p \<Rightarrow> ip_encoding p | None \<Rightarrow> [])
                in case get_iv seq (aead_iv_size aead) of
                     None \<Rightarrow> Some (FAILED, this, ctx)
                   | Some iv \<Rightarrow>
                       do { r \<leftarrow> esp_compose aead spi seq iv payload (ep_next_header this);
                            case r of
                              None \<Rightarrow> Some (FAILED, this, ctx)
                            | Some data \<Rightarrow> Some (SUCCESS, this\<lparr>ep_data := data\<rparr>, ctx) })))"

definition extract_payload :: "esp_packet_t \<Rightarrow> ip_packet_t option \<times> esp_packet_t" where
  "extract_payload this = (ep_payload this, this\<lparr>ep_payload := None\<rparr>)"

section \<open>What the cryptographic parameters promise\<close>

text \<open>
  Of the AEAD: decryption with the same associated data and IV inverts encryption, the ICV is appended;
  generated IVs have the requested length.
  Of the block sizes and IV sizes: stream modes have blocks of one byte, block modes have blocks and IVs
  in multiples of four bytes.
\<close>

definition aead_correct :: "aead_t \<Rightarrow> bool" where
  "aead_correct a \<longleftrightarrow>
     (\<forall>pt aad iv ct. aead_encrypt a pt aad iv = Some ct \<longrightarrow>
        length ct = length pt + aead_icv_size a \<and> aead_decrypt a ct aad iv = Some pt) \<and>
     (\<forall>g s v. aead_iv_gen a = Some g \<longrightarrow> g s (aead_iv_size a) = Some v \<longrightarrow> length v = aead_iv_size a)"

definition aead_sizes :: "aead_t \<Rightarrow> bool" where
  "aead_sizes a \<longleftrightarrow> 0 < aead_block_size a \<and> aead_block_size a \<le> 252 \<and>
     (aead_block_size a = 1 \<or> 4 dvd aead_block_size a \<and> 4 dvd aead_iv_size a)"

section \<open>The writer of a packet\<close>

definition exact_writer :: "bio_writer_t \<Rightarrow> bytes \<Rightarrow> nat \<Rightarrow> bool" where
  "exact_writer w bs n \<longleftrightarrow> w_buf w = map Some bs @ replicate n None \<and> w_used w = length bs"

lemma exact_create: "exact_writer (bio_writer_create n) [] (unat n)"
  by (simp add: exact_writer_def bio_writer_create_def)

lemma exact_write:
  assumes "exact_writer w bs n" "length x \<le> n"
  shows "\<exists>w'. write_bytes w x = Some w' \<and> exact_writer w' (bs @ x) (n - length x)"
  using assms by (auto simp: exact_writer_def write_bytes_def increase_def store_def Let_def)

lemma fill_write: "fill w bs = write_bytes w bs"
proof -
  let ?i = "increase w (length bs)"
  have "w_used ?i = w_used w" by (simp add: increase_def)
  then show ?thesis by (cases "store (w_buf ?i) (w_used w) bs") (simp_all add: fill_def write_bytes_def skip_def Let_def)
qed

lemma exact_skip:
  assumes "exact_writer w bs n" "k \<le> n"
  shows "w_buf (skip w k) = map Some bs @ replicate n None" "w_used (skip w k) = length bs + k"
  using assms by (auto simp: exact_writer_def skip_def increase_def Let_def)

lemma load_written: "pos + n \<le> length bs \<Longrightarrow> load (map Some bs @ rest) pos n = Some (take n (drop pos bs))"
proof -
  assume "pos + n \<le> length bs"
  then have "take n (drop pos (map Some bs @ rest)) = map Some (take n (drop pos bs))"
    by (simp add: drop_map take_map)
  then show ?thesis using \<open>pos + n \<le> length bs\<close> by (simp add: load_def comp_def)
qed

lemmas writes = write_uint32_def write_uint8_def write_data_def fill_write

lemma esp_compose_spec:
  assumes iv: "length iv = aead_iv_size a"
    and small: "8 + aead_iv_size a + (length payload + 2 + padding_len a (length payload + 2)) + aead_icv_size a < 2 ^ 32"
    and ct: "\<And>ct. aead_encrypt a (payload @ generate_padding (padding_len a (length payload + 2)) @
        [of_nat (padding_len a (length payload + 2)), nh]) (be_encode 4 (unat spi) @ be_encode 4 (unat seq)) iv = Some ct \<Longrightarrow>
        length ct = length payload + 2 + padding_len a (length payload + 2) + aead_icv_size a"
  shows "esp_compose a spi seq iv payload nh =
    Some (map_option (\<lambda>ct. be_encode 4 (unat spi) @ be_encode 4 (unat seq) @ iv @ ct)
      (aead_encrypt a (payload @ generate_padding (padding_len a (length payload + 2)) @
        [of_nat (padding_len a (length payload + 2)), nh]) (be_encode 4 (unat spi) @ be_encode 4 (unat seq)) iv))"
proof -
  define pad where "pad = padding_len a (length payload + 2)"
  define N where "N = 8 + aead_iv_size a + (length payload + 2 + pad) + aead_icv_size a"
  let ?h = "be_encode 4 (unat spi) @ be_encode 4 (unat seq)"
  let ?plain = "payload @ generate_padding pad @ [of_nat pad, nh]"
  let ?first = "bio_writer_create (of_nat N)"
  have "N < 256 ^ 4" using small by (simp add: N_def pad_def)
  then have N: "unat (of_nat N :: u32) = N" by (rule unat_of_nat_u32)
  have gen: "length (generate_padding pad) = pad" by (simp add: generate_padding_def)
  have w0: "exact_writer ?first [] N" using exact_create [of "of_nat N"] by (simp add: N)
  obtain w1 where w1: "write_bytes ?first (be_encode 4 (unat spi)) = Some w1" "exact_writer w1 (be_encode 4 (unat spi)) (N - 4)"
    using exact_write [OF w0, of "be_encode 4 (unat spi)"] by (auto simp: N_def)
  obtain w2 where w2: "write_bytes w1 (be_encode 4 (unat seq)) = Some w2" "exact_writer w2 ?h (N - 8)"
    using exact_write [OF w1(2), of "be_encode 4 (unat seq)"] by (auto simp: N_def)
  obtain w3 where w3: "write_bytes w2 iv = Some w3" "exact_writer w3 (?h @ iv) (N - 8 - aead_iv_size a)"
    using exact_write [OF w2(2), of iv] iv by (auto simp: N_def)
  obtain w4 where w4: "write_bytes w3 payload = Some w4" "exact_writer w4 (?h @ iv @ payload) (2 + pad + aead_icv_size a)"
    using exact_write [OF w3(2), of payload] by (auto simp: N_def)
  obtain w5 where w5: "write_bytes w4 (generate_padding pad) = Some w5"
      "exact_writer w5 (?h @ iv @ payload @ generate_padding pad) (2 + aead_icv_size a)"
    using exact_write [OF w4(2), of "generate_padding pad"] gen by (auto simp: N_def)
  obtain w6 where w6: "write_bytes w5 [of_nat pad] = Some w6"
      "exact_writer w6 (?h @ iv @ payload @ generate_padding pad @ [of_nat pad]) (1 + aead_icv_size a)"
    using exact_write [OF w5(2), of "[of_nat pad]"] by (auto simp: N_def)
  obtain w7 where w7: "write_bytes w6 [nh] = Some w7" "exact_writer w7 (?h @ iv @ ?plain) (aead_icv_size a)"
    using exact_write [OF w6(2), of "[nh]"] by (auto simp: N_def)
  let ?w = "skip w7 (aead_icv_size a)"
  have b: "w_buf ?w = map Some (?h @ iv @ ?plain) @ replicate (aead_icv_size a) None"
    "w_used ?w = N" using exact_skip [OF w7(2)] iv gen by (simp_all add: N_def)
  have used: "w_used w3 = 8 + length iv" using w3(2) by (simp add: exact_writer_def)
  have len: "length (w_buf ?w) = length (w_buf ?first)"
    unfolding b using w0 iv gen by (simp add: exact_writer_def N_def)
  have ld: "load (w_buf ?w) i n = Some (take n (drop i (?h @ iv @ ?plain)))" if "i + n \<le> length (?h @ iv @ ?plain)" for i n
    unfolding b by (rule load_written [OF that])
  have loads: "load (w_buf ?w) (8 + length iv) (length payload + 2 + pad) = Some ?plain"
    "load (w_buf ?w) 0 8 = Some ?h" "load (w_buf ?w) 8 (length iv) = Some iv"
    by (subst ld, use gen in simp, use gen in simp)+
  have fin: "do { b \<leftarrow> store (w_buf ?w) (8 + length iv) c; data \<leftarrow> load b 0 (w_used ?w); Some (Some data) } =
      Some (Some (?h @ iv @ c))" if "aead_encrypt a ?plain ?h iv = Some c" for c
  proof -
    have c: "length c = length payload + 2 + pad + aead_icv_size a" by (rule ct [folded pad_def, OF that])
    then have "store (w_buf ?w) (8 + length iv) c = Some (map Some (?h @ iv @ c))"
      unfolding b by (simp add: store_def gen)
    then show ?thesis using load_written [of 0 N "?h @ iv @ c" "[]"] c iv b(2) by (simp add: N_def)
  qed
  have "esp_compose a spi seq iv payload nh =
      (case aead_encrypt a ?plain ?h iv of None \<Rightarrow> Some None
       | Some c \<Rightarrow> do { b \<leftarrow> store (w_buf ?w) (8 + length iv) c; data \<leftarrow> load b 0 (w_used ?w); Some (Some data) })"
    unfolding esp_compose_def Let_def pad_def [symmetric] N_def [symmetric] writes w1(1) w2(1) w3(1) w4(1) w5(1) w6(1) w7(1)
      Option.bind.simps used loads by (rule if_not_P) (use len in blast)
  then show ?thesis unfolding pad_def [symmetric] using fin by (auto split: option.split)
qed

section \<open>Padding\<close>

lemma pad_len_spec: "0 < b \<Longrightarrow> (n + pad_len n b) mod b = 0 \<and> pad_len n b < b"
proof -
  assume b: "0 < b"
  have "(n + (b - n mod b)) mod b = 0" if "n mod b \<noteq> 0"
  proof -
    have "n + (b - n mod b) = n div b * b + b"
      using mod_less_divisor [OF b, of n] div_mult_mod_eq [of n b] by linarith
    then show ?thesis by simp
  qed
  then show ?thesis using b by (auto simp: pad_len_def Let_def)
qed

lemma padding_len_spec:
  assumes "aead_sizes a"
  shows "(n + padding_len a n) mod aead_block_size a = 0" "padding_len a n < 256"
proof -
  let ?b = "aead_block_size a" and ?p = "pad_len n (aead_block_size a)"
  have b: "0 < ?b" "?b \<le> 252" using assms by (simp_all add: aead_sizes_def)
  note p = pad_len_spec [OF b(1), of n]
  let ?q = "pad_len (aead_iv_size a + n + ?p) 4"
  have q: "?q < 4" using pad_len_spec [of 4 "aead_iv_size a + n + ?p"] by simp
  then show "padding_len a n < 256" using p b by (simp add: padding_len_def Let_def)
  show "(n + padding_len a n) mod ?b = 0"
  proof (cases "?b = 1")
    case False
    then have "4 dvd ?b" "4 dvd aead_iv_size a" using assms by (auto simp: aead_sizes_def)
    moreover have "?b dvd n + ?p" using p by (simp add: mod_eq_0_iff_dvd)
    ultimately have "4 dvd aead_iv_size a + n + ?p" by (metis add.assoc dvd_add dvd_trans)
    then have "?q = 0" by (simp add: pad_len_def Let_def)
    then show ?thesis using p by (simp add: padding_len_def Let_def)
  qed simp
qed

lemma check_generated: "check_padding_from k (map (\<lambda>i. of_nat (i + 1)) [k..<k + n])"
proof (induction n arbitrary: k)
  case (Suc n)
  have "[k..<k + Suc n] = k # [Suc k..<Suc k + n]" by (simp add: upt_conv_Cons del: upt_Suc)
  then show ?case using Suc [of "Suc k"] by (simp del: upt_Suc)
qed simp

lemma read_data_back [codec_simps]: "read_data_internal (rest @ bs) (length bs) True = Some (bs, rest)"
  by (simp add: read_data_internal_def get_ptr_end_def skip_back)

lemma remove_padding_generated:
  assumes "pad < 256" "ip_packet_create enc = Some p"
  shows "remove_padding this (enc @ generate_padding pad @ [of_nat pad, nh]) =
    Some (this\<lparr>ep_payload := Some p, ep_next_header := nh\<rparr>)"
proof -
  have "check_padding (generate_padding pad)"
    using check_generated [of 0 pad] by (simp add: check_padding_def generate_padding_def)
  moreover have "read_data_internal (enc @ generate_padding pad) pad True = Some (generate_padding pad, enc)"
    using read_data_back [of enc "generate_padding pad"] by (simp add: generate_padding_def)
  moreover have "unat (of_nat pad :: u8) = pad" using assms(1) by (simp add: unsigned_of_nat take_bit_nat_eq_self)
  ultimately show ?thesis
    using read_back(1) [of "enc @ generate_padding pad @ [of_nat pad]" nh]
      read_back(1) [of "enc @ generate_padding pad" "of_nat pad"] assms(2)
    by (simp add: remove_padding_def)
qed

section \<open>Properties\<close>

lemma esp_fields_composed:
  assumes "length iv = aead_iv_size a" "length ct = n + aead_icv_size a" "n mod aead_block_size a = 0"
  shows "esp_fields a (be_encode 4 (unat spi) @ be_encode 4 (unat seq) @ iv @ ct) = Some (seq, iv, take n ct, drop n ct)"
proof -
  have "read_data_internal ct (aead_icv_size a) True = Some (drop n ct, take n ct)"
    using read_data_back [of "take n ct" "drop n ct"] assms(2) by simp
  moreover have "read_data_internal (iv @ ct) (aead_iv_size a) False = Some (iv, ct)"
    using read_data_front [of iv ct] assms(1) by simp
  ultimately show ?thesis
    using assms unfolding esp_fields_def read_front unat_mod_self Option.bind.simps prod.case by simp
qed

definition aead_total :: "aead_t \<Rightarrow> bool" where
  "aead_total a \<longleftrightarrow> (\<exists>g. aead_iv_gen a = Some g \<and> (\<forall>s. g s (aead_iv_size a) \<noteq> None)) \<and>
     (\<forall>pt aad iv. aead_encrypt a pt aad iv \<noteq> None)"

lemma encrypt_decrypt:
  assumes "aead_correct a" "aead_sizes a"
    and p: "ip_packet_create (ip_encoding p) = Some p"
    and small: "length (ip_encoding p) + aead_iv_size a + aead_icv_size a < 2 ^ 31"
    and seq: "next_seqno c = Some (seq, c1)" and fresh: "verify_seqno r seq"
  shows "\<exists>st pkt. encrypt (esp_packet_create_from_payload src dst (Some p)) a c spi = Some (st, pkt, c1) \<and> (aead_total a \<longrightarrow> st = SUCCESS) \<and>
    ep_src pkt = src \<and> ep_dst pkt = dst \<and>
    (st = SUCCESS \<longrightarrow>
      parse_header (esp_packet_create_from_packet src dst (ep_data pkt)) = Some spi \<and>
      (\<exists>q. decrypt (esp_packet_create_from_packet src dst (ep_data pkt)) a r = (SUCCESS, q, set_authenticated_seqno r seq) \<and>
        ep_payload q = Some p \<and> ep_next_header q = (if ip_version p = 4 then IPPROTO_IPIP else IPPROTO_IPV6)))"
proof -
  let ?nh = "if ip_version p = 4 then IPPROTO_IPIP else IPPROTO_IPV6"
  let ?t = "esp_packet_create_from_payload src dst (Some p)"
  let ?enc = "ip_encoding p" and ?pad = "padding_len a (length (ip_encoding p) + 2)"
  let ?h = "be_encode 4 (unat spi) @ be_encode 4 (unat seq)"
  let ?plain = "?enc @ generate_padding ?pad @ [of_nat ?pad, ?nh]"
  have t: "ep_payload ?t = Some p" "ep_next_header ?t = ?nh"
    by (simp_all add: esp_packet_create_from_payload_def)
  note pad = padding_len_spec [OF assms(2), of "length ?enc + 2"]
  show ?thesis
  proof (cases "\<exists>g v. aead_iv_gen a = Some g \<and> g seq (aead_iv_size a) = Some v")
    case False
    then have "\<not> aead_total a" by (auto simp: aead_total_def)
    moreover have "ep_src ?t = src" "ep_dst ?t = dst"
      by (simp_all add: esp_packet_create_from_payload_def esp_packet_create_from_packet_def)
    ultimately show ?thesis using False by (auto simp: encrypt_def seq Let_def split: option.split)
  next
    case True
    then obtain g v where g: "aead_iv_gen a = Some g" "g seq (aead_iv_size a) = Some v" by blast
    have v: "length v = aead_iv_size a" using assms(1) g by (auto simp: aead_correct_def)
    have lens: "length ?plain = length ?enc + 2 + ?pad" by (simp add: generate_padding_def)
    have comp: "esp_compose a spi seq v ?enc ?nh =
        Some (map_option (\<lambda>ct. ?h @ v @ ct) (aead_encrypt a ?plain ?h v))"
      using esp_compose_spec [where nh = ?nh and spi = spi and seq = seq and payload = ?enc, OF v] small pad(2) assms(1) lens
      unfolding aead_correct_def append_assoc by fastforce
    have e: "encrypt ?t a c spi = (case aead_encrypt a ?plain ?h v of
        None \<Rightarrow> Some (FAILED, ?t\<lparr>ep_data := []\<rparr>, c1)
      | Some ct \<Rightarrow> Some (SUCCESS, ?t\<lparr>ep_data := ?h @ v @ ct\<rparr>, c1))"
      using comp t by (simp add: encrypt_def seq g Let_def split: option.split)
    show ?thesis
    proof (cases "aead_encrypt a ?plain ?h v")
      case None
      then have "\<not> aead_total a" unfolding aead_total_def by blast
      then show ?thesis using e None by (simp add: esp_packet_create_from_payload_def esp_packet_create_from_packet_def)
    next
      case (Some ct)
      let ?n = "length ?enc + 2 + ?pad"
      have ct: "length ct = ?n + aead_icv_size a" "aead_decrypt a ct ?h v = Some ?plain"
        using assms(1) Some lens by (auto simp: aead_correct_def)
      let ?q = "esp_packet_create_from_packet src dst (?h @ v @ ct)"
      have f: "esp_fields a (?h @ v @ ct) = Some (seq, v, take ?n ct, drop ?n ct)"
        using esp_fields_composed [OF v ct(1) pad(1)] by simp
      have "decrypt ?q a r = (SUCCESS, ?q\<lparr>ep_payload := Some p, ep_next_header := ?nh\<rparr>, set_authenticated_seqno r seq)"
        using f fresh ct(2) remove_padding_generated [OF pad(2) p]
        by (simp add: decrypt_def esp_packet_create_from_packet_def Let_def)
      moreover have "parse_header ?q = Some spi"
        unfolding parse_header_def esp_packet_create_from_packet_def esp_packet_t.simps append_assoc read_front
          unat_mod_self Option.bind.simps prod.case ..
      moreover have "ep_src ?t = src" "ep_dst ?t = dst"
        by (simp_all add: esp_packet_create_from_payload_def esp_packet_create_from_packet_def)
      ultimately show ?thesis using e Some by simp
    qed
  qed
qed


text \<open>
  C14. ESP round trip: encapsulating an IP packet never leaves the buffer of the writer or uses a stale pointer
  into it, and when it succeeds, the peer with the same keys that accepts the sequence number finds the SPI,
  decrypts the packet, gets the very same IP packet and next header, and has recorded the number.
\<close>

theorem esp_roundtrip:
  assumes "aead_correct a" "aead_sizes a"
    and p: "ip_packet_create (ip_encoding p) = Some p"
    and small: "length (ip_encoding p) + aead_iv_size a + aead_icv_size a < 2 ^ 31"
    and seq: "next_seqno c = Some (seq, c1)" and fresh: "verify_seqno r seq"
  shows "\<exists>st pkt. encrypt (esp_packet_create_from_payload src dst (Some p)) a c spi = Some (st, pkt, c1) \<and>
    (st = SUCCESS \<longrightarrow>
      parse_header (esp_packet_create_from_packet src dst (ep_data pkt)) = Some spi \<and>
      (\<exists>q. decrypt (esp_packet_create_from_packet src dst (ep_data pkt)) a r = (SUCCESS, q, set_authenticated_seqno r seq) \<and>
        ep_payload q = Some p \<and> ep_next_header q = (if ip_version p = 4 then IPPROTO_IPIP else IPPROTO_IPV6)))"
  using encrypt_decrypt [where a = a and p = p and c = c and r = r and src = src and dst = dst and spi = spi, OF assms]
  by blast

text \<open>An AEAD that copies the plaintext and appends a one-byte ICV, to show that the assumptions can hold.\<close>

definition copy_aead :: aead_t where
  "copy_aead = \<lparr>aead_block_size = 1, aead_iv_size = 4, aead_icv_size = 1,
     aead_encrypt = (\<lambda>pt aad iv. Some (pt @ [7])), aead_decrypt = (\<lambda>ct aad iv. Some (butlast ct)),
     aead_iv_gen = Some (\<lambda>s n. Some (replicate n 0))\<rparr>"

lemma copy_aead_ok: "aead_correct copy_aead" "aead_sizes copy_aead"
  by (simp_all add: aead_correct_def aead_sizes_def copy_aead_def)

theorem esp_roundtrip_witness:
  "\<exists>st pkt. encrypt (esp_packet_create_from_payload (ip_src small_packet) (ip_dst small_packet) (Some small_packet)) copy_aead
      (esp_context_create False) 0x1234 = Some (st, pkt, (esp_context_create False)\<lparr>last_seqno := 1\<rparr>) \<and>
    (st = SUCCESS \<longrightarrow> (\<exists>q. decrypt (esp_packet_create_from_packet (ip_src small_packet) (ip_dst small_packet) (ep_data pkt))
        copy_aead (esp_context_create True) = (SUCCESS, q, set_authenticated_seqno (esp_context_create True) 1) \<and>
      ep_payload q = Some small_packet))"
proof -
  have "next_seqno (esp_context_create False) = Some (1, (esp_context_create False)\<lparr>last_seqno := 1\<rparr>)"
    "verify_seqno (esp_context_create True) 1"
    by (simp_all add: next_seqno_def verify_seqno_def esp_context_create_def)
  moreover have "length (ip_encoding small_packet) + aead_iv_size copy_aead + aead_icv_size copy_aead < 2 ^ 31"
    by (simp add: small_packet_def copy_aead_def)
  ultimately show ?thesis
    using esp_roundtrip [OF copy_aead_ok, of small_packet "esp_context_create False" 1 _ "esp_context_create True"
        "ip_src small_packet" "ip_dst small_packet" "0x1234"] small_packet_parses
    by blast
qed

text \<open>
  Receiving packets one after another: the sequence numbers of those that are decrypted successfully.
\<close>

fun decrypt_all :: "aead_t \<Rightarrow> esp_context_t \<Rightarrow> esp_packet_t list \<Rightarrow> u32 list" where
  "decrypt_all a c [] = []"
| "decrypt_all a c (p # ps) =
     (case decrypt p a c of (st, q, c') \<Rightarrow>
        (if st = SUCCESS then [of_nat (be_decode (take 4 (drop 4 (ep_data p))))] else []) @ decrypt_all a c' ps)"

lemma esp_fields_seq: "esp_fields a data = Some (seq, iv, ct, icv) \<Longrightarrow> seq = of_nat (be_decode (take 4 (drop 4 data)))"
  by (auto simp: esp_fields_def read_uint32_internal_def get_ptr_end_def chunk_skip_end_def split: if_splits bind_splits)

lemma decrypt_context:
  assumes "decrypt p a c = (st, q, c')"
  obtains "st \<noteq> SUCCESS" "c' = c"
    | seq where "seq = of_nat (be_decode (take 4 (drop 4 (ep_data p))))" "verify_seqno c seq" "c' = set_authenticated_seqno c seq"
proof (cases "esp_fields a (ep_data p)")
  case None
  show thesis by (rule that(1)) (use assms None in \<open>simp_all add: decrypt_def Let_def split: if_splits\<close>)
next
  case (Some f)
  obtain seq iv ct icv where f: "f = (seq, iv, ct, icv)" by (cases f)
  note [simp] = decrypt_def Let_def Some f
  show thesis
  proof (cases "verify_seqno c seq \<and> aead_decrypt a (ct @ icv) (take 8 (ep_data p)) iv \<noteq> None")
    case True
    then have "c' = set_authenticated_seqno c seq" using assms by (auto split: option.splits)
    then show thesis using that(2) [of seq] esp_fields_seq [of a "ep_data p"] True Some f by simp
  next
    case False
    show thesis by (rule that(1)) (use assms False in \<open>auto split: if_splits\<close>)
  qed
qed

lemma decrypt_all_fresh:
  "represents c A \<Longrightarrow> distinct (decrypt_all a c ps) \<and> unat ` set (decrypt_all a c ps) \<inter> A = {}"
proof (induction ps arbitrary: c A)
  case (Cons p ps)
  obtain st q c' where d: "decrypt p a c = (st, q, c')" by (cases "decrypt p a c")
  from d show ?case
  proof (cases rule: decrypt_context)
    case 1
    then show ?thesis using Cons.IH [OF Cons.prems] d by simp
  next
    case (2 seq)
    have "unat seq \<notin> A" using verify_seqno_iff [OF Cons.prems] 2(2) by (simp add: replay_accepts_def)
    moreover have "represents c' (insert (unat seq) A)" using represents_accepted [OF Cons.prems 2(2)] 2(3) by simp
    note IH = Cons.IH [OF this]
    moreover have "seq \<notin> set (decrypt_all a c' ps)" using IH by blast
    ultimately show ?thesis using d 2(1) by auto
  qed
qed simp

text \<open>
  C13. Anti-replay of whole packets: whatever packets arrive, in whatever order, however often and however
  forged, and whatever the AEAD accepts, no two packets with one sequence number are decrypted
  successfully by an inbound context.
\<close>

theorem esp_no_replay: "distinct (decrypt_all a (esp_context_create True) ps)"
  using decrypt_all_fresh [OF represents_create] by blast

end
