(* ===== verification/Ipsec_Sa.thy ===== *)
theory Ipsec_Sa
  imports Esp_Packet
begin

text \<open>
  Security associations of user-space IPsec, \<^verbatim>\<open>src/src/libipsec/ipsec_sa.c\<close>, and their manager,
  \<^verbatim>\<open>src/src/libipsec/ipsec_sa_mgr.c\<close>. Entries of the manager have an identity \<open>e_ptr\<close> in place of their
  address. The mutex makes the code between two waits atomic; an operation that would have to wait for
  an entry in use has the result \<open>None\<close>. Waiting itself is the subject of \<^verbatim>\<open>Sa_Locking\<close>. Expirations,
  acquires and scheduled jobs are events.
\<close>

section \<open>Security associations\<close>

datatype ipsec_mode_t = MODE_NONE | MODE_TRANSPORT | MODE_TUNNEL | MODE_BEET | MODE_PASS | MODE_DROP

record lifetime_limit_t =
  lim_life :: u64
  lim_rekey :: u64

record lifetime_cfg_t =
  lt_time :: lifetime_limit_t
  lt_bytes :: lifetime_limit_t
  lt_packets :: lifetime_limit_t

record ipsec_sa_t =
  sa_spi :: u32
  sa_src :: host_t
  sa_dst :: host_t
  sa_protocol :: u8
  sa_reqid :: u32
  sa_lifetime :: lifetime_cfg_t
  sa_encap :: bool
  sa_inbound :: bool
  sa_esp_context :: esp_context_t
  sa_aead :: aead_t
  sa_use_time :: int
  sa_use_packets :: u64
  sa_use_bytes :: u64
  sa_soft_expired :: bool
  sa_hard_expired :: bool

datatype ipsec_event =
    Ev_Expire u32 bool
  | Ev_Acquire u32
  | Ev_Schedule nat u32 u32
  | Ev_Send esp_packet_t bool
  | Ev_Deliver ip_packet_t

text \<open>The algorithms are looked up by plugins: \<open>aead\<close> is their result for the given keys.\<close>

definition ipsec_sa_create ::
  "u32 \<Rightarrow> host_t \<Rightarrow> host_t \<Rightarrow> u8 \<Rightarrow> u32 \<Rightarrow> lifetime_cfg_t \<Rightarrow> aead_t option \<Rightarrow> ipsec_mode_t \<Rightarrow> bool \<Rightarrow> bool \<Rightarrow> bool \<Rightarrow>
   bool \<Rightarrow> ipsec_sa_t option" where
  "ipsec_sa_create spi src dst protocol reqid lifetime aead mode ipcomp encap esn inb =
     (if protocol \<noteq> IPPROTO_ESP then None
      else if esn then None
      else if ipcomp then None
      else if mode \<noteq> MODE_TUNNEL then None
      else case aead of
          None \<Rightarrow> None
        | Some a \<Rightarrow> Some \<lparr>sa_spi = spi, sa_src = src, sa_dst = dst, sa_protocol = protocol, sa_reqid = reqid,
            sa_lifetime = lifetime, sa_encap = encap, sa_inbound = inb, sa_esp_context = esp_context_create inb,
            sa_aead = a, sa_use_time = 0, sa_use_packets = 0, sa_use_bytes = 0, sa_soft_expired = False,
            sa_hard_expired = False\<rparr>)"

definition expire :: "ipsec_sa_t \<Rightarrow> bool \<Rightarrow> ipsec_sa_t \<times> ipsec_event list" where
  "expire this hard =
     (if hard
      then if \<not> sa_hard_expired this
           then (this\<lparr>sa_hard_expired := True\<rparr>, [Ev_Expire (sa_spi this) True]) else (this, [])
      else if \<not> sa_hard_expired this \<and> \<not> sa_soft_expired this
           then (this\<lparr>sa_soft_expired := True\<rparr>, [Ev_Expire (sa_spi this) False]) else (this, []))"

definition update_usestats :: "ipsec_sa_t \<Rightarrow> int \<Rightarrow> u32 \<Rightarrow> ipsec_sa_t \<times> ipsec_event list" where
  "update_usestats this now nbytes =
     (let this = this\<lparr>sa_use_time := now, sa_use_packets := sa_use_packets this + 1,
                      sa_use_bytes := sa_use_bytes this + ucast nbytes\<rparr>;
          reached = (\<lambda>limit n. limit \<noteq> 0 \<and> n \<ge> limit);
          lt = sa_lifetime this
      in if reached (lim_life (lt_packets lt)) (sa_use_packets this) then expire this True
         else if reached (lim_life (lt_bytes lt)) (sa_use_bytes this) then expire this True
         else if reached (lim_rekey (lt_packets lt)) (sa_use_packets this) then expire this False
         else if reached (lim_rekey (lt_bytes lt)) (sa_use_bytes this) then expire this False
         else (this, []))"

definition match_by_spi_dst :: "ipsec_sa_t \<Rightarrow> u32 \<Rightarrow> host_t \<Rightarrow> bool" where
  "match_by_spi_dst this spi dst \<longleftrightarrow> sa_spi this = spi \<and> ip_equals (sa_dst this) dst \<and> \<not> sa_hard_expired this"

definition match_by_spi_src_dst :: "ipsec_sa_t \<Rightarrow> u32 \<Rightarrow> host_t \<Rightarrow> host_t \<Rightarrow> bool" where
  "match_by_spi_src_dst this spi src dst \<longleftrightarrow>
     sa_spi this = spi \<and> ip_equals (sa_src this) src \<and> ip_equals (sa_dst this) dst"

definition match_by_reqid :: "ipsec_sa_t \<Rightarrow> u32 \<Rightarrow> bool \<Rightarrow> bool" where
  "match_by_reqid this reqid inb \<longleftrightarrow> sa_reqid this = reqid \<and> sa_inbound this = inb \<and> \<not> sa_hard_expired this"

section \<open>The manager\<close>

record ipsec_sa_entry_t =
  e_ptr :: nat
  e_sa :: ipsec_sa_t
  e_locked :: bool
  e_awaits_deletion :: bool

record ipsec_sa_mgr_t =
  m_sas :: "ipsec_sa_entry_t list"
  m_allocated_spis :: "u32 list"
  m_acquires :: "u32 \<Rightarrow> int option"
  m_next_ptr :: nat

definition ipsec_sa_mgr_create :: ipsec_sa_mgr_t where
  "ipsec_sa_mgr_create = \<lparr>m_sas = [], m_allocated_spis = [], m_acquires = (\<lambda>_. None), m_next_ptr = 0\<rparr>"

definition put_entry :: "ipsec_sa_mgr_t \<Rightarrow> ipsec_sa_entry_t \<Rightarrow> ipsec_sa_mgr_t" where
  "put_entry this entry = this\<lparr>m_sas := map (\<lambda>e. if e_ptr e = e_ptr entry then entry else e) (m_sas this)\<rparr>"

definition delete_entry :: "ipsec_sa_mgr_t \<Rightarrow> nat \<Rightarrow> ipsec_sa_mgr_t" where
  "delete_entry this ptr = this\<lparr>m_sas := filter (\<lambda>e. e_ptr e \<noteq> ptr) (m_sas this)\<rparr>"

definition wait_for_entry :: "ipsec_sa_entry_t \<Rightarrow> (bool \<times> ipsec_sa_entry_t) option" where
  "wait_for_entry entry =
     (if e_locked entry \<and> \<not> e_awaits_deletion entry then None
      else if e_awaits_deletion entry then Some (False, entry)
      else Some (True, entry\<lparr>e_locked := True\<rparr>))"

definition wait_remove_entry :: "ipsec_sa_entry_t \<Rightarrow> (bool \<times> ipsec_sa_entry_t) option" where
  "wait_remove_entry entry =
     (if e_awaits_deletion entry then Some (False, entry)
      else if e_locked entry then None
      else Some (True, entry\<lparr>e_awaits_deletion := True\<rparr>))"

text \<open>Expiration of the lifetime in time: the job, and what it does when it runs.\<close>

definition schedule_expiration :: "ipsec_sa_entry_t \<Rightarrow> ipsec_event list" where
  "schedule_expiration entry =
     (let t = lt_time (sa_lifetime (e_sa entry))
      in if lim_life t = 0 then []
         else if lim_life t \<le> lim_rekey t \<or> lim_rekey t = 0
         then [Ev_Schedule (e_ptr entry) 0 (ucast (lim_life t))]
         else [Ev_Schedule (e_ptr entry) (ucast (lim_life t - lim_rekey t)) (ucast (lim_rekey t))])"

definition sa_expired :: "ipsec_sa_mgr_t \<Rightarrow> nat \<Rightarrow> u32 \<Rightarrow> u32 \<Rightarrow> (ipsec_sa_mgr_t \<times> ipsec_event list) option" where
  "sa_expired this ptr spi hard_offset =
     (case List.find (\<lambda>e. e_ptr e = ptr) (m_sas this) of
        None \<Rightarrow> Some (this, [])
      | Some entry \<Rightarrow>
          if sa_spi (e_sa entry) \<noteq> spi then Some (this, [])
          else
            let (sa, evs) = expire (e_sa entry) (hard_offset = 0);
                entry = entry\<lparr>e_sa := sa\<rparr>;
                this = put_entry this entry
            in if hard_offset \<noteq> 0 then Some (this, evs @ [Ev_Schedule ptr 0 hard_offset])
               else do { (removed, entry) \<leftarrow> wait_remove_entry entry;
                         Some (if removed then delete_entry this ptr else this, evs) })"

definition allocate_spi :: "ipsec_sa_mgr_t \<Rightarrow> u32 \<Rightarrow> ipsec_sa_mgr_t option" where
  "allocate_spi this spi =
     (if spi \<in> set (m_allocated_spis this) \<or> (\<exists>e\<in>set (m_sas this). sa_spi (e_sa e) = spi \<and> sa_inbound (e_sa e))
      then None else Some (this\<lparr>m_allocated_spis := spi # m_allocated_spis this\<rparr>))"

text \<open>
  The loop of \<^verbatim>\<open>get_spi\<close> over the values the random number generator returns, \<open>None\<close> for a failure of
  the generator; \<open>None\<close> as result when no allocatable value is among them.
\<close>

fun get_spi_loop :: "ipsec_sa_mgr_t \<Rightarrow> u32 \<Rightarrow> u32 \<Rightarrow> u32 option list \<Rightarrow> (u32 option \<times> ipsec_sa_mgr_t) option" where
  "get_spi_loop this spi_min spi_max [] = None"
| "get_spi_loop this spi_min spi_max (None # rng) = Some (None, this)"
| "get_spi_loop this spi_min spi_max (Some r # rng) =
     (let spi = spi_min + r mod (spi_max - spi_min + 1)
      in case allocate_spi this spi of
           Some this' \<Rightarrow> Some (Some spi, this')
         | None \<Rightarrow> get_spi_loop this spi_min spi_max rng)"

definition get_spi :: "ipsec_sa_mgr_t \<Rightarrow> u32 \<Rightarrow> u32 \<Rightarrow> u32 option list \<Rightarrow> (status_t \<times> u32 \<times> ipsec_sa_mgr_t) option" where
  "get_spi this spi_min spi_max rng =
     (let (lo, hi) = (if spi_min > spi_max then (spi_max, spi_min) else (spi_min, spi_max));
          lo = max lo 0x100; hi = max hi 0x100
      in do { (r, this) \<leftarrow> get_spi_loop this lo hi rng;
              Some (case r of Some spi \<Rightarrow> (SUCCESS, spi, this) | None \<Rightarrow> (FAILED, 0, this)) })"

definition add_sa ::
  "ipsec_sa_mgr_t \<Rightarrow> host_t \<Rightarrow> host_t \<Rightarrow> u32 \<Rightarrow> u8 \<Rightarrow> u32 \<Rightarrow> lifetime_cfg_t \<Rightarrow> aead_t option \<Rightarrow> ipsec_mode_t \<Rightarrow> bool \<Rightarrow>
   bool \<Rightarrow> bool \<Rightarrow> bool \<Rightarrow> bool \<Rightarrow> status_t \<times> ipsec_sa_mgr_t \<times> ipsec_event list" where
  "add_sa this src dst spi protocol reqid lifetime aead mode ipcomp encap esn inb update =
     (case ipsec_sa_create spi src dst protocol reqid lifetime aead mode ipcomp encap esn inb of
        None \<Rightarrow> (FAILED, this, [])
      | Some sa_new \<Rightarrow>
          let this = (if update then this\<lparr>m_allocated_spis := filter (\<lambda>s. s \<noteq> spi) (m_allocated_spis this)\<rparr> else this);
              this = (if \<not> inb then this\<lparr>m_acquires := (m_acquires this)(reqid := None)\<rparr> else this)
          in if \<exists>e\<in>set (m_sas this). match_by_spi_src_dst (e_sa e) spi src dst then (FAILED, this, [])
             else let entry = \<lparr>e_ptr = m_next_ptr this, e_sa = sa_new, e_locked = False, e_awaits_deletion = False\<rparr>
                  in (SUCCESS, this\<lparr>m_sas := entry # m_sas this, m_next_ptr := Suc (m_next_ptr this)\<rparr>,
                      schedule_expiration entry))"

definition update_sa ::
  "ipsec_sa_mgr_t \<Rightarrow> u32 \<Rightarrow> host_t \<Rightarrow> host_t \<Rightarrow> host_t \<Rightarrow> host_t \<Rightarrow> bool \<Rightarrow> (status_t \<times> ipsec_sa_mgr_t) option" where
  "update_sa this spi src dst new_src new_dst new_encap =
     (case List.find (\<lambda>e. match_by_spi_src_dst (e_sa e) spi src dst) (m_sas this) of
        None \<Rightarrow> Some (FAILED, this)
      | Some entry \<Rightarrow>
          do { (ok, locked) \<leftarrow> wait_for_entry entry;
               Some (SUCCESS, if ok
                 then put_entry this (locked\<lparr>e_sa := (e_sa entry)\<lparr>sa_src := new_src, sa_dst := new_dst, sa_encap := new_encap\<rparr>,
                                             e_locked := False\<rparr>)
                 else this) })"

definition query_sa ::
  "ipsec_sa_mgr_t \<Rightarrow> host_t \<Rightarrow> host_t \<Rightarrow> u32 \<Rightarrow> (status_t \<times> (u64 \<times> u64 \<times> int) option) option" where
  "query_sa this src dst spi =
     (case List.find (\<lambda>e. match_by_spi_src_dst (e_sa e) spi src dst) (m_sas this) of
        None \<Rightarrow> Some (NOT_FOUND, None)
      | Some entry \<Rightarrow>
          do { (ok, locked) \<leftarrow> wait_for_entry entry;
               Some (SUCCESS, if ok
                 then Some (sa_use_bytes (e_sa entry), sa_use_packets (e_sa entry), sa_use_time (e_sa entry)) else None) })"

definition del_sa :: "ipsec_sa_mgr_t \<Rightarrow> host_t \<Rightarrow> host_t \<Rightarrow> u32 \<Rightarrow> (status_t \<times> ipsec_sa_mgr_t) option" where
  "del_sa this src dst spi =
     (case List.find (\<lambda>e. match_by_spi_src_dst (e_sa e) spi src dst) (m_sas this) of
        None \<Rightarrow> Some (FAILED, this)
      | Some entry \<Rightarrow>
          do { (removed, _) \<leftarrow> wait_remove_entry entry;
               Some (if removed then (SUCCESS, delete_entry this (e_ptr entry)) else (FAILED, this)) })"

abbreviation (input) ACQUIRE_TIMEOUT :: int where "ACQUIRE_TIMEOUT \<equiv> 10"

definition check_acquire :: "ipsec_sa_mgr_t \<Rightarrow> int \<Rightarrow> u32 \<Rightarrow> bool \<times> ipsec_sa_mgr_t" where
  "check_acquire this now reqid =
     (case m_acquires this reqid of
        Some triggered \<Rightarrow>
          if now - triggered \<le> ACQUIRE_TIMEOUT then (False, this)
          else (True, this\<lparr>m_acquires := (m_acquires this)(reqid := Some now)\<rparr>)
      | None \<Rightarrow> (True, this\<lparr>m_acquires := (m_acquires this)(reqid := Some now)\<rparr>))"

text \<open>A checked-out SA with the identity of its entry, and whether an acquire is to be sent.\<close>

definition checkout_by_reqid ::
  "ipsec_sa_mgr_t \<Rightarrow> int \<Rightarrow> u32 \<Rightarrow> bool \<Rightarrow> ((nat \<times> ipsec_sa_t) option \<times> bool \<times> ipsec_sa_mgr_t) option" where
  "checkout_by_reqid this now reqid inb =
     do { (sa, this) \<leftarrow> (case List.find (\<lambda>e. match_by_reqid (e_sa e) reqid inb) (m_sas this) of
            None \<Rightarrow> Some (None, this)
          | Some entry \<Rightarrow>
              do { (ok, locked) \<leftarrow> wait_for_entry entry;
                   Some (if ok then (Some (e_ptr entry, e_sa entry), put_entry this locked) else (None, this)) });
          Some (case sa of
              Some s \<Rightarrow> (Some s, False, this)
            | None \<Rightarrow> if inb then (None, False, this)
                else let (acq, this) = check_acquire this now reqid in (None, acq, this)) }"

definition checkout_by_spi ::
  "ipsec_sa_mgr_t \<Rightarrow> u32 \<Rightarrow> host_t \<Rightarrow> ((nat \<times> ipsec_sa_t) option \<times> ipsec_sa_mgr_t) option" where
  "checkout_by_spi this spi dst =
     (case List.find (\<lambda>e. match_by_spi_dst (e_sa e) spi dst) (m_sas this) of
        None \<Rightarrow> Some (None, this)
      | Some entry \<Rightarrow>
          do { (ok, locked) \<leftarrow> wait_for_entry entry;
               Some (if ok then (Some (e_ptr entry, e_sa entry), put_entry this locked) else (None, this)) })"

text \<open>The SA may have been changed through its pointer while it was checked out.\<close>

definition checkin :: "ipsec_sa_mgr_t \<Rightarrow> nat \<Rightarrow> ipsec_sa_t \<Rightarrow> ipsec_sa_mgr_t" where
  "checkin this ptr sa =
     (case List.find (\<lambda>e. e_ptr e = ptr) (m_sas this) of
        None \<Rightarrow> this
      | Some entry \<Rightarrow> put_entry this (entry\<lparr>e_sa := sa, e_locked := False\<rparr>))"

definition flush_sas :: "ipsec_sa_mgr_t \<Rightarrow> (status_t \<times> ipsec_sa_mgr_t) option" where
  "flush_sas this =
     (if \<exists>e\<in>set (m_sas this). e_locked e \<and> \<not> e_awaits_deletion e then None
      else Some (SUCCESS, this\<lparr>m_sas := filter e_awaits_deletion (m_sas this)\<rparr>))"

section \<open>Identities of entries\<close>

definition sad_ok :: "ipsec_sa_mgr_t \<Rightarrow> bool" where
  "sad_ok m \<longleftrightarrow> distinct (map e_ptr (m_sas m)) \<and> list_all (\<lambda>p. p < m_next_ptr m) (map e_ptr (m_sas m))"

lemma map_ptr_put [simp]: "map e_ptr (m_sas (put_entry m e)) = map e_ptr (m_sas m)"
  by (simp add: put_entry_def)

lemma next_ptr_put [frame_simps, simp]: "m_next_ptr (put_entry m e) = m_next_ptr m"
  "m_allocated_spis (put_entry m e) = m_allocated_spis m" "m_acquires (put_entry m e) = m_acquires m"
  by (simp_all add: put_entry_def)

lemma sad_ok_put [simp]: "sad_ok (put_entry m e) \<longleftrightarrow> sad_ok m"
  unfolding sad_ok_def by (simp only: map_ptr_put next_ptr_put)

lemma sad_ok_frame [simp]: "sad_ok (m\<lparr>m_acquires := f\<rparr>) = sad_ok m" "sad_ok (m\<lparr>m_allocated_spis := l\<rparr>) = sad_ok m"
  by (simp_all add: sad_ok_def)

lemma sad_ok_delete: "sad_ok m \<Longrightarrow> sad_ok (delete_entry m p)"
  by (auto simp: sad_ok_def delete_entry_def distinct_map_filter list_all_iff)

lemma find_ptr:
  assumes "sad_ok m" "e \<in> set (m_sas m)"
  shows "List.find (\<lambda>x. e_ptr x = e_ptr e) (m_sas m) = Some e"
proof -
  have "distinct (map e_ptr xs) \<Longrightarrow> e \<in> set xs \<Longrightarrow> List.find (\<lambda>x. e_ptr x = e_ptr e) xs = Some e" for xs
    by (induction xs) (auto simp: image_iff)
  then show ?thesis using assms by (simp add: sad_ok_def)
qed

lemma put_entry_mem:
  assumes "e \<in> set (m_sas m)" "e_ptr e' = e_ptr e"
  shows "e' \<in> set (m_sas (put_entry m e'))"
  using assms by (auto simp: put_entry_def image_iff intro!: bexI [of _ e])

text \<open>Every operation keeps the identities unique.\<close>

lemma sad_ok_create: "sad_ok ipsec_sa_mgr_create"
  by (simp add: sad_ok_def ipsec_sa_mgr_create_def)

lemma sad_ok_insert:
  assumes "sad_ok m" "m_sas k = e # m_sas m" "e_ptr e = m_next_ptr m" "m_next_ptr k = Suc (m_next_ptr m)"
  shows "sad_ok k"
proof -
  have "x < m_next_ptr m" if "x \<in> set (map e_ptr (m_sas m))" for x
    using assms(1) that by (auto simp: sad_ok_def list_all_iff)
  then show ?thesis using assms by (fastforce simp: sad_ok_def list_all_iff)
qed

lemma sad_ok_add: "sad_ok m \<Longrightarrow> add_sa m src dst spi proto reqid lt a mode ipc encap esn inb upd = (st, m', evs) \<Longrightarrow> sad_ok m'"
  by (auto simp: add_sa_def Let_def split: option.splits if_splits) (rule sad_ok_insert, assumption, simp, simp, simp)+

lemma sad_ok_checkout:
  "sad_ok m \<Longrightarrow> checkout_by_spi m spi dst = Some (r, m') \<Longrightarrow> sad_ok m'"
  "sad_ok m \<Longrightarrow> checkout_by_reqid m now reqid inb = Some (r, acq, m') \<Longrightarrow> sad_ok m'"
  by (auto simp: checkout_by_spi_def checkout_by_reqid_def check_acquire_def
      split: option.splits if_splits bind_splits)

lemma sad_ok_checkin: "sad_ok m \<Longrightarrow> sad_ok (checkin m p sa)"
  by (simp add: checkin_def split: option.split)

lemma get_spi_loop_valid:
  "get_spi_loop m lo hi rng = Some (Some spi, m') \<Longrightarrow> lo \<le> hi \<Longrightarrow> lo \<noteq> 0 \<Longrightarrow>
     lo \<le> spi \<and> spi \<le> hi \<and> spi \<notin> set (m_allocated_spis m) \<and> spi \<in> set (m_allocated_spis m') \<and>
     (\<forall>e\<in>set (m_sas m). sa_inbound (e_sa e) \<longrightarrow> sa_spi (e_sa e) \<noteq> spi)"
proof (induction m lo hi rng rule: get_spi_loop.induct)
  case (3 m lo hi r rng)
  let ?spi = "lo + r mod (hi - lo + 1)"
  show ?case
  proof (cases "allocate_spi m ?spi")
    case None
    then show ?thesis using 3 by simp
  next
    case (Some m1)
    then have e: "spi = ?spi" "m' = m1" using "3.prems" by simp_all
    have d: "unat (hi - lo) = unat hi - unat lo" using "3.prems"(2) by (simp add: word_le_nat_alt unat_sub)
    have "unat lo \<noteq> 0" using "3.prems"(3) by (simp add: unat_eq_zero)
    then have "unat (hi - lo + 1) = unat hi - unat lo + 1"
      using d unsigned_less [of hi, where 'a = nat] by (simp add: unat_word_ariths)
    then have m: "unat (r mod (hi - lo + 1)) \<le> unat hi - unat lo"
      using mod_less_divisor [of "unat hi - unat lo + 1" "unat r"] by (simp add: unat_mod)
    then have "unat lo + unat (r mod (hi - lo + 1)) < 2 ^ 32"
      using "3.prems"(2) unsigned_less [of hi, where 'a = nat] by (simp add: word_le_nat_alt)
    then have "unat ?spi = unat lo + unat (r mod (hi - lo + 1))" by (simp add: unat_word_ariths)
    then have "lo \<le> ?spi \<and> ?spi \<le> hi" using m "3.prems"(2) by (simp add: word_le_nat_alt)
    then show ?thesis using Some e by (auto simp: allocate_spi_def split: if_splits)
  qed
qed simp_all

lemma get_spi_valid:
  assumes "get_spi m lo hi rng = Some (SUCCESS, spi, m')"
  shows "256 \<le> spi \<and> spi \<notin> set (m_allocated_spis m) \<and> spi \<in> set (m_allocated_spis m') \<and>
    (\<forall>e\<in>set (m_sas m). sa_inbound (e_sa e) \<longrightarrow> sa_spi (e_sa e) \<noteq> spi)"
proof -
  let ?lo = "max (if lo > hi then hi else lo) 0x100" and ?hi = "max (if lo > hi then lo else hi) 0x100"
  have "get_spi_loop m ?lo ?hi rng = Some (Some spi, m')"
    using assms by (auto simp: get_spi_def Let_def split: if_splits bind_splits option.splits)
  moreover have "?lo \<le> ?hi" by (auto simp: max_def)
  moreover have "256 \<le> ?lo" by simp
  moreover from this have "?lo \<noteq> 0" by fastforce
  ultimately show ?thesis using get_spi_loop_valid by (meson order_trans)
qed

end
