(* ===== verification/Traffic_Selector.thy ===== *)
theory Traffic_Selector
  imports Host
begin

text \<open>
  Traffic selectors, \<^verbatim>\<open>src/src/libstrongswan/selectors/traffic_selector.c\<close>: ranges of addresses,
  ports and a protocol that IKE negotiates and IPsec policies match. The object keeps the addresses in
  arrays of 16 bytes of which IPv4 selectors use the first four, as the model does. Text conversion
  and hashing are not modelled.
\<close>

datatype ts_type_t = TS_IPV4_ADDR_RANGE | TS_IPV6_ADDR_RANGE | TS_SECLABEL

record traffic_selector_t =
  ts_type :: ts_type_t
  ts_protocol :: u8
  ts_dynamic :: bool
  ts_netbits :: nat
  ts_from :: bytes
  ts_to :: bytes
  ts_from_port :: u16
  ts_to_port :: u16

abbreviation (input) NON_SUBNET_ADDRESS_RANGE :: nat where "NON_SUBNET_ADDRESS_RANGE \<equiv> 255"
abbreviation (input) IPPROTO_ICMP :: u8 where "IPPROTO_ICMP \<equiv> 1"
abbreviation (input) IPPROTO_ICMPV6 :: u8 where "IPPROTO_ICMPV6 \<equiv> 58"

definition TS_IP_LEN :: "traffic_selector_t \<Rightarrow> nat" where
  "TS_IP_LEN this = (if ts_type this = TS_IPV4_ADDR_RANGE then IPV4_LEN else IPV6_LEN)"

text \<open>\<^verbatim>\<open>memcpy\<close> to the start of an array and \<^verbatim>\<open>memset\<close> at an offset.\<close>

definition memcpy_to :: "bytes \<Rightarrow> bytes \<Rightarrow> nat \<Rightarrow> bytes" where
  "memcpy_to dst src n = take n src @ drop n dst"

definition memset_at :: "bytes \<Rightarrow> nat \<Rightarrow> u8 \<Rightarrow> nat \<Rightarrow> bytes" where
  "memset_at dst off v n = take off dst @ replicate n v @ drop (off + n) dst"

section \<open>Operations\<close>

definition calc_range :: "traffic_selector_t \<Rightarrow> nat \<Rightarrow> traffic_selector_t" where
  "calc_range this netbits =
     (let len = TS_IP_LEN this;
          nb = (netbits + 7) div 8;
          bits = nb * 8 - netbits;
          msk = (if bits \<noteq> 0 then push_bit bits 1 - 1 else 0) :: u8;
          to = memcpy_to (ts_to this) (ts_from this) nb;
          from = memset_at (ts_from this) nb 0 (len - nb);
          to = memset_at to nb 0xFF (len - nb);
          from = (if nb \<noteq> 0 then from[nb - 1 := from ! (nb - 1) AND NOT msk] else from);
          to = (if nb \<noteq> 0 then to[nb - 1 := to ! (nb - 1) OR msk] else to)
      in this\<lparr>ts_netbits := netbits, ts_from := from, ts_to := to\<rparr>)"

text \<open>
  The nested loops of \<^verbatim>\<open>calc_netbits\<close> over the bits of both addresses, most significant first; \<open>i\<close> is the
  position. The result is the returned prefix length and the value
  stored in the selector.
\<close>

fun netbits_loop :: "nat \<Rightarrow> bool \<Rightarrow> nat \<Rightarrow> (bool \<times> bool) list \<Rightarrow> nat \<times> nat" where
  "netbits_loop i pfx netbits [] = (netbits, netbits)"
| "netbits_loop i pfx netbits ((f, t) # ps) =
     (if pfx then if f \<noteq> t then netbits_loop (Suc i) False i ps else netbits_loop (Suc i) True netbits ps
      else if f \<or> \<not> t then (netbits, NON_SUBNET_ADDRESS_RANGE)
      else netbits_loop (Suc i) False netbits ps)"

definition calc_netbits :: "traffic_selector_t \<Rightarrow> nat \<times> traffic_selector_t" where
  "calc_netbits this =
     (let size = TS_IP_LEN this;
          (netbits, nb) = netbits_loop 0 True (size * 8)
            (zip (addr_bits (take size (ts_from this))) (addr_bits (take size (ts_to this))))
      in (netbits, this\<lparr>ts_netbits := nb\<rparr>))"

definition is_opaque :: "traffic_selector_t \<Rightarrow> bool" where
  "is_opaque this \<longleftrightarrow> ts_from_port this = 0xFFFF \<and> ts_to_port this = 0"

definition is_any :: "traffic_selector_t \<Rightarrow> bool" where
  "is_any this \<longleftrightarrow> ts_from_port this = 0 \<and> ts_to_port this = 0xFFFF"

definition traffic_selector_create :: "u8 \<Rightarrow> ts_type_t \<Rightarrow> u16 \<Rightarrow> u16 \<Rightarrow> traffic_selector_t option" where
  "traffic_selector_create protocol ty from_port to_port =
     (if ty \<noteq> TS_IPV4_ADDR_RANGE \<and> ty \<noteq> TS_IPV6_ADDR_RANGE then None
      else let icmp = protocol = IPPROTO_ICMP \<or> protocol = IPPROTO_ICMPV6
           in Some \<lparr>ts_type = ty, ts_protocol = protocol, ts_dynamic = False, ts_netbits = 0,
                ts_from = replicate 16 0, ts_to = replicate 16 0,
                ts_from_port = (if icmp \<and> from_port < 256 then push_bit 8 from_port else from_port),
                ts_to_port = (if icmp \<and> to_port < 256 then push_bit 8 to_port else to_port)\<rparr>)"

definition get_subset :: "traffic_selector_t \<Rightarrow> traffic_selector_t \<Rightarrow> traffic_selector_t option" where
  "get_subset this other =
     (if ts_dynamic this \<or> ts_dynamic other then None
      else if ts_type this \<noteq> ts_type other then None
      else if ts_protocol this \<noteq> ts_protocol other \<and> ts_protocol this \<noteq> 0 \<and> ts_protocol other \<noteq> 0 then None
      else
        let protocol = max (ts_protocol this) (ts_protocol other);
            opaque = (is_opaque this \<and> is_opaque other \<or> is_opaque this \<and> is_any other \<or>
                      is_opaque other \<and> is_any this);
            from_port = (if opaque then 0xFFFF else max (ts_from_port this) (ts_from_port other));
            to_port = (if opaque then 0 else min (ts_to_port this) (ts_to_port other))
        in if \<not> opaque \<and> from_port > to_port then None
           else
             let size = TS_IP_LEN this;
                 from = (if memcmp (ts_from this) (ts_from other) size > 0 then ts_from this else ts_from other);
                 to = (if memcmp (ts_to this) (ts_to other) size > 0 then ts_to other else ts_to this)
             in if memcmp from to size > 0 then None
                else case traffic_selector_create protocol (ts_type this) from_port to_port of
                    None \<Rightarrow> None
                  | Some s \<Rightarrow> Some (snd (calc_netbits (s\<lparr>ts_from := from, ts_to := to\<rparr>))))"

definition compare_int :: "int \<Rightarrow> int \<Rightarrow> int" where
  "compare_int a b = a - b"

fun ts_type_value :: "ts_type_t \<Rightarrow> int" where
  "ts_type_value TS_IPV4_ADDR_RANGE = 7" | "ts_type_value TS_IPV6_ADDR_RANGE = 8" | "ts_type_value TS_SECLABEL = 10"

definition traffic_selector_cmp :: "traffic_selector_t \<Rightarrow> traffic_selector_t \<Rightarrow> int" where
  "traffic_selector_cmp a b =
     (let res = compare_int (ts_type_value (ts_type a)) (ts_type_value (ts_type b))
      in if res \<noteq> 0 then res else
      let len = TS_IP_LEN a; res = memcmp (ts_from a) (ts_from b) len
      in if res \<noteq> 0 then res else
      let res = memcmp (ts_to b) (ts_to a) len
      in if res \<noteq> 0 then res else
      let res = compare_int (uint (ts_protocol a)) (uint (ts_protocol b))
      in if res \<noteq> 0 then res else
      let res = compare_int (uint (ts_from_port a)) (uint (ts_from_port b))
      in if res \<noteq> 0 then res else compare_int (uint (ts_to_port b)) (uint (ts_to_port a)))"

definition ts_equals :: "traffic_selector_t \<Rightarrow> traffic_selector_t \<Rightarrow> bool" where
  "ts_equals this other \<longleftrightarrow> traffic_selector_cmp this other = 0"

definition family_matches :: "family \<Rightarrow> ts_type_t \<Rightarrow> bool" where
  "family_matches fam ty \<longleftrightarrow>
     fam = AF_INET \<and> ty = TS_IPV4_ADDR_RANGE \<or> fam = AF_INET6 \<and> ty = TS_IPV6_ADDR_RANGE"

text \<open>The optional host of \<^verbatim>\<open>is_host\<close> may be NULL.\<close>

definition is_host :: "traffic_selector_t \<Rightarrow> host_t option \<Rightarrow> bool" where
  "is_host this host =
     (case host of
        Some h \<Rightarrow> family_matches (h_family h) (ts_type this) \<and>
          (let addr = get_address h
           in take (length addr) (ts_from this) = addr \<and> take (length addr) (ts_to this) = addr)
      | None \<Rightarrow> ts_dynamic this \<or> take (TS_IP_LEN this) (ts_from this) = take (TS_IP_LEN this) (ts_to this))"

definition set_address :: "traffic_selector_t \<Rightarrow> host_t \<Rightarrow> traffic_selector_t" where
  "set_address this host =
     (let this = this\<lparr>ts_type := (if h_family host = AF_INET then TS_IPV4_ADDR_RANGE else TS_IPV6_ADDR_RANGE)\<rparr>;
          addr = get_address host;
          this = (if is_anyaddr host
             then this\<lparr>ts_from := replicate 16 0, ts_to := replicate 16 0xFF, ts_netbits := 0\<rparr>
             else this\<lparr>ts_from := memcpy_to (ts_from this) addr (length addr),
                       ts_to := memcpy_to (ts_to this) addr (length addr), ts_netbits := length addr * 8\<rparr>)
      in this\<lparr>ts_dynamic := False\<rparr>)"

definition is_contained_in :: "traffic_selector_t \<Rightarrow> traffic_selector_t \<Rightarrow> bool" where
  "is_contained_in this other =
     (case get_subset this other of None \<Rightarrow> False | Some s \<Rightarrow> ts_equals s this)"

definition ts_includes :: "traffic_selector_t \<Rightarrow> host_t \<Rightarrow> bool" where
  "ts_includes this host =
     (if family_matches (h_family host) (ts_type this)
      then let addr = get_address host
           in memcmp (ts_from this) addr (length addr) \<le> 0 \<and> memcmp (ts_to this) addr (length addr) \<ge> 0
      else False)"

text \<open>The first address of the network, in an array of the length of the address.\<close>

definition net_chunk :: "traffic_selector_t \<Rightarrow> nat \<Rightarrow> nat \<Rightarrow> bytes" where
  "net_chunk this msk len =
     (if msk \<noteq> 0
      then let nb = (msk + 7) div 8; c = memcpy_to (replicate len 0) (ts_from this) nb
           in c[nb - 1 := c ! (nb - 1) AND push_bit (8 * nb - msk) 0xFF]
      else replicate len 0)"

text \<open>Returns the network, the mask and whether the range is a subnet; \<open>None\<close> for another type.\<close>

definition to_subnet :: "traffic_selector_t \<Rightarrow> (host_t \<times> nat \<times> bool) option" where
  "to_subnet this =
     (let msk = (if ts_netbits this = NON_SUBNET_ADDRESS_RANGE then fst (calc_netbits this) else ts_netbits this);
          subnet = (if ts_netbits this = NON_SUBNET_ADDRESS_RANGE
                    then ts_netbits (snd (calc_netbits this)) else ts_netbits this) \<noteq> NON_SUBNET_ADDRESS_RANGE;
          port = (if ts_to_port this = ts_from_port this then ts_to_port this else 0)
      in case ts_type this of
           TS_IPV4_ADDR_RANGE \<Rightarrow> map_option (\<lambda>h. (h, msk, subnet)) (host_create_from_chunk AF_INET (net_chunk this msk IPV4_LEN) port)
         | TS_IPV6_ADDR_RANGE \<Rightarrow> map_option (\<lambda>h. (h, msk, subnet)) (host_create_from_chunk AF_INET6 (net_chunk this msk IPV6_LEN) port)
         | TS_SECLABEL \<Rightarrow> None)"

definition ts_clone :: "traffic_selector_t \<Rightarrow> traffic_selector_t option" where
  "ts_clone this =
     (let len = TS_IP_LEN this
      in map_option (\<lambda>c. c\<lparr>ts_netbits := ts_netbits this, ts_dynamic := ts_dynamic this,
             ts_from := memcpy_to (ts_from c) (ts_from this) len, ts_to := memcpy_to (ts_to c) (ts_to this) len\<rparr>)
           (traffic_selector_create (ts_protocol this) (ts_type this) (ts_from_port this) (ts_to_port this)))"

definition traffic_selector_create_from_bytes ::
  "u8 \<Rightarrow> ts_type_t \<Rightarrow> bytes \<Rightarrow> u16 \<Rightarrow> bytes \<Rightarrow> u16 \<Rightarrow> traffic_selector_t option" where
  "traffic_selector_create_from_bytes protocol ty from from_port to to_port =
     (case traffic_selector_create protocol ty from_port to_port of
        None \<Rightarrow> None
      | Some this \<Rightarrow>
          if length from \<noteq> length to \<or> length from \<noteq> TS_IP_LEN this then None
          else Some (snd (calc_netbits (this\<lparr>ts_from := memcpy_to (ts_from this) from (length from),
                                             ts_to := memcpy_to (ts_to this) to (length to)\<rparr>))))"

definition traffic_selector_create_from_subnet ::
  "host_t \<Rightarrow> nat \<Rightarrow> u8 \<Rightarrow> u16 \<Rightarrow> u16 \<Rightarrow> traffic_selector_t option" where
  "traffic_selector_create_from_subnet net netbits protocol from_port to_port =
     (let create = (\<lambda>ty. map_option (\<lambda>this.
             let from = get_address net;
                 this = this\<lparr>ts_from := memcpy_to (ts_from this) from (length from)\<rparr>
             in calc_range this (min netbits (TS_IP_LEN this * 8)))
           (traffic_selector_create protocol ty from_port to_port))
      in case h_family net of
           AF_INET \<Rightarrow> create TS_IPV4_ADDR_RANGE
         | AF_INET6 \<Rightarrow> create TS_IPV6_ADDR_RANGE
         | _ \<Rightarrow> None)"

definition traffic_selector_create_dynamic :: "u8 \<Rightarrow> u16 \<Rightarrow> u16 \<Rightarrow> traffic_selector_t option" where
  "traffic_selector_create_dynamic protocol from_port to_port =
     map_option (\<lambda>this. this\<lparr>ts_from := replicate 16 0, ts_to := replicate 16 0xFF, ts_netbits := 0, ts_dynamic := True\<rparr>)
       (traffic_selector_create protocol TS_IPV4_ADDR_RANGE from_port to_port)"


section \<open>Well-formed selectors\<close>

definition ts_ok :: "traffic_selector_t \<Rightarrow> bool" where
  "ts_ok ts \<longleftrightarrow> ts_type ts \<noteq> TS_SECLABEL \<and> length (ts_from ts) = 16 \<and> length (ts_to ts) = 16"

lemma ip_len_le: "TS_IP_LEN ts \<le> 16"
  by (simp add: TS_IP_LEN_def)

lemma length_memcpy_to: "n \<le> length src \<Longrightarrow> n \<le> length dst \<Longrightarrow> length (memcpy_to dst src n) = length dst"
  by (simp add: memcpy_to_def)

lemma length_memset_at: "off + n \<le> length dst \<Longrightarrow> length (memset_at dst off v n) = length dst"
  by (simp add: memset_at_def)

lemma create_ok: "traffic_selector_create p ty f t = Some ts \<Longrightarrow> ts_ok ts \<and> ts_type ts = ty \<and> \<not> ts_dynamic ts"
  by (auto simp: traffic_selector_create_def ts_ok_def Let_def split: if_splits)

lemma create_some: "ty \<noteq> TS_SECLABEL \<Longrightarrow> \<exists>s. traffic_selector_create p ty f t = Some s"
  by (cases ty) (simp_all add: traffic_selector_create_def Let_def)

lemma calc_netbits_frame [frame_simps, simp]:
  "ts_type (snd (calc_netbits ts)) = ts_type ts" "ts_protocol (snd (calc_netbits ts)) = ts_protocol ts"
  "ts_dynamic (snd (calc_netbits ts)) = ts_dynamic ts" "ts_from (snd (calc_netbits ts)) = ts_from ts"
  "ts_to (snd (calc_netbits ts)) = ts_to ts" "ts_from_port (snd (calc_netbits ts)) = ts_from_port ts"
  "ts_to_port (snd (calc_netbits ts)) = ts_to_port ts"
  by (simp_all add: calc_netbits_def Let_def split: prod.split)

section \<open>What a selector selects\<close>

definition addr_val :: "traffic_selector_t \<Rightarrow> bytes \<Rightarrow> nat" where
  "addr_val ts bs = be_decode (take (TS_IP_LEN ts) bs)"

lemma family_matches_len:
  "family_matches (h_family h) (ts_type ts) \<Longrightarrow> host_ok h \<Longrightarrow> length (h_bytes h) = TS_IP_LEN ts"
  by (auto simp: family_matches_def host_ok_def family_len_def TS_IP_LEN_def)

lemma memcmp_val:
  assumes "n \<le> length a" "n \<le> length b"
  shows "memcmp a b n > 0 \<longleftrightarrow> be_decode (take n b) < be_decode (take n a)"
    "memcmp a b n \<le> 0 \<longleftrightarrow> be_decode (take n a) \<le> be_decode (take n b)"
    "memcmp a b n \<ge> 0 \<longleftrightarrow> be_decode (take n b) \<le> be_decode (take n a)"
    "memcmp a b n = 0 \<longleftrightarrow> take n a = take n b"
  using assms bytes_cmp_decode [of "take n a" "take n b"] be_decode_inj [of "take n a" "take n b"]
  by (auto simp: memcmp_def)

lemma ts_includes_iff:
  assumes "ts_ok ts" "host_ok h"
  shows "ts_includes ts h \<longleftrightarrow> family_matches (h_family h) (ts_type ts) \<and>
    addr_val ts (ts_from ts) \<le> be_decode (h_bytes h) \<and> be_decode (h_bytes h) \<le> addr_val ts (ts_to ts)"
proof (cases "family_matches (h_family h) (ts_type ts)")
  case True
  note len = family_matches_len [OF True assms(2)]
  have a: "TS_IP_LEN ts \<le> length (ts_from ts)" "TS_IP_LEN ts \<le> length (ts_to ts)"
    using assms(1) ip_len_le [of ts] by (simp_all add: ts_ok_def)
  show ?thesis
    using True memcmp_val(2) [OF a(1), of "h_bytes h"] memcmp_val(3) [OF a(2), of "h_bytes h"] len
    by (simp add: ts_includes_def get_address_ok [OF assms(2)] addr_val_def Let_def)
qed (simp add: ts_includes_def)

text \<open>A packet of a protocol from or to a host is selected if address, protocol and port match.\<close>

definition ts_selects :: "traffic_selector_t \<Rightarrow> u8 \<Rightarrow> host_t \<Rightarrow> bool" where
  "ts_selects ts proto h \<longleftrightarrow> ts_includes ts h \<and> (ts_protocol ts = 0 \<or> ts_protocol ts = proto) \<and>
     ts_from_port ts \<le> h_port h \<and> h_port h \<le> ts_to_port ts"

text \<open>Ports of ICMP selectors hold type and code; constructors shift values below 256.\<close>

definition icmp_normal :: "traffic_selector_t \<Rightarrow> bool" where
  "icmp_normal ts \<longleftrightarrow> (ts_from_port ts = 0 \<or> 256 \<le> ts_from_port ts) \<and> (ts_to_port ts = 0 \<or> 256 \<le> ts_to_port ts)"

lemma max_le_iff_word: "max (a :: u16) b \<le> c \<longleftrightarrow> a \<le> c \<and> b \<le> c" "c \<le> min (a :: u16) b \<longleftrightarrow> c \<le> a \<and> c \<le> b"
  by (auto simp: max_def min_def)

definition opaque_pair :: "traffic_selector_t \<Rightarrow> traffic_selector_t \<Rightarrow> bool" where
  "opaque_pair a b \<longleftrightarrow> is_opaque a \<and> is_opaque b \<or> is_opaque a \<and> is_any b \<or> is_opaque b \<and> is_any a"

definition subset_ports :: "traffic_selector_t \<Rightarrow> traffic_selector_t \<Rightarrow> u16 \<times> u16" where
  "subset_ports a b =
     (if opaque_pair a b then (0xFFFF, 0)
      else (max (ts_from_port a) (ts_from_port b), min (ts_to_port a) (ts_to_port b)))"

lemma subset_ports_iff:
  assumes "subset_ports a b = (f, t)"
  shows "f \<le> p \<and> p \<le> t \<longleftrightarrow>
    (ts_from_port a \<le> p \<and> p \<le> ts_to_port a) \<and> ts_from_port b \<le> p \<and> p \<le> ts_to_port b"
proof -
  have "\<not> (0xFFFF \<le> p \<and> p \<le> 0)" for p :: u16 by (auto simp: word_le_nat_alt)
  then show ?thesis
    using assms by (auto simp: subset_ports_def opaque_pair_def is_opaque_def max_le_iff_word split: if_splits)
qed

lemma subset_ports_normal:
  assumes "subset_ports a b = (f, t)" "icmp_normal a" "icmp_normal b"
  shows "(f = 0 \<or> 256 \<le> f) \<and> (t = 0 \<or> 256 \<le> t)"
  using assms by (auto simp: subset_ports_def icmp_normal_def max_def min_def split: if_splits)

lemma create_normal:
  assumes "traffic_selector_create p ty f t = Some s" "(f = 0 \<or> 256 \<le> f) \<and> (t = 0 \<or> 256 \<le> t) \<or> p \<noteq> 1 \<and> p \<noteq> 58"
  shows "ts_from_port s = f" "ts_to_port s = t" "ts_protocol s = p" "ts_type s = ty" "\<not> ts_dynamic s"
  using assms by (auto simp: traffic_selector_create_def Let_def not_less split: if_splits)

definition higher_from :: "traffic_selector_t \<Rightarrow> traffic_selector_t \<Rightarrow> bytes" where
  "higher_from a b = (if memcmp (ts_from a) (ts_from b) (TS_IP_LEN a) > 0 then ts_from a else ts_from b)"

definition lower_to :: "traffic_selector_t \<Rightarrow> traffic_selector_t \<Rightarrow> bytes" where
  "lower_to a b = (if memcmp (ts_to a) (ts_to b) (TS_IP_LEN a) > 0 then ts_to b else ts_to a)"

lemma higher_lower:
  assumes "ts_ok a" "ts_ok b"
  shows "addr_val a (higher_from a b) = max (addr_val a (ts_from a)) (addr_val a (ts_from b))"
    "addr_val a (lower_to a b) = min (addr_val a (ts_to a)) (addr_val a (ts_to b))"
    "length (higher_from a b) = 16" "length (lower_to a b) = 16"
  using assms ip_len_le [of a]
  by (auto simp: higher_from_def lower_to_def addr_val_def ts_ok_def memcmp_val max_def min_def)

text \<open>The operation as one condition and one result.\<close>

lemma get_subset_unfold:
  "get_subset a b =
     (let (f, t) = subset_ports a b
      in if \<not> ts_dynamic a \<and> \<not> ts_dynamic b \<and> ts_type a = ts_type b \<and>
            (ts_protocol a = ts_protocol b \<or> ts_protocol a = 0 \<or> ts_protocol b = 0) \<and>
            (\<not> t < f \<or> opaque_pair a b) \<and> \<not> memcmp (higher_from a b) (lower_to a b) (TS_IP_LEN a) > 0
         then map_option (\<lambda>s. snd (calc_netbits (s\<lparr>ts_from := higher_from a b, ts_to := lower_to a b\<rparr>)))
                (traffic_selector_create (max (ts_protocol a) (ts_protocol b)) (ts_type a) f t)
         else None)"
  unfolding get_subset_def Let_def opaque_pair_def [symmetric] subset_ports_def higher_from_def [symmetric]
    lower_to_def [symmetric]
  by (cases "opaque_pair a b"; cases "ts_type a = ts_type b") (auto simp: map_option_case)

lemma protocol_subset:
  "(a :: u8) = b \<or> a = 0 \<or> b = 0 \<Longrightarrow> (max a b = 0 \<or> max a b = p) \<longleftrightarrow> (a = 0 \<or> a = p) \<and> (b = 0 \<or> b = p)"
  by (auto simp: max_def)


definition v4_selector :: "u8 \<Rightarrow> u8 \<Rightarrow> u16 \<Rightarrow> u16 \<Rightarrow> traffic_selector_t" where
  "v4_selector lo hi f t = \<lparr>ts_type = TS_IPV4_ADDR_RANGE, ts_protocol = 6, ts_dynamic = False, ts_netbits = 255,
     ts_from = [10, 0, 0, lo] @ replicate 12 0, ts_to = [10, 0, 0, hi] @ replicate 12 0,
     ts_from_port = f, ts_to_port = t\<rparr>"


section \<open>Subnets\<close>

lemma and_shifted_mask: "k < 8 \<Longrightarrow> (b :: u8) AND push_bit k 0xFF = b AND NOT (push_bit k 1 - 1)"
proof -
  assume k: "k < 8"
  then have a: "bit (push_bit k 1 - 1 :: u8) j \<longleftrightarrow> j < k" for j
    using bit_mask_iff [of k j, where 'a = u8] by (auto simp: mask_eq_exp_minus_1)
  have b: "bit (0xFF :: u8) j \<longleftrightarrow> j < 8" for j
  proof -
    have "(0xFF :: u8) = - 1" by simp
    then show ?thesis by (simp only: bit_minus_1_iff) simp
  qed
  show ?thesis
  proof (rule bit_word_eqI)
    fix j assume "j < LENGTH(8)"
    then show "bit (b AND push_bit k 0xFF) j = bit (b AND NOT (push_bit k 1 - 1)) j"
      unfolding bit_and_iff bit_not_iff bit_push_bit_iff a b by auto
  qed
qed

text \<open>The bits of the range that \<^verbatim>\<open>calc_range\<close> computes.\<close>

lemma calc_range_bits:
  assumes "ts_ok ts" "n \<le> 8 * TS_IP_LEN ts"
  defines "len \<equiv> TS_IP_LEN ts"
  shows "addr_bits (take len (ts_from (calc_range ts n))) = take n (addr_bits (ts_from ts)) @ replicate (8 * len - n) False"
    "addr_bits (take len (ts_to (calc_range ts n))) = take n (addr_bits (ts_from ts)) @ replicate (8 * len - n) True"
    "length (ts_from (calc_range ts n)) = 16" "length (ts_to (calc_range ts n)) = 16"
proof -
  let ?nb = "(n + 7) div 8"
  let ?k = "?nb * 8 - n"
  have l: "len \<le> 16" "length (ts_from ts) = 16" "length (ts_to ts) = 16" "?nb \<le> len"
    using assms ip_len_le [of ts] by (auto simp: ts_ok_def)
  have m: "(if ?k \<noteq> 0 then push_bit ?k 1 - 1 else 0) = (push_bit ?k 1 - 1 :: u8)" by simp
  have f: "ts_from (calc_range ts n) =
      (if ?nb \<noteq> 0 then (take ?nb (ts_from ts))[?nb - 1 := ts_from ts ! (?nb - 1) AND NOT (push_bit ?k 1 - 1)] else []) @
      replicate (len - ?nb) 0 @ drop len (ts_from ts)"
    unfolding calc_range_def Let_def m using l
    by (auto simp: memset_at_def len_def list_update_append nth_append simp del: push_bit_of_1)
  have t: "ts_to (calc_range ts n) =
      (if ?nb \<noteq> 0 then (take ?nb (ts_from ts))[?nb - 1 := ts_from ts ! (?nb - 1) OR (push_bit ?k 1 - 1)] else []) @
      replicate (len - ?nb) 255 @ drop len (ts_to ts)"
    unfolding calc_range_def Let_def m using l
    by (auto simp: memset_at_def memcpy_to_def len_def list_update_append nth_append simp del: push_bit_of_1)
  show "length (ts_from (calc_range ts n)) = 16" "length (ts_to (calc_range ts n)) = 16"
    unfolding f t using l by auto
  show "addr_bits (take len (ts_from (calc_range ts n))) = take n (addr_bits (ts_from ts)) @ replicate (8 * len - n) False"
    "addr_bits (take len (ts_to (calc_range ts n))) = take n (addr_bits (ts_from ts)) @ replicate (8 * len - n) True"
  proof -
    have len: "take len (xs @ replicate (len - ?nb) v @ drop len ys) = xs @ replicate (len - ?nb) v"
      if "length xs = ?nb" for xs ys :: bytes and v
      using that l(4) by simp
    show "addr_bits (take len (ts_from (calc_range ts n))) = take n (addr_bits (ts_from ts)) @ replicate (8 * len - n) False"
      "addr_bits (take len (ts_to (calc_range ts n))) = take n (addr_bits (ts_from ts)) @ replicate (8 * len - n) True"
    proof (atomize (full), cases "n = 0")
      case False
      then have nb: "?nb \<noteq> 0" "0 < n" by linarith+
      have "n \<le> 8 * len" "len \<le> length (ts_from ts)" using l assms(2) by (simp_all add: len_def)
      note mb = masked_bits [OF this nb(2)]
      have l1: "length ((take ?nb (ts_from ts))[?nb - 1 := v]) = ?nb" for v using l by simp
      show "addr_bits (take len (ts_from (calc_range ts n))) = take n (addr_bits (ts_from ts)) @ replicate (8 * len - n) False \<and>
        addr_bits (take len (ts_to (calc_range ts n))) = take n (addr_bits (ts_from ts)) @ replicate (8 * len - n) True"
        unfolding f t if_P [OF nb(1)] len [OF l1] by (rule conjI [OF mb])
    next
      case True
      then have "?nb = 0" by simp
      then show "addr_bits (take len (ts_from (calc_range ts n))) = take n (addr_bits (ts_from ts)) @ replicate (8 * len - n) False \<and>
        addr_bits (take len (ts_to (calc_range ts n))) = take n (addr_bits (ts_from ts)) @ replicate (8 * len - n) True"
        unfolding f t using True by (simp add: addr_bits_const)
    qed
  qed
qed

lemma calc_range_frame [frame_simps, simp]:
  "ts_type (calc_range ts n) = ts_type ts" "ts_protocol (calc_range ts n) = ts_protocol ts"
  "ts_dynamic (calc_range ts n) = ts_dynamic ts" "ts_netbits (calc_range ts n) = n"
  "ts_from_port (calc_range ts n) = ts_from_port ts" "ts_to_port (calc_range ts n) = ts_to_port ts"
  by (simp_all add: calc_range_def Let_def)


lemma netbits_loop_subnet:
  "netbits_loop i True d (zip P P @ replicate m (False, True)) =
     (if m = 0 then (d, d) else (i + length P, i + length P))"
proof (induction P arbitrary: i)
  case Nil
  have run: "netbits_loop j False e (replicate k (False, True)) = (e, e)" for j e k
    by (induction k arbitrary: j) simp_all
  show ?case by (cases m) (simp_all add: run)
qed simp

text \<open>A selector whose range is exactly the subnet of \<open>n\<close> bits that starts with the bits \<open>P\<close>.\<close>

definition subnet_range :: "traffic_selector_t \<Rightarrow> bool list \<Rightarrow> nat \<Rightarrow> bool" where
  "subnet_range ts P n \<longleftrightarrow> ts_ok ts \<and> length P = n \<and> n \<le> 8 * TS_IP_LEN ts \<and>
     addr_bits (take (TS_IP_LEN ts) (ts_from ts)) = P @ replicate (8 * TS_IP_LEN ts - n) False \<and>
     addr_bits (take (TS_IP_LEN ts) (ts_to ts)) = P @ replicate (8 * TS_IP_LEN ts - n) True"

lemma calc_netbits_subnet:
  assumes "subnet_range ts P n"
  shows "calc_netbits ts = (n, ts\<lparr>ts_netbits := n\<rparr>)"
  using assms by (auto simp: subnet_range_def calc_netbits_def netbits_loop_subnet Let_def mult.commute)

lemma subnet_range_includes:
  assumes "subnet_range ts P n" "host_ok h"
  shows "ts_includes ts h \<longleftrightarrow> family_matches (h_family h) (ts_type ts) \<and> take n (addr_bits (h_bytes h)) = P"
proof (cases "family_matches (h_family h) (ts_type ts)")
  case True
  note len = family_matches_len [OF True assms(2)]
  have ok: "ts_ok ts" "length P = n" using assms(1) by (simp_all add: subnet_range_def)
  have v: "addr_val ts (ts_from ts) = bval (P @ replicate (8 * TS_IP_LEN ts - n) False)"
    "addr_val ts (ts_to ts) = bval (P @ replicate (8 * TS_IP_LEN ts - n) True)"
    "be_decode (h_bytes h) = bval (addr_bits (h_bytes h))"
    using assms(1) bval_addr_bits by (simp_all add: subnet_range_def addr_val_def flip: bval_addr_bits)
  have "length (addr_bits (h_bytes h)) = n + (8 * TS_IP_LEN ts - n)"
    using assms(1) len by (simp add: subnet_range_def)
  from range_prefix [OF ok(2) this] show ?thesis
    using ts_includes_iff [OF ok(1) assms(2)] True unfolding v by simp
qed (simp add: ts_includes_def)

lemma create_from_subnet_range:
  assumes "host_ok net" "n \<le> 8 * length (h_bytes net)"
  shows "\<exists>ts. traffic_selector_create_from_subnet net n p f t = Some ts \<and>
    subnet_range ts (take n (addr_bits (h_bytes net))) n \<and> ts_netbits ts = n \<and>
    family_matches (h_family net) (ts_type ts) \<and>
    (\<exists>s. traffic_selector_create p (ts_type ts) f t = Some s \<and> ts_protocol ts = ts_protocol s \<and>
       ts_from_port ts = ts_from_port s \<and> ts_to_port ts = ts_to_port s)"
proof -
  define ty where "ty = (if h_family net = AF_INET then TS_IPV4_ADDR_RANGE else TS_IPV6_ADDR_RANGE)"
  have fm: "family_matches (h_family net) ty" using assms(1) by (auto simp: ty_def family_matches_def host_ok_def)
  obtain s where s: "traffic_selector_create p ty f t = Some s"
    using create_some [of ty p f t] by (cases ty) (auto simp: ty_def split: if_splits)
  note c = create_ok [OF s]
  let ?s = "s\<lparr>ts_from := memcpy_to (ts_from s) (h_bytes net) (length (h_bytes net))\<rparr>"
  have len: "length (h_bytes net) = TS_IP_LEN ?s" using family_matches_len [of net s] fm assms(1) c by (simp add: TS_IP_LEN_def)
  have ok: "ts_ok ?s" using c ip_len_le [of ?s] len by (auto simp: ts_ok_def memcpy_to_def)
  have eq: "traffic_selector_create_from_subnet net n p f t = Some (calc_range ?s n)"
    using assms s fm len get_address_ok [OF assms(1)]
    by (auto simp: traffic_selector_create_from_subnet_def ty_def host_ok_def Let_def min_def)
  have n: "n \<le> 8 * TS_IP_LEN ?s" using assms(2) len by simp
  note r = calc_range_bits [OF ok n]
  have pre: "take n (addr_bits (ts_from ?s)) = take n (addr_bits (h_bytes net))"
    using assms(2) by (simp add: memcpy_to_def)
  have "TS_IP_LEN (calc_range ?s n) = TS_IP_LEN ?s" by (simp add: TS_IP_LEN_def)
  then have "subnet_range (calc_range ?s n) (take n (addr_bits (h_bytes net))) n"
    using r n c assms(2) unfolding pre by (auto simp: subnet_range_def ts_ok_def)
  then show ?thesis using eq fm c s by auto
qed


lemma net_chunk_range:
  assumes "subnet_range ts P n"
  shows "net_chunk ts n (TS_IP_LEN ts) = take (TS_IP_LEN ts) (ts_from ts)"
proof -
  let ?len = "TS_IP_LEN ts" and ?nb = "(n + 7) div 8" and ?a = "net_chunk ts n (TS_IP_LEN ts)"
  have r: "length P = n" "n \<le> 8 * ?len" "length (ts_from ts) = 16"
    "addr_bits (take ?len (ts_from ts)) = P @ replicate (8 * ?len - n) False"
    using assms by (simp_all add: subnet_range_def ts_ok_def)
  have l: "?len \<le> 16" "?nb \<le> ?len" using ip_len_le r(2) by auto
  let ?k = "8 * ?nb - n"
  have k: "?k < 8" "?k = ?nb * 8 - n" by linarith+
  let ?c = "memcpy_to (replicate ?len 0) (ts_from ts) ?nb"
  have a_len: "length ?a = ?len" using l r(3) by (simp add: net_chunk_def memcpy_to_def Let_def)
  have bits: "addr_bits ?a = P @ replicate (8 * ?len - n) False"
  proof (cases "n = 0")
    case False
    then have "?nb \<noteq> 0" by linarith
    then have "?c[?nb - 1 := ?c ! (?nb - 1) AND push_bit ?k 0xFF] =
        (take ?nb (ts_from ts))[?nb - 1 := ts_from ts ! (?nb - 1) AND NOT (push_bit ?k 1 - 1)] @ replicate (?len - ?nb) 0"
      using l r(3) unfolding and_shifted_mask [OF k(1)] by (simp add: memcpy_to_def nth_append list_update_append)
    then have "?a = (take ?nb (ts_from ts))[?nb - 1 := ts_from ts ! (?nb - 1) AND NOT (push_bit ?k 1 - 1)] @ replicate (?len - ?nb) 0"
      using False by (simp add: net_chunk_def Let_def)
    moreover have "take n (addr_bits (ts_from ts)) = P"
    proof -
      have "take n (addr_bits (ts_from ts)) = take n (take (8 * ?len) (addr_bits (ts_from ts)))" using r(2) by (simp add: min_def)
      then show ?thesis unfolding take_addr_bits r(4) using r(1) by simp
    qed
    moreover have "?len \<le> length (ts_from ts)" "0 < n" using l r(3) False by simp_all
    ultimately show ?thesis using masked_bits(1) [OF r(2)] unfolding k(2) by simp
  qed (use r(1) in \<open>simp add: net_chunk_def addr_bits_const\<close>)
  then have "be_decode ?a = be_decode (take ?len (ts_from ts))" using r(4) by (metis bval_addr_bits)
  then show ?thesis using be_decode_inj [of ?a "take ?len (ts_from ts)"] a_len l r(3) by simp
qed

lemma to_subnet_range:
  assumes "subnet_range ts P n" "ts_netbits ts = n"
  shows "\<exists>h. to_subnet ts = Some (h, n, True) \<and> host_ok h \<and> family_matches (h_family h) (ts_type ts) \<and>
    h_bytes h = take (TS_IP_LEN ts) (ts_from ts)"
proof -
  have "n \<noteq> 255" "length (ts_from ts) = 16" "ts_type ts \<noteq> TS_SECLABEL"
    using assms(1) ip_len_le [of ts] by (auto simp: subnet_range_def ts_ok_def)
  then show ?thesis
    using assms(2) net_chunk_range [OF assms(1)]
    by (cases "ts_type ts")
       (auto simp: to_subnet_def Let_def TS_IP_LEN_def host_create_from_chunk_def family_matches_def host_ok_def family_len_def)
qed

lemma create_again:
  assumes "traffic_selector_create p ty f t = Some s"
  shows "traffic_selector_create p ty (ts_from_port s) (ts_to_port s) = Some s"
proof -
  have "push_bit 8 (push_bit 8 x) = push_bit 8 x" if "x < 256" "push_bit 8 x < 256" for x :: u16
  proof -
    have "unat (push_bit 8 x) = unat x * 256"
      using that(1) by (simp add: push_bit_eq_mult unat_word_ariths word_less_nat_alt)
    then have "x = 0" using that(2) by (simp add: word_less_nat_alt unat_eq_zero)
    then show ?thesis by simp
  qed
  then show ?thesis
    using assms by (auto simp: traffic_selector_create_def Let_def split: if_splits)
qed

lemma ts_equals_intro:
  assumes "ts_ok a" "ts_ok b" "ts_type a = ts_type b" "take (TS_IP_LEN a) (ts_from a) = take (TS_IP_LEN a) (ts_from b)"
    "take (TS_IP_LEN a) (ts_to a) = take (TS_IP_LEN a) (ts_to b)" "ts_protocol a = ts_protocol b"
    "ts_from_port a = ts_from_port b" "ts_to_port a = ts_to_port b"
  shows "ts_equals a b"
  using assms memcmp_val(4) [of "TS_IP_LEN a"] ip_len_le [of a]
  by (simp add: ts_equals_def traffic_selector_cmp_def compare_int_def Let_def ts_ok_def memcmp_def)

text \<open>
  The selector of a subnet includes exactly the hosts of its family whose address starts with the
  same \<open>n\<close> bits as the address of the network, for every prefix length.
\<close>

lemma subnet_selector_includes:
  assumes "host_ok net" "n \<le> 8 * length (h_bytes net)" "host_ok h"
  shows "\<exists>ts. traffic_selector_create_from_subnet net n p f t = Some ts \<and>
    (ts_includes ts h \<longleftrightarrow> h_family h = h_family net \<and>
       take n (addr_bits (h_bytes h)) = take n (addr_bits (h_bytes net)))"
proof -
  obtain ts where ts: "traffic_selector_create_from_subnet net n p f t = Some ts"
    "subnet_range ts (take n (addr_bits (h_bytes net))) n" "family_matches (h_family net) (ts_type ts)"
    using create_from_subnet_range [OF assms(1,2)] by blast
  have "family_matches (h_family h) (ts_type ts) \<longleftrightarrow> h_family h = h_family net"
    using ts(3) by (auto simp: family_matches_def)
  then show ?thesis using ts(1) subnet_range_includes [OF ts(2) assms(3)] by auto
qed

lemma subnet_selector_includes_witness:
  "\<exists>ts. traffic_selector_create_from_subnet \<lparr>h_family = AF_INET, h_bytes = [10, 1, 7, 9], h_port = 0\<rparr> 20 0 0 0xFFFF = Some ts \<and>
    ts_includes ts \<lparr>h_family = AF_INET, h_bytes = [10, 1, 15, 255], h_port = 5\<rparr>"
proof -
  have "take 20 (addr_bits [10, 1, 15, 255]) = take 20 (addr_bits [10, 1, 7, 9 :: u8])" by code_simp
  then show ?thesis
    using subnet_selector_includes [of "\<lparr>h_family = AF_INET, h_bytes = [10, 1, 7, 9], h_port = 0\<rparr>" 20
        "\<lparr>h_family = AF_INET, h_bytes = [10, 1, 15, 255], h_port = 5\<rparr>" 0 0 "0xFFFF"]
    by (simp add: host_ok_def family_len_def del: addr_bits_simps)
qed

text \<open>
  C30. A subnet survives transmission as an address range: the selector created from the first and the last
  address of the selector of a subnet equals it, is recognised as a subnet with the same prefix length,
  and converts back to the network whose host bits are cleared.
\<close>

theorem subnet_roundtrip:
  assumes "host_ok net" "n \<le> 8 * length (h_bytes net)"
  shows "\<exists>ts s h. traffic_selector_create_from_subnet net n p f t = Some ts \<and>
    traffic_selector_create_from_bytes p (ts_type ts) (take (TS_IP_LEN ts) (ts_from ts)) (ts_from_port ts)
      (take (TS_IP_LEN ts) (ts_to ts)) (ts_to_port ts) = Some s \<and> ts_equals s ts \<and>
    to_subnet s = Some (h, n, True) \<and> h_family h = h_family net \<and>
    addr_bits (h_bytes h) = take n (addr_bits (h_bytes net)) @ replicate (8 * length (h_bytes net) - n) False"
proof -
  obtain ts s0 where ts: "traffic_selector_create_from_subnet net n p f t = Some ts"
    "subnet_range ts (take n (addr_bits (h_bytes net))) n" "family_matches (h_family net) (ts_type ts)"
    and s0: "traffic_selector_create p (ts_type ts) f t = Some s0" "ts_protocol ts = ts_protocol s0"
      "ts_from_port ts = ts_from_port s0" "ts_to_port ts = ts_to_port s0"
    using create_from_subnet_range [OF assms] by blast
  let ?len = "TS_IP_LEN ts"
  let ?c = "s0\<lparr>ts_from := memcpy_to (ts_from s0) (take ?len (ts_from ts)) ?len,
                ts_to := memcpy_to (ts_to s0) (take ?len (ts_to ts)) ?len\<rparr>"
  let ?s = "?c\<lparr>ts_netbits := n\<rparr>"
  note c = create_ok [OF s0(1)]
  have ok: "ts_ok ts" "?len \<le> 16" using ts(2) ip_len_le by (auto simp: subnet_range_def)
  have len: "TS_IP_LEN ?c = ?len" "TS_IP_LEN s0 = ?len" "TS_IP_LEN ?s = ?len" using c by (simp_all add: TS_IP_LEN_def)
  have addr: "take ?len (ts_from ?c) = take ?len (ts_from ts)" "take ?len (ts_to ?c) = take ?len (ts_to ts)"
    using ok by (simp_all add: memcpy_to_def ts_ok_def)
  have "ts_ok ?c" using c ok by (simp add: ts_ok_def memcpy_to_def)
  then have r: "subnet_range ?c (take n (addr_bits (h_bytes net))) n" "ts_ok ?s"
    using ts(2) addr by (simp_all add: subnet_range_def len ts_ok_def)
  then have rs: "subnet_range ?s (take n (addr_bits (h_bytes net))) n"
    using addr by (simp add: subnet_range_def len)
  have created: "traffic_selector_create_from_bytes p (ts_type ts) (take ?len (ts_from ts)) (ts_from_port ts)
      (take ?len (ts_to ts)) (ts_to_port ts) = Some ?s"
    using create_again [OF s0(1)] ok calc_netbits_subnet [OF r(1)]
    by (simp add: traffic_selector_create_from_bytes_def s0 len ts_ok_def min_def)
  obtain h where h: "to_subnet ?s = Some (h, n, True)" "family_matches (h_family h) (ts_type ?s)"
    "h_bytes h = take ?len (ts_from ?s)"
    using to_subnet_range [OF rs] by (auto simp: len)
  have "ts_equals ?s ts"
    using r(2) ok c addr s0 by (intro ts_equals_intro) (simp_all add: len)
  moreover have "h_family h = h_family net" using h(2) ts(3) c by (auto simp: family_matches_def)
  moreover have "length (h_bytes net) = ?len" by (rule family_matches_len [OF ts(3) assms(1)])
  moreover have "addr_bits (h_bytes h) = take n (addr_bits (h_bytes net)) @ replicate (8 * ?len - n) False"
    using rs unfolding h(3) by (simp add: subnet_range_def len)
  ultimately show ?thesis using ts(1) created h(1) by auto
qed

theorem subnet_roundtrip_witness:
  "\<exists>ts s h. traffic_selector_create_from_subnet \<lparr>h_family = AF_INET, h_bytes = [10, 1, 7, 9], h_port = 0\<rparr> 20 0 0 0xFFFF = Some ts \<and>
    ts_equals s ts \<and> to_subnet s = Some (h, 20, True) \<and> h_family h = AF_INET"
  using subnet_roundtrip [of "\<lparr>h_family = AF_INET, h_bytes = [10, 1, 7, 9], h_port = 0\<rparr>" 20 0 0 "0xFFFF"]
  by (auto simp: host_ok_def family_len_def simp del: addr_bits_simps)

text \<open>
  Constructors shift ports below 256 of ICMP selectors into the type byte. \<^verbatim>\<open>get_subset\<close> passes the
  ports of the intersection to the constructor, so the intersection of a selector for port 80 of any
  protocol with a selector for ICMP selects ICMP type 80, which the first one does not select.
\<close>

lemma get_subset_shifts_ports:
  defines "a \<equiv> (v4_selector 1 9 80 80)\<lparr>ts_protocol := 0\<rparr>"
  defines "b \<equiv> (v4_selector 1 9 0 0xFFFF)\<lparr>ts_protocol := IPPROTO_ICMP\<rparr>"
  defines "h \<equiv> \<lparr>h_family = AF_INET, h_bytes = [10, 0, 0, 5], h_port = 0x5000\<rparr>"
  shows "\<exists>s. get_subset a b = Some s \<and> ts_selects s IPPROTO_ICMP h \<and> \<not> ts_selects a IPPROTO_ICMP h"
  unfolding a_def b_def h_def
  by (simp add: v4_selector_def get_subset_def is_opaque_def is_any_def Let_def memcmp_def TS_IP_LEN_def
      traffic_selector_create_def ts_selects_def ts_includes_def family_matches_def get_address_def)

end
