(* ===== verification/Ipsec_Policy.thy ===== *)
theory Ipsec_Policy
  imports Traffic_Selector Ip_Packet
begin

text \<open>
  Policies of user-space IPsec, \<^verbatim>\<open>src/src/libipsec/ipsec_policy.c\<close>, and the manager that keeps them
  sorted by a priority computed from the size of their selectors,
  \<^verbatim>\<open>src/src/libipsec/ipsec_policy_mgr.c\<close>. The lock of the manager makes every operation atomic.
\<close>

datatype policy_dir_t = POLICY_IN | POLICY_OUT | POLICY_FWD
datatype policy_type_t = POLICY_IPSEC | POLICY_PASS | POLICY_DROP
datatype policy_priority_t =
  POLICY_PRIORITY_PASS | POLICY_PRIORITY_DEFAULT | POLICY_PRIORITY_ROUTED | POLICY_PRIORITY_FALLBACK

record mark_t =
  mark_value :: u32
  mark_mask :: u32

record ipsec_policy_t =
  pol_src :: host_t
  pol_dst :: host_t
  pol_src_ts :: traffic_selector_t
  pol_dst_ts :: traffic_selector_t
  pol_protocol :: u8
  pol_direction :: policy_dir_t
  pol_type :: policy_type_t
  pol_reqid :: u32
  pol_mark :: mark_t
  pol_priority :: policy_priority_t

text \<open>The policy keeps clones of the selectors, which have the same fields.\<close>

definition ipsec_policy_create ::
  "host_t \<Rightarrow> host_t \<Rightarrow> traffic_selector_t \<Rightarrow> traffic_selector_t \<Rightarrow> policy_dir_t \<Rightarrow> policy_type_t \<Rightarrow>
   u32 \<Rightarrow> mark_t \<Rightarrow> policy_priority_t \<Rightarrow> ipsec_policy_t" where
  "ipsec_policy_create src dst src_ts dst_ts direction ty reqid mark priority =
     \<lparr>pol_src = src, pol_dst = dst, pol_src_ts = src_ts, pol_dst_ts = dst_ts,
      pol_protocol = max (ts_protocol src_ts) (ts_protocol dst_ts), pol_direction = direction,
      pol_type = ty, pol_reqid = reqid, pol_mark = mark, pol_priority = priority\<rparr>"

definition policy_match ::
  "ipsec_policy_t \<Rightarrow> traffic_selector_t \<Rightarrow> traffic_selector_t \<Rightarrow> policy_dir_t \<Rightarrow> u32 \<Rightarrow> mark_t \<Rightarrow>
   policy_priority_t \<Rightarrow> bool" where
  "policy_match this src_ts dst_ts direction reqid mark priority \<longleftrightarrow>
     pol_direction this = direction \<and> pol_priority this = priority \<and> pol_reqid this = reqid \<and>
     pol_mark this = mark \<and> ts_equals (pol_src_ts this) src_ts \<and> ts_equals (pol_dst_ts this) dst_ts"

definition match_port :: "traffic_selector_t \<Rightarrow> host_t \<Rightarrow> bool" where
  "match_port ts host =
     (let from = ts_from_port ts; to = ts_to_port ts
      in if from = 0 \<and> to = 0xFFFF \<or> from = 0xFFFF \<and> to = 0 then True
         else from \<le> get_port host \<and> get_port host \<le> to)"

definition match_packet :: "ipsec_policy_t \<Rightarrow> ip_packet_t \<Rightarrow> bool" where
  "match_packet this packet \<longleftrightarrow>
     (pol_protocol this = 0 \<or> pol_protocol this = ip_next_header packet) \<and>
     ts_includes (pol_src_ts this) (ip_src packet) \<and> match_port (pol_src_ts this) (ip_src packet) \<and>
     ts_includes (pol_dst_ts this) (ip_dst packet) \<and> match_port (pol_dst_ts this) (ip_dst packet)"

section \<open>The policy manager\<close>

record ipsec_policy_entry_t =
  pe_priority :: u32
  pe_policy :: ipsec_policy_t

abbreviation (input) PRIO_BASE :: u32 where "PRIO_BASE \<equiv> 384"

text \<open>The fall-through cases double the base once per class.\<close>

fun priority_base :: "policy_priority_t \<Rightarrow> u32" where
  "priority_base POLICY_PRIORITY_FALLBACK = push_bit 1 (push_bit 1 (push_bit 1 PRIO_BASE))"
| "priority_base POLICY_PRIORITY_ROUTED = push_bit 1 (push_bit 1 PRIO_BASE)"
| "priority_base POLICY_PRIORITY_DEFAULT = push_bit 1 PRIO_BASE"
| "priority_base POLICY_PRIORITY_PASS = PRIO_BASE"

text \<open>The result is \<open>None\<close> if a selector has no address range, which the code does not check for.\<close>

definition calculate_priority ::
  "policy_priority_t \<Rightarrow> traffic_selector_t \<Rightarrow> traffic_selector_t \<Rightarrow> u32 option" where
  "calculate_priority policy_priority src dst =
     do { (snet, smask, _) \<leftarrow> to_subnet src;
          (dnet, dmask, _) \<leftarrow> to_subnet dst;
          let priority = priority_base policy_priority - of_nat smask - of_nat dmask;
          let proto = max (ts_protocol src) (ts_protocol dst);
          let port = max (get_port snet) (get_port dnet);
          Some (push_bit 2 priority + (if port \<noteq> 0 then 0 else 2) + (if proto \<noteq> 0 then 0 else 1)) }"

definition policy_entry_create :: "ipsec_policy_t \<Rightarrow> ipsec_policy_entry_t option" where
  "policy_entry_create policy =
     map_option (\<lambda>prio. \<lparr>pe_priority = prio, pe_policy = policy\<rparr>)
       (calculate_priority (pol_priority policy) (pol_src_ts policy) (pol_dst_ts policy))"

text \<open>The loop that inserts before the first entry with the same or a larger value.\<close>

fun insert_policy :: "ipsec_policy_entry_t \<Rightarrow> ipsec_policy_entry_t list \<Rightarrow> ipsec_policy_entry_t list" where
  "insert_policy entry [] = [entry]"
| "insert_policy entry (current # rest) =
     (if pe_priority current \<ge> pe_priority entry then entry # current # rest
      else current # insert_policy entry rest)"

definition add_policy ::
  "ipsec_policy_entry_t list \<Rightarrow> host_t \<Rightarrow> host_t \<Rightarrow> traffic_selector_t \<Rightarrow> traffic_selector_t \<Rightarrow> policy_dir_t \<Rightarrow>
   policy_type_t \<Rightarrow> u32 \<Rightarrow> mark_t \<Rightarrow> policy_priority_t \<Rightarrow> (status_t \<times> ipsec_policy_entry_t list) option" where
  "add_policy this src dst src_ts dst_ts direction ty reqid mark priority =
     (if ty \<noteq> POLICY_IPSEC \<or> direction = POLICY_FWD then Some (SUCCESS, this)
      else do { entry \<leftarrow> policy_entry_create
                  (ipsec_policy_create src dst src_ts dst_ts direction ty reqid mark priority);
                Some (SUCCESS, insert_policy entry this) })"

fun remove_policy :: "(ipsec_policy_entry_t \<Rightarrow> bool) \<Rightarrow> ipsec_policy_entry_t list \<Rightarrow> ipsec_policy_entry_t list option" where
  "remove_policy found [] = None"
| "remove_policy found (current # rest) =
     (if found current then Some rest else map_option ((#) current) (remove_policy found rest))"

definition del_policy ::
  "ipsec_policy_entry_t list \<Rightarrow> traffic_selector_t \<Rightarrow> traffic_selector_t \<Rightarrow> policy_dir_t \<Rightarrow> policy_type_t \<Rightarrow>
   u32 \<Rightarrow> mark_t \<Rightarrow> policy_priority_t \<Rightarrow> (status_t \<times> ipsec_policy_entry_t list) option" where
  "del_policy this src_ts dst_ts direction ty reqid mark priority =
     (if ty \<noteq> POLICY_IPSEC \<or> direction = POLICY_FWD then Some (SUCCESS, this)
      else do { prio \<leftarrow> calculate_priority priority src_ts dst_ts;
                case remove_policy (\<lambda>current. pe_priority current = prio \<and>
                       policy_match (pe_policy current) src_ts dst_ts direction reqid mark priority) this of
                  Some rest \<Rightarrow> Some (SUCCESS, rest)
                | None \<Rightarrow> Some (FAILED, this) })"

definition flush_policies :: "ipsec_policy_entry_t list \<Rightarrow> status_t \<times> ipsec_policy_entry_t list" where
  "flush_policies this = (SUCCESS, [])"

fun find_by_packet :: "ipsec_policy_entry_t list \<Rightarrow> ip_packet_t \<Rightarrow> bool \<Rightarrow> u32 \<Rightarrow> ipsec_policy_t option" where
  "find_by_packet [] packet inb reqid = None"
| "find_by_packet (current # rest) packet inb reqid =
     (let policy = pe_policy current
      in if inb = (pol_direction policy = POLICY_IN) \<and> match_packet policy packet \<and>
            (reqid = 0 \<or> reqid = pol_reqid policy)
         then Some policy else find_by_packet rest packet inb reqid)"

section \<open>Lookup returns the best policy\<close>

definition spd_sorted :: "ipsec_policy_entry_t list \<Rightarrow> bool" where
  "spd_sorted es \<longleftrightarrow> sorted (map pe_priority es)"

lemma mset_insert_policy: "mset (insert_policy e es) = add_mset e (mset es)"
  by (induction es) auto

lemma set_insert_policy [simp]: "set (insert_policy e es) = insert e (set es)"
  by (induction es) auto

lemma sorted_insert_policy: "spd_sorted es \<Longrightarrow> spd_sorted (insert_policy e es)"
  unfolding spd_sorted_def by (induction es) (auto simp: not_le)

lemma remove_policy_some:
  "remove_policy f es = Some rest \<Longrightarrow> \<exists>e. f e \<and> mset es = add_mset e (mset rest) \<and> (spd_sorted es \<longrightarrow> spd_sorted rest)"
proof (induction es arbitrary: rest)
  case (Cons c es)
  show ?case
  proof (cases "f c")
    case True
    then show ?thesis using Cons.prems by (auto simp: spd_sorted_def)
  next
    case False
    then obtain r where r: "remove_policy f es = Some r" "rest = c # r" using Cons.prems by auto
    then obtain e where e: "f e" "mset es = add_mset e (mset r)" "spd_sorted es \<longrightarrow> spd_sorted r" using Cons.IH by blast
    have "set r \<subseteq> set es" using e(2) by (metis set_mset_add_mset_insert set_mset_mset subset_insertI)
    then show ?thesis using e r by (auto simp: spd_sorted_def)
  qed
qed simp

lemma remove_policy_none: "remove_policy f es = None \<longleftrightarrow> (\<forall>e\<in>set es. \<not> f e)"
  by (induction es) auto

text \<open>Policies that apply to a packet.\<close>

definition applies :: "ip_packet_t \<Rightarrow> bool \<Rightarrow> u32 \<Rightarrow> ipsec_policy_t \<Rightarrow> bool" where
  "applies p inb reqid policy \<longleftrightarrow> inb = (pol_direction policy = POLICY_IN) \<and> match_packet policy p \<and>
     (reqid = 0 \<or> reqid = pol_reqid policy)"

lemma find_by_packet_spec:
  "find_by_packet es p inb reqid = None \<longleftrightarrow> (\<forall>e\<in>set es. \<not> applies p inb reqid (pe_policy e))"
  "spd_sorted es \<Longrightarrow> find_by_packet es p inb reqid = Some policy \<Longrightarrow>
     \<exists>e\<in>set es. pe_policy e = policy \<and> applies p inb reqid policy \<and>
       (\<forall>e'\<in>set es. applies p inb reqid (pe_policy e') \<longrightarrow> pe_priority e \<le> pe_priority e')"
  by (induction es) (auto simp: applies_def Let_def spd_sorted_def split: if_splits)

lemma find_by_packet_mem:
  "find_by_packet es p inb reqid = Some q \<Longrightarrow> q \<in> pe_policy ` set es \<and> applies p inb reqid q"
  by (induction es) (auto simp: applies_def Let_def split: if_splits)

section \<open>Reachable policy databases\<close>

inductive spd_reachable :: "ipsec_policy_entry_t list \<Rightarrow> bool" where
  Empty: "spd_reachable []"
| Add: "spd_reachable es \<Longrightarrow> add_policy es src dst sts dts dir ty reqid mark prio = Some (st, es') \<Longrightarrow> spd_reachable es'"
| Del: "spd_reachable es \<Longrightarrow> del_policy es sts dts dir ty reqid mark prio = Some (st, es') \<Longrightarrow> spd_reachable es'"
| Flush: "spd_reachable es \<Longrightarrow> flush_policies es = (st, es') \<Longrightarrow> spd_reachable es'"

definition policy_value :: "ipsec_policy_t \<Rightarrow> u32 option" where
  "policy_value p = calculate_priority (pol_priority p) (pol_src_ts p) (pol_dst_ts p)"

definition spd_ok :: "ipsec_policy_entry_t list \<Rightarrow> bool" where
  "spd_ok es \<longleftrightarrow> spd_sorted es \<and> (\<forall>e\<in>set es. policy_value (pe_policy e) = Some (pe_priority e) \<and>
     pol_type (pe_policy e) = POLICY_IPSEC \<and> pol_direction (pe_policy e) \<noteq> POLICY_FWD)"

lemma add_policy_ok:
  assumes "spd_ok es" "add_policy es src dst sts dts dir ty reqid mark prio = Some (st, es')"
  shows "spd_ok es'"
  using assms sorted_insert_policy
  by (auto simp: add_policy_def spd_ok_def policy_entry_create_def policy_value_def ipsec_policy_create_def
      split: if_splits bind_splits)

lemma del_policy_ok:
  assumes "spd_ok es" "del_policy es sts dts dir ty reqid mark prio = Some (st, es')"
  shows "spd_ok es'"
proof (cases "es' = es")
  case False
  then obtain f where "remove_policy f es = Some es'"
    using assms(2) by (auto simp: del_policy_def split: if_splits bind_splits option.splits)
  from remove_policy_some [OF this] obtain e where "mset es = add_mset e (mset es')" "spd_sorted es \<longrightarrow> spd_sorted es'"
    by blast
  moreover from this(1) have "set es' \<subseteq> set es"
    by (metis set_mset_add_mset_insert set_mset_mset subset_insertI)
  ultimately show ?thesis using assms(1) by (auto simp: spd_ok_def)
qed (use assms in simp)

lemma reachable_ok: "spd_reachable es \<Longrightarrow> spd_ok es"
proof (induction rule: spd_reachable.induct)
  case Empty
  then show ?case by (simp add: spd_ok_def spd_sorted_def)
next
  case Add
  then show ?case using add_policy_ok by blast
next
  case Del
  then show ?case using del_policy_ok by blast
next
  case Flush
  then show ?case by (simp add: flush_policies_def spd_ok_def spd_sorted_def)
qed

text \<open>
  C28. Policy lookup is exact and prefers the best policy: in every policy database that adding, deleting and
  flushing can produce, a lookup fails only if no installed policy applies to the packet, and otherwise
  returns an applicable policy whose priority value is the smallest of all that apply.
\<close>

theorem spd_lookup_best:
  assumes "spd_reachable es"
  shows "case find_by_packet es p inb reqid of
      None \<Rightarrow> \<forall>e\<in>set es. \<not> applies p inb reqid (pe_policy e)
    | Some q \<Rightarrow> q \<in> pe_policy ` set es \<and> applies p inb reqid q \<and>
        (\<exists>v. policy_value q = Some v \<and>
          (\<forall>e\<in>set es. applies p inb reqid (pe_policy e) \<longrightarrow> v \<le> the (policy_value (pe_policy e))))"
proof -
  have ok: "spd_sorted es" "\<And>e. e \<in> set es \<Longrightarrow> policy_value (pe_policy e) = Some (pe_priority e)"
    using reachable_ok [OF assms] by (auto simp: spd_ok_def)
  show ?thesis
  proof (cases "find_by_packet es p inb reqid")
    case None
    then have "\<forall>e\<in>set es. \<not> applies p inb reqid (pe_policy e)" using find_by_packet_spec(1) by blast
    then show ?thesis unfolding None option.case .
  next
    case (Some q)
    then show ?thesis using find_by_packet_spec(2) [OF ok(1) Some] ok(2) by fastforce
  qed
qed

definition net24 :: "u8 \<Rightarrow> traffic_selector_t" where
  "net24 b = \<lparr>ts_type = TS_IPV4_ADDR_RANGE, ts_protocol = 0, ts_dynamic = False, ts_netbits = 24,
     ts_from = [10, 0, b, 0] @ replicate 12 0, ts_to = [10, 0, b, 255] @ replicate 12 0,
     ts_from_port = 0, ts_to_port = 0xFFFF\<rparr>"

lemma net24_subnet: "to_subnet (net24 b) = Some (\<lparr>h_family = AF_INET, h_bytes = [10, 0, b, 0], h_port = 0\<rparr>, 24, True)"
proof -
  have "(255 :: u8) = - 1" by simp
  then have "b AND 255 = b" by (simp only: and.right_neutral)
  then show ?thesis
    by (simp add: to_subnet_def net24_def net_chunk_def memcpy_to_def host_create_from_chunk_def Let_def)
qed

lemma net24_priority: "\<exists>v. calculate_priority c (net24 a) (net24 b) = Some v"
  by (simp add: calculate_priority_def net24_subnet)

theorem spd_lookup_best_witness:
  "\<exists>es. add_policy [] (ip_src small_packet) (ip_dst small_packet) (net24 0) (net24 0) POLICY_OUT POLICY_IPSEC 1
      \<lparr>mark_value = 0, mark_mask = 0\<rparr> POLICY_PRIORITY_DEFAULT = Some (SUCCESS, es) \<and>
    (case find_by_packet es small_packet False 0 of
      None \<Rightarrow> \<forall>e\<in>set es. \<not> applies small_packet False 0 (pe_policy e)
    | Some q \<Rightarrow> q \<in> pe_policy ` set es \<and> applies small_packet False 0 q \<and>
        (\<exists>v. policy_value q = Some v \<and>
          (\<forall>e\<in>set es. applies small_packet False 0 (pe_policy e) \<longrightarrow> v \<le> the (policy_value (pe_policy e)))))"
proof -
  obtain es where "add_policy [] (ip_src small_packet) (ip_dst small_packet) (net24 0) (net24 0) POLICY_OUT POLICY_IPSEC 1
      \<lparr>mark_value = 0, mark_mask = 0\<rparr> POLICY_PRIORITY_DEFAULT = Some (SUCCESS, es)"
    using net24_priority [of POLICY_PRIORITY_DEFAULT 0 0]
    by (auto simp: add_policy_def policy_entry_create_def ipsec_policy_create_def)
  then show ?thesis using spd_lookup_best [OF spd_reachable.Add [OF spd_reachable.Empty], of _ _ _ _ _ _ _ _ _ _ es small_packet False 0]
    by blast
qed

text \<open>Deleting a policy that was just added restores the database.\<close>

lemma ts_equals_refl: "ts_equals t t"
proof -
  have "bytes_cmp xs xs = 0" for xs by (induction xs) simp_all
  then show ?thesis by (simp add: ts_equals_def traffic_selector_cmp_def compare_int_def memcmp_def Let_def)
qed

lemma remove_inserted:
  assumes "f e" "\<And>x. f x \<Longrightarrow> pe_priority x = pe_priority e"
  shows "remove_policy f (insert_policy e es) = Some es"
proof (induction es)
  case (Cons c es)
  have "\<not> f c" if "\<not> pe_priority e \<le> pe_priority c" using assms(2) [of c] that by auto
  then show ?case using Cons assms(1) by simp
qed (use assms(1) in simp)

lemma add_del_policy:
  assumes "add_policy es src dst sts dts dir ty reqid mark prio = Some (SUCCESS, es')"
  shows "del_policy es' sts dts dir ty reqid mark prio = Some (SUCCESS, es)"
proof (cases "ty \<noteq> POLICY_IPSEC \<or> dir = POLICY_FWD")
  case True
  then show ?thesis using assms by (auto simp: add_policy_def del_policy_def)
next
  case False
  let ?p = "ipsec_policy_create src dst sts dts dir ty reqid mark prio"
  obtain v where v: "calculate_priority prio sts dts = Some v" "es' = insert_policy \<lparr>pe_priority = v, pe_policy = ?p\<rparr> es"
    using assms False by (auto simp: add_policy_def policy_entry_create_def ipsec_policy_create_def split: bind_splits)
  let ?f = "\<lambda>c. pe_priority c = v \<and> policy_match (pe_policy c) sts dts dir reqid mark prio"
  have "policy_match ?p sts dts dir reqid mark prio"
    by (simp add: policy_match_def ipsec_policy_create_def ts_equals_refl)
  then have "remove_policy ?f es' = Some es" unfolding v(2) by (intro remove_inserted) auto
  then show ?thesis using False v(1) by (auto simp: del_policy_def)
qed

section \<open>Priority classes\<close>

text \<open>The order of the enumeration of priorities.\<close>

fun priority_rank :: "policy_priority_t \<Rightarrow> nat" where
  "priority_rank POLICY_PRIORITY_PASS = 0"
| "priority_rank POLICY_PRIORITY_DEFAULT = 1"
| "priority_rank POLICY_PRIORITY_ROUTED = 2"
| "priority_rank POLICY_PRIORITY_FALLBACK = 3"

lemma priority_rank_inj: "priority_rank a = priority_rank b \<longleftrightarrow> a = b"
  by (cases a; cases b) simp_all

instantiation policy_priority_t :: linorder
begin

definition less_eq_policy_priority_t :: "policy_priority_t \<Rightarrow> policy_priority_t \<Rightarrow> bool" where
  "a \<le> b \<longleftrightarrow> priority_rank a \<le> priority_rank b"

definition less_policy_priority_t :: "policy_priority_t \<Rightarrow> policy_priority_t \<Rightarrow> bool" where
  "a < b \<longleftrightarrow> priority_rank a < priority_rank b"

instance
  by standard (auto simp: less_eq_policy_priority_t_def less_policy_priority_t_def priority_rank_inj)

end

text \<open>Selectors whose prefix length is known or marked as unknown, as every constructor leaves them.\<close>

definition netbits_ok :: "traffic_selector_t \<Rightarrow> bool" where
  "netbits_ok ts \<longleftrightarrow> ts_netbits ts \<le> 128 \<or> ts_netbits ts = NON_SUBNET_ADDRESS_RANGE"

lemma netbits_loop_le: "i + length ps \<le> d \<Longrightarrow> n \<le> d \<Longrightarrow> fst (netbits_loop i pfx n ps) \<le> d"
  by (induction i pfx n ps rule: netbits_loop.induct) auto

lemma to_subnet_mask:
  assumes "netbits_ok ts" "to_subnet ts = Some (h, m, b)"
  shows "m \<le> 128"
proof -
  have "fst (calc_netbits ts) \<le> 128"
  proof -
    let ?n = "TS_IP_LEN ts"
    let ?z = "zip (addr_bits (take ?n (ts_from ts))) (addr_bits (take ?n (ts_to ts)))"
    have "fst (netbits_loop 0 True (?n * 8) ?z) \<le> ?n * 8"
      by (rule netbits_loop_le) (auto simp: min_def)
    then show ?thesis using ip_len_le [of ts] by (auto simp: calc_netbits_def Let_def split: prod.split)
  qed
  then show ?thesis
    using assms by (auto simp: to_subnet_def Let_def netbits_ok_def split: ts_type_t.splits if_splits)
qed

lemma unat_priority_base: "unat (priority_base c) = 384 * 2 ^ priority_rank c"
  by (cases c) simp_all

lemma calculate_priority_bounds:
  assumes "calculate_priority c s d = Some v" "netbits_ok s" "netbits_ok d"
  shows "4 * (384 * 2 ^ priority_rank c) \<le> unat v + 4 * 256" "unat v \<le> 4 * (384 * 2 ^ priority_rank c) + 3"
proof -
  obtain sn sm sb dn dm db where t: "to_subnet s = Some (sn, sm, sb)" "to_subnet d = Some (dn, dm, db)"
    and v: "v = push_bit 2 (priority_base c - of_nat sm - of_nat dm) +
      (if max (get_port sn) (get_port dn) \<noteq> 0 then 0 else 2) + (if max (ts_protocol s) (ts_protocol d) \<noteq> 0 then 0 else 1)"
    using assms(1) by (auto simp: calculate_priority_def split: bind_splits)
  have m: "sm \<le> 128" "dm \<le> 128" using to_subnet_mask assms(2,3) t by blast+
  define B :: nat where "B = 384 * 2 ^ priority_rank c"
  have b: "384 \<le> B" "B \<le> 3072" unfolding B_def by (cases c; simp)+
  have base: "unat (priority_base c) = B" unfolding B_def by (rule unat_priority_base)
  have sub: "unat (priority_base c - of_nat sm - of_nat dm) = B - sm - dm"
  proof -
    have n: "unat (of_nat sm :: u32) = sm" "unat (of_nat dm :: u32) = dm" using m by (simp_all add: unat_of_nat_u32)
    have "unat (priority_base c - of_nat sm) = B - sm"
      using m b n base by (simp add: unat_sub word_le_nat_alt)
    then show ?thesis using m b n by (simp add: unat_sub word_le_nat_alt)
  qed
  have sh: "unat (push_bit 2 x) = 4 * unat x" if "unat x \<le> 3072" for x :: u32
    using that by (simp add: push_bit_eq_mult unat_word_ariths)
  obtain k :: nat where k: "k \<le> 3" and "unat v = 4 * (B - sm - dm) + k"
  proof -
    let ?x = "push_bit 2 (priority_base c - of_nat sm - of_nat dm)"
    have "unat ?x = 4 * (B - sm - dm)" using sh sub b m by simp
    moreover have "unat (?x + e) = unat ?x + unat e" if "unat e \<le> 3" for e :: u32
      using that b calculation by (simp add: unat_word_ariths)
    ultimately show thesis using that v by (auto simp: add.assoc split: if_splits)
  qed
  then show "4 * (384 * 2 ^ priority_rank c) \<le> unat v + 4 * 256" "unat v \<le> 4 * (384 * 2 ^ priority_rank c) + 3"
    using m b unfolding B_def [symmetric] by auto
qed

text \<open>
  The classes of policies never mix: for selectors of any size, ports and protocols, a policy of a
  class with higher precedence has a strictly smaller priority value than any policy of a lower
  class, and the computation does not wrap around.
\<close>

lemma priority_classes_ordered:
  assumes "calculate_priority c1 s1 d1 = Some v1" "calculate_priority c2 s2 d2 = Some v2" "c1 < c2"
    and "netbits_ok s1" "netbits_ok d1" "netbits_ok s2" "netbits_ok d2"
  shows "v1 < v2"
proof -
  let ?r1 = "2 ^ priority_rank c1 :: nat" and ?r2 = "2 ^ priority_rank c2 :: nat"
  have "priority_rank c1 < priority_rank c2" using assms(3) by (simp add: less_policy_priority_t_def)
  then have "(2 :: nat) ^ Suc (priority_rank c1) \<le> ?r2" by (intro power_increasing) auto
  then have "2 * ?r1 \<le> ?r2" "1 \<le> ?r1" by simp_all
  then have "unat v1 < unat v2"
    using calculate_priority_bounds(2) [OF assms(1,4,5)] calculate_priority_bounds(1) [OF assms(2,6,7)] by linarith
  then show ?thesis by (simp add: word_less_nat_alt)
qed

lemma priority_classes_ordered_witness:
  "\<exists>v1 v2. calculate_priority POLICY_PRIORITY_DEFAULT (net24 0) (net24 1) = Some v1 \<and>
    calculate_priority POLICY_PRIORITY_ROUTED (net24 1) (net24 0) = Some v2 \<and> v1 < v2"
proof -
  obtain v1 v2 where v: "calculate_priority POLICY_PRIORITY_DEFAULT (net24 0) (net24 1) = Some v1"
    "calculate_priority POLICY_PRIORITY_ROUTED (net24 1) (net24 0) = Some v2"
    using net24_priority by blast
  have "v1 < v2"
    by (rule priority_classes_ordered [OF v]) (simp_all add: less_policy_priority_t_def netbits_ok_def net24_def)
  then show ?thesis using v by blast
qed

end
