(* ===== verification/Ipsec_Processor.thy ===== *)
theory Ipsec_Processor
  imports Ipsec_Sa Ipsec_Policy
begin

text \<open>
  The packet processor of user-space IPsec, \<^verbatim>\<open>src/src/libipsec/ipsec_processor.c\<close>: inbound ESP packets
  are decrypted, checked against the policies and delivered; outbound IP packets are matched to a
  policy and an SA, encrypted and sent. The two queues hand over one packet at a time; the registered
  callbacks are the events \<open>Ev_Deliver\<close> and \<open>Ev_Send\<close>.
\<close>

record ipsec_t =
  sas :: ipsec_sa_mgr_t
  policies :: "ipsec_policy_entry_t list"

text \<open>
  The result of processing is \<open>None\<close> when the thread has to wait for an SA in use, or when an access
  to memory would be invalid.
\<close>

definition process_inbound :: "ipsec_t \<Rightarrow> int \<Rightarrow> esp_packet_t \<Rightarrow> (ipsec_t \<times> ipsec_event list) option" where
  "process_inbound this now packet =
     (case parse_header packet of
        None \<Rightarrow> Some (this, [])
      | Some spi \<Rightarrow>
          do { (found, mgr) \<leftarrow> checkout_by_spi (sas this) spi (ep_dst packet);
               let this = this\<lparr>sas := mgr\<rparr>;
               case found of
                 None \<Rightarrow> Some (this, [])
               | Some (ptr, sa) \<Rightarrow>
                   if \<not> sa_inbound sa then Some (this\<lparr>sas := checkin mgr ptr sa\<rparr>, [])
                   else
                     (case decrypt packet (sa_aead sa) (sa_esp_context sa) of (status, packet, ctx) \<Rightarrow>
                        let sa = sa\<lparr>sa_esp_context := ctx\<rparr>
                        in if status \<noteq> SUCCESS then Some (this\<lparr>sas := checkin mgr ptr sa\<rparr>, [])
                           else
                             do { ip_packet \<leftarrow> ep_payload packet;
                                  let (sa, evs) = update_usestats sa now (of_nat (length (ip_encoding ip_packet)));
                                  let this = this\<lparr>sas := checkin mgr ptr sa\<rparr>;
                                  Some (this, evs @
                                    (if ep_next_header packet = IPPROTO_IPIP \<or> ep_next_header packet = IPPROTO_IPV6
                                     then case find_by_packet (policies this) ip_packet True (sa_reqid sa) of
                                            Some policy \<Rightarrow> [Ev_Deliver ip_packet]
                                          | None \<Rightarrow> []
                                     else [])) }) })"

definition process_outbound :: "ipsec_t \<Rightarrow> int \<Rightarrow> ip_packet_t \<Rightarrow> (ipsec_t \<times> ipsec_event list) option" where
  "process_outbound this now packet =
     (case find_by_packet (policies this) packet False 0 of
        None \<Rightarrow> Some (this, [])
      | Some policy \<Rightarrow>
          do { (found, acquire, mgr) \<leftarrow> checkout_by_reqid (sas this) now (pol_reqid policy) False;
               let this = this\<lparr>sas := mgr\<rparr>;
               case found of
                 None \<Rightarrow> Some (this, if acquire then [Ev_Acquire (pol_reqid policy)] else [])
               | Some (ptr, sa) \<Rightarrow>
                   do { (status, esp_packet, ctx) \<leftarrow>
                          encrypt (esp_packet_create_from_payload (sa_src sa) (sa_dst sa) (Some packet))
                            (sa_aead sa) (sa_esp_context sa) (sa_spi sa);
                        let sa = sa\<lparr>sa_esp_context := ctx\<rparr>;
                        if status \<noteq> SUCCESS then Some (this\<lparr>sas := checkin mgr ptr sa\<rparr>, [])
                        else
                          let (sa, evs) = update_usestats sa now (of_nat (length (ip_encoding packet)))
                          in Some (this\<lparr>sas := checkin mgr ptr sa\<rparr>, evs @ [Ev_Send esp_packet (sa_encap sa)]) } })"

section \<open>Inbound policy enforcement\<close>

text \<open>Statistics keep the configuration of the SA and cause only expire events.\<close>

lemma update_usestats_frame:
  obtains sa' evs where "update_usestats sa now n = (sa', evs)" "sa_reqid sa' = sa_reqid sa" "sa_encap sa' = sa_encap sa"
    "sa_esp_context sa' = sa_esp_context sa" "\<And>p. Ev_Deliver p \<notin> set evs" "\<And>q b. Ev_Send q b \<notin> set evs"
proof (cases "update_usestats sa now n")
  case (Pair sa' evs)
  show thesis
    by (rule that [OF Pair]) (use Pair in \<open>auto simp: update_usestats_def expire_def Let_def split: if_splits\<close>)
qed

lemma find_Some_mem: "List.find P xs = Some x \<Longrightarrow> x \<in> set xs \<and> P x"
  by (induction xs) (auto split: if_splits)

lemma checkout_by_spi_found:
  assumes "checkout_by_spi m spi dst = Some (Some (ptr, sa), m')"
  obtains e where "e \<in> set (m_sas m)" "e_ptr e = ptr" "e_sa e = sa" "match_by_spi_dst sa spi dst" "\<not> e_locked e"
    "\<not> e_awaits_deletion e" "m' = put_entry m (e\<lparr>e_locked := True\<rparr>)"
  using assms
  by (auto simp: checkout_by_spi_def wait_for_entry_def split: option.splits if_splits bind_splits dest!: find_Some_mem)

lemma decrypt_success:
  assumes "decrypt p a c = (SUCCESS, q, c')"
  obtains seq iv ct icv pt payload where "esp_fields a (ep_data p) = Some (seq, iv, ct, icv)" "verify_seqno c seq"
    "aead_decrypt a (ct @ icv) (take 8 (ep_data p)) iv = Some pt" "ep_payload q = Some payload"
    "c' = set_authenticated_seqno c seq" "packet_ok payload"
proof -
  obtain seq iv ct icv where f: "esp_fields a (ep_data p) = Some (seq, iv, ct, icv)"
    using assms by (cases "esp_fields a (ep_data p)") (auto simp: decrypt_def Let_def)
  note [simp] = decrypt_def Let_def
  have v: "verify_seqno c seq" using assms f by (auto split: if_splits)
  obtain pt where d: "aead_decrypt a (ct @ icv) (take 8 (ep_data p)) iv = Some pt"
    using assms f v by (cases "aead_decrypt a (ct @ icv) (take 8 (ep_data p)) iv") auto
  have q: "remove_padding (p\<lparr>ep_payload := None\<rparr>) pt = Some q" "c' = set_authenticated_seqno c seq"
    using assms f v d by (auto split: option.splits)
  then obtain payload r where "ip_packet_create r = Some payload" "ep_payload q = Some payload"
    by (auto simp: remove_padding_def split: bind_splits if_splits)
  then show thesis using that [OF f v d _ q(2)] ip_packet_create_ok by blast
qed

text \<open>
  C12. Inbound policy enforcement: an IP packet is delivered only if the ESP packet carried the SPI and the
  destination of an installed inbound SA that has not expired, its sequence number was fresh, the AEAD of
  that SA authenticated it, and an installed inbound policy with the reqid of the SA matches the
  addresses, ports and protocol of the inner packet.
\<close>

theorem inbound_policy_enforced:
  assumes "process_inbound st now packet = Some (st', evs)" "Ev_Deliver p \<in> set evs"
  shows "\<exists>e\<in>set (m_sas (sas st)). \<exists>seq iv ct icv pt.
    sa_inbound (e_sa e) \<and> \<not> sa_hard_expired (e_sa e) \<and> parse_header packet = Some (sa_spi (e_sa e)) \<and>
    ip_equals (sa_dst (e_sa e)) (ep_dst packet) \<and>
    esp_fields (sa_aead (e_sa e)) (ep_data packet) = Some (seq, iv, ct, icv) \<and>
    verify_seqno (sa_esp_context (e_sa e)) seq \<and>
    aead_decrypt (sa_aead (e_sa e)) (ct @ icv) (take 8 (ep_data packet)) iv = Some pt \<and>
    (\<exists>q\<in>pe_policy ` set (policies st). pol_direction q = POLICY_IN \<and> match_packet q p \<and>
       (sa_reqid (e_sa e) = 0 \<or> pol_reqid q = sa_reqid (e_sa e)))"
proof -
  obtain spi where spi: "parse_header packet = Some spi"
    using assms by (cases "parse_header packet") (auto simp: process_inbound_def)
  obtain found mgr where co: "checkout_by_spi (sas st) spi (ep_dst packet) = Some (found, mgr)"
    using assms by (cases "checkout_by_spi (sas st) spi (ep_dst packet)") (auto simp: process_inbound_def spi)
  obtain ptr sa where found: "found = Some (ptr, sa)"
    using assms by (cases found) (auto simp: process_inbound_def spi co)
  have inb: "sa_inbound sa" using assms by (auto simp: process_inbound_def spi co found Let_def split: if_splits)
  obtain status q ctx where d: "decrypt packet (sa_aead sa) (sa_esp_context sa) = (status, q, ctx)"
    by (cases "decrypt packet (sa_aead sa) (sa_esp_context sa)")
  have ok: "status = SUCCESS"
    using assms by (auto simp: process_inbound_def spi co found inb d Let_def split: if_splits)
  obtain seq iv ct icv pt payload where
    f: "esp_fields (sa_aead sa) (ep_data packet) = Some (seq, iv, ct, icv)" "verify_seqno (sa_esp_context sa) seq"
      "aead_decrypt (sa_aead sa) (ct @ icv) (take 8 (ep_data packet)) iv = Some pt" "ep_payload q = Some payload"
    using decrypt_success d ok by metis
  obtain sa' ev where u: "update_usestats (sa\<lparr>sa_esp_context := ctx\<rparr>) now (of_nat (length (ip_encoding payload))) = (sa', ev)"
    "sa_reqid sa' = sa_reqid sa" "Ev_Deliver p \<notin> set ev"
    by (rule update_usestats_frame [of "sa\<lparr>sa_esp_context := ctx\<rparr>" now "of_nat (length (ip_encoding payload))"]) simp
  obtain policy where pol: "find_by_packet (policies st) p True (sa_reqid sa) = Some policy"
    using assms u by (auto simp: process_inbound_def spi co found inb d ok f(4) Let_def split: if_splits option.splits)
  obtain e where e: "e \<in> set (m_sas (sas st))" "e_sa e = sa" "match_by_spi_dst sa spi (ep_dst packet)"
    using checkout_by_spi_found co found by metis
  have "\<exists>q\<in>pe_policy ` set (policies st). pol_direction q = POLICY_IN \<and> match_packet q p \<and>
      (sa_reqid sa = 0 \<or> pol_reqid q = sa_reqid sa)"
    using find_by_packet_mem [OF pol] by (auto simp: applies_def)
  then show ?thesis
    using e spi inb f unfolding match_by_spi_dst_def
    by (intro bexI [of _ e] exI [of _ seq] exI [of _ iv] exI [of _ ct] exI [of _ icv] exI [of _ pt]) auto
qed

section \<open>From one gateway to the other\<close>

lemma wait_free: "\<not> e_locked e \<Longrightarrow> \<not> e_awaits_deletion e \<Longrightarrow> wait_for_entry e = Some (True, e\<lparr>e_locked := True\<rparr>)"
  by (simp add: wait_for_entry_def)

lemma process_outbound_sends:
  assumes "find_by_packet (policies A) p False 0 = Some pol"
    and "List.find (\<lambda>e. match_by_reqid (e_sa e) (pol_reqid pol) False) (m_sas (sas A)) = Some e"
    and "\<not> e_locked e" "\<not> e_awaits_deletion e"
    and "encrypt (esp_packet_create_from_payload (sa_src (e_sa e)) (sa_dst (e_sa e)) (Some p)) (sa_aead (e_sa e))
      (sa_esp_context (e_sa e)) (sa_spi (e_sa e)) = Some (SUCCESS, esp, ctx)"
  shows "\<exists>A' evs. process_outbound A now p = Some (A', evs) \<and> Ev_Send esp (sa_encap (e_sa e)) \<in> set evs"
proof -
  have co: "checkout_by_reqid (sas A) now (pol_reqid pol) False =
      Some (Some (e_ptr e, e_sa e), False, put_entry (sas A) (e\<lparr>e_locked := True\<rparr>))"
    using assms(2) wait_free [OF assms(3,4)] by (simp add: checkout_by_reqid_def)
  obtain sa' ev where "update_usestats ((e_sa e)\<lparr>sa_esp_context := ctx\<rparr>) now (of_nat (length (ip_encoding p))) = (sa', ev)"
    "sa_encap sa' = sa_encap (e_sa e)"
    by (rule update_usestats_frame [of "(e_sa e)\<lparr>sa_esp_context := ctx\<rparr>" now "of_nat (length (ip_encoding p))"]) simp
  then show ?thesis by (simp add: process_outbound_def assms(1,5) co Let_def)
qed

lemma process_inbound_delivers:
  assumes "parse_header pkt = Some (sa_spi sa)"
    and "List.find (\<lambda>e. match_by_spi_dst (e_sa e) (sa_spi sa) (ep_dst pkt)) (m_sas (sas B)) = Some e"
    and "\<not> e_locked e" "\<not> e_awaits_deletion e" "sa_inbound (e_sa e)"
    and "decrypt pkt (sa_aead (e_sa e)) (sa_esp_context (e_sa e)) = (SUCCESS, q, ctx)" "ep_payload q = Some p"
    and "ep_next_header q = IPPROTO_IPIP \<or> ep_next_header q = IPPROTO_IPV6"
    and "find_by_packet (policies B) p True (sa_reqid (e_sa e)) \<noteq> None"
  shows "\<exists>B' evs. process_inbound B now pkt = Some (B', evs) \<and> Ev_Deliver p \<in> set evs"
proof -
  have co: "checkout_by_spi (sas B) (sa_spi sa) (ep_dst pkt) =
      Some (Some (e_ptr e, e_sa e), put_entry (sas B) (e\<lparr>e_locked := True\<rparr>))"
    using assms(2) wait_free [OF assms(3,4)] by (simp add: checkout_by_spi_def)
  obtain pol where pol: "find_by_packet (policies B) p True (sa_reqid (e_sa e)) = Some pol" using assms(9) by auto
  obtain sa' ev where "update_usestats ((e_sa e)\<lparr>sa_esp_context := ctx\<rparr>) now (of_nat (length (ip_encoding p))) = (sa', ev)"
    "sa_reqid sa' = sa_reqid (e_sa e)"
    by (rule update_usestats_frame [of "(e_sa e)\<lparr>sa_esp_context := ctx\<rparr>" now "of_nat (length (ip_encoding p))"]) simp
  then show ?thesis using assms(8) pol by (auto simp: process_inbound_def assms(1,5,6,7) co Let_def)
qed

lemma send_then_receive:
  assumes "find_by_packet (policies A) p False 0 = Some pol"
    and A: "List.find (\<lambda>e. match_by_reqid (e_sa e) (pol_reqid pol) False) (m_sas (sas A)) = Some a"
      "\<not> e_locked a" "\<not> e_awaits_deletion a"
    and B: "List.find (\<lambda>e. match_by_spi_dst (e_sa e) (sa_spi (e_sa a)) (sa_dst (e_sa a))) (m_sas (sas B)) = Some b"
      "\<not> e_locked b" "\<not> e_awaits_deletion b" "sa_inbound (e_sa b)"
    and keys: "sa_aead (e_sa b) = sa_aead (e_sa a)" "aead_correct (sa_aead (e_sa a))" "aead_sizes (sa_aead (e_sa a))"
      "aead_total (sa_aead (e_sa a))"
    and p: "ip_packet_create (ip_encoding p) = Some p"
      "length (ip_encoding p) + aead_iv_size (sa_aead (e_sa a)) + aead_icv_size (sa_aead (e_sa a)) < 2 ^ 31"
    and seq: "next_seqno (sa_esp_context (e_sa a)) = Some (seq, c1)" "verify_seqno (sa_esp_context (e_sa b)) seq"
    and "find_by_packet (policies B) p True (sa_reqid (e_sa b)) \<noteq> None"
  shows "\<exists>A' evs esp. process_outbound A now p = Some (A', evs) \<and> Ev_Send esp (sa_encap (e_sa a)) \<in> set evs \<and>
    (\<exists>B' evs'. process_inbound B now' (esp_packet_create_from_packet (ep_src esp) (ep_dst esp) (ep_data esp)) = Some (B', evs') \<and>
      Ev_Deliver p \<in> set evs')"
proof -
  let ?sa = "e_sa a"
  obtain esp q where e: "encrypt (esp_packet_create_from_payload (sa_src ?sa) (sa_dst ?sa) (Some p)) (sa_aead ?sa)
      (sa_esp_context ?sa) (sa_spi ?sa) = Some (SUCCESS, esp, c1)"
    and hosts: "ep_src esp = sa_src ?sa" "ep_dst esp = sa_dst ?sa"
    and h: "parse_header (esp_packet_create_from_packet (sa_src ?sa) (sa_dst ?sa) (ep_data esp)) = Some (sa_spi ?sa)"
    and d: "decrypt (esp_packet_create_from_packet (sa_src ?sa) (sa_dst ?sa) (ep_data esp)) (sa_aead ?sa) (sa_esp_context (e_sa b)) =
        (SUCCESS, q, set_authenticated_seqno (sa_esp_context (e_sa b)) seq)" "ep_payload q = Some p"
      "ep_next_header q = (if ip_version p = 4 then IPPROTO_IPIP else IPPROTO_IPV6)"
    using encrypt_decrypt [OF keys(2,3) p seq, of "sa_src ?sa" "sa_dst ?sa" "sa_spi ?sa"] keys(4) by blast
  let ?pkt = "esp_packet_create_from_packet (sa_src ?sa) (sa_dst ?sa) (ep_data esp)"
  have dst: "ep_dst ?pkt = sa_dst ?sa" by (simp add: esp_packet_create_from_packet_def)
  have nh: "ep_next_header q = IPPROTO_IPIP \<or> ep_next_header q = IPPROTO_IPV6" using d(3) by auto
  have "\<exists>B' evs'. process_inbound B now' ?pkt = Some (B', evs') \<and> Ev_Deliver p \<in> set evs'"
    using process_inbound_delivers [of ?pkt ?sa B b q _ p, unfolded dst, OF h B, unfolded keys(1), OF d(1,2) nh assms(17)] .
  then show ?thesis
    using process_outbound_sends [OF assms(1) A e, of now] hosts by metis
qed

text \<open>Two gateways with one SA and one policy each.\<close>

definition demo_sa :: "bool \<Rightarrow> ipsec_sa_t" where
  "demo_sa inb = \<lparr>sa_spi = 0x1234, sa_src = ip_src small_packet, sa_dst = ip_dst small_packet, sa_protocol = IPPROTO_ESP,
     sa_reqid = 1, sa_lifetime = \<lparr>lt_time = \<lparr>lim_life = 0, lim_rekey = 0\<rparr>, lt_bytes = \<lparr>lim_life = 0, lim_rekey = 0\<rparr>,
       lt_packets = \<lparr>lim_life = 0, lim_rekey = 0\<rparr>\<rparr>,
     sa_encap = False, sa_inbound = inb, sa_esp_context = esp_context_create inb, sa_aead = copy_aead, sa_use_time = 0,
     sa_use_packets = 0, sa_use_bytes = 0, sa_soft_expired = False, sa_hard_expired = False\<rparr>"

definition demo_entry :: "bool \<Rightarrow> ipsec_sa_entry_t" where
  "demo_entry inb = \<lparr>e_ptr = 0, e_sa = demo_sa inb, e_locked = False, e_awaits_deletion = False\<rparr>"

definition demo_policy :: "policy_dir_t \<Rightarrow> ipsec_policy_t" where
  "demo_policy dir = ipsec_policy_create (ip_src small_packet) (ip_dst small_packet) (net24 0) (net24 0) dir POLICY_IPSEC 1
     \<lparr>mark_value = 0, mark_mask = 0\<rparr> POLICY_PRIORITY_DEFAULT"

definition demo_gateway :: "bool \<Rightarrow> ipsec_t" where
  "demo_gateway inb =
     \<lparr>sas = \<lparr>m_sas = [demo_entry inb], m_allocated_spis = [], m_acquires = (\<lambda>_. None), m_next_ptr = 1\<rparr>,
      policies = [\<lparr>pe_priority = 0, pe_policy = demo_policy (if inb then POLICY_IN else POLICY_OUT)\<rparr>]\<rparr>"

lemma demo_facts:
  "find_by_packet (policies (demo_gateway False)) small_packet False 0 = Some (demo_policy POLICY_OUT)"
  "List.find (\<lambda>e. match_by_reqid (e_sa e) (pol_reqid (demo_policy POLICY_OUT)) False) (m_sas (sas (demo_gateway False))) =
     Some (demo_entry False)"
  "\<not> e_locked (demo_entry inb)" "\<not> e_awaits_deletion (demo_entry inb)"
  "List.find (\<lambda>e. match_by_spi_dst (e_sa e) (sa_spi (e_sa (demo_entry False))) (sa_dst (e_sa (demo_entry False))))
     (m_sas (sas (demo_gateway True))) = Some (demo_entry True)"
  "sa_inbound (e_sa (demo_entry True))" "sa_aead (e_sa (demo_entry True)) = sa_aead (e_sa (demo_entry False))"
  "aead_correct (sa_aead (e_sa (demo_entry inb)))" "aead_sizes (sa_aead (e_sa (demo_entry inb)))"
  "aead_total (sa_aead (e_sa (demo_entry inb)))"
  "length (ip_encoding small_packet) + aead_iv_size (sa_aead (e_sa (demo_entry False))) +
     aead_icv_size (sa_aead (e_sa (demo_entry False))) < 2 ^ 31"
  "next_seqno (sa_esp_context (e_sa (demo_entry False))) = Some (1, (esp_context_create False)\<lparr>last_seqno := 1\<rparr>)"
  "verify_seqno (sa_esp_context (e_sa (demo_entry True))) 1"
  "find_by_packet (policies (demo_gateway True)) small_packet True (sa_reqid (e_sa (demo_entry True))) \<noteq> None"
  by (simp_all add: demo_gateway_def demo_policy_def demo_entry_def demo_sa_def small_packet_def copy_aead_ok
      match_packet_def ipsec_policy_create_def ts_includes_def family_matches_def get_address_def match_port_def memcmp_def
      net24_def match_by_reqid_def match_by_spi_dst_def ip_equals_def aead_total_def next_seqno_def verify_seqno_def
      esp_context_create_def Let_def, simp_all add: copy_aead_def)

text \<open>
  C11. The tunnel works end to end: if a gateway has an outbound policy for a packet and an SA for it, and
  the peer has the matching inbound SA with the same keys, has not seen the sequence number, and has an
  inbound policy for the packet, then processing the packet at the first gateway sends an ESP packet, and
  processing that at the second delivers exactly the original IP packet.
\<close>

theorem tunnel_delivers:
  assumes "find_by_packet (policies A) p False 0 = Some pol"
    and A: "List.find (\<lambda>e. match_by_reqid (e_sa e) (pol_reqid pol) False) (m_sas (sas A)) = Some a"
      "\<not> e_locked a" "\<not> e_awaits_deletion a"
    and B: "List.find (\<lambda>e. match_by_spi_dst (e_sa e) (sa_spi (e_sa a)) (sa_dst (e_sa a))) (m_sas (sas B)) = Some b"
      "\<not> e_locked b" "\<not> e_awaits_deletion b" "sa_inbound (e_sa b)"
    and keys: "sa_aead (e_sa b) = sa_aead (e_sa a)" "aead_correct (sa_aead (e_sa a))" "aead_sizes (sa_aead (e_sa a))"
      "aead_total (sa_aead (e_sa a))"
    and p: "ip_packet_create (ip_encoding p) = Some p"
      "length (ip_encoding p) + aead_iv_size (sa_aead (e_sa a)) + aead_icv_size (sa_aead (e_sa a)) < 2 ^ 31"
    and seq: "next_seqno (sa_esp_context (e_sa a)) = Some (seq, c1)" "verify_seqno (sa_esp_context (e_sa b)) seq"
    and "find_by_packet (policies B) p True (sa_reqid (e_sa b)) \<noteq> None"
  shows "\<exists>A' evs esp. process_outbound A now p = Some (A', evs) \<and> Ev_Send esp (sa_encap (e_sa a)) \<in> set evs \<and>
    (\<exists>B' evs'. process_inbound B now' (esp_packet_create_from_packet (ep_src esp) (ep_dst esp) (ep_data esp)) = Some (B', evs') \<and>
      Ev_Deliver p \<in> set evs')"
  by (rule send_then_receive [OF assms])

theorem tunnel_delivers_witness:
  "\<exists>A' evs esp. process_outbound (demo_gateway False) 0 small_packet = Some (A', evs) \<and> Ev_Send esp False \<in> set evs \<and>
    (\<exists>B' evs'. process_inbound (demo_gateway True) 0 (esp_packet_create_from_packet (ep_src esp) (ep_dst esp) (ep_data esp)) =
      Some (B', evs') \<and> Ev_Deliver small_packet \<in> set evs')"
  using tunnel_delivers [OF demo_facts(1-2) demo_facts(3,4) [of False] demo_facts(5) demo_facts(3,4) [of True]
      demo_facts(6,7) demo_facts(8-10) [of False] small_packet_parses demo_facts(11-14), of 0 0]
  by (simp add: demo_entry_def demo_sa_def)

theorem inbound_policy_enforced_witness:
  "\<exists>packet st' evs. process_inbound (demo_gateway True) 0 packet = Some (st', evs) \<and> Ev_Deliver small_packet \<in> set evs \<and>
    (\<exists>e\<in>set (m_sas (sas (demo_gateway True))). sa_inbound (e_sa e) \<and>
      (\<exists>q\<in>pe_policy ` set (policies (demo_gateway True)). pol_direction q = POLICY_IN \<and> match_packet q small_packet))"
proof -
  obtain packet st' evs where p: "process_inbound (demo_gateway True) 0 packet = Some (st', evs)" "Ev_Deliver small_packet \<in> set evs"
    using send_then_receive [OF demo_facts(1-2) demo_facts(3,4) [of False] demo_facts(5) demo_facts(3,4) [of True]
      demo_facts(6,7) demo_facts(8-10) [of False] small_packet_parses demo_facts(11-14), of 0 0] by blast
  from inbound_policy_enforced [OF p] show ?thesis using p by blast
qed

end
