(* ===== verification/Sa_Locking.thy ===== *)
theory Sa_Locking
  imports Main
begin

text \<open>
  How threads share an entry of the SA manager, \<^verbatim>\<open>src/src/libipsec/ipsec_sa_mgr.c\<close>: an SA is checked out
  by one thread at a time, others wait on the condition variable of the entry, and a thread that
  deletes the entry waits until nobody uses it or waits for it. All of this code runs with the mutex
  of the manager held, except while a thread waits on the condition variable; so a step is the code
  from one wait to the next, and a waiting thread may be woken up at any time.
\<close>

record entry_lock =
  locked :: bool
  waiting_threads :: nat
  awaits_deletion :: bool
  destroyed :: bool

text \<open>
  Where a thread is: outside, waiting in \<^verbatim>\<open>wait_for_entry\<close>, using the checked-out SA, or waiting in the
  first or the second loop of \<^verbatim>\<open>wait_remove_entry\<close>.
\<close>

datatype pc = Outside | Waiting | Using | Removing_Locked | Removing_Waiting

definition fresh_entry :: entry_lock where
  "fresh_entry = \<lparr>locked = False, waiting_threads = 0, awaits_deletion = False, destroyed = False\<rparr>"

section \<open>The code between waits\<close>

definition wait_for_entry_loop :: "entry_lock \<Rightarrow> pc \<times> entry_lock" where
  "wait_for_entry_loop e =
     (if locked e \<and> \<not> awaits_deletion e then (Waiting, e\<lparr>waiting_threads := waiting_threads e + 1\<rparr>)
      else if awaits_deletion e then (Outside, e)
      else (Using, e\<lparr>locked := True\<rparr>))"

definition wait_for_entry_resume :: "entry_lock \<Rightarrow> pc \<times> entry_lock" where
  "wait_for_entry_resume e = wait_for_entry_loop (e\<lparr>waiting_threads := waiting_threads e - 1\<rparr>)"

text \<open>After its loops the remover takes the entry off the list and destroys it.\<close>

definition wait_remove_loop2 :: "entry_lock \<Rightarrow> pc \<times> entry_lock" where
  "wait_remove_loop2 e =
     (if waiting_threads e > 0 then (Removing_Waiting, e) else (Outside, e\<lparr>destroyed := True\<rparr>))"

definition wait_remove_loop1 :: "entry_lock \<Rightarrow> pc \<times> entry_lock" where
  "wait_remove_loop1 e = (if locked e then (Removing_Locked, e) else wait_remove_loop2 e)"

definition wait_remove_start :: "entry_lock \<Rightarrow> pc \<times> entry_lock" where
  "wait_remove_start e =
     (if awaits_deletion e then (Outside, e) else wait_remove_loop1 (e\<lparr>awaits_deletion := True\<rparr>))"

definition checkin_entry :: "entry_lock \<Rightarrow> pc \<times> entry_lock" where
  "checkin_entry e = (Outside, if locked e then e\<lparr>locked := False\<rparr> else e)"

text \<open>
  The steps of thread \<open>t\<close>. An entry that was destroyed is not on the list any more, so nobody finds it
  there; a thread that has it already continues nevertheless.
\<close>

inductive entry_step :: "entry_lock \<times> (nat \<Rightarrow> pc) \<Rightarrow> entry_lock \<times> (nat \<Rightarrow> pc) \<Rightarrow> bool" where
  Checkout: "ts t = Outside \<Longrightarrow> \<not> destroyed e \<Longrightarrow> wait_for_entry_loop e = (q, e') \<Longrightarrow> entry_step (e, ts) (e', ts(t := q))"
| Wake: "ts t = Waiting \<Longrightarrow> wait_for_entry_resume e = (q, e') \<Longrightarrow> entry_step (e, ts) (e', ts(t := q))"
| Checkin: "ts t = Using \<Longrightarrow> checkin_entry e = (q, e') \<Longrightarrow> entry_step (e, ts) (e', ts(t := q))"
| Remove: "ts t = Outside \<Longrightarrow> \<not> destroyed e \<Longrightarrow> wait_remove_start e = (q, e') \<Longrightarrow> entry_step (e, ts) (e', ts(t := q))"
| Remove1: "ts t = Removing_Locked \<Longrightarrow> wait_remove_loop1 e = (q, e') \<Longrightarrow> entry_step (e, ts) (e', ts(t := q))"
| Remove2: "ts t = Removing_Waiting \<Longrightarrow> wait_remove_loop2 e = (q, e') \<Longrightarrow> entry_step (e, ts) (e', ts(t := q))"

definition entry_reachable :: "entry_lock \<times> (nat \<Rightarrow> pc) \<Rightarrow> bool" where
  "entry_reachable s \<longleftrightarrow> entry_step\<^sup>*\<^sup>* (fresh_entry, \<lambda>_. Outside) s"

section \<open>The invariant\<close>

text \<open>How many threads are at one of the places \<open>S\<close>; only finitely many are not outside.\<close>

definition threads_at :: "(nat \<Rightarrow> pc) \<Rightarrow> pc set \<Rightarrow> nat" where
  "threads_at ts S = card {t. ts t \<in> S}"

definition finite_busy :: "(nat \<Rightarrow> pc) \<Rightarrow> bool" where
  "finite_busy ts \<longleftrightarrow> finite {t. ts t \<noteq> Outside}"

abbreviation removing :: "pc set" where
  "removing \<equiv> {Removing_Locked, Removing_Waiting}"

text \<open>
  The flag tells whether a thread uses the entry, the counter how many wait; a thread that deletes the
  entry is the only one, and has seen the entry unlocked when it waits for the waiting ones.
\<close>

definition lock_inv :: "entry_lock \<times> (nat \<Rightarrow> pc) \<Rightarrow> bool" where
  "lock_inv s = (case s of (e, ts) \<Rightarrow>
     finite_busy ts \<and>
     threads_at ts {Waiting} = waiting_threads e \<and>
     threads_at ts {Using} = of_bool (locked e) \<and>
     threads_at ts removing = of_bool (awaits_deletion e \<and> \<not> destroyed e) \<and>
     (threads_at ts {Removing_Waiting} > 0 \<longrightarrow> \<not> locked e) \<and>
     (destroyed e \<longrightarrow> awaits_deletion e \<and> \<not> locked e \<and> waiting_threads e = 0))"

lemma finite_at: "finite_busy ts \<Longrightarrow> Outside \<notin> S \<Longrightarrow> finite {t. ts t \<in> S}"
  unfolding finite_busy_def by (erule rev_finite_subset) auto

lemma finite_busy_upd: "finite_busy ts \<Longrightarrow> finite_busy (ts(t := q))"
  unfolding finite_busy_def by (rule rev_finite_subset[of "insert t {t. ts t \<noteq> Outside}"]) auto

lemma threads_at_upd:
  assumes "finite_busy ts" "Outside \<notin> S"
  shows "threads_at (ts(t := q)) S =
    (if q \<in> S then if ts t \<in> S then threads_at ts S else Suc (threads_at ts S)
     else if ts t \<in> S then threads_at ts S - 1 else threads_at ts S)"
proof -
  have eq: "{u. (ts(t := q)) u \<in> S} =
      (if q \<in> S then insert t {u. ts u \<in> S} else {u. ts u \<in> S} - {t})" by auto
  show ?thesis
    using finite_at[OF assms] unfolding threads_at_def eq by (auto simp: insert_absorb card_Diff_singleton)
qed

lemma threads_at_pos:
  assumes "finite_busy ts" "Outside \<notin> S" "ts t \<in> S"
  shows "threads_at ts S > 0"
  using finite_at[OF assms(1,2)] assms(3) by (auto simp: threads_at_def card_gt_0_iff)

lemma threads_at_le_1:
  assumes "finite_busy ts" "Outside \<notin> S" "threads_at ts S \<le> 1" "ts t \<in> S" "ts u \<in> S"
  shows "t = u"
  using finite_at[OF assms(1,2)] assms(3-5) unfolding threads_at_def
  by (metis (mono_tags, lifting) card_le_Suc0_iff_eq mem_Collect_eq One_nat_def)

lemma threads_at_mono: "finite_busy ts \<Longrightarrow> threads_at ts {Removing_Waiting} \<le> threads_at ts removing"
  using finite_at[of ts removing] unfolding threads_at_def by (intro card_mono) auto

lemma lock_inv_init: "lock_inv (fresh_entry, \<lambda>_. Outside)"
  by (simp add: lock_inv_def fresh_entry_def threads_at_def finite_busy_def)

text \<open>What a thread's place says of the entry, and how the places change.\<close>

lemma lock_inv_places:
  assumes "lock_inv (e, ts)"
  shows "ts t = Waiting \<Longrightarrow> waiting_threads e > 0 \<and> \<not> destroyed e"
    and "ts t = Using \<Longrightarrow> locked e \<and> \<not> destroyed e"
    and "ts t \<in> removing \<Longrightarrow> awaits_deletion e \<and> \<not> destroyed e"
    and "ts t = Removing_Waiting \<Longrightarrow> \<not> locked e"
  using assms threads_at_pos[of ts "{Waiting}" t] threads_at_pos[of ts "{Using}" t]
    threads_at_pos[of ts removing t] threads_at_pos[of ts "{Removing_Waiting}" t]
  unfolding lock_inv_def by auto

lemmas place_simps = lock_inv_def threads_at_upd finite_busy_upd

lemmas code_simps =
  wait_for_entry_resume_def wait_for_entry_loop_def checkin_entry_def wait_remove_start_def
  wait_remove_loop1_def wait_remove_loop2_def

lemma Checkout_inv:
  assumes "lock_inv (e, ts)" "ts t = Outside" "\<not> destroyed e"
  shows "lock_inv (snd (wait_for_entry_loop e), ts(t := fst (wait_for_entry_loop e)))"
  using assms threads_at_mono[of ts]
  by (cases e; cases "locked e"; cases "awaits_deletion e") (simp_all add: place_simps code_simps)

lemma Wake_inv:
  assumes "lock_inv (e, ts)" "ts t = Waiting"
  shows "lock_inv (snd (wait_for_entry_resume e), ts(t := fst (wait_for_entry_resume e)))"
  using assms threads_at_mono[of ts] lock_inv_places(1)[of e ts t]
  by (cases e; cases "locked e"; cases "awaits_deletion e") (simp_all add: place_simps code_simps)

lemma Checkin_inv:
  assumes "lock_inv (e, ts)" "ts t = Using"
  shows "lock_inv (snd (checkin_entry e), ts(t := fst (checkin_entry e)))"
  using assms lock_inv_places(2)[of e ts t] by (cases e) (simp add: place_simps code_simps)

lemma Remove_inv:
  assumes "lock_inv (e, ts)" "ts t = Outside" "\<not> destroyed e"
  shows "lock_inv (snd (wait_remove_start e), ts(t := fst (wait_remove_start e)))"
  using assms threads_at_mono[of ts]
  by (cases e; cases "awaits_deletion e"; cases "locked e"; cases "waiting_threads e")
     (simp_all add: place_simps code_simps)

lemma Remove1_inv:
  assumes "lock_inv (e, ts)" "ts t = Removing_Locked"
  shows "lock_inv (snd (wait_remove_loop1 e), ts(t := fst (wait_remove_loop1 e)))"
proof -
  have "awaits_deletion e" "\<not> destroyed e" using lock_inv_places(3)[OF assms(1), of t] assms(2) by simp_all
  moreover have "ts(t := Removing_Locked) = ts" using assms(2) by auto
  ultimately show ?thesis using assms
    by (cases "locked e"; cases "waiting_threads e") (simp_all add: place_simps code_simps)
qed

lemma Remove2_inv:
  assumes "lock_inv (e, ts)" "ts t = Removing_Waiting"
  shows "lock_inv (snd (wait_remove_loop2 e), ts(t := fst (wait_remove_loop2 e)))"
proof -
  have "awaits_deletion e" "\<not> destroyed e" "\<not> locked e"
    using lock_inv_places(3,4)[OF assms(1), of t] assms(2) by simp_all
  moreover have "ts(t := Removing_Waiting) = ts" using assms(2) by auto
  ultimately show ?thesis using assms
    by (cases "waiting_threads e") (simp_all add: place_simps code_simps)
qed

lemma step_inv:
  assumes "entry_step s s'" "lock_inv s"
  shows "lock_inv s'"
  using assms(1)
proof (cases rule: entry_step.cases)
  case (Checkout ts t e q e')
  then show ?thesis using Checkout_inv[of e ts t] assms(2) by (simp del: fun_upd_apply)
next
  case (Wake ts t e q e')
  then show ?thesis using Wake_inv[of e ts t] assms(2) by (simp del: fun_upd_apply)
next
  case (Checkin ts t e q e')
  then show ?thesis using Checkin_inv[of e ts t] assms(2) by (simp del: fun_upd_apply)
next
  case (Remove ts t e q e')
  then show ?thesis using Remove_inv[of e ts t] assms(2) by (simp del: fun_upd_apply)
next
  case (Remove1 ts t e q e')
  then show ?thesis using Remove1_inv[of e ts t] assms(2) by (simp del: fun_upd_apply)
next
  case (Remove2 ts t e q e')
  then show ?thesis using Remove2_inv[of e ts t] assms(2) by (simp del: fun_upd_apply)
qed

lemma reachable_inv: "entry_reachable s \<Longrightarrow> lock_inv s"
  unfolding entry_reachable_def by (induction rule: rtranclp_induct) (auto intro: lock_inv_init step_inv)

text \<open>
  C15. Whatever the interleaving of checkouts, checkins, deletions and wake-ups, at most one thread
  uses an SA, exactly the flag tells whether one does, and an entry that was destroyed has no thread
  left that uses it, waits for it or is about to destroy it again.
\<close>

theorem sa_never_destroyed_in_use:
  assumes "entry_reachable (e, ts)"
  shows "(destroyed e \<longrightarrow> (\<forall>t. ts t = Outside)) \<and> (locked e \<longleftrightarrow> (\<exists>t. ts t = Using)) \<and>
    (\<forall>t u. ts t = Using \<and> ts u = Using \<longrightarrow> t = u) \<and>
    (\<forall>t u. ts t \<in> removing \<and> ts u \<in> removing \<longrightarrow> t = u)"
proof -
  have inv: "lock_inv (e, ts)" by (rule reachable_inv[OF assms])
  then have f: "finite_busy ts" and le: "threads_at ts {Using} \<le> 1" "threads_at ts removing \<le> 1"
    and l: "threads_at ts {Using} = of_bool (locked e)"
    by (auto simp: lock_inv_def)
  have "destroyed e \<longrightarrow> ts t = Outside" for t
    using lock_inv_places[OF inv, of t] by (cases "ts t") auto
  moreover have "locked e \<longleftrightarrow> (\<exists>t. ts t = Using)"
    using l finite_at[OF f, of "{Using}"] by (cases "locked e") (auto simp: threads_at_def card_1_singleton_iff)
  ultimately show ?thesis
    using threads_at_le_1[OF f _ le(1)] threads_at_le_1[OF f _ le(2)] by auto
qed

text \<open>
  A run: thread 1 checks the SA out, thread 2 waits for it and thread 3 wants to delete it; after the
  checkin the waiting thread gives up and the entry is destroyed.
\<close>

definition three_threads :: "pc \<Rightarrow> pc \<Rightarrow> pc \<Rightarrow> nat \<Rightarrow> pc" where
  "three_threads a b c = (\<lambda>_. Outside)(1 := a, 2 := b, 3 := c)"

lemma no_threads: "(\<lambda>_. Outside) = three_threads Outside Outside Outside"
  by (auto simp: three_threads_def)

lemma three_threads_simps:
  "(three_threads a b c)(Suc 0 := x) = three_threads x b c" "(three_threads a b c)(2 := x) = three_threads a x c"
  "(three_threads a b c)(3 := x) = three_threads a b x"
  "three_threads a b c (Suc 0) = a" "three_threads a b c 2 = b" "three_threads a b c 3 = c"
  by (auto simp: three_threads_def fun_eq_iff)

lemma run_to_destroyed: "entry_reachable (\<lparr>locked = False, waiting_threads = 0, awaits_deletion = True, destroyed = True\<rparr>, \<lambda>_. Outside)"
proof -
  let ?E = "\<lambda>l w a d. \<lparr>locked = l, waiting_threads = w, awaits_deletion = a, destroyed = d\<rparr>"
  let ?T = three_threads
  note T = three_threads_simps
  have "entry_step (?E False 0 False False, ?T Outside Outside Outside) (?E True 0 False False, ?T Using Outside Outside)"
    using entry_step.Checkout[of "?T Outside Outside Outside" 1 "?E False 0 False False"] by (simp add: code_simps T)
  moreover have "entry_step (?E True 0 False False, ?T Using Outside Outside) (?E True 1 False False, ?T Using Waiting Outside)"
    using entry_step.Checkout[of "?T Using Outside Outside" 2 "?E True 0 False False"] by (simp add: code_simps T)
  moreover have "entry_step (?E True 1 False False, ?T Using Waiting Outside) (?E True 1 True False, ?T Using Waiting Removing_Locked)"
    using entry_step.Remove[of "?T Using Waiting Outside" 3 "?E True 1 False False"] by (simp add: code_simps T)
  moreover have "entry_step (?E True 1 True False, ?T Using Waiting Removing_Locked) (?E False 1 True False, ?T Outside Waiting Removing_Locked)"
    using entry_step.Checkin[of "?T Using Waiting Removing_Locked" 1 "?E True 1 True False"] by (simp add: code_simps T)
  moreover have "entry_step (?E False 1 True False, ?T Outside Waiting Removing_Locked) (?E False 0 True False, ?T Outside Outside Removing_Locked)"
    using entry_step.Wake[of "?T Outside Waiting Removing_Locked" 2 "?E False 1 True False"] by (simp add: code_simps T)
  moreover have "entry_step (?E False 0 True False, ?T Outside Outside Removing_Locked) (?E False 0 True True, ?T Outside Outside Outside)"
    using entry_step.Remove1[of "?T Outside Outside Removing_Locked" 3 "?E False 0 True False"] by (simp add: code_simps T)
  ultimately show ?thesis
    unfolding entry_reachable_def fresh_entry_def no_threads by (meson rtranclp.rtrancl_refl rtranclp.rtrancl_into_rtrancl)
qed

theorem sa_never_destroyed_in_use_witness:
  "entry_reachable (\<lparr>locked = False, waiting_threads = 0, awaits_deletion = True, destroyed = True\<rparr>, \<lambda>_. Outside) \<and>
   \<not> (\<exists>t. (\<lambda>_::nat. Outside) t = Using)"
  using run_to_destroyed sa_never_destroyed_in_use[OF run_to_destroyed] by simp

end
