(* ===== verification/Scheduler.thy ===== *)
theory Scheduler
  imports Main "HOL-Library.Multiset" "HOL-Library.Monad_Syntax"
begin

text \<open>
  The scheduler, \<^verbatim>\<open>src/src/libstrongswan/processing/scheduler.c\<close>: timed events are kept in a binary heap in an
  array whose first cell is unused. Reading a cell outside of the array or one that was never written is
  \<open>None\<close>, so the operations below return \<open>None\<close> for an invalid access. Counts are natural numbers: the code's
  \<^verbatim>\<open>u_int\<close> counters would wrap only with four thousand million events in memory.
\<close>

section \<open>Times\<close>

datatype timeval_t = Timeval (tv_sec: int) (tv_usec: int)

text \<open>\<^verbatim>\<open>timercmp\<close> compares seconds first.\<close>

instantiation timeval_t :: linorder
begin

definition less_eq_timeval_t :: "timeval_t \<Rightarrow> timeval_t \<Rightarrow> bool" where
  "less_eq_timeval_t a b \<longleftrightarrow> (if tv_sec a = tv_sec b then tv_usec a \<le> tv_usec b else tv_sec a < tv_sec b)"

definition less_timeval_t :: "timeval_t \<Rightarrow> timeval_t \<Rightarrow> bool" where
  "less_timeval_t a b \<longleftrightarrow> (if tv_sec a = tv_sec b then tv_usec a < tv_usec b else tv_sec a < tv_sec b)"

instance
  by standard (auto simp: less_eq_timeval_t_def less_timeval_t_def timeval_t.expand split: if_splits)

end

definition timeradd :: "timeval_t \<Rightarrow> timeval_t \<Rightarrow> timeval_t" where
  "timeradd a b =
     (let sec = tv_sec a + tv_sec b; usec = tv_usec a + tv_usec b
      in if usec \<ge> 1000000 then Timeval (sec + 1) (usec - 1000000) else Timeval sec usec)"

section \<open>The heap\<close>

type_synonym job_t = nat

record event_t =
  ev_time :: timeval_t
  ev_job :: job_t

record scheduler_t =
  heap :: "event_t option list"
  heap_size :: nat
  event_count :: nat

abbreviation (input) HEAP_SIZE_DEFAULT :: nat where "HEAP_SIZE_DEFAULT \<equiv> 64"

definition scheduler_create :: scheduler_t where
  "scheduler_create = \<lparr>heap = replicate (HEAP_SIZE_DEFAULT + 1) None, heap_size = HEAP_SIZE_DEFAULT, event_count = 0\<rparr>"

definition read_heap :: "event_t option list \<Rightarrow> nat \<Rightarrow> event_t option" where
  "read_heap h i = (if i < length h then h ! i else None)"

definition write_heap :: "event_t option list \<Rightarrow> nat \<Rightarrow> event_t \<Rightarrow> event_t option list option" where
  "write_heap h i e = (if i < length h then Some (h[i := Some e]) else None)"

definition peek_event :: "scheduler_t \<Rightarrow> event_t option option" where
  "peek_event this = (if event_count this > 0 then map_option Some (read_heap (heap this) 1) else Some None)"

text \<open>The smaller child of a position, and the loop that seeps down the top event; positions start at 1.\<close>

definition smaller_child :: "event_t option list \<Rightarrow> nat \<Rightarrow> nat \<Rightarrow> (nat \<times> event_t) option" where
  "smaller_child h n position =
     do { l \<leftarrow> read_heap h (2 * position);
          if 2 * position + 1 \<le> n
          then do { r \<leftarrow> read_heap h (2 * position + 1);
                    Some (if ev_time r < ev_time l then (2 * position + 1, r) else (2 * position, l)) }
          else Some (2 * position, l) }"

lemma smaller_child_cases:
  "smaller_child h n p = Some (c, e) \<Longrightarrow> c = 2 * p \<or> c = 2 * p + 1 \<and> 2 * p + 1 \<le> n"
  by (auto simp: smaller_child_def split: if_splits bind_splits)

function seep_down :: "event_t option list \<Rightarrow> nat \<Rightarrow> event_t \<Rightarrow> nat \<Rightarrow> (event_t option list \<times> nat) option" where
  "seep_down h n bottom position =
     (if 1 \<le> position \<and> 2 * position \<le> n
      then case smaller_child h n position of
             None \<Rightarrow> None
           | Some (child, e) \<Rightarrow>
               if \<not> ev_time bottom > ev_time e then Some (h, position)
               else case write_heap h position e of
                      None \<Rightarrow> None
                    | Some h \<Rightarrow> seep_down h n bottom child
      else Some (h, position))"
  by pat_completeness auto
termination
  by (relation "measure (\<lambda>(h, n, bottom, position). n - position)") (auto dest!: smaller_child_cases)

declare seep_down.simps [simp del]

definition remove_event :: "scheduler_t \<Rightarrow> (event_t option \<times> scheduler_t) option" where
  "remove_event this =
     (if event_count this = 0 then Some (None, this)
      else do { event \<leftarrow> read_heap (heap this) 1;
                bottom \<leftarrow> read_heap (heap this) (event_count this);
                h \<leftarrow> write_heap (heap this) 1 bottom;
                let n = event_count this - 1;
                h \<leftarrow> (if n > 1
                     then do { (h, position) \<leftarrow> seep_down h n bottom 1; write_heap h position bottom }
                     else Some h);
                Some (Some event, this\<lparr>heap := h, event_count := n\<rparr>) })"

fun bubble_up :: "event_t option list \<Rightarrow> event_t \<Rightarrow> nat \<Rightarrow> (event_t option list \<times> nat) option" where
  "bubble_up h event position =
     (if position > 1
      then case read_heap h (position div 2) of
             None \<Rightarrow> None
           | Some parent \<Rightarrow>
               if ev_time parent > ev_time event
               then case write_heap h position parent of
                      None \<Rightarrow> None
                    | Some h \<Rightarrow> bubble_up h event (position div 2)
               else Some (h, position)
      else Some (h, position))"

declare bubble_up.simps [simp del]

text \<open>The heap is doubled when it is full; \<^verbatim>\<open>realloc\<close> keeps the cells and adds new ones without contents.\<close>

definition grow_heap :: "scheduler_t \<Rightarrow> scheduler_t" where
  "grow_heap this =
     (if event_count this > heap_size this
      then this\<lparr>heap_size := 2 * heap_size this,
                heap := take (2 * heap_size this + 1)
                  (heap this @ replicate (2 * heap_size this + 1 - length (heap this)) None)\<rparr>
      else this)"

definition schedule_job_tv :: "scheduler_t \<Rightarrow> job_t \<Rightarrow> timeval_t \<Rightarrow> scheduler_t option" where
  "schedule_job_tv this job tv =
     (let event = \<lparr>ev_time = tv, ev_job = job\<rparr>;
          this = grow_heap (this\<lparr>event_count := event_count this + 1\<rparr>)
      in do { (h, position) \<leftarrow> bubble_up (heap this) event (event_count this);
              h \<leftarrow> write_heap h position event;
              Some (this\<lparr>heap := h\<rparr>) })"

definition schedule_job :: "scheduler_t \<Rightarrow> timeval_t \<Rightarrow> job_t \<Rightarrow> nat \<Rightarrow> scheduler_t option" where
  "schedule_job this now job s = schedule_job_tv this job (Timeval (tv_sec now + int s) (tv_usec now))"

definition schedule_job_ms :: "scheduler_t \<Rightarrow> timeval_t \<Rightarrow> job_t \<Rightarrow> nat \<Rightarrow> scheduler_t option" where
  "schedule_job_ms this now job ms =
     schedule_job_tv this job (timeradd now (Timeval (int (ms div 1000)) (int (ms mod 1000 * 1000))))"

text \<open>
  One run of \<^verbatim>\<open>schedule\<close>: either a job is passed to the processor, or the thread waits, until the time of the
  first event or until it is signalled.
\<close>

datatype scheduled = Queue_Job job_t | Wait_Until timeval_t | Wait_For_Event

definition schedule :: "scheduler_t \<Rightarrow> timeval_t \<Rightarrow> (scheduled \<times> scheduler_t) option" where
  "schedule this now =
     do { event \<leftarrow> peek_event this;
          case event of
            None \<Rightarrow> Some (Wait_For_Event, this)
          | Some e \<Rightarrow>
              if \<not> now < ev_time e
              then do { (_, this) \<leftarrow> remove_event this; Some (Queue_Job (ev_job e), this) }
              else Some (Wait_Until (ev_time e), this) }"

definition get_job_load :: "scheduler_t \<Rightarrow> nat" where
  "get_job_load this = event_count this"

text \<open>
  Removing events until there is none; the number of rounds is bounded by the fuel. Each round of \<^verbatim>\<open>flush\<close> removes
  an event and the last one finds none, so the number of events plus one is enough fuel.
\<close>

fun drain :: "nat \<Rightarrow> ('q \<Rightarrow> ('e option \<times> 'q) option) \<Rightarrow> 'q \<Rightarrow> ('e list \<times> 'q) option" where
  "drain 0 del q = None"
| "drain (Suc n) del q =
     do { (e, q) \<leftarrow> del q;
          case e of
            None \<Rightarrow> Some ([], q)
          | Some e \<Rightarrow> do { (es, q) \<leftarrow> drain n del q; Some (e # es, q) } }"

fun ins_all :: "('e \<Rightarrow> 'q \<Rightarrow> 'q option) \<Rightarrow> 'e list \<Rightarrow> 'q \<Rightarrow> 'q option" where
  "ins_all ins [] q = Some q"
| "ins_all ins (e # es) q = Option.bind (ins e q) (ins_all ins es)"

definition flush_events :: "scheduler_t \<Rightarrow> (event_t list \<times> scheduler_t) option" where
  "flush_events this = drain (event_count this + 1) remove_event this"

section \<open>Heaps with a hole\<close>

abbreviation key :: "event_t option list \<Rightarrow> nat \<Rightarrow> timeval_t" where
  "key h i \<equiv> ev_time (the (h ! i))"

definition contents :: "event_t option list \<Rightarrow> nat set \<Rightarrow> event_t multiset" where
  "contents h S = image_mset (\<lambda>i. the (h ! i)) (mset_set S)"

text \<open>
  The loops move a hole through the heap: a position whose cell is about to be overwritten. Everything else
  is ordered, also across the hole.
\<close>

definition hole :: "event_t option list \<Rightarrow> nat \<Rightarrow> nat \<Rightarrow> bool" where
  "hole h n p \<longleftrightarrow> n < length h \<and> 1 \<le> p \<and> p \<le> n \<and> (\<forall>i. 1 \<le> i \<and> i \<le> n \<and> i \<noteq> p \<longrightarrow> h ! i \<noteq> None) \<and>
     (\<forall>i. 2 \<le> i \<and> i \<le> n \<and> i \<noteq> p \<and> i div 2 \<noteq> p \<longrightarrow> key h (i div 2) \<le> key h i) \<and>
     (\<forall>c. 2 \<le> p \<and> c div 2 = p \<and> c \<le> n \<longrightarrow> key h (p div 2) \<le> key h c)"

definition heap_ok :: "event_t option list \<Rightarrow> nat \<Rightarrow> bool" where
  "heap_ok h n \<longleftrightarrow> n < length h \<and> (\<forall>i. 1 \<le> i \<and> i \<le> n \<longrightarrow> h ! i \<noteq> None) \<and>
     (\<forall>i. 2 \<le> i \<and> i \<le> n \<longrightarrow> key h (i div 2) \<le> key h i)"

lemma holeD:
  assumes "hole h n p"
  shows "n < length h" "1 \<le> p" "p \<le> n" "1 \<le> i \<Longrightarrow> i \<le> n \<Longrightarrow> i \<noteq> p \<Longrightarrow> h ! i \<noteq> None"
    "2 \<le> i \<Longrightarrow> i \<le> n \<Longrightarrow> i \<noteq> p \<Longrightarrow> i div 2 \<noteq> p \<Longrightarrow> key h (i div 2) \<le> key h i"
    "2 \<le> p \<Longrightarrow> c div 2 = p \<Longrightarrow> c \<le> n \<Longrightarrow> key h (p div 2) \<le> key h c"
  using assms by (auto simp: hole_def)

lemma contents_update [simp]: "i \<notin> S \<Longrightarrow> contents (h[i := x]) S = contents h S"
  unfolding contents_def by (cases "finite S") (auto intro!: image_mset_cong, metis nth_list_update_neq)

lemma contents_insert: "finite S \<Longrightarrow> i \<notin> S \<Longrightarrow> contents h (insert i S) = add_mset (the (h ! i)) (contents h S)"
  by (simp add: contents_def)

lemma contents_move:
  assumes "p \<noteq> q" "p \<in> {1..n}" "q \<in> {1..n}" "p < length h"
  shows "contents (h[p := h ! q]) ({1..n} - {q}) = contents h ({1..n} - {p})"
proof -
  let ?R = "{1..n} - {p, q}"
  have e: "{1..n} - {q} = insert p ?R" "{1..n} - {p} = insert q ?R" using assms by auto
  have "contents (h[p := h ! q]) ({1..n} - {q}) = add_mset (the (h ! q)) (contents (h[p := h ! q]) ?R)"
    unfolding e using assms by (subst contents_insert) auto
  moreover have "contents h ({1..n} - {p}) = add_mset (the (h ! q)) (contents h ?R)"
    unfolding e by (subst contents_insert) auto
  ultimately show ?thesis by simp
qed

lemma hole_fill:
  assumes "hole h n p" "\<And>c. c div 2 = p \<Longrightarrow> c \<le> n \<Longrightarrow> ev_time e \<le> key h c"
    and "2 \<le> p \<Longrightarrow> key h (p div 2) \<le> ev_time e"
  shows "heap_ok (h[p := Some e]) n" "contents (h[p := Some e]) {1..n} = add_mset e (contents h ({1..n} - {p}))"
proof -
  note H = holeD[OF assms(1)]
  have pn: "p < length h" "p \<in> {1..n}" using H(1,2,3) by auto
  have half: "2 \<le> i \<Longrightarrow> i div 2 \<noteq> i \<and> 1 \<le> i div 2" for i :: nat by auto
  show "heap_ok (h[p := Some e]) n"
    unfolding heap_ok_def
  proof (intro conjI allI impI)
    show "n < length (h[p := Some e])" using H(1) by simp
  next
    fix i assume "1 \<le> i \<and> i \<le> n"
    then show "h[p := Some e] ! i \<noteq> None" using H(4)[of i] pn by (cases "i = p") auto
  next
    fix i assume i: "2 \<le> i \<and> i \<le> n"
    consider "i = p" | "i div 2 = p" "i \<noteq> p" | "i \<noteq> p" "i div 2 \<noteq> p" by blast
    then show "key (h[p := Some e]) (i div 2) \<le> key (h[p := Some e]) i"
    proof cases
      case 1
      then show ?thesis using i half[of i] assms(3) pn by simp
    next
      case 2
      then show ?thesis using i assms(2)[of i] pn by simp
    next
      case 3
      then show ?thesis using i H(5)[of i] by simp
    qed
  qed
  have "{1..n} = insert p ({1..n} - {p})" using pn by auto
  then show "contents (h[p := Some e]) {1..n} = add_mset e (contents h ({1..n} - {p}))"
    using contents_insert[of "{1..n} - {p}" p "h[p := Some e]"] pn by simp
qed

lemma hole_up:
  assumes "hole h n p" "2 \<le> p"
  shows "hole (h[p := h ! (p div 2)]) n (p div 2)"
    "contents (h[p := h ! (p div 2)]) ({1..n} - {p div 2}) = contents h ({1..n} - {p})"
    "c div 2 = p div 2 \<Longrightarrow> c \<le> n \<Longrightarrow> key h (p div 2) \<le> key (h[p := h ! (p div 2)]) c"
proof -
  note H = holeD[OF assms(1)]
  let ?q = "p div 2"
  have q: "1 \<le> ?q" "?q < p" "p < length h" "?q \<le> n" using assms(2) H(1,3) by auto
  show ch: "c div 2 = ?q \<Longrightarrow> c \<le> n \<Longrightarrow> key h ?q \<le> key (h[p := h ! ?q]) c" for c
    using H(5)[of c] q by (cases "c = p") auto
  show "contents (h[p := h ! ?q]) ({1..n} - {?q}) = contents h ({1..n} - {p})"
    using q H(2,3) by (intro contents_move) auto
  show "hole (h[p := h ! ?q]) n ?q"
    unfolding hole_def
  proof (intro conjI allI impI)
    fix i assume "1 \<le> i \<and> i \<le> n \<and> i \<noteq> ?q"
    then show "h[p := h ! ?q] ! i \<noteq> None" using H(4)[of i] H(4)[of ?q] q by (cases "i = p") auto
  next
    fix i assume i: "2 \<le> i \<and> i \<le> n \<and> i \<noteq> ?q \<and> i div 2 \<noteq> ?q"
    then have "i \<noteq> p" by auto
    then show "key (h[p := h ! ?q]) (i div 2) \<le> key (h[p := h ! ?q]) i"
      using i H(5)[of i] H(6)[of i] q assms(2) by (cases "i div 2 = p") auto
  next
    fix c assume c: "2 \<le> ?q \<and> c div 2 = ?q \<and> c \<le> n"
    have "?q div 2 \<noteq> p" "?q \<noteq> p" using q by auto
    then have "key h (?q div 2) \<le> key h ?q" using H(5)[of ?q] c q by simp
    also have "\<dots> \<le> key (h[p := h ! ?q]) c" using ch c by blast
    finally show "key (h[p := h ! ?q]) (?q div 2) \<le> key (h[p := h ! ?q]) c" using \<open>?q div 2 \<noteq> p\<close> by simp
  qed (use q H in auto)
qed

lemma hole_down:
  assumes "hole h n p" "c div 2 = p" "c \<le> n" "\<And>d. d div 2 = p \<Longrightarrow> d \<le> n \<Longrightarrow> key h c \<le> key h d"
  shows "hole (h[p := h ! c]) n c" "contents (h[p := h ! c]) ({1..n} - {c}) = contents h ({1..n} - {p})"
    "key (h[p := h ! c]) (c div 2) = key h c"
proof -
  note H = holeD[OF assms(1)]
  have c: "2 \<le> c" "p < c" "p < length h" "c \<noteq> p" using assms(2,3) H(1,2,3) by auto
  show "contents (h[p := h ! c]) ({1..n} - {c}) = contents h ({1..n} - {p})"
    using c H(2,3) assms(3) by (intro contents_move) auto
  show "key (h[p := h ! c]) (c div 2) = key h c" using assms(2) c by simp
  show "hole (h[p := h ! c]) n c"
    unfolding hole_def
  proof (intro conjI allI impI)
    fix i assume "1 \<le> i \<and> i \<le> n \<and> i \<noteq> c"
    then show "h[p := h ! c] ! i \<noteq> None" using H(4)[of i] H(4)[of c] c assms(3) by (cases "i = p") auto
  next
    fix i assume i: "2 \<le> i \<and> i \<le> n \<and> i \<noteq> c \<and> i div 2 \<noteq> c"
    consider "i = p" | "i div 2 = p" "i \<noteq> p" | "i \<noteq> p" "i div 2 \<noteq> p" by blast
    then show "key (h[p := h ! c]) (i div 2) \<le> key (h[p := h ! c]) i"
    proof cases
      case 1
      then have "i div 2 \<noteq> p" using i by auto
      then show ?thesis using 1 i H(6)[of c] assms(2,3) c by simp
    next
      case 2
      then show ?thesis using i assms(4)[of i] c by simp
    next
      case 3
      then show ?thesis using i H(5)[of i] by simp
    qed
  next
    fix d assume d: "2 \<le> c \<and> d div 2 = c \<and> d \<le> n"
    then have "d \<noteq> p" "2 \<le> d" using c by auto
    then show "key (h[p := h ! c]) (c div 2) \<le> key (h[p := h ! c]) d"
      using d H(5)[of d] c assms(2) by simp
  qed (use c H assms in auto)
qed

section \<open>The loops\<close>

text \<open>The loops end with a hole in which the event fits.\<close>

definition fits :: "event_t option list \<Rightarrow> nat \<Rightarrow> nat \<Rightarrow> event_t \<Rightarrow> bool" where
  "fits h n p e \<longleftrightarrow> hole h n p \<and> (\<forall>c. c div 2 = p \<and> c \<le> n \<longrightarrow> ev_time e \<le> key h c) \<and>
     (2 \<le> p \<longrightarrow> key h (p div 2) \<le> ev_time e)"

lemma fits_fill:
  assumes "fits h n p e"
  shows "\<exists>h'. write_heap h p e = Some h' \<and> length h' = length h \<and> heap_ok h' n \<and>
    contents h' {1..n} = add_mset e (contents h ({1..n} - {p}))"
  using assms hole_fill[of h n p e] by (auto simp: fits_def write_heap_def hole_def)

lemma read_hole: "hole h n p \<Longrightarrow> 1 \<le> i \<Longrightarrow> i \<le> n \<Longrightarrow> i \<noteq> p \<Longrightarrow> \<exists>e. read_heap h i = Some e \<and> h ! i = Some e"
  by (auto simp: read_heap_def hole_def)

lemma bubble_up_ok:
  assumes "hole h n p" "\<And>c. c div 2 = p \<Longrightarrow> c \<le> n \<Longrightarrow> ev_time e \<le> key h c"
  shows "\<exists>h' q. bubble_up h e p = Some (h', q) \<and> length h' = length h \<and> fits h' n q e \<and>
    contents h' ({1..n} - {q}) = contents h ({1..n} - {p})"
  using assms
proof (induction h e p rule: bubble_up.induct)
  case (1 h e p)
  show ?case
  proof (cases "p > 1")
    case False
    then show ?thesis using 1(2,3) by (subst bubble_up.simps) (auto simp: fits_def)
  next
    case True
    let ?q = "p div 2"
    have q: "1 \<le> ?q" "?q \<le> n" "?q \<noteq> p" "p < length h" using True 1(2) by (auto simp: hole_def)
    then obtain x where x: "read_heap h ?q = Some x" "h ! ?q = Some x" using read_hole[OF 1(2)] by blast
    show ?thesis
    proof (cases "ev_time x > ev_time e")
      case False
      then show ?thesis using True 1(2,3) x by (subst bubble_up.simps) (auto simp: fits_def)
    next
      case up: True
      have h': "write_heap h p x = Some (h[p := h ! ?q])" using q x by (simp add: write_heap_def)
      note step = hole_up[OF 1(2), unfolded One_nat_def]
      have "ev_time e \<le> key (h[p := h ! ?q]) c" if "c div 2 = ?q" "c \<le> n" for c
        using step(3)[of c] that True up x by (auto intro: order.trans less_imp_le)
      then show ?thesis
        using 1(1)[OF True x(1) up h'] step(1,2) True h' x up by (subst bubble_up.simps) auto
    qed
  qed
qed

lemma smaller_child_ok:
  assumes "hole h n p" "2 * p \<le> n"
  shows "\<exists>c e. smaller_child h n p = Some (c, e) \<and> c div 2 = p \<and> c \<le> n \<and> h ! c = Some e \<and>
    (\<forall>d. d div 2 = p \<and> d \<le> n \<longrightarrow> key h c \<le> key h d)"
proof -
  have p: "1 \<le> p" using assms(1) by (simp add: hole_def)
  obtain l where l: "read_heap h (2 * p) = Some l" "h ! (2 * p) = Some l" using read_hole[OF assms(1), of "2 * p"] p assms(2) by auto
  have child: "d div 2 = p \<longleftrightarrow> d = 2 * p \<or> d = Suc (2 * p)" for d by auto
  show ?thesis
  proof (cases "2 * p + 1 \<le> n")
    case True
    obtain r where r: "read_heap h (2 * p + 1) = Some r" "h ! (2 * p + 1) = Some r"
      using read_hole[OF assms(1), of "2 * p + 1"] p True by auto
    show ?thesis
      using l r True assms(2) unfolding child
      by (cases "ev_time r < ev_time l") (auto simp: smaller_child_def intro: less_imp_le)
  next
    case False
    then show ?thesis using l assms(2) unfolding child by (auto simp: smaller_child_def)
  qed
qed

lemma seep_down_ok:
  assumes "hole h n p" "2 \<le> p \<Longrightarrow> key h (p div 2) \<le> ev_time b"
  shows "\<exists>h' q. seep_down h n b p = Some (h', q) \<and> length h' = length h \<and> fits h' n q b \<and>
    contents h' ({1..n} - {q}) = contents h ({1..n} - {p})"
  using assms
proof (induction h n b p rule: seep_down.induct)
  case (1 h n b p)
  have p: "1 \<le> p" "p < length h" using 1(2) by (auto simp: hole_def)
  show ?case
  proof (cases "2 * p \<le> n")
    case False
    then have "c div 2 = p \<Longrightarrow> \<not> c \<le> n" for c by auto
    then show ?thesis using False 1(2,3) by (subst seep_down.simps) (auto simp: fits_def)
  next
    case True
    obtain c e where c: "smaller_child h n p = Some (c, e)" "c div 2 = p" "c \<le> n" "h ! c = Some e"
      "\<And>d. d div 2 = p \<Longrightarrow> d \<le> n \<Longrightarrow> key h c \<le> key h d"
      using smaller_child_ok[OF 1(2) True] by blast
    show ?thesis
    proof (cases "ev_time b > ev_time e")
      case False
      have "ev_time b \<le> key h d" if "d div 2 = p" "d \<le> n" for d
        using c(5)[OF that] c(4) False by (auto simp: not_less intro: order.trans)
      then show ?thesis using True p 1(2,3) c False by (subst seep_down.simps) (auto simp: fits_def)
    next
      case down: True
      have h': "write_heap h p e = Some (h[p := h ! c])" using p c by (simp add: write_heap_def)
      note step = hole_down[OF 1(2) c(2,3,5)]
      have "key (h[p := h ! c]) (c div 2) \<le> ev_time b" using step(3) c(4) down by simp
      then show ?thesis
        using 1(1)[OF _ c(1) refl _ h' step(1)] step(1,2) True p down c(1) h' by (subst seep_down.simps) auto
    qed
  qed
qed

section \<open>The operations\<close>

definition sched_ok :: "scheduler_t \<Rightarrow> bool" where
  "sched_ok s \<longleftrightarrow> heap_ok (heap s) (event_count s) \<and> length (heap s) = heap_size s + 1 \<and> 1 \<le> heap_size s"

definition events :: "scheduler_t \<Rightarrow> event_t multiset" where
  "events s = contents (heap s) {1..event_count s}"

lemma size_events [simp]: "size (events s) = event_count s"
  by (simp add: events_def contents_def)

lemma events_empty: "event_count s = 0 \<Longrightarrow> events s = {#}"
  by (simp add: events_def contents_def)

lemma scheduler_create_ok: "sched_ok scheduler_create" "events scheduler_create = {#}"
  by (simp_all add: sched_ok_def scheduler_create_def heap_ok_def events_def contents_def)

lemma schedule_job_tv_ok:
  assumes "sched_ok s"
  shows "\<exists>s'. schedule_job_tv s job tv = Some s' \<and> sched_ok s' \<and>
    events s' = add_mset \<lparr>ev_time = tv, ev_job = job\<rparr> (events s)"
proof -
  let ?e = "\<lparr>ev_time = tv, ev_job = job\<rparr>"
  define n where "n = event_count s + 1"
  define s1 where "s1 = grow_heap (s\<lparr>event_count := n\<rparr>)"
  have ok: "heap_ok (heap s) (n - 1)" "length (heap s) = heap_size s + 1" "1 \<le> heap_size s"
    using assms by (auto simp: sched_ok_def n_def)
  then have n: "n \<le> heap_size s + 1" by (simp add: heap_ok_def n_def)
  have len: "length (heap s1) = heap_size s1 + 1" "1 \<le> heap_size s1" "n \<le> heap_size s1" "event_count s1 = n"
    using ok(2,3) n by (auto simp: s1_def grow_heap_def)
  have same: "i < n \<Longrightarrow> heap s1 ! i = heap s ! i" for i
    using ok(2) n by (auto simp: s1_def grow_heap_def nth_append)
  have half: "c div 2 = n \<Longrightarrow> \<not> c \<le> n" for c :: nat by (auto simp: n_def)
  have hole: "hole (heap s1) n n"
    unfolding hole_def
  proof (intro conjI allI impI)
    fix i assume "1 \<le> i \<and> i \<le> n \<and> i \<noteq> n"
    then have "1 \<le> i" "i \<le> n - 1" "i < n" by auto
    then show "heap s1 ! i \<noteq> None" using ok(1) same[of i] by (simp add: heap_ok_def)
  next
    fix i assume "2 \<le> i \<and> i \<le> n \<and> i \<noteq> n \<and> i div 2 \<noteq> n"
    then have "2 \<le> i" "i \<le> n - 1" "i < n" "i div 2 < n" by auto
    then show "key (heap s1) (i div 2) \<le> key (heap s1) i" using ok(1) same[of i] same[of "i div 2"] by (simp add: heap_ok_def)
  next
    fix c assume "2 \<le> n \<and> c div 2 = n \<and> c \<le> n"
    then show "key (heap s1) (n div 2) \<le> key (heap s1) c" using half by blast
  qed (use len in \<open>auto simp: n_def\<close>)
  obtain h1 q where b: "bubble_up (heap s1) ?e n = Some (h1, q)" "length h1 = length (heap s1)" "fits h1 n q ?e"
    "contents h1 ({1..n} - {q}) = contents (heap s1) ({1..n} - {n})"
    using bubble_up_ok[OF hole, of ?e] half by blast
  obtain h2 where w: "write_heap h1 q ?e = Some h2" "length h2 = length h1" "heap_ok h2 n"
    "contents h2 {1..n} = add_mset ?e (contents h1 ({1..n} - {q}))"
    using fits_fill[OF b(3)] by blast
  have eq: "schedule_job_tv s job tv = Some (s1\<lparr>heap := h2\<rparr>)"
    using b(1) w(1) len(4) by (simp add: schedule_job_tv_def Let_def n_def[unfolded Suc_eq_plus1[symmetric], symmetric] s1_def[symmetric])
  have "{1..n} - {n} = {1..event_count s}" by (auto simp: n_def)
  then have "contents (heap s1) ({1..n} - {n}) = events s"
    using same by (auto simp: events_def contents_def n_def intro!: image_mset_cong)
  then show ?thesis using eq w b len by (auto simp: sched_ok_def events_def)
qed

lemma root_min:
  assumes "heap_ok h n" "1 \<le> i" "i \<le> n"
  shows "key h 1 \<le> key h i"
  using assms(2,3)
proof (induction i rule: less_induct)
  case (less i)
  show ?case
  proof (cases "i = 1")
    case False
    then have "key h (i div 2) \<le> key h i" using assms(1) less.prems by (simp add: heap_ok_def)
    moreover have "key h 1 \<le> key h (i div 2)" using False less.prems by (intro less.IH) auto
    ultimately show ?thesis by order
  qed simp
qed

lemma remove_event_empty: "event_count s = 0 \<Longrightarrow> remove_event s = Some (None, s)"
  by (simp add: remove_event_def)

lemma remove_event_ok:
  assumes "sched_ok s" "event_count s > 0"
  shows "\<exists>e s'. remove_event s = Some (Some e, s') \<and> heap s ! 1 = Some e \<and> sched_ok s' \<and>
    events s = add_mset e (events s') \<and> (\<forall>x\<in>#events s. ev_time e \<le> ev_time x)"
proof -
  define n where "n = event_count s - 1"
  have ok: "heap_ok (heap s) (n + 1)" "length (heap s) = heap_size s + 1" "1 \<le> heap_size s"
    using assms by (simp_all add: sched_ok_def n_def)
  then have len: "n + 1 < length (heap s)" by (simp add: heap_ok_def)
  obtain e b where e: "heap s ! 1 = Some e" "heap s ! (n + 1) = Some b"
    using ok(1) unfolding heap_ok_def by fastforce
  have cnt: "event_count s = n + 1" using assms(2) by (simp add: n_def)
  define h1 where "h1 = (heap s)[1 := Some b]"
  have l1: "length h1 = length (heap s)" by (simp add: h1_def)
  have "\<exists>h2. (if n > 1 then do { (h, position) \<leftarrow> seep_down h1 n b 1; write_heap h position b } else Some h1) = Some h2 \<and>
      length h2 = length (heap s) \<and> heap_ok h2 n \<and> add_mset e (contents h2 {1..n}) = contents (heap s) {1..n + 1}"
  proof (cases "n > 1")
    case True
    have "i div 2 = 0 \<longleftrightarrow> i < 2" for i :: nat by auto
    then have "hole h1 n 1"
      using ok(1) True len by (auto simp: hole_def heap_ok_def h1_def nth_list_update)
    then obtain h q where s: "seep_down h1 n b 1 = Some (h, q)" "length h = length h1" "fits h n q b"
      "contents h ({1..n} - {q}) = contents h1 ({1..n} - {1})" using seep_down_ok[of h1 n 1 b] by auto
    obtain h2 where w: "write_heap h q b = Some h2" "length h2 = length h" "heap_ok h2 n"
      "contents h2 {1..n} = add_mset b (contents h ({1..n} - {q}))" using fits_fill[OF s(3)] by blast
    have "contents h1 ({1..n} - {1}) = contents (heap s) {2..n}"
    proof -
      have "{1..n} - {1} = {2..n}" by auto
      then show ?thesis by (simp add: h1_def)
    qed
    moreover have "{1..n + 1} = insert 1 (insert (n + 1) {2..n})" using True by auto
    then have "contents (heap s) {1..n + 1} = add_mset e (add_mset b (contents (heap s) {2..n}))"
      using e True by (simp add: contents_insert)
    ultimately show ?thesis using True s w l1 by auto
  next
    case False
    then consider "n = 0" | "n = 1" by linarith
    then show ?thesis
    proof cases
      case 1
      moreover have "h1 \<noteq> []" using len l1 by auto
      ultimately show ?thesis using len e l1 by (simp add: contents_def heap_ok_def)
    next
      case 2
      have sets: "{1..n + 1} = insert 1 {2}" "{1..n} = {1}" using 2 by auto
      have "contents h1 {1..n} = {#b#}" "contents (heap s) {1..n + 1} = {#e, b#}"
        unfolding sets using 2 len e by (simp_all add: contents_def h1_def numeral_2_eq_2)
      moreover have "heap_ok h1 n" using 2 len l1 by (auto simp: heap_ok_def h1_def)
      ultimately show ?thesis using 2 l1 by simp
    qed
  qed
  then obtain h2 where h2: "(if n > 1 then do { (h, position) \<leftarrow> seep_down h1 n b 1; write_heap h position b } else Some h1) = Some h2"
    "length h2 = length (heap s)" "heap_ok h2 n" "add_mset e (contents h2 {1..n}) = contents (heap s) {1..n + 1}" by blast
  have eq: "remove_event s = Some (Some e, s\<lparr>heap := h2, event_count := n\<rparr>)"
  proof -
    have "read_heap (heap s) 1 = Some e" "read_heap (heap s) (n + 1) = Some b" "write_heap (heap s) 1 b = Some h1"
      using e len by (simp_all add: read_heap_def write_heap_def h1_def)
    then show ?thesis
      unfolding remove_event_def cnt Let_def add_diff_cancel_right' using h2(1) by (simp del: bind_assoc split del: if_split)
  qed
  have "ev_time e \<le> ev_time x" if "x \<in># events s" for x
    using that root_min[OF ok(1)] e(1) by (auto simp: events_def contents_def cnt)
  then show ?thesis using eq h2 ok e(1) by (auto simp: sched_ok_def events_def cnt)
qed

section \<open>Event queues\<close>

text \<open>The contract of an event queue and what a client that empties it sees.\<close>

locale event_queue =
  fixes ins :: "'e \<Rightarrow> 'q \<Rightarrow> 'q option" and del :: "'q \<Rightarrow> ('e option \<times> 'q) option"
    and inv :: "'q \<Rightarrow> bool" and elems :: "'q \<Rightarrow> 'e multiset" and time :: "'e \<Rightarrow> 't :: linorder"
  assumes ins_ok: "inv q \<Longrightarrow> \<exists>q'. ins e q = Some q' \<and> inv q' \<and> elems q' = add_mset e (elems q)"
    and del_empty: "inv q \<Longrightarrow> elems q = {#} \<Longrightarrow> del q = Some (None, q)"
    and del_ok: "inv q \<Longrightarrow> elems q \<noteq> {#} \<Longrightarrow>
      \<exists>e q'. del q = Some (Some e, q') \<and> inv q' \<and> elems q = add_mset e (elems q') \<and> (\<forall>x\<in>#elems q. time e \<le> time x)"
begin

lemma drain_sorted:
  assumes "inv q" "size (elems q) < n"
  shows "\<exists>es q'. drain n del q = Some (es, q') \<and> mset es = elems q \<and> sorted (map time es) \<and> inv q' \<and> elems q' = {#}"
  using assms
proof (induction n arbitrary: q)
  case (Suc n)
  show ?case
  proof (cases "elems q = {#}")
    case True
    then show ?thesis using del_empty[OF Suc.prems(1)] Suc.prems(1) by simp
  next
    case False
    then obtain e q' where e: "del q = Some (Some e, q')" "inv q'" "elems q = add_mset e (elems q')"
      "\<And>x. x \<in># elems q \<Longrightarrow> time e \<le> time x" using del_ok[OF Suc.prems(1)] by blast
    then obtain es q2 where "drain n del q' = Some (es, q2)" "mset es = elems q'" "sorted (map time es)" "inv q2" "elems q2 = {#}"
      using Suc.IH[OF e(2)] Suc.prems(2) by auto
    moreover from this have "\<forall>x\<in>set es. time e \<le> time x" using e(3,4) by (metis set_mset_mset union_single_eq_member insert_noteq_member add_mset_commute set_mset_add_mset_insert insertI2)
    ultimately show ?thesis using e by auto
  qed
qed simp

lemma ins_all_ok: "inv q \<Longrightarrow> \<exists>q'. ins_all ins es q = Some q' \<and> inv q' \<and> elems q' = mset es + elems q"
proof (induction es arbitrary: q)
  case (Cons e es)
  obtain q1 where "ins e q = Some q1" "inv q1" "elems q1 = add_mset e (elems q)" using ins_ok[OF Cons.prems] by blast
  then show ?case using Cons.IH[of q1] by auto
qed simp

end

interpretation sq: event_queue "\<lambda>e s. schedule_job_tv s (ev_job e) (ev_time e)" remove_event sched_ok events ev_time
proof
  fix e s
  assume "sched_ok s"
  then show "\<exists>s'. schedule_job_tv s (ev_job e) (ev_time e) = Some s' \<and> sched_ok s' \<and> events s' = add_mset e (events s)"
    using schedule_job_tv_ok[of s "ev_job e" "ev_time e"] by (cases e) simp
next
  fix s
  assume "sched_ok s" "events s = {#}"
  then show "remove_event s = Some (None, s)" using size_events[of s] by (simp add: remove_event_empty)
next
  fix s
  assume "sched_ok s" "events s \<noteq> {#}"
  then show "\<exists>e s'. remove_event s = Some (Some e, s') \<and> sched_ok s' \<and> events s = add_mset e (events s') \<and>
      (\<forall>x\<in>#events s. ev_time e \<le> ev_time x)"
    using remove_event_ok[of s] events_empty[of s] by blast
qed


text \<open>
  The scheduler fires what is due and waits no longer than it should: with the earliest event due, exactly
  that event is taken and its job queued; otherwise nothing is taken and the thread waits until the time of
  the earliest event, or until a signal if there is none.
\<close>

lemma schedule_earliest:
  assumes "sched_ok s"
  shows "\<exists>r s'. schedule s now = Some (r, s') \<and> sched_ok s' \<and>
    (case r of
       Wait_For_Event \<Rightarrow> events s = {#} \<and> s' = s
     | Wait_Until t \<Rightarrow> s' = s \<and> now < t \<and> t \<in># image_mset ev_time (events s) \<and> (\<forall>x\<in>#events s. t \<le> ev_time x)
     | Queue_Job j \<Rightarrow> \<exists>e. ev_job e = j \<and> ev_time e \<le> now \<and> events s = add_mset e (events s') \<and>
         (\<forall>x\<in>#events s. ev_time e \<le> ev_time x))"
proof (cases "event_count s = 0")
  case True
  then show ?thesis using assms events_empty by (auto simp: schedule_def peek_event_def)
next
  case False
  then obtain e s' where e: "remove_event s = Some (Some e, s')" "heap s ! 1 = Some e" "sched_ok s'"
    "events s = add_mset e (events s')" "\<forall>x\<in>#events s. ev_time e \<le> ev_time x"
    using remove_event_ok[OF assms] by blast
  have "peek_event s = Some (Some e)"
    using assms False e(2) by (auto simp: peek_event_def read_heap_def sched_ok_def)
  then show ?thesis
    using e assms by (cases "now < ev_time e") (auto simp: schedule_def)
qed

lemma schedule_earliest_witness:
  "\<exists>s s'. schedule_job_tv scheduler_create 7 (Timeval 3 0) = Some s \<and> sched_ok s \<and>
     schedule s (Timeval 5 0) = Some (Queue_Job 7, s') \<and> events s' = {#}"
proof -
  obtain s where s: "schedule_job_tv scheduler_create 7 (Timeval 3 0) = Some s" "sched_ok s"
    "events s = {#\<lparr>ev_time = Timeval 3 0, ev_job = 7\<rparr>#}"
    using schedule_job_tv_ok[OF scheduler_create_ok(1), of 7 "Timeval 3 0"] scheduler_create_ok(2) by auto
  have "\<not> Timeval 5 0 < Timeval 3 0" by (simp add: less_timeval_t_def)
  moreover obtain r s' where r: "schedule s (Timeval 5 0) = Some (r, s')" "case r of
       Wait_For_Event \<Rightarrow> events s = {#} \<and> s' = s
     | Wait_Until t \<Rightarrow> s' = s \<and> Timeval 5 0 < t \<and> t \<in># image_mset ev_time (events s) \<and> (\<forall>x\<in>#events s. t \<le> ev_time x)
     | Queue_Job j \<Rightarrow> \<exists>e. ev_job e = j \<and> ev_time e \<le> Timeval 5 0 \<and> events s = add_mset e (events s') \<and>
         (\<forall>x\<in>#events s. ev_time e \<le> ev_time x)" using schedule_earliest[OF s(2), of "Timeval 5 0"] by blast
  ultimately show ?thesis using s by (cases r) auto
qed

end
