(* ===== verification/Hashtable.thy ===== *)
theory Hashtable
  imports Dynamic_Array
begin

text \<open>
  The hash tables of \<^verbatim>\<open>src/src/libstrongswan/collections/hashtable.c\<close>: an array of items in the order of their
  insertion and a table of indices into it, probed quadratically. Removed items keep their place until the
  table is rehashed. Cells are read and written with a bounds check, and the probing loops are partial
  functions: a result \<open>None\<close> is an access outside of an array or a loop that does not end. The theory shows
  that neither happens, because the probe sequence visits every row and one row is always empty, and that
  the table behaves like a list of pairs in insertion order.
\<close>

section \<open>Model\<close>

abbreviation (input) MIN_SIZE :: u32 where "MIN_SIZE \<equiv> 8"
abbreviation (input) MAX_SIZE :: u32 where "MAX_SIZE \<equiv> 0x40000000"
abbreviation (input) RESIZE_FACTOR :: u32 where "RESIZE_FACTOR \<equiv> 3"

definition CAPACITY :: "u32 \<Rightarrow> u32" where
  "CAPACITY n = n div 3 * 2"

record ('k, 'v) pair_t =
  p_key :: "'k option"
  p_value :: "'v option"
  p_hash :: u32

record ('k, 'v) hashtable_t =
  ht_count :: u32
  ht_size :: u32
  ht_mask :: u32
  ht_items :: "('k, 'v) pair_t list"
  ht_capacity :: u32
  ht_items_count :: u32
  ht_table :: "u32 list"
  ht_hash :: "'k \<Rightarrow> u32"
  ht_equals :: "'k \<Rightarrow> 'k \<Rightarrow> bool"

text \<open>Hashing and comparing pointers and strings; \<^verbatim>\<open>chunk_hash\<close> is keyed with a random value at start-up.\<close>

definition hashtable_hash_ptr :: "(bytes \<Rightarrow> u32) \<Rightarrow> u64 \<Rightarrow> u32" where
  "hashtable_hash_ptr chunk_hash key = chunk_hash (map (\<lambda>i. ucast (drop_bit (8 * i) key)) [0..<8])"

definition hashtable_hash_str :: "(bytes \<Rightarrow> u32) \<Rightarrow> bytes \<Rightarrow> u32" where
  "hashtable_hash_str chunk_hash key = chunk_hash key"

definition hashtable_equals_ptr :: "u64 \<Rightarrow> u64 \<Rightarrow> bool" where
  "hashtable_equals_ptr key other_key \<longleftrightarrow> key = other_key"

definition hashtable_equals_str :: "bytes \<Rightarrow> bytes \<Rightarrow> bool" where
  "hashtable_equals_str key other_key \<longleftrightarrow> key = other_key"

definition index_bits :: "u32 \<Rightarrow> nat" where
  "index_bits capacity = (if capacity \<le> 0xff then 8 else if capacity \<le> 0xffff then 16 else 32)"

definition get_index :: "('k, 'v) hashtable_t \<Rightarrow> u32 \<Rightarrow> u32 option" where
  "get_index this row = (if unat row < length (ht_table this) then Some (ht_table this ! unat row) else None)"

definition set_index :: "('k, 'v) hashtable_t \<Rightarrow> u32 \<Rightarrow> u32 \<Rightarrow> ('k, 'v) hashtable_t option" where
  "set_index this row index =
     (if unat row < length (ht_table this)
      then Some (this\<lparr>ht_table := (ht_table this)[unat row := take_bit (index_bits (ht_capacity this)) index]\<rparr>)
      else None)"

function smear :: "nat \<Rightarrow> u32 \<Rightarrow> u32" where
  "smear i n = (if 1 \<le> i \<and> i < 32 then smear (2 * i) (n OR drop_bit i n) else n)"
  by pat_completeness auto
termination
  by (relation "measure (\<lambda>(i, n). 32 - i)") auto

definition hashtable_get_nearest_powerof2 :: "u32 \<Rightarrow> u32" where
  "hashtable_get_nearest_powerof2 n = smear 1 (n - 1) + 1"

definition init_hashtable :: "('k, 'v) hashtable_t \<Rightarrow> u32 \<Rightarrow> ('k, 'v) hashtable_t" where
  "init_hashtable this n =
     (let size = hashtable_get_nearest_powerof2 (max MIN_SIZE (min n MAX_SIZE));
          capacity = CAPACITY size
      in this\<lparr>ht_size := size, ht_mask := size - 1, ht_capacity := capacity,
              ht_items := replicate (unat capacity) \<lparr>p_key = None, p_value = None, p_hash = 0\<rparr>,
              ht_items_count := 0, ht_table := replicate (unat size) 0\<rparr>)"

definition get_next :: "('k, 'v) hashtable_t \<Rightarrow> u32 \<Rightarrow> u32 \<Rightarrow> u32 \<times> u32" where
  "get_next this row p = ((row + (p + 1)) AND ht_mask this, p + 1)"

definition item_at :: "('k, 'v) hashtable_t \<Rightarrow> u32 \<Rightarrow> ('k, 'v) pair_t option" where
  "item_at this i = (if unat i < length (ht_items this) then Some (ht_items this ! unat i) else None)"

definition set_item :: "('k, 'v) hashtable_t \<Rightarrow> u32 \<Rightarrow> ('k, 'v) pair_t \<Rightarrow> ('k, 'v) hashtable_t option" where
  "set_item this i pair =
     (if unat i < length (ht_items this) then Some (this\<lparr>ht_items := (ht_items this)[unat i := pair]\<rparr>) else None)"

text \<open>
  The lookup returns the index of the pair, or the row for a new one. The rows of removed items are only
  remembered if the caller asks for a row.
\<close>

datatype found = Pair_At u32 | Free_Row u32

partial_function (option) find_loop ::
  "('k, 'v) hashtable_t \<Rightarrow> 'k \<Rightarrow> u32 \<Rightarrow> bool \<Rightarrow> u32 \<Rightarrow> u32 \<Rightarrow> u32 option \<Rightarrow> found option" where
  "find_loop this key hash out_row row p removed =
     do { index \<leftarrow> get_index this row;
          if index = 0 then Some (Free_Row (case removed of Some r \<Rightarrow> r | None \<Rightarrow> row))
          else do { pair \<leftarrow> item_at this (index - 1);
                    case p_key pair of
                      None \<Rightarrow> find_loop this key hash out_row (fst (get_next this row p)) (snd (get_next this row p))
                               (if removed = None \<and> out_row then Some row else removed)
                    | Some k \<Rightarrow>
                        if p_hash pair = hash \<and> ht_equals this key k then Some (Pair_At (index - 1))
                        else find_loop this key hash out_row (fst (get_next this row p)) (snd (get_next this row p)) removed } }"

definition find_key :: "('k, 'v) hashtable_t \<Rightarrow> 'k \<Rightarrow> bool \<Rightarrow> (found \<times> u32) option" where
  "find_key this key out =
     (if ht_count this = 0 \<and> \<not> out then Some (Free_Row 0, 0)
      else let hash = ht_hash this key
           in map_option (\<lambda>f. (f, hash)) (find_loop this key hash out (hash AND ht_mask this) 0 None))"

definition insert_item :: "('k, 'v) hashtable_t \<Rightarrow> u32 \<Rightarrow> (u32 \<times> ('k, 'v) hashtable_t) option" where
  "insert_item this row =
     map_option (\<lambda>this. (ht_items_count this, this\<lparr>ht_items_count := ht_items_count this + 1\<rparr>))
       (set_index this row (ht_items_count this + 1))"

partial_function (option) free_row_loop :: "('k, 'v) hashtable_t \<Rightarrow> u32 \<Rightarrow> u32 \<Rightarrow> u32 option" where
  "free_row_loop this row p =
     do { index \<leftarrow> get_index this row;
          if index = 0 then Some row
          else free_row_loop this (fst (get_next this row p)) (snd (get_next this row p)) }"

fun reinsert :: "('k, 'v) pair_t list \<Rightarrow> ('k, 'v) hashtable_t \<Rightarrow> ('k, 'v) hashtable_t option" where
  "reinsert [] this = Some this"
| "reinsert (pair # pairs) this =
     (if p_key pair = None then reinsert pairs this
      else do { row \<leftarrow> free_row_loop this (p_hash pair AND ht_mask this) 0;
                (index, this) \<leftarrow> insert_item this row;
                this \<leftarrow> set_item this index pair;
                reinsert pairs this })"

definition rehash :: "('k, 'v) hashtable_t \<Rightarrow> u32 \<Rightarrow> (bool \<times> ('k, 'v) hashtable_t) option" where
  "rehash this n =
     (if n > MAX_SIZE then Some (False, this)
      else let old_items = take (unat (ht_items_count this)) (ht_items this);
               this = init_hashtable this n
           in if ht_count this \<noteq> 0 then map_option (Pair True) (reinsert old_items this)
              else Some (True, this))"

definition ht_put :: "('k, 'v) hashtable_t \<Rightarrow> 'k \<Rightarrow> 'v option \<Rightarrow> ('v option \<times> ('k, 'v) hashtable_t) option" where
  "ht_put this key value =
     do { (ok, this) \<leftarrow> (if ht_items_count this \<ge> ht_capacity this
                         then rehash this (ht_count this * RESIZE_FACTOR) else Some (True, this));
          if \<not> ok then Some (None, this)
          else do { (f, hash) \<leftarrow> find_key this key True;
                    case f of
                      Pair_At i \<Rightarrow>
                        do { pair \<leftarrow> item_at this i;
                             this \<leftarrow> set_item this i (pair\<lparr>p_value := value, p_key := Some key\<rparr>);
                             Some (p_value pair, this) }
                    | Free_Row row \<Rightarrow>
                        do { (index, this) \<leftarrow> insert_item this row;
                             this \<leftarrow> set_item this index \<lparr>p_key = Some key, p_value = value, p_hash = hash\<rparr>;
                             Some (None, this\<lparr>ht_count := ht_count this + 1\<rparr>) } } }"

definition ht_get :: "('k, 'v) hashtable_t \<Rightarrow> 'k \<Rightarrow> 'v option option" where
  "ht_get this key =
     do { (f, hash) \<leftarrow> find_key this key False;
          case f of
            Pair_At i \<Rightarrow> map_option p_value (item_at this i)
          | Free_Row row \<Rightarrow> Some None }"

definition remove_internal :: "('k, 'v) hashtable_t \<Rightarrow> u32 option \<Rightarrow> ('v option \<times> ('k, 'v) hashtable_t) option" where
  "remove_internal this i =
     (case i of
        None \<Rightarrow> Some (None, this)
      | Some i \<Rightarrow>
          do { pair \<leftarrow> item_at this i;
               this \<leftarrow> set_item this i (pair\<lparr>p_key := None\<rparr>);
               Some (p_value pair, this\<lparr>ht_count := ht_count this - 1\<rparr>) })"

definition ht_remove :: "('k, 'v) hashtable_t \<Rightarrow> 'k \<Rightarrow> ('v option \<times> ('k, 'v) hashtable_t) option" where
  "ht_remove this key =
     do { (f, hash) \<leftarrow> find_key this key False;
          remove_internal this (case f of Pair_At i \<Rightarrow> Some i | Free_Row row \<Rightarrow> None) }"

text \<open>An enumerator of the table is the index it has advanced to.\<close>

definition ht_remove_at :: "('k, 'v) hashtable_t \<Rightarrow> u32 \<Rightarrow> ('k, 'v) hashtable_t option" where
  "ht_remove_at this index =
     (if index \<noteq> 0 then map_option snd (remove_internal this (Some (index - 1))) else Some this)"

definition get_count :: "('k, 'v) hashtable_t \<Rightarrow> u32" where
  "get_count this = ht_count this"

function ht_enumerate :: "('k, 'v) hashtable_t \<Rightarrow> u32 \<Rightarrow> (('k \<times> 'v option) option \<times> u32) option" where
  "ht_enumerate this index =
     (if index < ht_items_count this
      then case item_at this index of
             None \<Rightarrow> None
           | Some pair \<Rightarrow>
               (case p_key pair of
                  Some k \<Rightarrow> Some (Some (k, p_value pair), index + 1)
                | None \<Rightarrow> ht_enumerate this (index + 1))
      else Some (None, index))"
  by pat_completeness auto
termination
  by (relation "measure (\<lambda>(this, i). unat (ht_items_count this) - unat i)")
    (auto simp: unat_increment word_less_nat_alt)

declare smear.simps [simp del] ht_enumerate.simps [simp del]

definition hashtable_create :: "('k \<Rightarrow> u32) \<Rightarrow> ('k \<Rightarrow> 'k \<Rightarrow> bool) \<Rightarrow> u32 \<Rightarrow> ('k, 'v) hashtable_t" where
  "hashtable_create hash equals n =
     init_hashtable \<lparr>ht_count = 0, ht_size = 0, ht_mask = 0, ht_items = [], ht_capacity = 0,
                     ht_items_count = 0, ht_table = [], ht_hash = hash, ht_equals = equals\<rparr> n"

section \<open>The probe sequence\<close>

definition probe :: "nat \<Rightarrow> nat \<Rightarrow> nat \<Rightarrow> nat" where
  "probe n h m = (h + \<Sum>{..m}) mod n"

lemma probe_0: "probe n h 0 = h mod n"
  by (simp add: probe_def)

lemma probe_Suc: "probe n h (Suc m) = (probe n h m + Suc m) mod n"
  using mod_add_left_eq[of "h + \<Sum>{..m}" n "Suc m"] by (simp add: probe_def add.assoc del: add_Suc_right)

lemma probe_less: "0 < n \<Longrightarrow> probe n h m < n"
  by (simp add: probe_def)

lemma triangle: "2 * \<Sum>{..m} = m * (m + 1)" for m :: nat
  by (induction m) auto

text \<open>
  Two of the first \<open>2 ^ k\<close> probes never hit the same row: the difference of their triangle numbers is half of a
  product of an odd and an even number, both too small to be a multiple of \<open>2 ^ (k + 1)\<close>.
\<close>

lemma probe_neq:
  assumes "i < j" "j < 2 ^ k"
  shows "probe (2 ^ k) h i \<noteq> probe (2 ^ k) h j"
proof
  assume "probe (2 ^ k) h i = probe (2 ^ k) h j"
  then have "(2 ^ k :: nat) dvd (h + \<Sum>{..j}) - (h + \<Sum>{..i})"
    by (intro mod_eq_dvd_iff_nat [THEN iffD1]) (use assms in \<open>auto simp: probe_def intro!: sum_mono2\<close>)
  then have "(2 * 2 ^ k :: nat) dvd 2 * (\<Sum>{..j} - \<Sum>{..i})" by simp
  also have "2 * (\<Sum>{..j} - \<Sum>{..i}) = j * (j + 1) - i * (i + 1)" by (simp only: diff_mult_distrib2 triangle)
  also have "\<dots> = (j - i) * (j + i + 1)"
  proof -
    obtain d where "j = i + d" using assms(1) less_imp_add_positive by blast
    then show ?thesis by (simp add: algebra_simps)
  qed
  finally have d: "(2 ^ Suc k :: nat) dvd (j - i) * (j + i + 1)" by simp
  have "odd (j - i) \<or> odd (j + i + 1)" using assms(1) by auto
  then have "(2 ^ Suc k :: nat) dvd j + i + 1 \<or> (2 ^ Suc k :: nat) dvd j - i"
  proof
    assume "odd (j - i)"
    then have "coprime (2 ^ Suc k) (j - i)" by (simp add: coprime_commute)
    then show ?thesis using d coprime_dvd_mult_right_iff by blast
  next
    assume "odd (j + i + 1)"
    then have "coprime (2 ^ Suc k) (j + i + 1)" by (simp add: coprime_commute)
    then show ?thesis using d coprime_dvd_mult_left_iff by blast
  qed
  then show False using assms by (auto dest!: dvd_imp_le)
qed

lemma probe_hits_every_row: "r < 2 ^ k \<Longrightarrow> \<exists>m < 2 ^ k. probe (2 ^ k) h m = r"
proof -
  assume r: "r < 2 ^ k"
  have "inj_on (probe (2 ^ k) h) {..<2 ^ k}"
    by (rule inj_onI) (metis lessThan_iff linorder_neqE_nat probe_neq)
  moreover have "probe (2 ^ k) h ` {..<2 ^ k} \<subseteq> {..<2 ^ k}" by (auto simp: probe_less)
  ultimately have "probe (2 ^ k) h ` {..<2 ^ k} = {..<2 ^ k}" by (intro endo_inj_surj) auto
  then show ?thesis using r by (metis imageE lessThan_iff)
qed

section \<open>Table sizes\<close>

lemma smear_bits:
  assumes "i \<in> {1, 2, 4, 8, 16, 32}" "\<And>m. bit x m \<longleftrightarrow> (\<exists>j. m \<le> j \<and> j < m + i \<and> bit n j)"
  shows "bit (smear i x) m \<longleftrightarrow> (\<exists>j \<ge> m. bit (n :: u32) j)"
  using assms
proof (induction i x arbitrary: rule: smear.induct)
  case (1 i x)
  show ?case
  proof (cases "i = 32")
    case True
    moreover have "bit n j \<Longrightarrow> j < m + 32" for j using bit_imp_le_length[of n j] by simp
    ultimately show ?thesis using 1(3)[of m] by (subst smear.simps) auto
  next
    case False
    have "bit (x OR drop_bit i x) m \<longleftrightarrow> (\<exists>j. m \<le> j \<and> j < m + 2 * i \<and> bit n j)" for m
    proof -
      have "bit (x OR drop_bit i x) m \<longleftrightarrow> bit x m \<or> bit x (m + i)"
        by (simp add: bit_or_iff bit_drop_bit_eq add.commute)
      also have "\<dots> \<longleftrightarrow> (\<exists>j. m \<le> j \<and> j < m + 2 * i \<and> bit n j)"
        unfolding 1(3)
      proof (intro iffI; elim disjE exE conjE)
        fix j assume "m + i \<le> j" "j < m + i + i" "bit n j"
        then show "\<exists>j. m \<le> j \<and> j < m + 2 * i \<and> bit n j" by (intro exI[of _ j]) simp
      next
        fix j assume j: "m \<le> j" "j < m + 2 * i" "bit n j"
        show "(\<exists>j. m \<le> j \<and> j < m + i \<and> bit n j) \<or> (\<exists>j. m + i \<le> j \<and> j < m + i + i \<and> bit n j)"
          using j by (cases "j < m + i") auto
      qed force
      finally show ?thesis .
    qed
    then show ?thesis using 1(1,2) False by (subst smear.simps) auto
  qed
qed

lemma smear_mask:
  assumes "n \<noteq> 0"
  shows "\<exists>t < 32. bit n t \<and> (\<forall>j > t. \<not> bit n j) \<and> smear 1 n = mask (Suc t)"
proof -
  have "\<exists>j. bit n j" using assms bit_eq_iff[of n 0] by auto
  then obtain t where t: "bit n t" "\<forall>j. bit n j \<longrightarrow> j \<le> t"
    using Greatest_le_nat[of "bit n" _ 32] GreatestI_nat[of "bit n" _ 32] bit_imp_le_length[of n] by fastforce
  have "smear 1 n = mask (Suc t)"
  proof (rule bit_word_eqI)
    fix m assume "m < LENGTH(32)"
    have e: "bit n k \<longleftrightarrow> (\<exists>j. k \<le> j \<and> j < k + 1 \<and> bit n j)" for k by (metis less_Suc_eq_le le_antisym Suc_eq_plus1 order_refl)
    have "bit (smear 1 n) m \<longleftrightarrow> (\<exists>j \<ge> m. bit n j)" by (rule smear_bits[OF _ e]) simp
    also have "\<dots> \<longleftrightarrow> m < Suc t" using t by (auto simp: less_Suc_eq_le intro: order_trans)
    finally show "bit (smear 1 n) m \<longleftrightarrow> bit (mask (Suc t) :: u32) m" using \<open>m < LENGTH(32)\<close> by (simp add: bit_mask_iff)
  qed
  then show ?thesis using t bit_imp_le_length[OF t(1)] by (auto simp: not_le[symmetric])
qed

lemma unat_bit_bounds:
  assumes "bit (n :: u32) t" "\<forall>j > t. \<not> bit n j"
  shows "2 ^ t \<le> unat n" "unat n < 2 ^ Suc t"
proof -
  have "take_bit (Suc t) n = n" using assms(2) by (intro bit_word_eqI) (auto simp: bit_take_bit_iff less_Suc_eq_le not_less[symmetric])
  then have "take_bit (Suc t) (unat n) = unat n" by (metis unsigned_take_bit_eq)
  then show "unat n < 2 ^ Suc t" by (metis take_bit_nat_less_exp)
  have "bit (unat n) t" using assms(1) by (simp add: bit_unsigned_iff bit_imp_le_length)
  then show "2 ^ t \<le> unat n" by (metis bit_nat_iff div_less even_zero not_le bit_iff_odd)
qed

lemma unat_exp: "k < 32 \<Longrightarrow> unat (2 ^ k :: u32) = 2 ^ k"
proof -
  assume "k < 32"
  then have "unat (of_nat (2 ^ k) :: u32) = 2 ^ k" by (simp only: unsigned_of_nat take_bit_nat_eq_self_iff) simp
  then show ?thesis by simp
qed

lemma nearest_powerof2:
  assumes "2 \<le> n" "n \<le> 2 ^ 31"
  shows "\<exists>k. 1 \<le> k \<and> k \<le> 31 \<and> unat (hashtable_get_nearest_powerof2 n) = 2 ^ k \<and> 2 ^ (k - 1) < unat n \<and> unat n \<le> 2 ^ k"
proof -
  have u: "2 \<le> unat n" "unat n \<le> 2 ^ 31" using assms by (simp_all add: word_le_nat_alt)
  then have n: "unat (n - 1) = unat n - 1" by (simp add: unat_sub word_le_nat_alt)
  then have "n - 1 \<noteq> 0" using u by (metis Suc_1 diff_is_0_eq not_less_eq_eq unsigned_0)
  then obtain t where t: "t < 32" "bit (n - 1) t" "\<forall>j > t. \<not> bit (n - 1) j" "smear 1 (n - 1) = mask (Suc t)"
    using smear_mask by blast
  note b = unat_bit_bounds[OF t(2,3)]
  have "(2::nat) ^ t < 2 ^ 31" using b(1) n u by linarith
  then have "t < 31" by (rule power_less_imp_less_exp[rotated]) simp
  have "hashtable_get_nearest_powerof2 n = 2 ^ Suc t"
    unfolding hashtable_get_nearest_powerof2_def t(4) by (simp add: mask_eq_exp_minus_1)
  moreover have "unat (2 ^ Suc t :: u32) = 2 ^ Suc t" using \<open>t < 31\<close> by (intro unat_exp) simp
  ultimately show ?thesis using b n u \<open>t < 31\<close> by (intro exI[of _ "Suc t"]) auto
qed

lemma unat_and_mask: "k < 32 \<Longrightarrow> unat (w AND (2 ^ k - 1) :: u32) = unat w mod 2 ^ k"
proof -
  assume "k < 32"
  have "w AND (2 ^ k - 1) = take_bit k w" by (simp add: take_bit_eq_mask mask_eq_exp_minus_1)
  then have "unat (w AND (2 ^ k - 1)) = take_bit k (unat w)" by (simp only: unsigned_take_bit_eq)
  then show ?thesis by (simp only: take_bit_eq_mod)
qed

lemma unat_CAPACITY: "unat (CAPACITY n) = unat n div 3 * 2"
proof -
  have "unat n < 2 ^ LENGTH(32)" by (rule unsigned_less)
  then have "unat n div 3 * 2 < 2 ^ 32" by simp
  then show ?thesis by (simp add: CAPACITY_def unat_word_ariths unat_div)
qed

section \<open>Well-formed tables\<close>

definition live :: "('k, 'v) hashtable_t \<Rightarrow> nat \<Rightarrow> bool" where
  "live t i \<longleftrightarrow> i < unat (ht_items_count t) \<and> p_key (ht_items t ! i) \<noteq> None"

text \<open>The \<open>m\<close>-th row that is probed for a hash, and its contents.\<close>

abbreviation row_of :: "('k, 'v) hashtable_t \<Rightarrow> u32 \<Rightarrow> nat \<Rightarrow> nat" where
  "row_of t h m \<equiv> probe (unat (ht_size t)) (unat h) m"

abbreviation cell :: "('k, 'v) hashtable_t \<Rightarrow> u32 \<Rightarrow> nat \<Rightarrow> u32" where
  "cell t h m \<equiv> ht_table t ! row_of t h m"

definition ht_dims :: "('k, 'v) hashtable_t \<Rightarrow> nat \<Rightarrow> bool" where
  "ht_dims t k \<longleftrightarrow> 3 \<le> k \<and> k \<le> 30 \<and> unat (ht_size t) = 2 ^ k \<and> ht_mask t = 2 ^ k - 1 \<and> length (ht_table t) = 2 ^ k \<and>
     unat (ht_capacity t) = 2 ^ k div 3 * 2 \<and> length (ht_items t) = unat (ht_capacity t) \<and> unat (ht_items_count t) \<le> unat (ht_capacity t)"

definition ht_rows :: "('k, 'v) hashtable_t \<Rightarrow> bool" where
  "ht_rows t \<longleftrightarrow> (\<forall>r < unat (ht_size t). unat (ht_table t ! r) \<le> unat (ht_items_count t)) \<and>
     (\<forall>r < unat (ht_size t). \<forall>r' < unat (ht_size t). ht_table t ! r \<noteq> 0 \<and> ht_table t ! r = ht_table t ! r' \<longrightarrow> r = r')"

definition ht_reach :: "('k, 'v) hashtable_t \<Rightarrow> bool" where
  "ht_reach t \<longleftrightarrow> (\<forall>i. live t i \<longrightarrow>
     (\<exists>m. unat (cell t (p_hash (ht_items t ! i)) m) = Suc i \<and> (\<forall>m' < m. cell t (p_hash (ht_items t ! i)) m' \<noteq> 0)))"

definition ht_keys :: "('k, 'v) hashtable_t \<Rightarrow> bool" where
  "ht_keys t \<longleftrightarrow> (\<forall>i. live t i \<longrightarrow> p_hash (ht_items t ! i) = ht_hash t (the (p_key (ht_items t ! i)))) \<and>
     (\<forall>i j. live t i \<and> live t j \<and> ht_equals t (the (p_key (ht_items t ! i))) (the (p_key (ht_items t ! j))) \<longrightarrow> i = j)"

definition ht_core :: "('k, 'v) hashtable_t \<Rightarrow> bool" where
  "ht_core t \<longleftrightarrow> (\<exists>k. ht_dims t k) \<and> ht_rows t \<and> ht_reach t \<and> ht_keys t"

text \<open>The pairs of a table in the order of their insertion.\<close>

definition pairs :: "('k, 'v) hashtable_t \<Rightarrow> ('k \<times> 'v option) list" where
  "pairs t = map (\<lambda>p. (the (p_key p), p_value p)) (filter (\<lambda>p. p_key p \<noteq> None) (take (unat (ht_items_count t)) (ht_items t)))"

definition ht_ok :: "('k, 'v) hashtable_t \<Rightarrow> bool" where
  "ht_ok t \<longleftrightarrow> ht_core t \<and> unat (ht_count t) = length (pairs t)"

lemma length_pairs: "length (pairs t) \<le> unat (ht_items_count t)"
  unfolding pairs_def by (simp, rule le_trans[OF length_filter_le]) simp

lemma ht_dimsD:
  assumes "ht_dims t k"
  shows "unat (h AND ht_mask t) = row_of t h 0" "row_of t h m < length (ht_table t)" "length (ht_table t) = unat (ht_size t)"
    "unat (ht_size t) = 2 ^ k" "unat (ht_items_count t) \<le> unat (ht_capacity t)" "length (ht_items t) = unat (ht_capacity t)" "unat (ht_capacity t) < 2 ^ k"
proof -
  show "unat (h AND ht_mask t) = row_of t h 0" using assms unat_and_mask[of k h] by (simp add: ht_dims_def probe_0)
  show "row_of t h m < length (ht_table t)" using assms by (simp add: ht_dims_def probe_less)
  have "(2::nat) ^ k div 3 * 2 \<le> 2 ^ k - 1"
    using zero_less_power[of "2::nat" k] by linarith
  moreover have "(0::nat) < 2 ^ k" by simp
  ultimately show "unat (ht_capacity t) < 2 ^ k" using assms unfolding ht_dims_def by linarith
qed (use assms in \<open>simp_all add: ht_dims_def\<close>)

lemma get_next_row:
  assumes "ht_dims t k" "unat row = row_of t h m" "unat p = m" "m < 2 ^ k"
  shows "unat (fst (get_next t row p)) = row_of t h (Suc m)" "unat (snd (get_next t row p)) = Suc m"
proof -
  have k: "k \<le> 30" "ht_mask t = 2 ^ k - 1" "unat (ht_size t) = 2 ^ k" using assms(1) by (auto simp: ht_dims_def)
  have "(2::nat) ^ k \<le> 2 ^ 30" using k(1) by (intro power_increasing) auto
  then have p: "unat (p + 1) = Suc m" using assms(3,4) by (intro unat_inc_u32[THEN trans]) auto
  then show "unat (snd (get_next t row p)) = Suc m" by (simp add: get_next_def)
  have "(2 :: nat) ^ k dvd 2 ^ 32" using k(1) by (intro le_imp_power_dvd) simp
  then have "unat (row + (p + 1)) mod 2 ^ k = (unat row + Suc m) mod 2 ^ k"
    by (simp add: unat_word_ariths(1)[of row "p + 1"] p mod_mod_cancel del: power_numeral)
  then show "unat (fst (get_next t row p)) = row_of t h (Suc m)"
    using k unat_and_mask[of k "row + (p + 1)"] by (simp add: get_next_def probe_Suc assms(2))
qed

section \<open>Probing\<close>

lemma ht_coreE:
  assumes "ht_core t"
  obtains k where "ht_dims t k" "ht_rows t" "ht_reach t" "ht_keys t"
  using assms by (auto simp: ht_core_def)

lemma empty_row:
  assumes "ht_dims t k" "ht_rows t"
  shows "\<exists>r < 2 ^ k. ht_table t ! r = 0"
proof (rule ccontr)
  let ?f = "\<lambda>r. unat (ht_table t ! r)"
  note D = ht_dimsD(4,5,7)[OF assms(1)]
  assume "\<not> ?thesis"
  then have nz: "r < 2 ^ k \<Longrightarrow> ht_table t ! r \<noteq> 0" for r by blast
  have "inj_on ?f {..<2 ^ k}"
  proof (rule inj_onI)
    fix x y assume "x \<in> {..<2 ^ k}" "y \<in> {..<2 ^ k}" "?f x = ?f y"
    then show "x = y" using assms(2) nz[of x] D(1) unfolding ht_rows_def word_unat_eq_iff[symmetric] by simp
  qed
  moreover have "?f ` {..<2 ^ k} \<subseteq> {1..unat (ht_items_count t)}"
    using assms(2) nz D(1) by (auto simp: ht_rows_def Suc_le_eq unat_gt_0)
  ultimately have "card {..<2 ^ k :: nat} \<le> card {1..unat (ht_items_count t)}" by (rule card_inj_on_le) simp
  then show False using D by simp
qed

text \<open>The first empty row on the way of a hash; the probing loops end there at the latest.\<close>

lemma first_empty:
  assumes "ht_dims t k" "ht_rows t"
  obtains e where "e < 2 ^ k" "cell t h e = 0" "\<And>m. m < e \<Longrightarrow> cell t h m \<noteq> 0"
proof -
  let ?P = "\<lambda>m. cell t h m = 0"
  obtain r where r: "r < 2 ^ k" "ht_table t ! r = 0" using empty_row[OF assms] by blast
  obtain m where m: "m < 2 ^ k" "row_of t h m = r"
    using probe_hits_every_row[OF r(1), of "unat h"] by (auto simp: ht_dimsD(4)[OF assms(1)])
  then have "?P m" using r by simp
  then have "?P (LEAST m. ?P m)" "(LEAST m. ?P m) \<le> m" by (rule LeastI, rule Least_le)
  then show thesis using that[of "LEAST m. ?P m"] m(1) not_less_Least[of _ ?P] by (meson le_less_trans)
qed

lemma free_row_loop_ok:
  assumes "ht_dims t k" "e < 2 ^ k" "cell t h e = 0" "\<And>m. m < e \<Longrightarrow> cell t h m \<noteq> 0"
    and "unat row = row_of t h m" "unat p = m" "m \<le> e"
  shows "\<exists>r. free_row_loop t row p = Some r \<and> unat r = row_of t h e"
  using assms(5-7)
proof (induction "e - m" arbitrary: m row p)
  case 0
  then have "get_index t row = Some 0" using assms(3) ht_dimsD(2)[OF assms(1), of h e] by (simp add: get_index_def)
  then show ?case using 0 by (subst free_row_loop.simps) simp
next
  case (Suc n)
  then have "m < e" by simp
  then have "get_index t row = Some (cell t h m)" "cell t h m \<noteq> 0"
    using assms(4) Suc.prems ht_dimsD(2)[OF assms(1), of h m] by (simp_all add: get_index_def)
  then show ?case
    using Suc.hyps(1)[OF _ get_next_row[OF assms(1) Suc.prems(1,2)]] Suc.hyps(2) \<open>m < e\<close> assms(2)
    by (subst free_row_loop.simps) simp
qed

definition matches :: "('k, 'v) hashtable_t \<Rightarrow> 'k \<Rightarrow> u32 \<Rightarrow> u32 \<Rightarrow> bool" where
  "matches t key h index \<longleftrightarrow> live t (unat (index - 1)) \<and> p_hash (ht_items t ! unat (index - 1)) = h \<and>
     ht_equals t key (the (p_key (ht_items t ! unat (index - 1))))"

lemma item_of_cell:
  assumes "ht_dims t k" "ht_rows t" "cell t h m \<noteq> 0"
  shows "item_at t (cell t h m - 1) = Some (ht_items t ! unat (cell t h m - 1))"
    "unat (cell t h m - 1) < unat (ht_items_count t)" "unat (cell t h m) = Suc (unat (cell t h m - 1))"
proof -
  have "unat (cell t h m) \<le> unat (ht_items_count t)"
    using assms(2) ht_dimsD(2)[OF assms(1), of h m] ht_dimsD(3)[OF assms(1)] by (simp add: ht_rows_def)
  moreover show s: "unat (cell t h m) = Suc (unat (cell t h m - 1))" using assms(3) by (simp add: unat_dec_u32 unat_gt_0)
  ultimately show u: "unat (cell t h m - 1) < unat (ht_items_count t)" by simp
  then show "item_at t (cell t h m - 1) = Some (ht_items t ! unat (cell t h m - 1))"
    using ht_dimsD(5,6)[OF assms(1)] by (simp add: item_at_def)
qed

lemma find_loop_ok:
  assumes "ht_dims t k" "ht_rows t" "e < 2 ^ k" "cell t h e = 0" "\<And>m. m < e \<Longrightarrow> cell t h m \<noteq> 0"
    and "unat row = row_of t h m" "unat p = m" "m \<le> e"
    and "\<And>r. removed = Some r \<Longrightarrow> \<exists>m' < m. unat r = row_of t h m' \<and> \<not> live t (unat (cell t h m' - 1))"
  shows "\<exists>f. find_loop t key h out row p removed = Some f \<and>
    (case f of
       Pair_At i \<Rightarrow> \<exists>m' < e. i = cell t h m' - 1 \<and> matches t key h (cell t h m')
     | Free_Row r \<Rightarrow> (\<forall>m'. m \<le> m' \<and> m' < e \<longrightarrow> \<not> matches t key h (cell t h m')) \<and>
         (\<exists>m' \<le> e. unat r = row_of t h m' \<and> (cell t h m' = 0 \<or> \<not> live t (unat (cell t h m' - 1)))))"
  using assms(6-9)
proof (induction "e - m" arbitrary: m row p removed)
  case 0
  then have "get_index t row = Some 0" using assms(4) ht_dimsD(2)[OF assms(1), of h e] by (simp add: get_index_def)
  then have f: "find_loop t key h out row p removed = Some (Free_Row (case removed of Some r \<Rightarrow> r | None \<Rightarrow> row))"
    by (subst find_loop.simps) simp
  have "m = e" using 0 by simp
  then have "\<exists>m' \<le> e. unat (case removed of Some r \<Rightarrow> r | None \<Rightarrow> row) = row_of t h m' \<and>
      (cell t h m' = 0 \<or> \<not> live t (unat (cell t h m' - 1)))"
    using 0(2,5) assms(4) by (cases removed) (auto intro: less_imp_le)
  then show ?case using f \<open>m = e\<close> by auto
next
  case (Suc n)
  then have "m < e" by simp
  then have nz: "cell t h m \<noteq> 0" using assms(5) by blast
  note it = item_of_cell[OF assms(1,2) nz]
  have gi: "get_index t row = Some (cell t h m)"
    using Suc.prems ht_dimsD(2)[OF assms(1), of h m] by (simp add: get_index_def)
  define pair where "pair = ht_items t ! unat (cell t h m - 1)"
  have lv: "live t (unat (cell t h m - 1)) \<longleftrightarrow> p_key pair \<noteq> None" using it(2) by (simp add: live_def pair_def)
  note nxt = get_next_row[OF assms(1) Suc.prems(1,2)]
  have less: "n = e - Suc m" "m < 2 ^ k" "Suc m \<le> e" using Suc.hyps(2) \<open>m < e\<close> assms(3) by simp_all
  show ?case
  proof (cases "matches t key h (cell t h m)")
    case True
    then have "find_loop t key h out row p removed = Some (Pair_At (cell t h m - 1))"
      using gi it(1) nz lv by (subst find_loop.simps) (auto simp: matches_def pair_def[symmetric])
    then show ?thesis using True \<open>m < e\<close> by auto
  next
    case False
    let ?rem = "if p_key pair = None \<and> removed = None \<and> out then Some row else removed"
    have "find_loop t key h out row p removed =
        find_loop t key h out (fst (get_next t row p)) (snd (get_next t row p)) ?rem"
      using False gi it(1) nz lv
      by (subst find_loop.simps) (auto simp: matches_def pair_def[symmetric] split: option.split)
    moreover have "\<exists>m' < Suc m. unat r = row_of t h m' \<and> \<not> live t (unat (cell t h m' - 1))" if "?rem = Some r" for r
      using that Suc.prems(1,4) lv by (auto split: if_splits intro: less_SucI)
    moreover have "\<not> matches t key h (cell t h m')" if "m \<le> m'" "\<forall>m'. Suc m \<le> m' \<and> m' < e \<longrightarrow> \<not> matches t key h (cell t h m')" "m' < e" for m'
      using that False by (cases "m' = m") auto
    moreover obtain f where "find_loop t key h out (fst (get_next t row p)) (snd (get_next t row p)) ?rem = Some f"
      "case f of
         Pair_At i \<Rightarrow> \<exists>m' < e. i = cell t h m' - 1 \<and> matches t key h (cell t h m')
       | Free_Row r \<Rightarrow> (\<forall>m'. Suc m \<le> m' \<and> m' < e \<longrightarrow> \<not> matches t key h (cell t h m')) \<and>
           (\<exists>m' \<le> e. unat r = row_of t h m' \<and> (cell t h m' = 0 \<or> \<not> live t (unat (cell t h m' - 1))))"
      using Suc.hyps(1)[OF less(1) nxt[OF less(2)] less(3), of ?rem] calculation(2) by blast
    ultimately show ?thesis by (intro exI[of _ f]) (cases f; auto)
  qed
qed

section \<open>Inserting a pair\<close>

lemma take_index_bits:
  assumes "unat (i :: u32) \<le> unat c"
  shows "take_bit (index_bits c) i = i"
proof -
  have "unat i < 2 ^ LENGTH(32)" by (rule unsigned_less)
  then have "take_bit (index_bits c) (unat i) = unat i"
    using assms by (auto simp: index_bits_def word_le_nat_alt take_bit_nat_eq_self_iff)
  then show ?thesis by (metis unsigned_take_bit_eq word_unat_eq_iff)
qed

definition with_pair :: "('k, 'v) hashtable_t \<Rightarrow> u32 \<Rightarrow> ('k, 'v) pair_t \<Rightarrow> ('k, 'v) hashtable_t" where
  "with_pair t row pair =
     t\<lparr>ht_table := (ht_table t)[unat row := ht_items_count t + 1], ht_items_count := ht_items_count t + 1,
       ht_items := (ht_items t)[unat (ht_items_count t) := pair]\<rparr>"

lemma insert_with_pair:
  assumes "ht_dims t k" "unat (ht_items_count t) < unat (ht_capacity t)" "unat row < length (ht_table t)"
  shows "do { (i, this) \<leftarrow> insert_item t row; this \<leftarrow> set_item this i pair; g this } = g (with_pair t row pair)"
    "unat (ht_items_count t + 1) = Suc (unat (ht_items_count t))"
proof -
  show n: "unat (ht_items_count t + 1) = Suc (unat (ht_items_count t))"
    using assms(2) by (intro unat_increment[of _ "ht_capacity t"]) (simp add: word_less_nat_alt)
  then have "take_bit (index_bits (ht_capacity t)) (ht_items_count t + 1) = ht_items_count t + 1"
    using assms(2) by (intro take_index_bits) simp
  then show "do { (i, this) \<leftarrow> insert_item t row; this \<leftarrow> set_item this i pair; g this } = g (with_pair t row pair)"
    using assms ht_dimsD(6)[OF assms(1)] by (simp add: insert_item_def set_index_def set_item_def with_pair_def)
qed

lemma with_pair_fields [simp]:
  "ht_count (with_pair t row pair) = ht_count t" "ht_size (with_pair t row pair) = ht_size t"
  "ht_hash (with_pair t row pair) = ht_hash t" "ht_equals (with_pair t row pair) = ht_equals t"
  "ht_capacity (with_pair t row pair) = ht_capacity t" "ht_mask (with_pair t row pair) = ht_mask t"
  "ht_items_count (with_pair t row pair) = ht_items_count t + 1"
  by (simp_all add: with_pair_def)

lemma with_pair_nth:
  assumes "ht_dims t k" "unat (ht_items_count t) < unat (ht_capacity t)" "unat row < length (ht_table t)" "p_key pair \<noteq> None"
  shows "i < unat (ht_items_count t) \<Longrightarrow> ht_items (with_pair t row pair) ! i = ht_items t ! i"
    "ht_items (with_pair t row pair) ! unat (ht_items_count t) = pair"
    "live (with_pair t row pair) i \<longleftrightarrow> live t i \<or> i = unat (ht_items_count t)"
    "ht_table (with_pair t row pair) ! r = (if r = unat row then ht_items_count t + 1 else ht_table t ! r)"
    "ht_dims (with_pair t row pair) k"
    "pairs (with_pair t row pair) = pairs t @ [(the (p_key pair), p_value pair)]"
proof -
  note D = ht_dimsD(5,6)[OF assms(1)]
  note n = insert_with_pair(2)[OF assms(1-3)]
  show "i < unat (ht_items_count t) \<Longrightarrow> ht_items (with_pair t row pair) ! i = ht_items t ! i"
    "ht_items (with_pair t row pair) ! unat (ht_items_count t) = pair"
    "ht_table (with_pair t row pair) ! r = (if r = unat row then ht_items_count t + 1 else ht_table t ! r)"
    using assms(2,3) D by (auto simp: with_pair_def nth_list_update)
  show "live (with_pair t row pair) i \<longleftrightarrow> live t i \<or> i = unat (ht_items_count t)"
    using assms(2,4) D by (auto simp: live_def with_pair_def n nth_list_update less_Suc_eq)
  show "ht_dims (with_pair t row pair) k" using assms(1,2) n by (auto simp: ht_dims_def with_pair_def)
  show "pairs (with_pair t row pair) = pairs t @ [(the (p_key pair), p_value pair)]"
    using assms(2,4) D by (auto simp: pairs_def with_pair_def n take_Suc_conv_app_nth)
qed

lemma with_pair_ok:
  assumes "ht_dims t k" "ht_rows t" "ht_reach t" "ht_keys t" "unat (ht_items_count t) < unat (ht_capacity t)"
    and row: "unat row = row_of t h m" "\<And>m'. m' < m \<Longrightarrow> cell t h m' \<noteq> 0"
      "cell t h m = 0 \<or> \<not> live t (unat (cell t h m - 1))"
    and pair: "p_key pair = Some key" "p_hash pair = h" "h = ht_hash t key"
    and new: "\<And>i. live t i \<Longrightarrow> \<not> ht_equals t key (the (p_key (ht_items t ! i))) \<and> \<not> ht_equals t (the (p_key (ht_items t ! i))) key"
  shows "ht_core (with_pair t row pair)"
proof -
  let ?t = "with_pair t row pair" and ?n = "unat (ht_items_count t)"
  have rl: "unat row < length (ht_table t)" using row(1) ht_dimsD(2)[OF assms(1)] by simp
  note n = insert_with_pair(2)[OF assms(1,5) rl]
  have pk: "p_key pair \<noteq> None" using pair by simp
  note W = with_pair_nth[OF assms(1,5) rl pk]
  have less: "live t i \<Longrightarrow> i < ?n" for i by (simp add: live_def)
  have rows: "ht_rows ?t" unfolding ht_rows_def
  proof (intro conjI allI impI)
    fix r assume "r < unat (ht_size ?t)"
    then show "unat (ht_table ?t ! r) \<le> unat (ht_items_count ?t)"
      using assms(2) by (auto simp: W n ht_rows_def intro: le_SucI)
  next
    fix r r' assume r: "r < unat (ht_size ?t)" "r' < unat (ht_size ?t)" "ht_table ?t ! r \<noteq> 0 \<and> ht_table ?t ! r = ht_table ?t ! r'"
    have ne: "x < unat (ht_size ?t) \<Longrightarrow> ht_table t ! x \<noteq> ht_items_count t + 1" for x
      using assms(2) n by (metis Suc_n_not_le_n ht_rows_def with_pair_fields(2))
    show "r = r'"
    proof (cases "r = unat row \<or> r' = unat row")
      case True
      then show ?thesis using r ne[of r] ne[of r'] by (auto simp: W split: if_splits)
    next
      case False
      then show ?thesis using r assms(2) by (auto simp: W ht_rows_def)
    qed
  qed
  have reach: "ht_reach ?t" unfolding ht_reach_def
  proof (intro allI impI)
    fix i assume "live ?t i"
    then consider "live t i" | "i = ?n" by (auto simp: W)
    then show "\<exists>m. unat (cell ?t (p_hash (ht_items ?t ! i)) m) = Suc i \<and> (\<forall>m' < m. cell ?t (p_hash (ht_items ?t ! i)) m' \<noteq> 0)"
    proof cases
      case 1
      let ?h = "p_hash (ht_items t ! i)"
      obtain m' where m': "unat (cell t ?h m') = Suc i" "\<forall>m'' < m'. cell t ?h m'' \<noteq> 0"
        using assms(3) 1 by (auto simp: ht_reach_def)
      have "cell t ?h m' \<noteq> 0" using m'(1) by auto
      then have "unat (cell t ?h m' - 1) = i" using m'(1) by (simp add: unat_dec_u32)
      then have "row_of t ?h m' \<noteq> unat row" using row(1,3) 1 \<open>cell t ?h m' \<noteq> 0\<close> by metis
      moreover have "ht_items_count t + 1 \<noteq> 0" using n by (metis nat.simps(3) unsigned_0)
      ultimately show ?thesis using m' less[OF 1] by (intro exI[of _ m']) (auto simp: W)
    next
      case 2
      then show ?thesis using row n pair(2) by (intro exI[of _ m]) (auto simp: W)
    qed
  qed
  have keys: "ht_keys ?t"
    using assms(4) new pair less unfolding ht_keys_def by (auto simp: W)
  show ?thesis unfolding ht_core_def using W(5) rows reach keys by blast
qed

section \<open>Lists of pairs in insertion order\<close>

definition assoc_get :: "('k \<Rightarrow> 'k \<Rightarrow> bool) \<Rightarrow> ('k \<times> 'v option) list \<Rightarrow> 'k \<Rightarrow> 'v option" where
  "assoc_get eq xs key = (case List.find (\<lambda>(k, v). eq key k) xs of None \<Rightarrow> None | Some (k, v) \<Rightarrow> v)"

definition assoc_put :: "('k \<Rightarrow> 'k \<Rightarrow> bool) \<Rightarrow> ('k \<times> 'v option) list \<Rightarrow> 'k \<Rightarrow> 'v option \<Rightarrow> ('k \<times> 'v option) list" where
  "assoc_put eq xs key value =
     (if list_ex (\<lambda>(k, v). eq key k) xs then map (\<lambda>(k, v). if eq key k then (key, value) else (k, v)) xs
      else xs @ [(key, value)])"

definition assoc_remove :: "('k \<Rightarrow> 'k \<Rightarrow> bool) \<Rightarrow> ('k \<times> 'v option) list \<Rightarrow> 'k \<Rightarrow> ('k \<times> 'v option) list" where
  "assoc_remove eq xs key = filter (\<lambda>(k, v). \<not> eq key k) xs"

lemma assoc_no_key:
  assumes "\<forall>x\<in>set xs. \<not> eq key (fst x)"
  shows "assoc_get eq xs key = None" "assoc_put eq xs key v = xs @ [(key, v)]" "assoc_remove eq xs key = xs"
proof -
  have "List.find (\<lambda>(k, v). eq key k) xs = None" using assms by (auto simp: find_None_iff)
  then show "assoc_get eq xs key = None" by (simp add: assoc_get_def)
  show "assoc_put eq xs key v = xs @ [(key, v)]" using assms by (auto simp: assoc_put_def list_ex_iff)
  show "assoc_remove eq xs key = xs" using assms by (auto simp: assoc_remove_def intro!: filter_True)
qed

lemma assoc_one_key:
  assumes "xs = ys @ (k, v) # zs" "eq key k" "\<forall>x\<in>set ys \<union> set zs. \<not> eq key (fst x)"
  shows "assoc_get eq xs key = v" "assoc_put eq xs key v' = ys @ (key, v') # zs" "assoc_remove eq xs key = ys @ zs"
proof -
  have "List.find (\<lambda>(k, v). eq key k) xs = Some (k, v)"
    using assms by (simp add: find_append_notin split_beta)
  then show "assoc_get eq xs key = v" by (simp add: assoc_get_def)
  have "map (\<lambda>(k, v). if eq key k then (key, v') else (k, v)) ws = ws" if "\<forall>x\<in>set ws. \<not> eq key (fst x)" for ws
    using that by (intro map_idI) auto
  then show "assoc_put eq xs key v' = ys @ (key, v') # zs"
    using assms by (auto simp: assoc_put_def)
  have "filter (\<lambda>(k, v). \<not> eq key k) ws = ws" if "\<forall>x\<in>set ws. \<not> eq key (fst x)" for ws :: "('a \<times> 'b option) list"
    using that by (intro filter_True) auto
  then show "assoc_remove eq xs key = ys @ zs" using assms by (simp add: assoc_remove_def)
qed

text \<open>Operations on a map, and their results one after the other.\<close>

datatype ('k, 'v) map_op = Op_Put 'k "'v option" | Op_Get 'k | Op_Remove 'k

fun is_put :: "('k, 'v) map_op \<Rightarrow> bool" where
  "is_put (Op_Put _ _) = True" | "is_put _ = False"

fun run_assoc :: "('k \<Rightarrow> 'k \<Rightarrow> bool) \<Rightarrow> ('k, 'v) map_op list \<Rightarrow> ('k \<times> 'v option) list \<Rightarrow>
    'v option list \<times> ('k \<times> 'v option) list" where
  "run_assoc eq [] xs = ([], xs)"
| "run_assoc eq (op # ops) xs =
     (let (rs, xs') = run_assoc eq ops (case op of Op_Put k v \<Rightarrow> assoc_put eq xs k v | Op_Get k \<Rightarrow> xs
                                                 | Op_Remove k \<Rightarrow> assoc_remove eq xs k)
      in ((case op of Op_Put k v \<Rightarrow> assoc_get eq xs k | Op_Get k \<Rightarrow> assoc_get eq xs k
                    | Op_Remove k \<Rightarrow> assoc_get eq xs k) # rs, xs'))"

fun run_map ::
  "('t \<Rightarrow> 'k \<Rightarrow> 'v option \<Rightarrow> ('v option \<times> 't) option) \<Rightarrow> ('t \<Rightarrow> 'k \<Rightarrow> 'v option option) \<Rightarrow>
   ('t \<Rightarrow> 'k \<Rightarrow> ('v option \<times> 't) option) \<Rightarrow> ('k, 'v) map_op list \<Rightarrow> 't \<Rightarrow> ('v option list \<times> 't) option" where
  "run_map put get remove [] t = Some ([], t)"
| "run_map put get remove (op # ops) t =
     do { (r, t) \<leftarrow> (case op of Op_Put k v \<Rightarrow> put t k v | Op_Get k \<Rightarrow> map_option (\<lambda>r. (r, t)) (get t k)
                            | Op_Remove k \<Rightarrow> remove t k);
          (rs, t) \<leftarrow> run_map put get remove ops t;
          Some (r # rs, t) }"

text \<open>The interface of maps of bounded size that keep the order of insertion.\<close>

locale ordered_map =
  fixes eq :: "'k \<Rightarrow> 'k \<Rightarrow> bool" and ok :: "'t \<Rightarrow> bool" and abs :: "'t \<Rightarrow> ('k \<times> 'v option) list"
    and used :: "'t \<Rightarrow> nat" and lim :: nat
    and put :: "'t \<Rightarrow> 'k \<Rightarrow> 'v option \<Rightarrow> ('v option \<times> 't) option"
    and get :: "'t \<Rightarrow> 'k \<Rightarrow> 'v option option"
    and remove :: "'t \<Rightarrow> 'k \<Rightarrow> ('v option \<times> 't) option"
  assumes put_ok: "ok t \<Longrightarrow> used t < lim \<Longrightarrow>
      \<exists>t'. put t k v = Some (assoc_get eq (abs t) k, t') \<and> ok t' \<and> abs t' = assoc_put eq (abs t) k v \<and> used t' \<le> Suc (used t)"
    and get_ok: "ok t \<Longrightarrow> get t k = Some (assoc_get eq (abs t) k)"
    and remove_ok: "ok t \<Longrightarrow>
      \<exists>t'. remove t k = Some (assoc_get eq (abs t) k, t') \<and> ok t' \<and> abs t' = assoc_remove eq (abs t) k \<and> used t' \<le> used t"
begin

lemma run_refines:
  assumes "ok t" "used t + length (filter is_put ops) \<le> lim"
  shows "\<exists>rs t'. run_map put get remove ops t = Some (rs, t') \<and> ok t' \<and> run_assoc eq ops (abs t) = (rs, abs t')"
  using assms
proof (induction ops arbitrary: t)
  case (Cons op ops)
  show ?case
  proof (cases op)
    case (Op_Put k v)
    then obtain t' where t': "put t k v = Some (assoc_get eq (abs t) k, t')" "ok t'" "abs t' = assoc_put eq (abs t) k v" "used t' \<le> Suc (used t)"
      using put_ok[of t k v] Cons.prems by auto
    then show ?thesis using Cons.IH[of t'] Cons.prems Op_Put by (auto simp: split_beta)
  next
    case (Op_Get k)
    then show ?thesis using Cons.IH[of t] Cons.prems get_ok[of t k] by (auto simp: split_beta)
  next
    case (Op_Remove k)
    then obtain t' where t': "remove t k = Some (assoc_get eq (abs t) k, t')" "ok t'" "abs t' = assoc_remove eq (abs t) k" "used t' \<le> used t"
      using remove_ok[of t k] Cons.prems by auto
    then show ?thesis using Cons.IH[of t'] Cons.prems Op_Remove by (auto simp: split_beta)
  qed
qed simp

end

section \<open>Changing an item\<close>

definition with_item :: "('k, 'v) hashtable_t \<Rightarrow> nat \<Rightarrow> ('k, 'v) pair_t \<Rightarrow> ('k, 'v) hashtable_t" where
  "with_item t i pair = t\<lparr>ht_items := (ht_items t)[i := pair]\<rparr>"

lemma with_item_fields [simp]:
  "ht_count (with_item t i pair) = ht_count t" "ht_size (with_item t i pair) = ht_size t"
  "ht_hash (with_item t i pair) = ht_hash t" "ht_equals (with_item t i pair) = ht_equals t"
  "ht_table (with_item t i pair) = ht_table t" "ht_items_count (with_item t i pair) = ht_items_count t"
  by (simp_all add: with_item_def)

lemma pairs_set:
  assumes "ht_dims t k"
  shows "x \<in> set (pairs t) \<longleftrightarrow> (\<exists>i. live t i \<and> x = (the (p_key (ht_items t ! i)), p_value (ht_items t ! i)))"
  using ht_dimsD(5,6)[OF assms] by (force simp: pairs_def live_def in_set_conv_nth image_iff Bex_def)

lemma other_index: "p \<in> set (take i xs) \<union> set (drop (Suc i) xs) \<Longrightarrow> \<exists>j < length xs. j \<noteq> i \<and> xs ! j = p"
proof (elim UnE)
  assume "p \<in> set (take i xs)"
  then show ?thesis by (auto simp: in_set_conv_nth)
next
  assume "p \<in> set (drop (Suc i) xs)"
  then obtain m where "m < length xs - Suc i" "xs ! (Suc i + m) = p" by (auto simp: in_set_conv_nth)
  then show ?thesis by (intro exI[of _ "Suc i + m"]) auto
qed

lemma pairs_split:
  assumes "ht_dims t k" "live t i"
  shows "\<exists>ys zs. pairs t = ys @ (the (p_key (ht_items t ! i)), p_value (ht_items t ! i)) # zs \<and>
    (\<forall>x \<in> set ys \<union> set zs. \<exists>j. live t j \<and> j \<noteq> i \<and> fst x = the (p_key (ht_items t ! j))) \<and>
    (\<forall>pair. pairs (with_item t i pair) = ys @ (case p_key pair of None \<Rightarrow> [] | Some key \<Rightarrow> [(key, p_value pair)]) @ zs)"
proof -
  let ?l = "take (unat (ht_items_count t)) (ht_items t)"
  let ?f = "\<lambda>xs. map (\<lambda>p. (the (p_key p), p_value p)) (filter (\<lambda>p. p_key p \<noteq> None) xs)"
  have i: "i < length ?l" "i < unat (ht_items_count t)" "p_key (?l ! i) \<noteq> None" "?l ! i = ht_items t ! i"
    using assms ht_dimsD(5,6)[OF assms(1)] by (auto simp: live_def)
  have app: "?f (ys @ y # zs) = ?f ys @ (the (p_key y), p_value y) # ?f zs" if "p_key y \<noteq> None" for ys y zs
    using that by simp
  have "?f ?l = ?f (take i ?l @ ?l ! i # drop (Suc i) ?l)" using i(1) by (intro arg_cong[of _ _ ?f] id_take_nth_drop)
  then have 1: "pairs t = ?f (take i ?l) @ (the (p_key (ht_items t ! i)), p_value (ht_items t ! i)) # ?f (drop (Suc i) ?l)"
    unfolding pairs_def app[OF i(3)] unfolding i(4) .
  have "take (unat (ht_items_count t)) ((ht_items t)[i := pair]) = take i ?l @ pair # drop (Suc i) ?l" for pair
    using i(1,2) by (metis take_update_swap upd_conv_take_nth_drop)
  then have 2: "pairs (with_item t i pair) = ?f (take i ?l) @ (case p_key pair of None \<Rightarrow> [] | Some key \<Rightarrow> [(key, p_value pair)]) @ ?f (drop (Suc i) ?l)" for pair
    by (auto simp: pairs_def with_item_def split: option.split)
  have 3: "\<exists>j. live t j \<and> j \<noteq> i \<and> fst x = the (p_key (ht_items t ! j))" if x: "x \<in> set (?f (take i ?l)) \<union> set (?f (drop (Suc i) ?l))" for x
  proof -
    have "\<exists>p \<in> set ws. p_key p \<noteq> None \<and> fst x = the (p_key p)" if "x \<in> set (?f ws)" for ws using that by auto
    then obtain p where p: "p \<in> set (take i ?l) \<union> set (drop (Suc i) ?l)" "p_key p \<noteq> None" "fst x = the (p_key p)"
      using x by blast
    then obtain j where "j < length ?l" "j \<noteq> i" "p = ?l ! j" using other_index[OF p(1)] by blast
    then show ?thesis using p(2,3) by (intro exI[of _ j]) (simp add: live_def)
  qed
  show ?thesis using 1 2 3 by blast
qed

lemma with_item_core:
  assumes "ht_core t" "live t i" "p_hash pair = p_hash (ht_items t ! i)"
    and "\<And>key. p_key pair = Some key \<Longrightarrow> ht_hash t key = p_hash pair \<and>
      (\<forall>j. live t j \<and> j \<noteq> i \<longrightarrow> \<not> ht_equals t key (the (p_key (ht_items t ! j))) \<and> \<not> ht_equals t (the (p_key (ht_items t ! j))) key)"
  shows "ht_core (with_item t i pair)"
proof -
  obtain k where C: "ht_dims t k" "ht_rows t" "ht_reach t" "ht_keys t" using assms(1) by (rule ht_coreE)
  let ?t = "with_item t i pair"
  have i: "i < length (ht_items t)" "i < unat (ht_items_count t)" using assms(2) ht_dimsD(5,6)[OF C(1)] by (auto simp: live_def)
  have nth: "ht_items ?t ! j = (if j = i then pair else ht_items t ! j)" for j using i by (simp add: with_item_def)
  have lv: "live ?t j \<longleftrightarrow> (if j = i then p_key pair \<noteq> None else live t j)" for j using i by (auto simp: live_def nth)
  have h: "p_hash (ht_items ?t ! j) = p_hash (ht_items t ! j)" for j using assms(3) by (simp add: nth)
  have "ht_dims ?t k" using C(1) by (simp add: ht_dims_def with_item_def)
  moreover have "ht_rows ?t" using C(2) by (simp only: ht_rows_def with_item_fields)
  moreover have "ht_reach ?t" using C(3) assms(2) unfolding ht_reach_def h by (metis lv with_item_fields(2,5))
  moreover have "ht_keys ?t" unfolding ht_keys_def
  proof (intro conjI allI impI)
    fix j assume "live ?t j"
    then show "p_hash (ht_items ?t ! j) = ht_hash ?t (the (p_key (ht_items ?t ! j)))"
      using C(4) assms(4) by (auto simp: lv nth ht_keys_def split: if_splits)
  next
    fix j j' assume "live ?t j \<and> live ?t j' \<and> ht_equals ?t (the (p_key (ht_items ?t ! j))) (the (p_key (ht_items ?t ! j')))"
    then show "j = j'" using C(4) assms(4) by (auto simp: lv nth ht_keys_def split: if_splits)
  qed
  ultimately show ?thesis by (auto simp: ht_core_def)
qed

section \<open>Creating and rehashing\<close>

lemma init_hashtable_fields [simp]:
  "ht_count (init_hashtable t n) = ht_count t" "ht_hash (init_hashtable t n) = ht_hash t"
  "ht_equals (init_hashtable t n) = ht_equals t" "ht_items_count (init_hashtable t n) = 0" "pairs (init_hashtable t n) = []"
  by (simp_all add: init_hashtable_def Let_def pairs_def)

lemma init_hashtable_ok:
  "ht_core (init_hashtable t n)" "4 \<le> unat (ht_capacity (init_hashtable t n))"
  "n \<le> MAX_SIZE \<Longrightarrow> unat n div 3 * 2 \<le> unat (ht_capacity (init_hashtable t n))"
proof -
  let ?v = "max MIN_SIZE (min n MAX_SIZE)" and ?t = "init_hashtable t n"
  have v: "8 \<le> ?v" "?v \<le> 2 ^ 30" by (simp_all add: max_def min_def)
  have "2 \<le> ?v" by (rule order_trans[OF _ v(1)]) simp
  moreover have "?v \<le> 2 ^ 31" by (rule order_trans[OF v(2)]) simp
  ultimately obtain k where k: "1 \<le> k" "unat (hashtable_get_nearest_powerof2 ?v) = 2 ^ k" "2 ^ (k - 1) < unat ?v" "unat ?v \<le> 2 ^ k"
    using nearest_powerof2[of ?v] by blast
  have "8 \<le> unat ?v" "unat ?v \<le> 2 ^ 30" using v by (simp_all only: word_le_nat_alt) simp_all
  then have "(2::nat) ^ 3 \<le> 2 ^ k" "(2::nat) ^ (k - 1) < 2 ^ 30" using k(3,4) by simp_all
  then have "3 \<le> k" "k - 1 < 30" by (simp_all only: power_increasing_iff power_strict_increasing_iff one_less_numeral_iff semiring_norm)
  then have kk: "3 \<le> k" "k \<le> 30" by simp_all
  have "hashtable_get_nearest_powerof2 ?v = 2 ^ k" using k(2) kk unat_exp[of k] by (simp add: word_unat_eq_iff)
  then have d: "ht_dims ?t k"
    using kk k(2) unat_exp[of k] by (simp add: ht_dims_def init_hashtable_def Let_def unat_CAPACITY)
  have "ht_rows ?t" "ht_reach ?t" "ht_keys ?t" using k(2)
    by (auto simp: ht_rows_def ht_reach_def ht_keys_def live_def) (auto simp: init_hashtable_def Let_def)
  then show "ht_core ?t" using d by (auto simp: ht_core_def)
  have "(8::nat) \<le> 2 ^ k" using \<open>(2::nat) ^ 3 \<le> 2 ^ k\<close> by simp
  then have "8 div 3 * 2 \<le> (2::nat) ^ k div 3 * 2" by (intro mult_le_mono1 div_le_mono)
  then show "4 \<le> unat (ht_capacity ?t)" using d by (simp add: ht_dims_def)
  assume "n \<le> MAX_SIZE"
  then have "n \<le> ?v" by (simp add: min_absorb1)
  then have "unat n \<le> 2 ^ k" using k(4) by (simp add: word_le_nat_alt)
  then show "unat n div 3 * 2 \<le> unat (ht_capacity ?t)" using d by (simp add: ht_dims_def div_le_mono)
qed

text \<open>The pairs of a list of items, and that no two of their keys are equal.\<close>

abbreviation live_pairs :: "('k, 'v) pair_t list \<Rightarrow> ('k \<times> 'v option) list" where
  "live_pairs ps \<equiv> map (\<lambda>p. (the (p_key p), p_value p)) (filter (\<lambda>p. p_key p \<noteq> None) ps)"

definition distinct_keys :: "('k \<Rightarrow> 'k \<Rightarrow> bool) \<Rightarrow> ('k \<times> 'v option) list \<Rightarrow> bool" where
  "distinct_keys eq xs \<longleftrightarrow> sorted_wrt (\<lambda>x y. \<not> eq (fst x) (fst y) \<and> \<not> eq (fst y) (fst x)) xs"

lemma pairs_distinct:
  assumes "ht_core t"
  shows "distinct_keys (ht_equals t) (pairs t)"
proof -
  obtain k where C: "ht_dims t k" "ht_keys t" using assms by (rule ht_coreE)
  let ?l = "take (unat (ht_items_count t)) (ht_items t)"
  let ?R = "\<lambda>p q. p_key p \<noteq> None \<and> p_key q \<noteq> None \<longrightarrow>
      \<not> ht_equals t (the (p_key p)) (the (p_key q)) \<and> \<not> ht_equals t (the (p_key q)) (the (p_key p))"
  have "sorted_wrt ?R ?l" unfolding sorted_wrt_iff_nth_less
  proof (intro allI impI)
    fix i j assume "i < j" "j < length ?l" "p_key (?l ! i) \<noteq> None \<and> p_key (?l ! j) \<noteq> None"
    then have "live t i" "live t j" "i \<noteq> j" by (auto simp: live_def)
    then show "\<not> ht_equals t (the (p_key (?l ! i))) (the (p_key (?l ! j))) \<and> \<not> ht_equals t (the (p_key (?l ! j))) (the (p_key (?l ! i)))"
      using C(2) by (auto simp: ht_keys_def live_def)
  qed
  then have "sorted_wrt ?R (filter (\<lambda>p. p_key p \<noteq> None) ?l)" by (rule sorted_wrt_filter)
  then show ?thesis unfolding distinct_keys_def pairs_def sorted_wrt_map
    by (rule sorted_wrt_mono_rel[rotated]) auto
qed

lemma reinsert_ok:
  assumes "ht_core t" "\<And>p. p \<in> set ps \<Longrightarrow> p_key p \<noteq> None \<Longrightarrow> p_hash p = ht_hash t (the (p_key p))"
    and "distinct_keys (ht_equals t) (pairs t @ live_pairs ps)"
    and "unat (ht_items_count t) + length (live_pairs ps) \<le> unat (ht_capacity t)"
  shows "\<exists>t'. reinsert ps t = Some t' \<and> ht_core t' \<and> pairs t' = pairs t @ live_pairs ps \<and> ht_count t' = ht_count t \<and>
    ht_hash t' = ht_hash t \<and> ht_equals t' = ht_equals t \<and> ht_capacity t' = ht_capacity t \<and>
    unat (ht_items_count t') = unat (ht_items_count t) + length (live_pairs ps)"
  using assms
proof (induction ps arbitrary: t)
  case (Cons p ps)
  show ?case
  proof (cases "p_key p")
    case None
    then show ?thesis using Cons.IH[of t] Cons.prems by simp
  next
    case (Some key)
    obtain k where C: "ht_dims t k" "ht_rows t" "ht_reach t" "ht_keys t" using Cons.prems(1) by (rule ht_coreE)
    define h where "h = p_hash p"
    have h: "h = ht_hash t key" using Cons.prems(2)[of p] Some by (simp add: h_def)
    obtain e where e: "e < 2 ^ k" "cell t h e = 0" "\<And>m. m < e \<Longrightarrow> cell t h m \<noteq> 0" using first_empty[OF C(1,2)] by blast
    obtain row where row: "free_row_loop t (h AND ht_mask t) 0 = Some row" "unat row = row_of t h e"
      using free_row_loop_ok[OF C(1) e ht_dimsD(1)[OF C(1)], of 0] by auto
    have rl: "unat row < length (ht_table t)" using row(2) ht_dimsD(2)[OF C(1)] by simp
    have room: "unat (ht_items_count t) < unat (ht_capacity t)" using Cons.prems(4) Some by simp
    have pk: "p_key p \<noteq> None" using Some by simp
    have new: "\<not> ht_equals t key (the (p_key (ht_items t ! i))) \<and> \<not> ht_equals t (the (p_key (ht_items t ! i))) key" if "live t i" for i
    proof -
      have "(the (p_key (ht_items t ! i)), p_value (ht_items t ! i)) \<in> set (pairs t)" using that pairs_set[OF C(1)] by blast
      then show ?thesis using Cons.prems(3) Some by (auto simp: distinct_keys_def sorted_wrt_append)
    qed
    let ?t = "with_pair t row p"
    have core: "ht_core ?t"
      using with_pair_ok[OF C room row(2) e(3) _ Some h_def[symmetric] h new] e(2) by blast
    have p': "pairs ?t = pairs t @ [(key, p_value p)]" using with_pair_nth(6)[OF C(1) room rl pk] Some by simp
    have "reinsert (p # ps) t = reinsert ps ?t"
      using Some row(1) insert_with_pair(1)[OF C(1) room rl, of p "reinsert ps"] by (simp add: h_def)
    moreover have "\<exists>t'. reinsert ps ?t = Some t' \<and> ht_core t' \<and> pairs t' = pairs ?t @ live_pairs ps \<and> ht_count t' = ht_count ?t \<and>
        ht_hash t' = ht_hash ?t \<and> ht_equals t' = ht_equals ?t \<and> ht_capacity t' = ht_capacity ?t \<and>
        unat (ht_items_count t') = unat (ht_items_count ?t) + length (live_pairs ps)"
      using Cons.prems Some insert_with_pair(2)[OF C(1) room rl] by (intro Cons.IH core) (auto simp: p')
    ultimately show ?thesis using Some insert_with_pair(2)[OF C(1) room rl] by (simp add: p')
  qed
qed simp

lemma rehash_ok:
  assumes "ht_ok t" "unat n = unat (ht_count t) * 3" "n \<le> MAX_SIZE"
  shows "\<exists>t'. rehash t n = Some (True, t') \<and> ht_ok t' \<and> pairs t' = pairs t \<and> ht_hash t' = ht_hash t \<and> ht_equals t' = ht_equals t \<and>
    unat (ht_items_count t') = unat (ht_count t) \<and> ht_items_count t' < ht_capacity t'"
proof -
  let ?t = "init_hashtable t n" and ?ps = "take (unat (ht_items_count t)) (ht_items t)"
  have C: "ht_core t" "unat (ht_count t) = length (pairs t)" using assms(1) by (auto simp: ht_ok_def)
  have lp: "live_pairs ?ps = pairs t" by (simp add: pairs_def)
  have c: "unat (ht_count t) < unat (ht_capacity ?t)"
    using init_hashtable_ok(2)[of t n] init_hashtable_ok(3)[of n t] assms(2,3) by (cases "unat (ht_count t) = 0") auto
  show ?thesis
  proof (cases "ht_count t = 0")
    case True
    then have "0 < ht_capacity ?t" using c by (simp add: word_less_nat_alt)
    then show ?thesis using True assms(3) C init_hashtable_ok(1)[of t n] by (auto simp: rehash_def ht_ok_def Let_def)
  next
    case False
    have hash: "p_hash p = ht_hash ?t (the (p_key p))" if p: "p \<in> set ?ps" "p_key p \<noteq> None" for p
    proof -
      obtain i where "i < unat (ht_items_count t)" "p = ht_items t ! i" using p(1) by (auto simp: in_set_conv_nth)
      then have "live t i" "p = ht_items t ! i" using p(2) by (auto simp: live_def)
      then show ?thesis using C(1) by (auto simp: ht_core_def ht_keys_def)
    qed
    obtain t' where t': "reinsert ?ps ?t = Some t'" "ht_core t'" "pairs t' = pairs t" "ht_count t' = ht_count t"
      "ht_hash t' = ht_hash t" "ht_equals t' = ht_equals t" "ht_capacity t' = ht_capacity ?t" "unat (ht_items_count t') = length (pairs t)"
      using reinsert_ok[OF init_hashtable_ok(1) hash, of ?ps, unfolded lp] pairs_distinct[OF C(1)] c C(2) by auto
    moreover have "ht_items_count t' < ht_capacity t'" using t'(7,8) c C(2) by (simp add: word_less_nat_alt)
    ultimately show ?thesis using assms(3) C False by (intro exI[of _ t']) (auto simp: rehash_def Let_def ht_ok_def not_less)
  qed
qed

section \<open>Operations\<close>

lemma count_update [simp]: "ht_core (t\<lparr>ht_count := c\<rparr>) = ht_core t" "pairs (t\<lparr>ht_count := c\<rparr>) = pairs t"
  unfolding ht_core_def ht_dims_def ht_rows_def ht_reach_def ht_keys_def live_def pairs_def by (rule refl; fail | simp; fail)+

text \<open>What the table relies on: an equivalence on the keys that the hash function respects.\<close>

definition table_for :: "('k \<Rightarrow> u32) \<Rightarrow> ('k \<Rightarrow> 'k \<Rightarrow> bool) \<Rightarrow> ('k, 'v) hashtable_t \<Rightarrow> bool" where
  "table_for hash equals t \<longleftrightarrow> ht_ok t \<and> ht_hash t = hash \<and> ht_equals t = equals"

locale hash_keys =
  fixes hash :: "'k \<Rightarrow> u32" and equals :: "'k \<Rightarrow> 'k \<Rightarrow> bool"
  assumes equals_refl: "equals a a" and equals_sym: "equals a b \<Longrightarrow> equals b a"
    and equals_trans: "equals a b \<Longrightarrow> equals b c \<Longrightarrow> equals a c"
    and hash_equals: "equals a b \<Longrightarrow> hash a = hash b"
begin

lemma find_loop_result:
  assumes "ht_core t" "ht_hash t = hash" "ht_equals t = equals"
  obtains (pair) i where "find_loop t key (hash key) out (hash key AND ht_mask t) 0 None = Some (Pair_At i)"
      "live t (unat i)" "equals key (the (p_key (ht_items t ! unat i)))" "item_at t i = Some (ht_items t ! unat i)"
    | (free) row m where "find_loop t key (hash key) out (hash key AND ht_mask t) 0 None = Some (Free_Row row)"
      "\<And>i. live t i \<Longrightarrow> \<not> equals key (the (p_key (ht_items t ! i)))" "unat row = row_of t (hash key) m"
      "\<And>m'. m' < m \<Longrightarrow> cell t (hash key) m' \<noteq> 0" "cell t (hash key) m = 0 \<or> \<not> live t (unat (cell t (hash key) m - 1))"
proof -
  let ?h = "hash key"
  obtain k where C: "ht_dims t k" "ht_rows t" "ht_reach t" "ht_keys t" using assms(1) by (rule ht_coreE)
  obtain e where e: "e < 2 ^ k" "cell t ?h e = 0" "\<And>m. m < e \<Longrightarrow> cell t ?h m \<noteq> 0" using first_empty[OF C(1,2)] by blast
  obtain f where f: "find_loop t key ?h out (?h AND ht_mask t) 0 None = Some f"
    "case f of
       Pair_At i \<Rightarrow> \<exists>m' < e. i = cell t ?h m' - 1 \<and> matches t key ?h (cell t ?h m')
     | Free_Row r \<Rightarrow> (\<forall>m'. 0 \<le> m' \<and> m' < e \<longrightarrow> \<not> matches t key ?h (cell t ?h m')) \<and>
         (\<exists>m' \<le> e. unat r = row_of t ?h m' \<and> (cell t ?h m' = 0 \<or> \<not> live t (unat (cell t ?h m' - 1))))"
    using find_loop_ok[OF C(1,2) e ht_dimsD(1)[OF C(1)], of 0 None key out] by auto
  show thesis
  proof (cases f)
    case (Pair_At i)
    then obtain m' where m': "m' < e" "i = cell t ?h m' - 1" "matches t key ?h (cell t ?h m')" using f(2) by auto
    then show thesis
      using f(1) Pair_At item_of_cell(1)[OF C(1,2) e(3)[OF m'(1)]] assms(3) by (intro pair) (auto simp: matches_def)
  next
    case (Free_Row r)
    obtain m where m: "m \<le> e" "unat r = row_of t ?h m" "cell t ?h m = 0 \<or> \<not> live t (unat (cell t ?h m - 1))"
      using f(2) Free_Row by auto
    have "\<not> equals key (the (p_key (ht_items t ! i)))" if i: "live t i" for i
    proof
      assume eq: "equals key (the (p_key (ht_items t ! i)))"
      then have ph: "p_hash (ht_items t ! i) = ?h" using C(4) i assms(2) hash_equals[OF eq] by (simp add: ht_keys_def)
      then obtain m' where m': "unat (cell t ?h m') = Suc i" "\<forall>m'' < m'. cell t ?h m'' \<noteq> 0"
        using C(3) i by (auto simp: ht_reach_def)
      have "m' < e" using m' e(2) by (metis linorder_neqE_nat nat.simps(3) unsigned_0)
      moreover have "unat (cell t ?h m' - 1) = i" using m'(1) e(3)[OF \<open>m' < e\<close>] by (simp add: unat_dec_u32)
      then have "matches t key ?h (cell t ?h m')" using i ph eq assms(3) by (simp add: matches_def)
      ultimately show False using f(2) Free_Row by auto
    qed
    then show thesis using free[of r m] f(1) Free_Row m e(3) by auto
  qed
qed

lemma find_key_result:
  assumes "table_for hash equals t"
  obtains (pair) i where "find_key t key out = Some (Pair_At i, hash key)" "live t (unat i)"
      "item_at t i = Some (ht_items t ! unat i)" "equals key (the (p_key (ht_items t ! unat i)))"
      "assoc_get equals (pairs t) key = p_value (ht_items t ! unat i)"
      "\<And>pair. p_key pair = Some key \<Longrightarrow> pairs (with_item t (unat i) pair) = assoc_put equals (pairs t) key (p_value pair)"
      "\<And>pair. p_key pair = None \<Longrightarrow> pairs (with_item t (unat i) pair) = assoc_remove equals (pairs t) key"
      "\<And>j. live t j \<Longrightarrow> j \<noteq> unat i \<Longrightarrow> \<not> equals key (the (p_key (ht_items t ! j)))"
      "\<And>v. length (assoc_put equals (pairs t) key v) = length (pairs t)" "Suc (length (assoc_remove equals (pairs t) key)) = length (pairs t)"
    | (free) row h m where "find_key t key out = Some (Free_Row row, h)" "\<forall>x\<in>set (pairs t). \<not> equals key (fst x)"
      "out \<Longrightarrow> h = hash key \<and> unat row = row_of t (hash key) m \<and> (\<forall>m' < m. cell t (hash key) m' \<noteq> 0) \<and>
        (cell t (hash key) m = 0 \<or> \<not> live t (unat (cell t (hash key) m - 1)))"
proof -
  have t: "ht_core t" "ht_hash t = hash" "ht_equals t = equals" "unat (ht_count t) = length (pairs t)"
    using assms by (auto simp: table_for_def ht_ok_def)
  obtain k where C: "ht_dims t k" "ht_keys t" using t(1) by (rule ht_coreE)
  show thesis
  proof (cases "ht_count t = 0 \<and> \<not> out")
    case True
    then show thesis using t(4) by (intro free[of 0 0]) (auto simp: find_key_def)
  next
    case F: False
    from t(1-3) show thesis
    proof (cases rule: find_loop_result[where key = key and out = out])
      case (pair i)
      obtain ys zs where s: "pairs t = ys @ (the (p_key (ht_items t ! unat i)), p_value (ht_items t ! unat i)) # zs"
        "\<forall>x \<in> set ys \<union> set zs. \<exists>j. live t j \<and> j \<noteq> unat i \<and> fst x = the (p_key (ht_items t ! j))"
        "\<And>pair. pairs (with_item t (unat i) pair) = ys @ (case p_key pair of None \<Rightarrow> [] | Some key \<Rightarrow> [(key, p_value pair)]) @ zs"
        using pairs_split[OF C(1) pair(2)] by blast
      have n: "\<not> equals key (the (p_key (ht_items t ! j)))" if "live t j" "j \<noteq> unat i" for j
        using that pair(2,3) C(2) t(3) equals_sym equals_trans unfolding ht_keys_def by metis
      then have "\<forall>x \<in> set ys \<union> set zs. \<not> equals key (fst x)" using s(2) by metis
      note A = assoc_one_key[where eq = equals and key = key, OF s(1) pair(3) this]
      show thesis using F pair n A s t(2) by (intro that(1)[of i]) (auto simp: find_key_def Let_def)
    next
      case (free row m)
      show thesis using F free t(2) pairs_set[OF C(1)] by (intro that(2)[of row _ m]) (auto simp: find_key_def Let_def)
    qed
  qed
qed

lemma pair_changed_ok:
  assumes "table_for hash equals t" "live t (unat i)" "p_hash pair = p_hash (ht_items t ! unat i)" "unat c = length (pairs (with_item t (unat i) pair))"
    and "\<And>key. p_key pair = Some key \<Longrightarrow> equals key (the (p_key (ht_items t ! unat i)))"
  shows "table_for hash equals (with_item t (unat i) pair\<lparr>ht_count := c\<rparr>)"
proof -
  have t: "ht_core t" "ht_hash t = hash" "ht_equals t = equals" using assms(1) by (auto simp: table_for_def ht_ok_def)
  then have K: "ht_keys t" by (simp add: ht_core_def)
  have "ht_core (with_item t (unat i) pair)"
  proof (rule with_item_core[OF t(1) assms(2,3)])
    fix key assume key: "p_key pair = Some key"
    let ?k = "the (p_key (ht_items t ! unat i))"
    have eq: "equals key ?k" using assms(5)[OF key] .
    then have "hash key = p_hash pair" using K assms(2,3) hash_equals[OF eq] t(2) by (simp add: ht_keys_def)
    moreover have "\<not> equals key (the (p_key (ht_items t ! j))) \<and> \<not> equals (the (p_key (ht_items t ! j))) key" if "live t j" "j \<noteq> unat i" for j
      using that assms(2) K t(3) eq equals_sym equals_trans unfolding ht_keys_def by metis
    ultimately show "ht_hash t key = p_hash pair \<and> (\<forall>j. live t j \<and> j \<noteq> unat i \<longrightarrow>
        \<not> ht_equals t key (the (p_key (ht_items t ! j))) \<and> \<not> ht_equals t (the (p_key (ht_items t ! j))) key)"
      using t(2,3) by blast
  qed
  then show ?thesis using t assms(4) by (simp add: table_for_def ht_ok_def)
qed

lemma set_item_with_item: "item_at t i = Some p \<Longrightarrow> set_item t i pair = Some (with_item t (unat i) pair)"
  by (simp add: item_at_def set_item_def with_item_def split: if_splits)

lemma ht_get_ok: "table_for hash equals t \<Longrightarrow> ht_get t key = Some (assoc_get equals (pairs t) key)"
  by (cases rule: find_key_result[of t key False]) (auto simp: ht_get_def assoc_no_key)

lemma ht_remove_ok:
  assumes "table_for hash equals t"
  shows "\<exists>t'. ht_remove t key = Some (assoc_get equals (pairs t) key, t') \<and> table_for hash equals t' \<and>
    pairs t' = assoc_remove equals (pairs t) key \<and> unat (ht_items_count t') \<le> unat (ht_items_count t)"
  using assms
proof (cases rule: find_key_result[of t key False])
  case (pair i)
  let ?t = "with_item t (unat i) ((ht_items t ! unat i)\<lparr>p_key := None\<rparr>)"
  have "unat (ht_count t) = Suc (length (assoc_remove equals (pairs t) key))"
    using assms pair(10) by (simp add: table_for_def ht_ok_def)
  moreover from this have "ht_count t \<noteq> 0" by auto
  ultimately have "table_for hash equals (?t\<lparr>ht_count := ht_count t - 1\<rparr>)"
    using pair(7) by (intro pair_changed_ok[OF assms pair(2)]) (auto simp: unat_dec_u32)
  then show ?thesis using pair set_item_with_item[OF pair(3)] by (simp add: ht_remove_def remove_internal_def)
next
  case (free row h m)
  then show ?thesis using assms by (simp add: ht_remove_def remove_internal_def assoc_no_key)
qed

text \<open>Inserting when there is room, and making room.\<close>

lemma put_new:
  assumes "table_for hash equals t" "\<not> ht_capacity t \<le> ht_items_count t"
    and free: "find_key t key True = Some (Free_Row row, h)" "\<forall>x\<in>set (pairs t). \<not> equals key (fst x)"
      "h = hash key \<and> unat row = row_of t (hash key) m \<and> (\<forall>m' < m. cell t (hash key) m' \<noteq> 0) \<and>
        (cell t (hash key) m = 0 \<or> \<not> live t (unat (cell t (hash key) m - 1)))"
  shows "\<exists>t'. ht_put t key v = Some (assoc_get equals (pairs t) key, t') \<and> table_for hash equals t' \<and>
    pairs t' = assoc_put equals (pairs t) key v \<and> unat (ht_items_count t') \<le> Suc (unat (ht_items_count t))"
proof -
  have f: "h = hash key" "unat row = row_of t (hash key) m" "\<And>m'. m' < m \<Longrightarrow> cell t (hash key) m' \<noteq> 0"
    "cell t (hash key) m = 0 \<or> \<not> live t (unat (cell t (hash key) m - 1))" using free(3) by auto
  have t: "ht_core t" "ht_hash t = hash" "ht_equals t = equals" "unat (ht_count t) = length (pairs t)"
    using assms(1) by (auto simp: table_for_def ht_ok_def)
  obtain k where C: "ht_dims t k" "ht_rows t" "ht_reach t" "ht_keys t" using t(1) by (rule ht_coreE)
  let ?p = "\<lparr>p_key = Some key, p_value = v, p_hash = h\<rparr>"
  note A = assoc_no_key[where eq = equals and key = key, OF free(2)]
  have room: "unat (ht_items_count t) < unat (ht_capacity t)" using assms(2) by (simp add: word_less_nat_alt not_le)
  have rl: "unat row < length (ht_table t)" using f(2) ht_dimsD(2)[OF C(1)] by simp
  have "\<not> equals key (the (p_key (ht_items t ! i)))" if "live t i" for i
    using that free(2) pairs_set[OF C(1)] by force
  then have core: "ht_core (with_pair t row ?p)"
    using equals_sym t(2,3) f(1) by (intro with_pair_ok[OF C room f(2-4)]) auto
  have pp: "pairs (with_pair t row ?p) = assoc_put equals (pairs t) key v"
    using with_pair_nth(6)[OF C(1) room rl, of ?p] A(2) by simp
  have "length (pairs t) < 2 ^ 31" using length_pairs[of t] ht_dimsD(5,7)[OF C(1)] power_increasing[of k 31 "2::nat"] C(1) by (simp add: ht_dims_def)
  then have "unat (ht_count t + 1) = Suc (length (pairs t))" using t(4) unat_inc_u32[of "ht_count t"] by simp
  then have "table_for hash equals (with_pair t row ?p\<lparr>ht_count := ht_count t + 1\<rparr>)"
    using core t pp A(2)[of v] by (simp add: table_for_def ht_ok_def)
  moreover have "ht_put t key v = Some (None, with_pair t row ?p\<lparr>ht_count := ht_count t + 1\<rparr>)"
    using assms(2) free(1) f(1) insert_with_pair(1)[OF C(1) room rl, of ?p "\<lambda>this. Some (None, this\<lparr>ht_count := ht_count this + 1\<rparr>)"]
    by (simp add: ht_put_def)
  ultimately show ?thesis using pp A(1) insert_with_pair(2)[OF C(1) room rl]
    by (intro exI[of _ "with_pair t row ?p\<lparr>ht_count := ht_count t + 1\<rparr>"]) simp
qed

lemma put_with_room:
  assumes "table_for hash equals t" "\<not> ht_capacity t \<le> ht_items_count t"
  shows "\<exists>t'. ht_put t key v = Some (assoc_get equals (pairs t) key, t') \<and> table_for hash equals t' \<and>
    pairs t' = assoc_put equals (pairs t) key v \<and> unat (ht_items_count t') \<le> Suc (unat (ht_items_count t))"
  using assms(1)
proof (cases rule: find_key_result[of t key True])
  case (pair i)
  let ?t = "with_item t (unat i) ((ht_items t ! unat i)\<lparr>p_value := v, p_key := Some key\<rparr>)"
  have "unat (ht_count t) = length (assoc_put equals (pairs t) key v)"
    using assms(1) pair(9) by (simp add: table_for_def ht_ok_def)
  then have "table_for hash equals (?t\<lparr>ht_count := ht_count t\<rparr>)"
    using pair(4,6) by (intro pair_changed_ok[OF assms(1) pair(2)]) auto
  moreover have "?t\<lparr>ht_count := ht_count t\<rparr> = ?t" by (simp add: with_item_def)
  ultimately show ?thesis using assms(2) pair set_item_with_item[OF pair(3)] by (simp add: ht_put_def)
next
  case (free row h m)
  then show ?thesis using put_new[OF assms] by blast
qed

lemma ht_put_ok:
  assumes "table_for hash equals t" "unat (ht_items_count t) < unat (CAPACITY MAX_SIZE)"
  shows "\<exists>t'. ht_put t key v = Some (assoc_get equals (pairs t) key, t') \<and> table_for hash equals t' \<and>
    pairs t' = assoc_put equals (pairs t) key v \<and> unat (ht_items_count t') \<le> Suc (unat (ht_items_count t))"
proof (cases "ht_capacity t \<le> ht_items_count t")
  case True
  have t: "ht_ok t" "ht_core t" "unat (ht_count t) = length (pairs t)" using assms(1) by (auto simp: table_for_def ht_ok_def)
  obtain k where C: "ht_dims t k" using t(2) by (rule ht_coreE)
  have full: "unat (ht_items_count t) = unat (ht_capacity t)"
    using True ht_dimsD(5)[OF C] by (simp add: word_le_nat_alt)
  have "(2::nat) ^ k div 3 * 2 < 2 ^ 30 div 3 * 2" using full assms(2) C by (simp add: ht_dims_def unat_CAPACITY)
  then have "k \<noteq> 30" by auto
  then have "k \<le> 29" using C by (simp add: ht_dims_def)
  then have "(2::nat) ^ k \<le> 2 ^ 29" by (intro power_increasing) auto
  then have "unat (ht_capacity t) \<le> 357913940" using C div_le_mono[of "2 ^ k" "2 ^ 29" 3] by (simp add: ht_dims_def)
  moreover have cnt: "unat (ht_count t) \<le> unat (ht_items_count t)"
    unfolding t(3) by (rule length_pairs)
  ultimately have c: "unat (ht_count t) * 3 \<le> 1073741820" using full by simp
  then have n: "unat (ht_count t * RESIZE_FACTOR) = unat (ht_count t) * 3" by (simp add: unat_word_ariths)
  then have "ht_count t * RESIZE_FACTOR \<le> MAX_SIZE" using c by (simp add: word_le_nat_alt)
  then obtain t' where r: "rehash t (ht_count t * RESIZE_FACTOR) = Some (True, t')" "ht_ok t'" "pairs t' = pairs t"
    "ht_hash t' = ht_hash t" "ht_equals t' = ht_equals t" "unat (ht_items_count t') = unat (ht_count t)" "ht_items_count t' < ht_capacity t'"
    using rehash_ok[OF t(1) n] by blast
  have "table_for hash equals t'" using r assms(1) by (simp add: table_for_def)
  moreover have "ht_put t key v = ht_put t' key v"
  proof -
    have "\<not> ht_capacity t' \<le> ht_items_count t'" using r(7) by simp
    then show ?thesis using True r(1) by (simp add: ht_put_def)
  qed
  ultimately show ?thesis using put_with_room[of t' key v] r(3,6,7) cnt by (auto simp: not_le)
qed (rule put_with_room[OF assms(1)])

end

sublocale hash_keys \<subseteq> table: ordered_map equals "table_for hash equals" pairs "\<lambda>t. unat (ht_items_count t)" "unat (CAPACITY MAX_SIZE)"
    ht_put ht_get ht_remove
  by unfold_locales (use ht_put_ok ht_get_ok ht_remove_ok in auto)

lemma hashtable_create_ok:
  "table_for hash equals (hashtable_create hash equals n)" "pairs (hashtable_create hash equals n) = []"
  "ht_items_count (hashtable_create hash equals n) = 0"
  using init_hashtable_ok(1) by (auto simp: table_for_def ht_ok_def hashtable_create_def)

interpretation str_keys: hash_keys "hashtable_hash_str chunk_hash" hashtable_equals_str for chunk_hash
  by unfold_locales (auto simp: hashtable_hash_str_def hashtable_equals_str_def)

interpretation ptr_keys: hash_keys "hashtable_hash_ptr chunk_hash" hashtable_equals_ptr for chunk_hash
  by unfold_locales (auto simp: hashtable_hash_ptr_def hashtable_equals_ptr_def)

section \<open>Enumeration\<close>

text \<open>What an enumerator at an index has still to return.\<close>

definition pairs_from :: "('k, 'v) hashtable_t \<Rightarrow> nat \<Rightarrow> ('k \<times> 'v option) list" where
  "pairs_from t i = live_pairs (drop i (take (unat (ht_items_count t)) (ht_items t)))"

lemma pairs_from_0: "pairs_from t 0 = pairs t"
  by (simp add: pairs_from_def pairs_def)

lemma pairs_from_step:
  assumes "ht_dims t k" "i < unat (ht_items_count t)"
  shows "pairs_from t i = (case p_key (ht_items t ! i) of Some key \<Rightarrow> [(key, p_value (ht_items t ! i))] | None \<Rightarrow> []) @ pairs_from t (Suc i)"
proof -
  let ?l = "take (unat (ht_items_count t)) (ht_items t)"
  have "i < length ?l" using assms ht_dimsD(5,6)[OF assms(1)] by simp
  then have "drop i ?l = ht_items t ! i # drop (Suc i) ?l" using assms(2) by (metis Cons_nth_drop_Suc nth_take)
  then show ?thesis unfolding pairs_from_def by (simp split: option.split)
qed

lemma ht_enumerate_ok:
  assumes "ht_core t"
  shows "\<exists>j. (case pairs_from t (unat i) of
       [] \<Rightarrow> ht_enumerate t i = Some (None, j)
     | x # xs \<Rightarrow> ht_enumerate t i = Some (Some x, j) \<and> pairs_from t (unat j) = xs \<and>
         j \<noteq> 0 \<and> live t (unat (j - 1)) \<and> fst x = the (p_key (ht_items t ! unat (j - 1))))"
  using assms
proof (induction t i rule: ht_enumerate.induct)
  case (1 t i)
  obtain k where C: "ht_dims t k" using 1(2) by (rule ht_coreE)
  show ?case
  proof (cases "i < ht_items_count t")
    case False
    then have "pairs_from t (unat i) = []" using ht_dimsD(5,6)[OF C] by (simp add: pairs_from_def word_less_nat_alt)
    then show ?thesis using False by (subst ht_enumerate.simps) simp
  next
    case True
    then have i: "unat i < unat (ht_items_count t)" by (simp add: word_less_nat_alt)
    have it: "item_at t i = Some (ht_items t ! unat i)" using i ht_dimsD(5,6)[OF C] by (simp add: item_at_def)
    have s: "unat (i + 1) = Suc (unat i)" using unat_increment[OF True] .
    show ?thesis
    proof (cases "p_key (ht_items t ! unat i)")
      case None
      then have e: "ht_enumerate t i = ht_enumerate t (i + 1)" using True it by (subst ht_enumerate.simps) simp
      have p: "pairs_from t (unat i) = pairs_from t (unat (i + 1))" using pairs_from_step[OF C i] None s by simp
      show ?thesis unfolding e p by (rule 1(1)[OF True it None 1(2)])
    next
      case (Some key)
      then have "ht_enumerate t i = Some (Some (key, p_value (ht_items t ! unat i)), i + 1)" using True it by (subst ht_enumerate.simps) simp
      moreover have "i + 1 \<noteq> 0" using s by (metis nat.simps(3) unsigned_0)
      ultimately show ?thesis using pairs_from_step[OF C i] Some s i by (auto simp: live_def)
    qed
  qed
qed

context hash_keys
begin

lemma ht_remove_at_ok:
  assumes "table_for hash equals t" "j \<noteq> 0" "live t (unat (j - 1))"
  shows "\<exists>t'. ht_remove_at t j = Some t' \<and> table_for hash equals t' \<and>
    pairs t' = assoc_remove equals (pairs t) (the (p_key (ht_items t ! unat (j - 1))))"
proof -
  let ?i = "j - 1"
  let ?p = "(ht_items t ! unat ?i)\<lparr>p_key := None\<rparr>" and ?key = "the (p_key (ht_items t ! unat ?i))"
  have t: "ht_core t" "ht_equals t = equals" "unat (ht_count t) = length (pairs t)" using assms(1) by (auto simp: table_for_def ht_ok_def)
  obtain k where C: "ht_dims t k" "ht_keys t" using t(1) by (rule ht_coreE)
  obtain ys zs where s: "pairs t = ys @ (?key, p_value (ht_items t ! unat ?i)) # zs"
    "\<forall>x \<in> set ys \<union> set zs. \<exists>j. live t j \<and> j \<noteq> unat ?i \<and> fst x = the (p_key (ht_items t ! j))"
    "\<And>pair. pairs (with_item t (unat ?i) pair) = ys @ (case p_key pair of None \<Rightarrow> [] | Some key \<Rightarrow> [(key, p_value pair)]) @ zs"
    using pairs_split[OF C(1) assms(3)] by blast
  have "\<forall>x \<in> set ys \<union> set zs. \<not> equals ?key (fst x)"
    using s(2) C(2) assms(3) t(2) unfolding ht_keys_def by metis
  note A = assoc_one_key[where eq = equals and key = ?key, OF s(1) equals_refl this]
  have "ht_count t \<noteq> 0" using t(3) s(1) by auto
  then have "unat (ht_count t - 1) = length (pairs (with_item t (unat ?i) ?p))" using t(3) s by (simp add: unat_dec_u32)
  then have "table_for hash equals (with_item t (unat ?i) ?p\<lparr>ht_count := ht_count t - 1\<rparr>)"
    by (intro pair_changed_ok[OF assms(1,3)]) auto
  moreover have it: "item_at t ?i = Some (ht_items t ! unat ?i)"
    using assms(3) ht_dimsD(5,6)[OF C(1)] by (simp add: item_at_def live_def)
  then have "ht_remove_at t j = Some (with_item t (unat ?i) ?p\<lparr>ht_count := ht_count t - 1\<rparr>)"
    using assms(2) set_item_with_item[OF it] by (simp add: ht_remove_at_def remove_internal_def)
  ultimately show ?thesis using A(3) s(3) by simp
qed

lemma run_created:
  assumes "length (filter is_put ops) \<le> unat (CAPACITY MAX_SIZE)"
  shows "\<exists>rs t. run_map ht_put ht_get ht_remove ops (hashtable_create hash equals n) = Some (rs, t) \<and>
    table_for hash equals t \<and> run_assoc equals ops [] = (rs, pairs t)"
  using table.run_refines[OF hashtable_create_ok(1), of n ops] assms by (simp add: hashtable_create_ok(2,3))

end

text \<open>
  C7. A hash table behaves like the list of its pairs in the order of their insertion: every sequence of operations on a
  new table, with any number of rehashes, returns what the list returns. No operation loops forever or
  accesses cells outside of its arrays. At most \<^verbatim>\<open>CAPACITY(MAX_SIZE)\<close> insertions are made; the
  equality of keys is an equivalence that the hash function respects.
\<close>

theorem hashtable_refines_list:
  fixes ops :: "('k, 'v) map_op list"
  assumes "\<And>a. equals a a" "\<And>a b. equals a b \<Longrightarrow> equals b a" "\<And>a b c. equals a b \<Longrightarrow> equals b c \<Longrightarrow> equals a c"
    and "\<And>a b. equals a b \<Longrightarrow> hash a = hash b"
    and "length (filter is_put ops) \<le> 715827882"
  shows "\<exists>rs t. run_map ht_put ht_get ht_remove ops (hashtable_create hash equals n) = Some (rs, t) \<and>
    run_assoc equals ops [] = (rs, pairs t) \<and> unat (get_count t) = length (pairs t)"
proof -
  have H: "hash_keys hash equals" using assms(1-4) by (unfold_locales; blast)
  have "unat (CAPACITY MAX_SIZE) = 715827882" by (simp add: unat_CAPACITY)
  then show ?thesis using hash_keys.run_created[OF H, of ops n] assms(5) by (auto simp: table_for_def ht_ok_def get_count_def)
qed

theorem hashtable_refines_list_witness:
  "\<exists>t. run_map ht_put ht_get ht_remove [Op_Put [1] (Some (10::nat)), Op_Put [2] (Some 20), Op_Remove [1], Op_Get [2], Op_Get [1], Op_Put [2] (Some 21)]
      (hashtable_create (hashtable_hash_str (\<lambda>_. 7)) hashtable_equals_str 0) = Some ([None, None, Some 10, Some 20, None, Some 20], t) \<and>
    pairs t = [([2], Some 21)] \<and> get_count t = 1"
proof -
  let ?ops = "[Op_Put [1] (Some (10::nat)), Op_Put [2] (Some 20), Op_Remove [1], Op_Get [2], Op_Get [1], Op_Put [2] (Some 21)]"
  have r: "run_assoc hashtable_equals_str ?ops [] = ([None, None, Some 10, Some 20, None, Some 20], [([2], Some 21)])"
    by (simp add: assoc_get_def assoc_put_def assoc_remove_def hashtable_equals_str_def)
  obtain rs t where "run_map ht_put ht_get ht_remove ?ops (hashtable_create (hashtable_hash_str (\<lambda>_. 7)) hashtable_equals_str 0) = Some (rs, t)"
    "run_assoc hashtable_equals_str ?ops [] = (rs, pairs t)" "unat (get_count t) = length (pairs t)"
    using hashtable_refines_list[of hashtable_equals_str "hashtable_hash_str (\<lambda>_. 7)" ?ops 0]
    by (auto simp: hashtable_equals_str_def)
  then show ?thesis using r by (auto simp: word_unat_eq_iff)
qed

end
