(* ===== verification/Mem_Pool.thy ===== *)
theory Mem_Pool
  imports Host Hashtable "HOL-Library.AList"
begin

text \<open>
  In-memory pools of virtual IP addresses (\<^verbatim>\<open>src/src/libcharon/attributes/mem_pool.c\<close>) and their use by
  \<^verbatim>\<open>src/src/libcharon/plugins/vici/vici_attribute.c\<close>. Leases are offsets into the pool, kept per identity in
  a hash table. The table is the list of its pairs in insertion order, which is what \<open>Hashtable\<close> shows of
  \<^verbatim>\<open>hashtable.c\<close>; identities are values of a type variable, compared by equality. A result \<open>None\<close> of an
  operation on a pool is the use of a base address that is not there.
\<close>

section \<open>Model\<close>

record unique_lease_t =
  ul_offset :: u32
  ul_hash :: u32

record entry_t =
  online :: "unique_lease_t list"
  offline :: "u32 list"

record 'id mem_pool_t =
  mp_base :: "host_t option"
  mp_size :: u32
  mp_unused :: u32
  leases :: "('id \<times> entry_t) list"

datatype mem_pool_op_t = MEM_POOL_EXISTING | MEM_POOL_NEW | MEM_POOL_REASSIGN

abbreviation (input) POOL_LIMIT :: int where "POOL_LIMIT \<equiv> 31"

definition entry_create :: entry_t where
  "entry_create = \<lparr>online = [], offline = []\<rparr>"

definition last32_pos :: "host_t \<Rightarrow> nat" where
  "last32_pos base = (if h_family base = AF_INET6 then 12 else 0)"

definition apply_offset :: "host_t \<Rightarrow> u32 \<Rightarrow> host_t option" where
  "apply_offset base offset =
     (let addr = get_address base; pos = last32_pos base
      in if length addr < pos + 4 then None
         else host_create_from_chunk (h_family base)
                (take pos addr @ be_encode 4 (unat (offset + of_nat (be_decode (take 4 (drop pos addr))))) @ drop (pos + 4) addr) 0)"

definition offset2host :: "'id mem_pool_t \<Rightarrow> u32 \<Rightarrow> host_t option option" where
  "offset2host pool offset =
     (let offset = offset - 1
      in if offset > mp_size pool then Some None
         else case mp_base pool of None \<Rightarrow> None | Some base \<Rightarrow> Some (apply_offset base offset))"

definition host2offset :: "'id mem_pool_t \<Rightarrow> host_t \<Rightarrow> u32 option" where
  "host2offset pool addr =
     (case mp_base pool of
        None \<Rightarrow> None
      | Some b \<Rightarrow>
          if h_family addr \<noteq> h_family b then Some (- 1)
          else let host = get_address addr; base = get_address b
               in if h_family addr = AF_INET6 \<and> take 12 host \<noteq> take 12 base then Some (- 1)
                  else let hosti = of_nat (be_decode (take 4 (drop (last32_pos addr) host))) :: u32;
                           basei = of_nat (be_decode (take 4 (drop (last32_pos addr) base)))
                       in Some (if hosti > basei + mp_size pool then - 1 else hosti - basei + 1))"

definition get_online :: "'id mem_pool_t \<Rightarrow> u32" where
  "get_online this = of_nat (\<Sum>(idn, entry)\<leftarrow>leases this. length (online entry))"

definition get_offline :: "'id mem_pool_t \<Rightarrow> u32" where
  "get_offline this = of_nat (\<Sum>(idn, entry)\<leftarrow>leases this. length (offline entry))"

text \<open>The keyed hash of chunks is a parameter.\<close>

definition hash_addr :: "(bytes \<Rightarrow> u32 \<Rightarrow> u32) \<Rightarrow> host_t option \<Rightarrow> u32" where
  "hash_addr chunk_hash_inc addr =
     (case addr of None \<Rightarrow> 0 | Some a \<Rightarrow> chunk_hash_inc (get_address a) (ucast (get_port a)))"

text \<open>The first online lease of the entry that fits the peer, and the request if it names an address.\<close>

fun find_online :: "'id mem_pool_t \<Rightarrow> u32 \<Rightarrow> host_t \<Rightarrow> unique_lease_t list \<Rightarrow> unique_lease_t option option" where
  "find_online this h requested [] = Some None"
| "find_online this h requested (lease # ls) =
     (if ul_hash lease = h
      then if is_anyaddr requested then Some (Some lease)
           else do { offset \<leftarrow> host2offset this requested;
                     if ul_offset lease = offset then Some (Some lease) else find_online this h requested ls }
      else find_online this h requested ls)"

definition get_existing ::
  "(bytes \<Rightarrow> u32 \<Rightarrow> u32) \<Rightarrow> 'id mem_pool_t \<Rightarrow> 'id \<Rightarrow> host_t \<Rightarrow> host_t option \<Rightarrow> (u32 \<times> 'id mem_pool_t) option" where
  "get_existing H this idn requested peer =
     (case map_of (leases this) idn of
        None \<Rightarrow> Some (0, this)
      | Some entry \<Rightarrow>
          do { found \<leftarrow> (if peer \<noteq> None then find_online this (hash_addr H peer) requested (online entry) else Some None);
               let entry = (case found of None \<Rightarrow> entry | Some lease \<Rightarrow> entry\<lparr>online := online entry @ [lease]\<rparr>);
               let offset = (case found of None \<Rightarrow> 0 | Some lease \<Rightarrow> ul_offset lease);
               if offset \<noteq> 0 then Some (offset, this\<lparr>leases := AList.update idn entry (leases this)\<rparr>)
               else case offline entry of
                      [] \<Rightarrow> Some (0, this\<lparr>leases := AList.update idn entry (leases this)\<rparr>)
                    | current # rest \<Rightarrow>
                        Some (current, this\<lparr>leases := AList.update idn
                          (entry\<lparr>online := online entry @ [\<lparr>ul_offset = current, ul_hash = hash_addr H peer\<rparr>],
                                 offline := rest\<rparr>) (leases this)\<rparr>) })"

definition add_online :: "(bytes \<Rightarrow> u32 \<Rightarrow> u32) \<Rightarrow> 'id \<Rightarrow> u32 \<Rightarrow> host_t option \<Rightarrow> ('id \<times> entry_t) list \<Rightarrow> ('id \<times> entry_t) list" where
  "add_online H idn offset peer ls =
     (let entry = (case map_of ls idn of Some entry \<Rightarrow> entry | None \<Rightarrow> entry_create)
      in AList.update idn (entry\<lparr>online := online entry @ [\<lparr>ul_offset = offset, ul_hash = hash_addr H peer\<rparr>]\<rparr>) ls)"

definition get_new :: "(bytes \<Rightarrow> u32 \<Rightarrow> u32) \<Rightarrow> 'id mem_pool_t \<Rightarrow> 'id \<Rightarrow> host_t option \<Rightarrow> u32 \<times> 'id mem_pool_t" where
  "get_new H this idn peer =
     (if mp_unused this < mp_size this
      then let offset = mp_unused this + 1
           in (offset, this\<lparr>mp_unused := offset, leases := add_online H idn offset peer (leases this)\<rparr>)
      else (0, this))"

text \<open>The first offline lease of any entry; entries without leases are removed on the way.\<close>

fun take_offline :: "('id \<times> entry_t) list \<Rightarrow> u32 \<times> ('id \<times> entry_t) list" where
  "take_offline [] = (0, [])"
| "take_offline ((idn, entry) # rest) =
     (let offset = (case offline entry of [] \<Rightarrow> 0 | current # _ \<Rightarrow> current);
          entry = entry\<lparr>offline := tl (offline entry)\<rparr>;
          kept = (if online entry = [] \<and> offline entry = [] then [] else [(idn, entry)])
      in if offset \<noteq> 0 then (offset, kept @ rest)
         else let (offset, rest) = take_offline rest in (offset, kept @ rest))"

definition get_reassigned :: "(bytes \<Rightarrow> u32 \<Rightarrow> u32) \<Rightarrow> 'id mem_pool_t \<Rightarrow> 'id \<Rightarrow> host_t option \<Rightarrow> u32 \<times> 'id mem_pool_t" where
  "get_reassigned H this idn peer =
     (let (offset, ls) = take_offline (leases this)
      in (offset, this\<lparr>leases := (if offset \<noteq> 0 then add_online H idn offset peer ls else ls)\<rparr>))"

definition acquire_address ::
  "(bytes \<Rightarrow> u32 \<Rightarrow> u32) \<Rightarrow> 'id mem_pool_t \<Rightarrow> 'id \<Rightarrow> host_t \<Rightarrow> mem_pool_op_t \<Rightarrow> host_t option \<Rightarrow>
   (host_t option \<times> 'id mem_pool_t) option" where
  "acquire_address H this idn requested operation peer =
     (if mp_size this = 0 then Some (Some requested, this)
      else do { base \<leftarrow> mp_base this;
                if h_family requested \<noteq> h_family base then Some (None, this)
                else do { (offset, this) \<leftarrow> (case operation of
                                 MEM_POOL_EXISTING \<Rightarrow> get_existing H this idn requested peer
                               | MEM_POOL_NEW \<Rightarrow> Some (get_new H this idn peer)
                               | MEM_POOL_REASSIGN \<Rightarrow> Some (get_reassigned H this idn peer));
                          if offset \<noteq> 0 then do { host \<leftarrow> offset2host this offset; Some (host, this) }
                          else Some (None, this) } })"

text \<open>Removing the first online lease of an offset; the second flag tells that there is another one.\<close>

fun release_online :: "u32 \<Rightarrow> unique_lease_t list \<Rightarrow> bool \<Rightarrow> unique_lease_t list \<times> bool \<times> bool" where
  "release_online offset [] found = ([], found, False)"
| "release_online offset (current # ls) found =
     (if ul_offset current = offset
      then if found then (current # ls, True, True) else release_online offset ls True
      else let (ls, found, again) = release_online offset ls found in (current # ls, found, again))"

definition release_address :: "'id mem_pool_t \<Rightarrow> host_t \<Rightarrow> 'id \<Rightarrow> (bool \<times> 'id mem_pool_t) option" where
  "release_address this address idn =
     (if mp_size this = 0 then Some (False, this)
      else case map_of (leases this) idn of
             None \<Rightarrow> Some (False, this)
           | Some entry \<Rightarrow>
               do { offset \<leftarrow> host2offset this address;
                    let (ls, found, again) = release_online offset (online entry) False;
                    let entry = entry\<lparr>online := ls, offline := offline entry @ (if found \<and> \<not> again then [offset] else [])\<rparr>;
                    Some (found, this\<lparr>leases := AList.update idn entry (leases this)\<rparr>) })"

text \<open>What the enumerator of leases returns: identity, address and whether it is online.\<close>

definition lease_enumerate :: "'id mem_pool_t \<Rightarrow> ('id \<times> host_t option option \<times> bool) list" where
  "lease_enumerate pool =
     concat (map (\<lambda>(idn, entry). map (\<lambda>lease. (idn, offset2host pool (ul_offset lease), True)) (online entry) @
                               map (\<lambda>offset. (idn, offset2host pool offset, False)) (offline entry)) (leases pool))"

definition network_id_diff :: "host_t \<Rightarrow> int \<Rightarrow> u32" where
  "network_id_diff host hostbits =
     (if hostbits = 0 then 0
      else let addr = get_address host;
               last = of_nat (be_decode (drop (length addr - 4) addr)) :: u32;
               hostbits = nat (32 - hostbits)
           in drop_bit hostbits (push_bit hostbits last))"

definition create_generic :: "'id mem_pool_t" where
  "create_generic = \<lparr>mp_base = None, mp_size = 0, mp_unused = 0, leases = []\<rparr>"

definition mem_pool_create :: "host_t option \<Rightarrow> int \<Rightarrow> 'id mem_pool_t option" where
  "mem_pool_create base bits =
     (case base of
        None \<Rightarrow> Some create_generic
      | Some base \<Rightarrow>
          let addr_bits = (if h_family base = AF_INET then 32 else 128);
              bits = max 0 (min bits addr_bits);
              bits = addr_bits - bits;
              bits = (if bits > POOL_LIMIT then POOL_LIMIT else bits);
              size = push_bit (nat bits) 1 :: u32;
              diff = network_id_diff base bits;
              (b, size) = (if size > 2
                           then if diff = 0 then (apply_offset base 1, size - 1 - 1) else (Some base, size - diff - 1)
                           else (Some base, if diff \<noteq> 0 then size - 1 else size))
          in if size = 0 then None else Some (create_generic\<lparr>mp_base := b, mp_size := size\<rparr>))"

definition mem_pool_create_range :: "host_t \<Rightarrow> host_t \<Rightarrow> 'id mem_pool_t option" where
  "mem_pool_create_range from to =
     (let fromaddr = get_address from; toaddr = get_address to
      in if h_family from \<noteq> h_family to \<or> length fromaddr \<noteq> length toaddr \<or> length fromaddr < 4 \<or>
            memcmp fromaddr toaddr (length toaddr) > 0 then None
         else if length fromaddr > 4 \<and> take (length fromaddr - 4) fromaddr \<noteq> take (length toaddr - 4) toaddr then None
         else let diff = of_nat (be_decode (drop (length toaddr - 4) toaddr)) - of_nat (be_decode (drop (length fromaddr - 4) fromaddr))
              in Some (create_generic\<lparr>mp_base := Some from, mp_size := diff + 1\<rparr>))"

text \<open>The pools of a connection are tried in order (\<^verbatim>\<open>vici_attribute.c\<close>).\<close>

type_synonym 'id pools = "(string \<times> 'id mem_pool_t) list"

fun find_addr ::
  "(bytes \<Rightarrow> u32 \<Rightarrow> u32) \<Rightarrow> 'id pools \<Rightarrow> string list \<Rightarrow> 'id \<Rightarrow> host_t \<Rightarrow> mem_pool_op_t \<Rightarrow> host_t option \<Rightarrow>
   (host_t option \<times> 'id pools) option" where
  "find_addr H this [] idn requested op peer = Some (None, this)"
| "find_addr H this (name # names) idn requested op peer =
     (case map_of this name of
        None \<Rightarrow> find_addr H this names idn requested op peer
      | Some pool \<Rightarrow>
          do { (addr, pool) \<leftarrow> acquire_address H pool idn requested op peer;
               let this = AList.update name pool this;
               if addr \<noteq> None then Some (addr, this) else find_addr H this names idn requested op peer })"

definition vici_acquire_address ::
  "(bytes \<Rightarrow> u32 \<Rightarrow> u32) \<Rightarrow> 'id pools \<Rightarrow> string list \<Rightarrow> 'id \<Rightarrow> host_t \<Rightarrow> host_t option \<Rightarrow> (host_t option \<times> 'id pools) option" where
  "vici_acquire_address H this pools idn requested peer =
     do { (addr, this) \<leftarrow> find_addr H this pools idn requested MEM_POOL_EXISTING peer;
          if addr \<noteq> None then Some (addr, this)
          else do { (addr, this) \<leftarrow> find_addr H this pools idn requested MEM_POOL_NEW peer;
                    if addr \<noteq> None then Some (addr, this)
                    else find_addr H this pools idn requested MEM_POOL_REASSIGN peer } }"

fun vici_release_address :: "'id pools \<Rightarrow> string list \<Rightarrow> host_t \<Rightarrow> 'id \<Rightarrow> (bool \<times> 'id pools) option" where
  "vici_release_address this [] address idn = Some (False, this)"
| "vici_release_address this (name # names) address idn =
     (case map_of this name of
        None \<Rightarrow> vici_release_address this names address idn
      | Some pool \<Rightarrow>
          do { (found, pool) \<leftarrow> release_address pool address idn;
               let this = AList.update name pool this;
               if found then Some (True, this) else vici_release_address this names address idn })"

text \<open>The lookups and updates of leases are those of the hash table.\<close>

definition as_pairs :: "('k \<times> 'v) list \<Rightarrow> ('k \<times> 'v option) list" where
  "as_pairs = map (\<lambda>(k, v). (k, Some v))"

lemma leases_get: "assoc_get (=) (as_pairs ls) k = map_of ls k"
  by (induction ls) (auto simp: assoc_get_def as_pairs_def)

lemma leases_put: "distinct (map fst ls) \<Longrightarrow> assoc_put (=) (as_pairs ls) k (Some v) = as_pairs (AList.update k v ls)"
proof (induction ls)
  case (Cons p ls)
  obtain j w where p: "p = (j, w)" by (cases p)
  have same: "map (\<lambda>(k', v'). if k = k' then (k, Some v) else (k', v')) (as_pairs ls) = as_pairs ls" if "k \<notin> fst ` set ls"
    using that by (intro map_idI) (force simp: as_pairs_def)
  show ?case
  proof (cases "k = j")
    case True
    then show ?thesis using same Cons.prems unfolding p True by (simp add: assoc_put_def as_pairs_def)
  next
    case False
    then show ?thesis using Cons unfolding p by (simp add: assoc_put_def as_pairs_def split: if_splits)
  qed
qed (simp add: assoc_put_def as_pairs_def)

section \<open>Addresses and offsets\<close>

definition last32 :: "host_t \<Rightarrow> nat" where
  "last32 h = be_decode (drop (last32_pos h) (h_bytes h))"

lemma host_okE:
  assumes "host_ok h"
  shows "length (h_bytes h) = last32_pos h + 4" "get_address h = h_bytes h" "take 4 (drop (last32_pos h) (h_bytes h)) = drop (last32_pos h) (h_bytes h)"
    "last32 h < 2 ^ 32"
proof -
  show l: "length (h_bytes h) = last32_pos h + 4" using assms by (auto simp: host_ok_def last32_pos_def family_len_def)
  then show "take 4 (drop (last32_pos h) (h_bytes h)) = drop (last32_pos h) (h_bytes h)" by simp
  show "get_address h = h_bytes h" by (rule get_address_ok[OF assms])
  show "last32 h < 2 ^ 32" using be_decode_less[of "drop (last32_pos h) (h_bytes h)"] l by (simp add: last32_def)
qed

lemma unat_of_nat_32: "n < 2 ^ 32 \<Longrightarrow> unat (of_nat n :: u32) = n"
  by (simp add: unsigned_of_nat take_bit_nat_eq_self_iff)

lemma apply_offset_ok:
  assumes "host_ok base"
  shows "\<exists>h. apply_offset base d = Some h \<and> host_ok h \<and> h_family h = h_family base \<and>
    take (last32_pos h) (h_bytes h) = take (last32_pos base) (h_bytes base) \<and> last32 h = (last32 base + unat d) mod 2 ^ 32"
proof -
  note B = host_okE[OF assms]
  define v where "v = unat (d + of_nat (last32 base))"
  let ?a = "take (last32_pos base) (h_bytes base) @ be_encode 4 v"
  have v: "v = (last32 base + unat d) mod 2 ^ 32"
    unfolding v_def unat_word_ariths(1) unat_of_nat_32[OF B(4)] by (simp add: add.commute[of "unat d"])
  have "be_decode (be_encode 4 v) = v" using v by (simp add: be_decode_encode)
  have "apply_offset base d = host_create_from_chunk (h_family base) ?a 0"
    using B by (simp add: apply_offset_def Let_def v_def last32_def)
  moreover have fam: "h_family base = AF_INET \<or> h_family base = AF_INET6" "length ?a = family_len (h_family base)"
    using assms B(1) by (auto simp: host_ok_def)
  ultimately have "apply_offset base d = Some \<lparr>h_family = h_family base, h_bytes = ?a, h_port = 0\<rparr>"
    by (auto simp: host_create_from_chunk_def family_len_def last32_pos_def)
  then show ?thesis using fam B(1) v \<open>be_decode (be_encode 4 v) = v\<close>
    by (auto simp: host_ok_def last32_def last32_pos_def)
qed

text \<open>A pool with addresses has a base address.\<close>

definition based :: "'id mem_pool_t \<Rightarrow> host_t \<Rightarrow> bool" where
  "based p b \<longleftrightarrow> mp_base p = Some b \<and> host_ok b"

lemma unat_dec_offset: "1 \<le> unat (d :: u32) \<Longrightarrow> unat (d - 1) = unat d - 1"
  by (rule unat_dec_u32) auto

lemma offset2host_ok:
  assumes "based p b" "1 \<le> unat d" "unat d \<le> unat (mp_size p)"
  shows "\<exists>h. offset2host p d = Some (Some h) \<and> host_ok h \<and> h_family h = h_family b \<and>
    take (last32_pos h) (h_bytes h) = take (last32_pos b) (h_bytes b) \<and> last32 h = (last32 b + (unat d - 1)) mod 2 ^ 32"
proof -
  have "\<not> d - 1 > mp_size p" using assms(2,3) by (simp add: word_less_nat_alt unat_dec_offset)
  then show ?thesis using assms(1) apply_offset_ok[of b "d - 1"] unat_dec_offset[OF assms(2)]
    by (auto simp: offset2host_def based_def)
qed

lemma offset2host_inj:
  assumes "based p b" "1 \<le> unat d" "unat d \<le> unat (mp_size p)" "1 \<le> unat d'" "unat d' \<le> unat (mp_size p)"
    and "offset2host p d = offset2host p d'"
  shows "d = d'"
proof -
  have "(last32 b + (unat d - 1)) mod 2 ^ 32 = (last32 b + (unat d' - 1)) mod 2 ^ 32"
    using offset2host_ok[OF assms(1-3)] offset2host_ok[OF assms(1,4,5)] assms(6) by auto
  then have "(of_nat (last32 b + (unat d - 1)) :: u32) = of_nat (last32 b + (unat d' - 1))"
    by (simp only: word_of_nat_eq_iff take_bit_eq_mod) simp
  then show ?thesis using assms(2,4) by (simp add: unat_dec_offset[symmetric])
qed

text \<open>Offsets are computed back unless the pool ends at the end of the 32-bit block.\<close>

lemma host2offset_offset2host:
  assumes "based p b" "1 \<le> unat d" "unat d \<le> unat (mp_size p)" "last32 b + unat (mp_size p) < 2 ^ 32"
    and "offset2host p d = Some (Some h)"
  shows "host2offset p h = Some d"
proof -
  have ok: "host_ok b" "mp_base p = Some b" using assms(1) by (auto simp: based_def)
  have h: "host_ok h" "h_family h = h_family b" "take (last32_pos h) (h_bytes h) = take (last32_pos b) (h_bytes b)"
    "last32 h = last32 b + (unat d - 1)"
    using offset2host_ok[OF assms(1-3)] assms(2-5) by auto
  note H = host_okE[OF h(1)] and B = host_okE[OF ok(1)]
  have pos: "last32_pos h = last32_pos b" using h(2) by (simp add: last32_pos_def)
  let ?h = "of_nat (last32 h) :: u32" and ?b = "of_nat (last32 b) :: u32"
  have u: "unat ?h = last32 h" "unat ?b = last32 b" using H(4) B(4) by (simp_all add: unat_of_nat_32)
  have s: "unat (?b + mp_size p) = last32 b + unat (mp_size p)" using assms(4) u(2) by (simp add: unat_word_ariths)
  have "\<not> ?h > ?b + mp_size p" using s u h(4) assms(3) by (simp add: word_less_nat_alt)
  moreover have "?h - ?b + 1 = d"
  proof -
    have "?h = ?b + of_nat (unat d - 1)" by (simp add: h(4))
    then show ?thesis using assms(2) by (simp add: unat_dec_offset[symmetric])
  qed
  ultimately show ?thesis
    using h(2,3) H(2,3) B(2,3) pos ok(2) by (auto simp: host2offset_def Let_def last32_def last32_pos_def)
qed

section \<open>Accounting of leases\<close>

text \<open>The offsets an entry holds, online ones once each; and all offsets handed out so far.\<close>

definition held :: "entry_t \<Rightarrow> u32 multiset" where
  "held e = mset_set (ul_offset ` set (online e)) + mset (offline e)"

definition all_held :: "('id \<times> entry_t) list \<Rightarrow> u32 multiset" where
  "all_held ls = (\<Sum>(idn, e)\<leftarrow>ls. held e)"

definition offsets :: "nat \<Rightarrow> u32 multiset" where
  "offsets n = mset (map of_nat [1..<Suc n])"

lemma offsets_Suc: "offsets (Suc n) = add_mset (of_nat (Suc n)) (offsets n)"
  by (simp add: offsets_def)

lemma in_offsets: "n < 2 ^ 32 \<Longrightarrow> d \<in># offsets n \<longleftrightarrow> 1 \<le> unat d \<and> unat d \<le> n"
proof -
  assume n: "n < 2 ^ 32"
  have "d \<in># offsets n \<longleftrightarrow> (\<exists>i. 1 \<le> i \<and> i \<le> n \<and> d = of_nat i)" by (auto simp: offsets_def image_iff less_Suc_eq_le)
  also have "\<dots> \<longleftrightarrow> 1 \<le> unat d \<and> unat d \<le> n"
    using n by (auto simp: unat_of_nat_32 intro!: exI[of _ "unat d"])
  finally show ?thesis .
qed

lemma count_offsets: "n < 2 ^ 32 \<Longrightarrow> count (offsets n) d \<le> 1"
proof -
  assume n: "n < 2 ^ 32"
  have "inj_on (of_nat :: nat \<Rightarrow> u32) (set [1..<Suc n])"
    using n by (intro inj_onI) (metis atLeastLessThan_iff atLeastLessThan_upt le_less_trans less_Suc_eq_le unat_of_nat_32)
  then have "distinct (map (of_nat :: nat \<Rightarrow> u32) [1..<Suc n])" by (simp only: distinct_map distinct_upt)
  then show ?thesis unfolding offsets_def by (metis distinct_count_atmost_1 le_less linorder_not_less nat_le_linear less_one not_less order_refl)
qed

lemma held_create [simp]: "held entry_create = {#}"
  by (simp add: held_def entry_create_def)

lemma all_held_simps [simp]: "all_held [] = {#}" "all_held ((k, e) # ls) = held e + all_held ls" "all_held (xs @ ys) = all_held xs + all_held ys"
  by (simp_all add: all_held_def)

lemma all_held_update:
  "all_held (AList.update idn e ls) + held (case map_of ls idn of Some e \<Rightarrow> e | None \<Rightarrow> entry_create) = all_held ls + held e"
  by (induction ls) (auto simp: add_ac split: option.splits)

lemma held_lookup: "map_of ls idn = Some e \<Longrightarrow> held e \<subseteq># all_held ls"
  by (induction ls) (auto split: if_splits intro: subset_mset.order_trans)

lemma held_add_online:
  "held (e\<lparr>online := online e @ [l]\<rparr>) = held e + (if ul_offset l \<in> ul_offset ` set (online e) then {#} else {#ul_offset l#})"
  by (auto simp: held_def insert_absorb)

lemma all_held_add_online:
  assumes "d \<notin># all_held ls"
  shows "all_held (add_online H idn d peer ls) = add_mset d (all_held ls)"
proof -
  let ?e = "case map_of ls idn of Some e \<Rightarrow> e | None \<Rightarrow> entry_create"
  have "held ?e \<subseteq># all_held ls" using held_lookup[of ls idn] by (auto split: option.split)
  then have "d \<notin># held ?e" using assms by (meson mset_subset_eqD)
  then have "d \<notin> ul_offset ` set (online ?e)" by (auto simp: held_def)
  then show ?thesis
    using all_held_update[of idn "?e\<lparr>online := online ?e @ [\<lparr>ul_offset = d, ul_hash = hash_addr H peer\<rparr>]\<rparr>" ls]
    by (simp add: add_online_def Let_def held_add_online)
qed

lemma keys_add_online: "distinct (map fst ls) \<Longrightarrow> distinct (map fst (add_online H idn d peer ls))"
  by (simp add: add_online_def Let_def distinct_update)

text \<open>What one step of the scan does, without its local definitions.\<close>

lemma take_offline_Cons:
  "take_offline ((idn, entry) # rest) =
     (case offline entry of
        current # os \<Rightarrow>
          if current \<noteq> 0 then (current, (if online entry = [] \<and> os = [] then [] else [(idn, entry\<lparr>offline := os\<rparr>)]) @ rest)
          else (fst (take_offline rest), (if online entry = [] \<and> os = [] then [] else [(idn, entry\<lparr>offline := os\<rparr>)]) @ snd (take_offline rest))
      | [] \<Rightarrow> (fst (take_offline rest), (if online entry = [] then [] else [(idn, entry)]) @ snd (take_offline rest)))"
  by (auto simp: Let_def split_beta split: list.split)

lemma keys_take_offline: "set (map fst (snd (take_offline ls))) \<subseteq> set (map fst ls)"
  by (induction ls) (force simp: take_offline_Cons simp del: take_offline.simps(2) split: list.splits if_splits)+

lemma distinct_take_offline: "distinct (map fst ls) \<Longrightarrow> distinct (map fst (snd (take_offline ls)))"
proof (induction ls)
  case (Cons p rest)
  obtain idn entry where p: "p = (idn, entry)" by (cases p)
  have "idn \<notin> set (map fst (snd (take_offline rest)))" using Cons.prems keys_take_offline[of rest] p by auto
  then show ?case using Cons unfolding p take_offline_Cons by (auto split: list.splits)
qed simp

lemma take_offline_held:
  assumes "0 \<notin># all_held ls"
  shows "if fst (take_offline ls) = 0
         then all_held (snd (take_offline ls)) = all_held ls \<and> (\<forall>x \<in> set (snd (take_offline ls)). offline (snd x) = [])
         else all_held ls = add_mset (fst (take_offline ls)) (all_held (snd (take_offline ls)))"
  using assms
proof (induction ls)
  case (Cons p rest)
  obtain idn entry where p: "p = (idn, entry)" by (cases p)
  have z: "0 \<notin># all_held rest" "0 \<notin># held entry" using Cons.prems p by auto
  show ?case
  proof (cases "offline entry")
    case Nil
    then show ?thesis using Cons.IH[OF z(1)] unfolding p take_offline_Cons by (auto simp: held_def)
  next
    case (Cons current os)
    moreover from this have "current \<noteq> 0" using z(2) by (auto simp: held_def)
    ultimately show ?thesis unfolding p take_offline_Cons by (auto simp: held_def)
  qed
qed simp

lemma release_online_found: "release_online d ls True = (ls, True, d \<in> ul_offset ` set ls)"
  by (induction ls) auto

lemma release_online_absent: "d \<notin> ul_offset ` set ls \<Longrightarrow> release_online d ls False = (ls, False, False)"
  by (induction ls) auto

lemma release_online_first:
  "d \<notin> ul_offset ` set xs \<Longrightarrow> release_online d (xs @ \<lparr>ul_offset = d, ul_hash = h\<rparr> # ys) False = (xs @ ys, True, d \<in> ul_offset ` set ys)"
  by (induction xs) (auto simp: release_online_found)

lemma held_release:
  assumes "release_online d (online e) False = (ls, found, again)" 
  shows "held (e\<lparr>online := ls, offline := offline e @ (if found \<and> \<not> again then [d] else [])\<rparr>) = held e"
    "found \<longleftrightarrow> d \<in> ul_offset ` set (online e)"
proof -
  have "held (e\<lparr>online := ls, offline := offline e @ (if found \<and> \<not> again then [d] else [])\<rparr>) = held e \<and> (found \<longleftrightarrow> d \<in> ul_offset ` set (online e))"
  proof (cases "d \<in> ul_offset ` set (online e)")
    case False
    then show ?thesis using assms(1) by (auto simp: release_online_absent)
  next
    case True
    then obtain xs l ys where s: "online e = xs @ l # ys" "ul_offset l = d" "d \<notin> ul_offset ` set xs"
      using split_list_first_prop[of "online e" "\<lambda>l. ul_offset l = d"] by (metis (mono_tags, lifting) image_iff)
    then have r: "ls = xs @ ys" "found" "again = (d \<in> ul_offset ` set ys)"
      using assms(1) release_online_first[of d xs "ul_hash l" ys] by (cases l; auto)+
    show ?thesis
    proof (cases again)
      case A: True
      have "ul_offset ` set ls = ul_offset ` set (online e)" using A unfolding r s(1) by (auto simp: s(2))
      then show ?thesis using r(2) A True by (simp add: held_def)
    next
      case A: False
      have "ul_offset ` set ls = ul_offset ` set (online e) - {d}" using A s(3) unfolding r s(1) by (auto simp: s(2))
      then show ?thesis using r(2) A True mset_set.remove[OF _ True] by (simp add: held_def)
    qed
  qed
  then show "held (e\<lparr>online := ls, offline := offline e @ (if found \<and> \<not> again then [d] else [])\<rparr>) = held e"
    "found \<longleftrightarrow> d \<in> ul_offset ` set (online e)" by blast+
qed

section \<open>Well-formed pools\<close>

text \<open>
  Every offset that has been handed out is held exactly once: online by one identity, or offline by one identity.
\<close>

definition pool_ok :: "'id mem_pool_t \<Rightarrow> bool" where
  "pool_ok p \<longleftrightarrow> distinct (map fst (leases p)) \<and> mp_unused p \<le> mp_size p \<and> all_held (leases p) = offsets (unat (mp_unused p)) \<and>
     (mp_size p \<noteq> 0 \<longrightarrow> (\<exists>b. based p b))"

definition has_online :: "'id mem_pool_t \<Rightarrow> 'id \<Rightarrow> u32 \<Rightarrow> bool" where
  "has_online p idn d \<longleftrightarrow> (\<exists>e. map_of (leases p) idn = Some e \<and> d \<in> ul_offset ` set (online e))"

lemma unat_less_u32: "unat (w :: u32) < 2 ^ 32"
  using unsigned_less[of w] by simp

lemma held_range:
  assumes "pool_ok p" "d \<in># all_held (leases p)"
  shows "1 \<le> unat d" "unat d \<le> unat (mp_size p)" "d \<noteq> 0"
proof -
  have "1 \<le> unat d \<and> unat d \<le> unat (mp_unused p)"
    using assms in_offsets[OF unat_less_u32] by (simp add: pool_ok_def)
  then show "1 \<le> unat d" "unat d \<le> unat (mp_size p)" "d \<noteq> 0" using assms(1) by (auto simp: pool_ok_def word_le_nat_alt)
qed

lemma has_online_held: "has_online p idn d \<Longrightarrow> d \<in># all_held (leases p)"
  using held_lookup by (fastforce simp: has_online_def held_def dest: mset_subset_eqD)

lemma pool_ok_0: "pool_ok p \<Longrightarrow> 0 \<notin># all_held (leases p)"
  using held_range(3) by blast

lemma find_online_ok:
  assumes "based p b"
  shows "\<exists>r. find_online p h requested ls = Some r \<and> (\<forall>l. r = Some l \<longrightarrow> l \<in> set ls)"
proof -
  have "host2offset p requested \<noteq> None" using assms by (auto simp: host2offset_def based_def Let_def)
  then obtain d where "host2offset p requested = Some d" by blast
  then show ?thesis by (induction ls) auto
qed

text \<open>Storing an entry that holds the same offsets, or one more.\<close>

lemma store_entry:
  assumes "pool_ok p" "map_of (leases p) idn = Some e" "held e' = held e"
  shows "pool_ok (p\<lparr>leases := AList.update idn e' (leases p)\<rparr>)"
  using assms all_held_update[of idn e' "leases p"] by (simp add: pool_ok_def distinct_update based_def)

lemma has_online_update: "d \<in> ul_offset ` set (online e) \<Longrightarrow> has_online (p\<lparr>leases := AList.update idn e ls\<rparr>) idn d"
  by (simp add: has_online_def update_conv)

lemma get_existing_ok:
  assumes "pool_ok p" "based p b"
  shows "\<exists>d p'. get_existing H p idn requested peer = Some (d, p') \<and> pool_ok p' \<and> mp_base p' = mp_base p \<and> mp_size p' = mp_size p \<and>
    (d \<noteq> 0 \<longrightarrow> has_online p' idn d)"
proof (cases "map_of (leases p) idn")
  case None
  then show ?thesis using assms by (simp add: get_existing_def)
next
  case (Some e)
  obtain r where r: "(if peer \<noteq> None then find_online p (hash_addr H peer) requested (online e) else Some None) = Some r"
    "\<forall>l. r = Some l \<longrightarrow> l \<in> set (online e)"
    using find_online_ok[OF assms(2), of "hash_addr H peer" requested "online e"] by (cases "peer = None") auto
  define e1 where "e1 = (case r of None \<Rightarrow> e | Some lease \<Rightarrow> e\<lparr>online := online e @ [lease]\<rparr>)"
  define d where "d = (case r of None \<Rightarrow> 0 | Some lease \<Rightarrow> ul_offset lease)"
  have e1: "held e1 = held e" "offline e1 = offline e" "d \<noteq> 0 \<longrightarrow> d \<in> ul_offset ` set (online e1)"
    using r(2) by (auto simp: e1_def d_def held_add_online split: option.split)
  show ?thesis
  proof (cases "d = 0 \<and> offline e \<noteq> []")
    case False
    then have "get_existing H p idn requested peer = Some (d, p\<lparr>leases := AList.update idn e1 (leases p)\<rparr>)"
      using Some r(1) e1(2) by (auto simp: get_existing_def e1_def[symmetric] d_def[symmetric] split: list.split)
    then show ?thesis using store_entry[OF assms(1) Some e1(1)] has_online_update e1(3) by fastforce
  next
    case True
    then obtain c cs where c: "offline e = c # cs" by (cases "offline e") auto
    let ?e = "e1\<lparr>online := online e1 @ [\<lparr>ul_offset = c, ul_hash = hash_addr H peer\<rparr>], offline := cs\<rparr>"
    have g: "get_existing H p idn requested peer = Some (c, p\<lparr>leases := AList.update idn ?e (leases p)\<rparr>)"
      using Some r(1) e1(2) True c by (auto simp: get_existing_def e1_def[symmetric] d_def[symmetric])
    have "c \<notin> ul_offset ` set (online e1)"
    proof
      assume "c \<in> ul_offset ` set (online e1)"
      then have "2 \<le> count (held e) c" using e1(1,2) c by (simp add: held_def flip: e1(1))
      also have "\<dots> \<le> count (all_held (leases p)) c" using held_lookup[OF Some] by (rule mset_subset_eq_count)
      also have "\<dots> \<le> 1" using assms(1) count_offsets[OF unat_less_u32] by (simp add: pool_ok_def)
      finally show False by simp
    qed
    then have "held ?e = held e" using e1(1,2) c by (simp add: held_def)
    then show ?thesis using g store_entry[OF assms(1) Some, of ?e] has_online_update[where idn = idn and p = p and ls = "leases p" and e = ?e and d = c] by simp
  qed
qed

lemma add_online_ok:
  assumes "pool_ok p" "all_held ls + {#d#} = offsets (unat n)" "distinct (map fst ls)" "n \<le> mp_size p"
  shows "pool_ok (p\<lparr>mp_unused := n, leases := add_online H idn d peer ls\<rparr>)"
    "has_online (p\<lparr>mp_unused := n, leases := add_online H idn d peer ls\<rparr>) idn d"
proof -
  have "count (all_held ls + {#d#}) d \<le> 1" unfolding assms(2) by (rule count_offsets[OF unat_less_u32])
  then have "d \<notin># all_held ls" by (simp add: not_in_iff)
  then show "pool_ok (p\<lparr>mp_unused := n, leases := add_online H idn d peer ls\<rparr>)"
    using assms all_held_add_online[of d ls] keys_add_online by (simp add: pool_ok_def based_def)
  show "has_online (p\<lparr>mp_unused := n, leases := add_online H idn d peer ls\<rparr>) idn d"
    by (simp add: has_online_def add_online_def Let_def update_conv)
qed

lemma get_new_ok:
  assumes "pool_ok p" "get_new H p idn peer = (d, p')"
  shows "pool_ok p'" "mp_base p' = mp_base p" "mp_size p' = mp_size p" "d \<noteq> 0 \<Longrightarrow> has_online p' idn d"
    "d = 0 \<Longrightarrow> p' = p \<and> mp_unused p = mp_size p"
proof -
  have "pool_ok p' \<and> mp_base p' = mp_base p \<and> mp_size p' = mp_size p \<and> (d \<noteq> 0 \<longrightarrow> has_online p' idn d) \<and> (d = 0 \<longrightarrow> p' = p \<and> mp_unused p = mp_size p)"
  proof (cases "mp_unused p < mp_size p")
    case True
    let ?n = "mp_unused p + 1"
    have n: "unat ?n = Suc (unat (mp_unused p))" by (rule unat_increment[OF True])
    have "(of_nat (Suc (unat (mp_unused p))) :: u32) = ?n" by simp
    then have "all_held (leases p) + {#?n#} = offsets (unat ?n)"
      using assms(1) by (simp add: n offsets_Suc pool_ok_def del: of_nat_Suc)
    moreover have "?n \<le> mp_size p" using True n by (simp add: word_le_nat_alt word_less_nat_alt)
    moreover have "?n \<noteq> 0" using n by (metis nat.simps(3) unsigned_0)
    ultimately show ?thesis
      using True assms add_online_ok[OF assms(1), of "leases p" ?n ?n] by (auto simp: get_new_def Let_def pool_ok_def)
  next
    case False
    then show ?thesis using assms by (auto simp: get_new_def pool_ok_def)
  qed
  then show "pool_ok p'" "mp_base p' = mp_base p" "mp_size p' = mp_size p" "d \<noteq> 0 \<Longrightarrow> has_online p' idn d"
    "d = 0 \<Longrightarrow> p' = p \<and> mp_unused p = mp_size p" by blast+
qed

lemma get_reassigned_ok:
  assumes "pool_ok p" "get_reassigned H p idn peer = (d, p')"
  shows "pool_ok p'" "mp_base p' = mp_base p" "mp_size p' = mp_size p" "mp_unused p' = mp_unused p" "d \<noteq> 0 \<Longrightarrow> has_online p' idn d"
    "d = 0 \<Longrightarrow> \<forall>x \<in> set (leases p'). offline (snd x) = []"
proof -
  obtain ls where ls: "take_offline (leases p) = (d, ls)"
    "p' = p\<lparr>leases := (if d \<noteq> 0 then add_online H idn d peer ls else ls)\<rparr>"
    using assms(2) by (auto simp: get_reassigned_def split: prod.splits)
  note T = take_offline_held[OF pool_ok_0[OF assms(1)], unfolded ls(1) fst_conv snd_conv]
  have dist: "distinct (map fst ls)" using distinct_take_offline[of "leases p"] assms(1) by (simp add: ls(1) pool_ok_def)
  show "mp_base p' = mp_base p" "mp_size p' = mp_size p" "mp_unused p' = mp_unused p" by (simp_all add: ls(2))
  show "d = 0 \<Longrightarrow> \<forall>x \<in> set (leases p'). offline (snd x) = []" using T by (simp add: ls(2))
  have "pool_ok p' \<and> (d \<noteq> 0 \<longrightarrow> has_online p' idn d)"
  proof (cases "d = 0")
    case True
    then show ?thesis using T assms(1) dist by (simp add: ls(2) pool_ok_def based_def)
  next
    case False
    then have "all_held ls + {#d#} = offsets (unat (mp_unused p))" using T assms(1) by (simp add: pool_ok_def)
    moreover have "mp_unused p \<le> mp_size p" using assms(1) by (simp add: pool_ok_def)
    ultimately show ?thesis using False add_online_ok[OF assms(1) _ dist, of d "mp_unused p"] by (simp add: ls(2))
  qed
  then show "pool_ok p'" "d \<noteq> 0 \<Longrightarrow> has_online p' idn d" by blast+
qed

section \<open>Operations\<close>

lemma pool_addr:
  assumes "pool_ok p" "d \<in># all_held (leases p)" "mp_size p \<noteq> 0"
  shows "\<exists>h. offset2host p d = Some (Some h) \<and> host_ok h"
  using offset2host_ok[OF _ held_range(1,2)[OF assms(1,2)]] assms(1,3) by (auto simp: pool_ok_def)

lemma acquire_address_ok:
  assumes "pool_ok p"
  shows "\<exists>r p'. acquire_address H p idn requested op peer = Some (r, p') \<and> pool_ok p' \<and> mp_base p' = mp_base p \<and> mp_size p' = mp_size p \<and>
    (mp_size p \<noteq> 0 \<longrightarrow> (\<forall>h. r = Some h \<longrightarrow> (\<exists>d. has_online p' idn d \<and> offset2host p' d = Some (Some h))))"
proof (cases "mp_size p = 0 \<or> (\<exists>b. mp_base p = Some b \<and> h_family requested \<noteq> h_family b)")
  case True
  then show ?thesis using assms by (auto simp: acquire_address_def)
next
  case False
  then obtain b where b: "based p b" "mp_size p \<noteq> 0" "h_family requested = h_family b"
    using assms by (auto simp: pool_ok_def based_def)
  let ?get = "case op of MEM_POOL_EXISTING \<Rightarrow> get_existing H p idn requested peer
      | MEM_POOL_NEW \<Rightarrow> Some (get_new H p idn peer) | MEM_POOL_REASSIGN \<Rightarrow> Some (get_reassigned H p idn peer)"
  obtain d p' where g: "?get = Some (d, p')" "pool_ok p'" "mp_base p' = mp_base p" "mp_size p' = mp_size p" "d \<noteq> 0 \<longrightarrow> has_online p' idn d"
  proof (cases op)
    case MEM_POOL_EXISTING
    moreover obtain d p' where "get_existing H p idn requested peer = Some (d, p')" "pool_ok p'" "mp_base p' = mp_base p"
      "mp_size p' = mp_size p" "d \<noteq> 0 \<longrightarrow> has_online p' idn d" using get_existing_ok[OF assms b(1)] by blast
    ultimately show thesis by (intro that[of d p']) simp_all
  next
    case MEM_POOL_NEW
    obtain d p' where g: "get_new H p idn peer = (d, p')" by (cases "get_new H p idn peer")
    then show thesis using MEM_POOL_NEW get_new_ok(1-4)[OF assms g] by (intro that[of d p']) simp_all
  next
    case MEM_POOL_REASSIGN
    obtain d p' where g: "get_reassigned H p idn peer = (d, p')" by (cases "get_reassigned H p idn peer")
    then show thesis using MEM_POOL_REASSIGN get_reassigned_ok(1-3,5)[OF assms g] by (intro that[of d p']) simp_all
  qed
  have a: "acquire_address H p idn requested op peer =
      (if d \<noteq> 0 then map_option (\<lambda>h. (h, p')) (offset2host p' d) else Some (None, p'))"
    using b g(1) by (auto simp: acquire_address_def based_def map_conv_bind_option comp_def)
  show ?thesis
  proof (cases "d = 0")
    case True
    then show ?thesis using a g by auto
  next
    case False
    then obtain h where "offset2host p' d = Some (Some h)"
      using pool_addr[OF g(2) has_online_held] g(4,5) b(2) by auto
    then show ?thesis using a g False by auto
  qed
qed

lemma release_address_ok:
  assumes "pool_ok p"
  shows "\<exists>r p'. release_address p address idn = Some (r, p') \<and> pool_ok p' \<and> mp_base p' = mp_base p \<and> mp_size p' = mp_size p \<and>
    (\<forall>d. mp_size p \<noteq> 0 \<and> host2offset p address = Some d \<longrightarrow> r = has_online p idn d)"
proof (cases "mp_size p = 0 \<or> map_of (leases p) idn = None")
  case True
  then show ?thesis using assms by (auto simp: release_address_def has_online_def)
next
  case False
  then obtain e b where e: "map_of (leases p) idn = Some e" "based p b" "mp_size p \<noteq> 0" using assms by (auto simp: pool_ok_def)
  have "host2offset p address \<noteq> None" using e(2) by (auto simp: host2offset_def based_def Let_def)
  then obtain d where d: "host2offset p address = Some d" by blast
  obtain ls found again where r: "release_online d (online e) False = (ls, found, again)" by (cases "release_online d (online e) False")
  show ?thesis using store_entry[OF assms e(1) held_release(1)[OF r]] held_release(2)[OF r] e d r
    by (simp add: release_address_def has_online_def)
qed

text \<open>Pools as they are created and used: any sequence of requests of any identities.\<close>

inductive pool_step :: "(bytes \<Rightarrow> u32 \<Rightarrow> u32) \<Rightarrow> 'id mem_pool_t \<Rightarrow> 'id mem_pool_t \<Rightarrow> bool" for H where
  acquire: "acquire_address H p idn requested op peer = Some (r, p') \<Longrightarrow> pool_step H p p'"
| release: "release_address p address idn = Some (r, p') \<Longrightarrow> pool_step H p p'"

inductive_cases pool_stepE: "pool_step H p p'"

lemma pool_steps_ok: "(pool_step H)\<^sup>*\<^sup>* p p' \<Longrightarrow> pool_ok p \<Longrightarrow> pool_ok p' \<and> mp_base p' = mp_base p \<and> mp_size p' = mp_size p"
proof (induction rule: rtranclp_induct)
  case (step y z)
  then have "pool_ok y" by blast
  from step.hyps(2) have "pool_ok z \<and> mp_base z = mp_base y \<and> mp_size z = mp_size y"
  proof (rule pool_stepE)
    fix idn requested op peer r assume "acquire_address H y idn requested op peer = Some (r, z)"
    then show ?thesis using acquire_address_ok[OF \<open>pool_ok y\<close>, of H idn requested op peer] by auto
  next
    fix address idn r assume "release_address y address idn = Some (r, z)"
    then show ?thesis using release_address_ok[OF \<open>pool_ok y\<close>, of address idn] by auto
  qed
  then show ?case using step by simp
qed simp

lemma empty_pool_ok: "(n \<noteq> 0 \<Longrightarrow> \<exists>b. base = Some b \<and> host_ok b) \<Longrightarrow> pool_ok (create_generic\<lparr>mp_base := base, mp_size := n\<rparr>)"
  by (auto simp: pool_ok_def create_generic_def offsets_def based_def)

lemma mem_pool_create_ok:
  assumes "mem_pool_create base bits = Some p" "\<And>b. base = Some b \<Longrightarrow> host_ok b"
  shows "pool_ok p" "leases p = []"
proof -
  have "\<exists>b n. p = create_generic\<lparr>mp_base := b, mp_size := n\<rparr> \<and> (n \<noteq> 0 \<longrightarrow> (\<exists>h. b = Some h \<and> host_ok h))"
  proof (cases base)
    case None
    then show ?thesis using assms(1) by (intro exI[of _ None] exI[of _ 0]) (auto simp: mem_pool_create_def create_generic_def)
  next
    case (Some b)
    then have "host_ok b" using assms(2) by simp
    then obtain h where "apply_offset b 1 = Some h" "host_ok h" using apply_offset_ok by blast
    then show ?thesis using assms(1) Some \<open>host_ok b\<close> by (auto simp: mem_pool_create_def Let_def split: if_splits)
  qed
  then show "pool_ok p" "leases p = []" using empty_pool_ok by (auto simp: create_generic_def)
qed

lemma mem_pool_create_range_ok:
  assumes "mem_pool_create_range from to = Some p" "host_ok from"
  shows "pool_ok p" "leases p = []"
  using assms empty_pool_ok[of _ "Some from"] by (auto simp: mem_pool_create_range_def Let_def create_generic_def split: if_splits)

section \<open>Guarantees\<close>

lemma held_two:
  assumes "(k, e) \<in> set ls" "(k', e') \<in> set ls" "k \<noteq> k'"
  shows "held e + held e' \<subseteq># all_held ls"
proof -
  obtain xs ys where s: "ls = xs @ (k, e) # ys" using assms(1) by (meson split_list)
  then have "(k', e') \<in> set (xs @ ys)" using assms(2,3) by auto
  then obtain us vs where "xs @ ys = us @ (k', e') # vs" by (meson split_list)
  then have "all_held (xs @ ys) = all_held us + held e' + all_held vs" by simp
  then have "all_held ls = (held e + held e') + (all_held us + all_held vs)" using s by (simp add: add_ac)
  then show ?thesis by (metis mset_subset_eq_add_left)
qed

lemma enumerated:
  assumes "(idn, a, s) \<in> set (lease_enumerate p)"
  obtains e d where "(idn, e) \<in> set (leases p)" "a = offset2host p d" "d \<in># held e"
    "if s then d \<in> ul_offset ` set (online e) else d \<in> set (offline e)"
  using assms by (fastforce simp: lease_enumerate_def held_def)

lemma enumerated_exclusive:
  assumes "pool_ok p" "(id1, a, s1) \<in> set (lease_enumerate p)" "(id2, a, s2) \<in> set (lease_enumerate p)"
  shows "id1 = id2 \<and> s1 = s2 \<and> (\<exists>h. a = Some (Some h) \<and> host_ok h)"
proof -
  obtain e1 d1 where 1: "(id1, e1) \<in> set (leases p)" "a = offset2host p d1" "d1 \<in># held e1"
    "if s1 then d1 \<in> ul_offset ` set (online e1) else d1 \<in> set (offline e1)" using assms(2) by (rule enumerated)
  obtain e2 d2 where 2: "(id2, e2) \<in> set (leases p)" "a = offset2host p d2" "d2 \<in># held e2"
    "if s2 then d2 \<in> ul_offset ` set (online e2) else d2 \<in> set (offline e2)" using assms(3) by (rule enumerated)
  have dist: "distinct (map fst (leases p))" using assms(1) by (simp add: pool_ok_def)
  have m: "map_of (leases p) id1 = Some e1" "map_of (leases p) id2 = Some e2" using 1(1) 2(1) dist by simp_all
  have h: "d1 \<in># all_held (leases p)" "d2 \<in># all_held (leases p)"
    using held_lookup[OF m(1)] held_lookup[OF m(2)] 1(3) 2(3) by (meson mset_subset_eqD)+
  note r1 = held_range[OF assms(1) h(1)] and r2 = held_range[OF assms(1) h(2)]
  have "mp_size p \<noteq> 0" using r1(1,2) by auto
  then obtain b where b: "based p b" using assms(1) by (auto simp: pool_ok_def)
  have d: "d2 = d1" using offset2host_inj[OF b r2(1,2) r1(1,2)] 1(2) 2(2) by simp
  have c: "count (all_held (leases p)) d1 \<le> 1" using assms(1) count_offsets[OF unat_less_u32] by (simp add: pool_ok_def)
  have "id1 = id2"
  proof (rule ccontr)
    assume "id1 \<noteq> id2"
    then have "count (held e1 + held e2) d1 \<le> 1" using held_two[OF 1(1) 2(1)] c by (meson le_trans mset_subset_eq_count)
    then show False using 1(3) 2(3) d by (simp add: Suc_le_eq flip: count_greater_zero_iff)
  qed
  moreover have "s1 = s2"
  proof (rule ccontr)
    assume "s1 \<noteq> s2"
    then have "d1 \<in> ul_offset ` set (online e1)" "d1 \<in> set (offline e1)" using 1(4) 2(4) d m \<open>id1 = id2\<close> by (auto split: if_splits)
    then have "1 \<le> count (mset_set (ul_offset ` set (online e1))) d1" "1 \<le> count (mset (offline e1)) d1"
      by (simp_all add: Suc_le_eq count_mset_gt_0)
    then have "2 \<le> count (held e1) d1" unfolding held_def count_union by linarith
    moreover have "count (held e1) d1 \<le> 1" using held_lookup[OF m(1)] c by (meson le_trans mset_subset_eq_count)
    ultimately show False by simp
  qed
  ultimately show ?thesis using pool_addr[OF assms(1) h(1) \<open>mp_size p \<noteq> 0\<close>] 1(2) by simp
qed

lemma acquire_none:
  assumes "pool_ok p" "acquire_address H p idn requested op peer = Some (None, p')"
  shows "mp_size p \<noteq> 0" "pool_ok p'" "mp_base p' = mp_base p" "mp_size p' = mp_size p"
    "op \<noteq> MEM_POOL_EXISTING \<Longrightarrow> mp_unused p' = mp_unused p"
    "mp_base p = Some b \<Longrightarrow> h_family b = h_family requested \<Longrightarrow>
       (op = MEM_POOL_NEW \<longrightarrow> mp_unused p' = mp_size p') \<and> (op = MEM_POOL_REASSIGN \<longrightarrow> (\<forall>x \<in> set (leases p'). offline (snd x) = []))"
proof -
  show s: "mp_size p \<noteq> 0" using assms(2) by (auto simp: acquire_address_def)
  show ok: "pool_ok p'" "mp_base p' = mp_base p" "mp_size p' = mp_size p"
    using acquire_address_ok[OF assms(1), of H idn requested op peer] assms(2) by auto
  obtain b' where b': "mp_base p = Some b'" using assms(1) s by (auto simp: pool_ok_def based_def)
  have addr: "offset2host q d \<noteq> Some None" if "d \<noteq> 0" "has_online q idn d" "pool_ok q" "mp_size q = mp_size p" for q d
    using pool_addr[OF that(3) has_online_held[OF that(2)]] that(4) s by auto
  have "(op \<noteq> MEM_POOL_EXISTING \<longrightarrow> mp_unused p' = mp_unused p) \<and> (h_family b' = h_family requested \<longrightarrow>
     (op = MEM_POOL_NEW \<longrightarrow> mp_unused p' = mp_size p') \<and> (op = MEM_POOL_REASSIGN \<longrightarrow> (\<forall>x \<in> set (leases p'). offline (snd x) = [])))"
  proof (cases "h_family b' = h_family requested")
    case False
    then show ?thesis using assms(2) s b' by (auto simp: acquire_address_def)
  next
    case True
    show ?thesis
    proof (cases op)
      case MEM_POOL_NEW
      obtain d q where g: "get_new H p idn peer = (d, q)" by (cases "get_new H p idn peer")
      note G = get_new_ok[OF assms(1) g]
      have "d = 0 \<and> p' = q" using assms(2) s b' True g MEM_POOL_NEW addr[of d q] G(1,3,4)
        by (auto simp: acquire_address_def split: if_splits bind_splits)
      then show ?thesis using G MEM_POOL_NEW by auto
    next
      case MEM_POOL_REASSIGN
      obtain d q where g: "get_reassigned H p idn peer = (d, q)" by (cases "get_reassigned H p idn peer")
      note G = get_reassigned_ok[OF assms(1) g]
      have "d = 0 \<and> p' = q" using assms(2) s b' True g MEM_POOL_REASSIGN addr[of d q] G(1,3,5)
        by (auto simp: acquire_address_def split: if_splits bind_splits)
      then show ?thesis using G MEM_POOL_REASSIGN by auto
    qed simp
  qed
  then show "op \<noteq> MEM_POOL_EXISTING \<Longrightarrow> mp_unused p' = mp_unused p" "mp_base p = Some b \<Longrightarrow> h_family b = h_family requested \<Longrightarrow>
       (op = MEM_POOL_NEW \<longrightarrow> mp_unused p' = mp_size p') \<and> (op = MEM_POOL_REASSIGN \<longrightarrow> (\<forall>x \<in> set (leases p'). offline (snd x) = []))"
    using b' by auto
qed

text \<open>What a failed pass over the pools leaves behind, for the pools of the requested family.\<close>

definition settled :: "mem_pool_op_t \<Rightarrow> host_t \<Rightarrow> 'id mem_pool_t \<Rightarrow> bool" where
  "settled op requested p \<longleftrightarrow> mp_size p \<noteq> 0 \<and> (\<forall>b. mp_base p = Some b \<and> h_family b = h_family requested \<longrightarrow>
     (op = MEM_POOL_NEW \<longrightarrow> mp_unused p = mp_size p) \<and> (op = MEM_POOL_REASSIGN \<longrightarrow> (\<forall>x \<in> set (leases p). offline (snd x) = [])))"

lemma find_addr_none:
  assumes "\<forall>p \<in> ran (map_of pools). pool_ok p" "find_addr H pools names idn requested op peer = Some (None, pools')"
  shows "(\<forall>p \<in> ran (map_of pools'). pool_ok p) \<and>
    (\<forall>n p'. map_of pools' n = Some p' \<longrightarrow> (n \<in> set names \<longrightarrow> settled op requested p') \<and>
       (\<exists>p. map_of pools n = Some p \<and> mp_base p' = mp_base p \<and> mp_size p' = mp_size p \<and>
         (op \<noteq> MEM_POOL_EXISTING \<longrightarrow> mp_unused p' = mp_unused p) \<and> (settled op requested p \<longrightarrow> settled op requested p')))"
  using assms
proof (induction names arbitrary: pools)
  case (Cons name names)
  show ?case
  proof (cases "map_of pools name")
    case None
    then show ?thesis using Cons.IH[OF Cons.prems(1)] Cons.prems(2) by (auto; metis option.distinct(1))
  next
    case (Some p)
    have ok: "pool_ok p" using Some Cons.prems(1) by (auto simp: ran_def)
    obtain q where q: "acquire_address H p idn requested op peer = Some (None, q)"
      "find_addr H (AList.update name q pools) names idn requested op peer = Some (None, pools')"
      using Cons.prems(2) Some by (auto simp: Let_def split: bind_splits if_splits)
    note A = acquire_none[OF ok q(1)]
    have st: "settled op requested q" using A(1,3,4,6) by (auto simp: settled_def)
    have "\<forall>p \<in> ran (map_of (AList.update name q pools)). pool_ok p"
      using Cons.prems(1) A(2) by (auto simp: update_conv' ran_def split: if_splits)
    note I = Cons.IH[OF this q(2)]
    have "(n = name \<longrightarrow> settled op requested p') \<and>
       (\<exists>p. map_of pools n = Some p \<and> mp_base p' = mp_base p \<and> mp_size p' = mp_size p \<and>
         (op \<noteq> MEM_POOL_EXISTING \<longrightarrow> mp_unused p' = mp_unused p) \<and> (settled op requested p \<longrightarrow> settled op requested p'))"
      if n: "map_of pools' n = Some p'" for n p'
    proof -
      have "\<exists>p. map_of (AList.update name q pools) n = Some p \<and> mp_base p' = mp_base p \<and> mp_size p' = mp_size p \<and>
         (op \<noteq> MEM_POOL_EXISTING \<longrightarrow> mp_unused p' = mp_unused p) \<and> (settled op requested p \<longrightarrow> settled op requested p')"
        using I n by blast
      then show ?thesis using Some st A(3,4,5) by (cases "n = name") (auto simp: update_conv')
    qed
    moreover have "n \<in> set names \<longrightarrow> settled op requested p'" if "map_of pools' n = Some p'" for n p' using I that by blast
    ultimately show ?thesis using I by (intro conjI allI impI) (blast | simp; blast)+
  qed
qed auto

text \<open>A pool of two addresses, for the examples.\<close>

definition v4_host :: "u8 \<Rightarrow> u8 \<Rightarrow> u8 \<Rightarrow> u8 \<Rightarrow> host_t" where
  "v4_host a b c d = \<lparr>h_family = AF_INET, h_bytes = [a, b, c, d], h_port = 0\<rparr>"

lemma v4_host_ok: "host_ok (v4_host a b c d)"
  by (simp add: v4_host_def host_ok_def family_len_def)

lemma be_encode_4: "be_encode 4 v = [of_nat (v div 16777216), of_nat (v div 65536), of_nat (v div 256), of_nat v]"
proof -
  have "(4::nat) = Suc (Suc (Suc (Suc 0)))" by simp
  then show ?thesis by (simp only: be_encode.simps) (simp add: div_mult2_eq[symmetric])
qed

lemmas addr_simps = get_address_def last32_pos_def be_decode_def host_create_from_chunk_def be_encode_4

definition small_pool :: "string mem_pool_t" where
  "small_pool = create_generic\<lparr>mp_base := Some (v4_host 10 0 0 1), mp_size := 2\<rparr>"

definition alice :: "(string \<times> entry_t) list" where
  "alice = [(''alice'', \<lparr>online = [\<lparr>ul_offset = 1, ul_hash = 0\<rparr>], offline = []\<rparr>)]"

lemma small_pool_created: "mem_pool_create (Some (v4_host 10 0 0 0)) 30 = Some small_pool"
  by (simp add: mem_pool_create_def Let_def network_id_diff_def apply_offset_def small_pool_def v4_host_def addr_simps)

lemma small_pool_acquired:
  "acquire_address (\<lambda>_ _. 0) small_pool ''alice'' (v4_host 0 0 0 0) MEM_POOL_NEW None =
     Some (Some (v4_host 10 0 0 1), small_pool\<lparr>mp_unused := 1, leases := alice\<rparr>)"
  by (simp add: acquire_address_def get_new_def add_online_def create_generic_def entry_create_def hash_addr_def
      offset2host_def apply_offset_def small_pool_def alice_def v4_host_def addr_simps)

text \<open>
  C8. No address is leased twice: in every state of a pool that any sequence of requests and releases leads to, an address
  that the enumeration of leases shows belongs to one identity and is either online or offline, and it
  is an address of the pool.
\<close>

theorem leases_exclusive:
  assumes "mem_pool_create base bits = Some p0 \<or> mem_pool_create_range from to = Some p0 \<and> host_ok from"
    and "\<And>b. base = Some b \<Longrightarrow> host_ok b" and "(pool_step H)\<^sup>*\<^sup>* p0 p"
    and "(id1, a, s1) \<in> set (lease_enumerate p)" "(id2, a, s2) \<in> set (lease_enumerate p)"
  shows "id1 = id2 \<and> s1 = s2 \<and> (\<exists>h. a = Some (Some h) \<and> host_ok h)"
proof -
  have "pool_ok p0" using assms(1,2) mem_pool_create_ok(1) mem_pool_create_range_ok(1) by blast
  then show ?thesis using enumerated_exclusive[OF _ assms(4,5)] pool_steps_ok[OF assms(3)] by blast
qed

theorem leases_exclusive_witness:
  "mem_pool_create (Some (v4_host 10 0 0 0)) 30 = Some small_pool \<and>
     (''alice'', Some (Some (v4_host 10 0 0 1)), True) \<in> set (lease_enumerate (small_pool\<lparr>mp_unused := 1, leases := alice\<rparr>)) \<and>
     (\<exists>h. Some (Some (v4_host 10 0 0 1)) = Some (Some h) \<and> host_ok h)"
proof -
  have s: "(pool_step (\<lambda>_ _. 0))\<^sup>*\<^sup>* small_pool (small_pool\<lparr>mp_unused := 1, leases := alice\<rparr>)"
    using small_pool_acquired by (blast intro: pool_step.acquire)
  have e: "(''alice'', Some (Some (v4_host 10 0 0 1)), True) \<in> set (lease_enumerate (small_pool\<lparr>mp_unused := 1, leases := alice\<rparr>))"
    by (simp add: lease_enumerate_def alice_def offset2host_def apply_offset_def small_pool_def create_generic_def v4_host_def addr_simps)
  show ?thesis using leases_exclusive[OF disjI1[OF small_pool_created] _ s e e] v4_host_ok small_pool_created e by auto
qed



text \<open>
  C26. What has been acquired can be released: an address that a pool returns to an identity is released by that identity, provided the
  pool does not end at the last address of its 32-bit block.
\<close>

theorem acquired_address_released:
  assumes "pool_ok p" "acquire_address H p idn requested op peer = Some (Some h, p')"
    and "mp_size p \<noteq> 0" "mp_base p = Some b" "last32 b + unat (mp_size p) < 2 ^ 32"
  shows "\<exists>p''. release_address p' h idn = Some (True, p'') \<and> pool_ok p''"
proof -
  obtain d where ok: "pool_ok p'" "mp_base p' = mp_base p" "mp_size p' = mp_size p" "has_online p' idn d" "offset2host p' d = Some (Some h)"
    using acquire_address_ok[OF assms(1), of H idn requested op peer] assms(2,3) by auto
  have b: "based p' b" using assms(1,3,4) ok(2) by (auto simp: pool_ok_def based_def)
  note r = held_range[OF ok(1) has_online_held[OF ok(4)]]
  have "host2offset p' h = Some d" using host2offset_offset2host[OF b r(1,2) _ ok(5)] assms(5) ok(3) by simp
  then show ?thesis using release_address_ok[OF ok(1), of h idn] ok(3,4) assms(3) by auto
qed

theorem acquired_address_released_witness:
  "acquire_address (\<lambda>_ _. 0) small_pool ''alice'' (v4_host 0 0 0 0) MEM_POOL_NEW None =
     Some (Some (v4_host 10 0 0 1), small_pool\<lparr>mp_unused := 1, leases := alice\<rparr>) \<and>
   (\<exists>p. release_address (small_pool\<lparr>mp_unused := 1, leases := alice\<rparr>) (v4_host 10 0 0 1) ''alice'' = Some (True, p) \<and> pool_ok p)"
proof -
  have ok: "pool_ok small_pool" using mem_pool_create_ok(1)[OF small_pool_created] v4_host_ok by blast
  have "last32 (v4_host 10 0 0 1) + unat (mp_size small_pool) < 2 ^ 32"
    by (simp add: last32_def small_pool_def create_generic_def v4_host_def addr_simps)
  then show ?thesis using small_pool_acquired acquired_address_released[OF ok small_pool_acquired]
    by (simp add: small_pool_def create_generic_def)
qed

text \<open>A range that ends at the last address of a 32-bit block never gets its addresses back.\<close>

definition v6_host :: "u8 \<Rightarrow> host_t" where
  "v6_host x = \<lparr>h_family = AF_INET6, h_bytes = [0xfd, 0, 0, 0, 0, 0, 0, 0, 0, 0, 0, 0, 0xff, 0xff, 0xff, x], h_port = 0\<rparr>"

lemma last_range_not_released:
  "do { p \<leftarrow> mem_pool_create_range (v6_host 0xf0) (v6_host 0xff);
        (h, p) \<leftarrow> acquire_address (\<lambda>_ _. 0) p ''alice'' (v6_host 0xf0) MEM_POOL_NEW None;
        (released, p) \<leftarrow> release_address p (the h) ''alice'';
        Some (h, released, get_online p) } = Some (Some (v6_host 0xf0), False, 1)"
  by (simp add: mem_pool_create_range_def Let_def acquire_address_def get_new_def add_online_def create_generic_def entry_create_def hash_addr_def
      offset2host_def apply_offset_def release_address_def host2offset_def get_online_def memcmp_def v6_host_def addr_simps)

text \<open>A range of all IPv4 addresses is taken for an empty pool, which hands out whatever is requested.\<close>

lemma full_range_is_empty:
  "do { p \<leftarrow> mem_pool_create_range (v4_host 0 0 0 0) (v4_host 255 255 255 255);
        (h, p) \<leftarrow> acquire_address (\<lambda>_ _. 0) p ''alice'' (v4_host 10 0 0 1) MEM_POOL_NEW None;
        (h', p) \<leftarrow> acquire_address (\<lambda>_ _. 0) p ''bob'' (v4_host 10 0 0 1) MEM_POOL_NEW None;
        Some (h, h') } = Some (Some (v4_host 10 0 0 1), Some (v4_host 10 0 0 1))"
  by (simp add: mem_pool_create_range_def Let_def acquire_address_def create_generic_def memcmp_def v4_host_def addr_simps)

section \<open>Subnets\<close>

definition host_bits :: "host_t \<Rightarrow> int \<Rightarrow> int" where
  "host_bits base bits = (let n = (if h_family base = AF_INET then 32 else 128) in min 31 (n - max 0 (min bits n)))"

lemma unat_drop_push:
  assumes "k \<le> 31"
  shows "unat (drop_bit (32 - k) (push_bit (32 - k) w) :: u32) = unat w mod 2 ^ k"
proof -
  have "drop_bit (32 - k) (push_bit (32 - k) w) = take_bit k w"
    using assms by (intro bit_word_eqI) (auto simp: bit_drop_bit_eq bit_push_bit_iff bit_take_bit_iff)
  then have "unat (drop_bit (32 - k) (push_bit (32 - k) w)) = take_bit k (unat w)" by (simp only: unsigned_take_bit_eq)
  then show ?thesis by (simp add: take_bit_eq_mod)
qed

lemma network_id_diff_mod:
  assumes "host_ok base" "0 \<le> k" "k \<le> 31"
  shows "unat (network_id_diff base k) = last32 base mod 2 ^ nat k"
proof (cases "k = 0")
  case False
  note B = host_okE[OF assms(1)]
  have "nat (32 - k) = 32 - nat k" using assms(2,3) by simp
  moreover have "drop (length (h_bytes base) - 4) (h_bytes base) = drop (last32_pos base) (h_bytes base)" using B(1) by simp
  ultimately have "unat (network_id_diff base k) = unat (drop_bit (32 - nat k) (push_bit (32 - nat k) (of_nat (last32 base) :: u32)))"
    using False B(2) by (simp add: network_id_diff_def Let_def last32_def)
  also have "\<dots> = last32 base mod 2 ^ nat k"
    using unat_drop_push[of "nat k" "of_nat (last32 base)"] assms(3) B(4) by (simp add: unat_of_nat_32)
  finally show ?thesis .
qed (simp add: network_id_diff_def)

lemma block_end:
  fixes v :: nat
  assumes "v < 2 ^ 32" "k \<le> 32"
  shows "v div 2 ^ k * 2 ^ k + 2 ^ k \<le> 2 ^ 32"
proof -
  have e: "(2::nat) ^ 32 = 2 ^ (32 - k) * 2 ^ k" using assms(2) by (simp flip: power_add)
  then have "v div 2 ^ k < 2 ^ (32 - k)" using assms(1) by (simp add: less_mult_imp_div_less)
  then have "Suc (v div 2 ^ k) * 2 ^ k \<le> 2 ^ (32 - k) * 2 ^ k" by (intro mult_le_mono1) simp
  then show ?thesis unfolding e by (simp add: add.commute)
qed

lemma pool_block:
  assumes "host_ok base" "mem_pool_create (Some base) bits = Some p" "k = nat (host_bits base bits)"
  defines "s \<equiv> last32 base div 2 ^ k * 2 ^ k"
  shows "\<exists>b. based p b \<and> h_family b = h_family base \<and> take (last32_pos b) (h_bytes b) = take (last32_pos base) (h_bytes base) \<and>
    last32 base \<le> last32 b \<and> (2 \<le> k \<longrightarrow> s < last32 b) \<and> last32 b + unat (mp_size p) \<le> s + 2 ^ k - (if 2 \<le> k then 1 else 0)"
proof -
  let ?hb = "host_bits base bits" and ?B = "last32 base"
  have hb: "0 \<le> ?hb" "?hb \<le> 31" "k \<le> 31" using assms(3) by (auto simp: host_bits_def Let_def)
  let ?n = "push_bit k 1 :: u32" and ?diff = "network_id_diff base ?hb"
  have n: "unat ?n = 2 ^ k" using hb(3) unat_exp[of k] by (simp add: push_bit_eq_mult)
  have m: "unat ?diff = ?B mod 2 ^ k" "?B mod 2 ^ k < 2 ^ k" using network_id_diff_mod[OF assms(1) hb(1,2)] assms(3) by simp_all
  have B: "?B = s + ?B mod 2 ^ k" by (simp only: s_def div_mult_mod_eq)
  have E: "s + 2 ^ k \<le> 2 ^ 32" using block_end[of ?B k] host_okE(4)[OF assms(1)] hb(3) by (simp add: s_def)
  obtain b1 where b1: "apply_offset base 1 = Some b1" "host_ok b1" "h_family b1 = h_family base"
    "take (last32_pos b1) (h_bytes b1) = take (last32_pos base) (h_bytes base)" "last32 b1 = (?B + 1) mod 2 ^ 32"
    using apply_offset_ok[OF assms(1), of 1] by auto
  have cr: "Some p =
     (let (b, n) = (if ?n > 2 then if ?diff = 0 then (Some b1, ?n - 1 - 1) else (Some base, ?n - ?diff - 1)
                    else (Some base, if ?diff \<noteq> 0 then ?n - 1 else ?n))
      in if n = 0 then None else Some (create_generic\<lparr>mp_base := b, mp_size := n\<rparr>))"
  proof -
    have "(if x > 31 then 31 else x) = min 31 x" for x :: int by (simp add: min_def)
    then show ?thesis by (simp only: assms(2)[symmetric] mem_pool_create_def option.case Let_def b1(1) assms(3) host_bits_def)
  qed
  have d0: "?diff = 0 \<longleftrightarrow> ?B mod 2 ^ k = 0" using m(1) by (metis unsigned_0 word_unat_eq_iff)
  show ?thesis
  proof (cases "2 \<le> k")
    case True
    then have "(2::nat) ^ 2 \<le> 2 ^ k" by (intro power_increasing) auto
    then have k4: "(4::nat) \<le> 2 ^ k" by simp
    then have "?n > 2" using n by (simp add: word_less_nat_alt)
    show ?thesis
    proof (cases "?diff = 0")
      case D: True
      have n1: "unat (?n - 1) = 2 ^ k - 1" using n k4 unat_dec_offset[of ?n] by simp
      have "unat (?n - 1 - 1) = unat (?n - 1) - 1" using n1 k4 by (intro unat_dec_offset) simp
      then have "unat (?n - 1 - 1) = 2 ^ k - 2" using n1 by simp
      moreover have "last32 b1 = s + 1" using b1(5) B D d0 E k4 by simp
      moreover have "?B = s" using B D d0 by simp
      ultimately show ?thesis using cr \<open>?n > 2\<close> D True b1 k4
        by (intro exI[of _ b1]) (auto simp: based_def create_generic_def split: if_splits)
    next
      case D: False
      have nd: "unat (?n - ?diff) = 2 ^ k - ?B mod 2 ^ k" using n m by (simp add: unat_sub word_le_nat_alt)
      have "1 \<le> unat (?n - ?diff)" using nd m(2) by linarith
      then have "unat (?n - ?diff - 1) = 2 ^ k - ?B mod 2 ^ k - 1" using nd by (simp only: unat_dec_offset)
      moreover have "?B + (2 ^ k - ?B mod 2 ^ k - 1) \<le> s + 2 ^ k - 1" using B m(2) by linarith
      moreover have "s < ?B" using B D d0 by linarith
      ultimately show ?thesis using assms(1) cr \<open>?n > 2\<close> D True
        by (intro exI[of _ base]) (auto simp: based_def create_generic_def split: if_splits)
    qed
  next
    case False
    then have "k = 0 \<or> k = 1" by auto
    then have small: "\<not> ?n > 2" using n by (auto simp: word_less_nat_alt)
    have "unat (if ?diff \<noteq> 0 then ?n - 1 else ?n) \<le> 2 ^ k - ?B mod 2 ^ k"
    proof (cases "?diff = 0")
      case True
      then show ?thesis using n d0 by simp
    next
      case D: False
      then have "?B mod 2 ^ k = 1" "k = 1" using \<open>k = 0 \<or> k = 1\<close> d0 by auto
      then show ?thesis using D n by (simp add: unat_dec_offset)
    qed
    then have "?B + unat (if ?diff \<noteq> 0 then ?n - 1 else ?n) \<le> s + 2 ^ k" using B m(2) by linarith
    then show ?thesis using assms(1) cr small False
      by (intro exI[of _ base]) (auto simp: based_def create_generic_def split: if_splits)
  qed
qed

text \<open>
  C27. A pool serves usable addresses of its subnet only: every address of a pool created from a base address and a prefix
  length has the bytes and the prefix of the base, is not below it, and is neither the network address
  nor the broadcast address if the subnet has more than two addresses.
\<close>

theorem pool_serves_subnet:
  assumes "host_ok base" "mem_pool_create (Some base) bits = Some p" "k = nat (host_bits base bits)"
    and "1 \<le> unat d" "unat d \<le> unat (mp_size p)"
  shows "\<exists>h. offset2host p d = Some (Some h) \<and> h_family h = h_family base \<and>
    take (last32_pos h) (h_bytes h) = take (last32_pos base) (h_bytes base) \<and> last32 base \<le> last32 h \<and>
    last32 h div 2 ^ k = last32 base div 2 ^ k \<and> (2 \<le> k \<longrightarrow> last32 h mod 2 ^ k \<noteq> 0 \<and> last32 h mod 2 ^ k \<noteq> 2 ^ k - 1)"
proof -
  define s where "s = last32 base div 2 ^ k * 2 ^ k"
  obtain b where b: "based p b" "h_family b = h_family base" "take (last32_pos b) (h_bytes b) = take (last32_pos base) (h_bytes base)"
    "last32 base \<le> last32 b" "2 \<le> k \<longrightarrow> s < last32 b" "last32 b + unat (mp_size p) \<le> s + 2 ^ k - (if 2 \<le> k then 1 else 0)"
    using pool_block[OF assms(1-3)] unfolding s_def by blast
  obtain h where h: "offset2host p d = Some (Some h)" "h_family h = h_family b"
    "take (last32_pos h) (h_bytes h) = take (last32_pos b) (h_bytes b)" "last32 h = (last32 b + (unat d - 1)) mod 2 ^ 32"
    using offset2host_ok[OF b(1) assms(4,5)] by blast
  have k: "k \<le> 31" using assms(3) by (auto simp: host_bits_def Let_def)
  have "s + 2 ^ k \<le> 2 ^ 32" using block_end[of "last32 base" k] host_okE(4)[OF assms(1)] k by (simp add: s_def)
  then have v: "last32 h = last32 b + (unat d - 1)" using h(4) b(6) assms(4,5) by (simp split: if_splits)
  have "s \<le> last32 base" by (simp add: s_def)
  then have low: "s \<le> last32 h" using v b(4) by simp
  then obtain r where r: "last32 h = s + r" using le_Suc_ex by blast
  have less: "r < 2 ^ k" using r v b(6) assms(4,5) by (simp split: if_splits)
  have dv: "last32 h div 2 ^ k = last32 base div 2 ^ k" "last32 h mod 2 ^ k = r" using r less by (simp_all add: s_def)
  moreover have "2 \<le> k \<longrightarrow> r \<noteq> 0 \<and> r \<noteq> 2 ^ k - 1" using r v b(5,6) assms(4,5) by auto
  ultimately show ?thesis using h(1-3) b(2-4) v by auto
qed

theorem pool_serves_subnet_witness:
  "mem_pool_create (Some (v4_host 10 0 0 0)) 30 = Some small_pool \<and> last32 (v4_host 10 0 0 0) = 167772160 \<and>
   (\<exists>h. offset2host small_pool 2 = Some (Some h) \<and> h_family h = AF_INET \<and> last32 h div 4 = 41943040 \<and> last32 h mod 4 \<noteq> 0 \<and> last32 h mod 4 \<noteq> 3)"
proof -
  have k: "2 = nat (host_bits (v4_host 10 0 0 0) 30)" by (simp add: host_bits_def Let_def v4_host_def)
  have l: "last32 (v4_host 10 0 0 0) = 167772160" by (simp add: last32_def v4_host_def addr_simps)
  have "mp_size small_pool = 2" by (simp add: small_pool_def create_generic_def)
  then show ?thesis using pool_serves_subnet[OF v4_host_ok small_pool_created k, of 2] l small_pool_created by (auto simp: v4_host_def)
qed

end
