(* ===== verification/Proposal.thy ===== *)
theory Proposal
  imports Prelude "HOL-Library.Monad_Syntax"
begin

text \<open>
  Proposals of algorithms and the selection of a common one
  (\<^verbatim>\<open>src/src/libstrongswan/crypto/proposal/proposal.c\<close>, \<^verbatim>\<open>src/src/libstrongswan/crypto/transform.h\<close>). Transform types
  and algorithms are numbers, as received from the peer. A proposal keeps the sorted set of the types
  of its transforms beside the transforms.
\<close>

section \<open>Model\<close>

datatype protocol_id_t = PROTO_NONE | PROTO_IKE | PROTO_AH | PROTO_ESP | PROTO_IPCOMP

type_synonym transform_type_t = nat

abbreviation (input) ENCRYPTION_ALGORITHM :: transform_type_t where "ENCRYPTION_ALGORITHM \<equiv> 1"
abbreviation (input) PSEUDO_RANDOM_FUNCTION :: transform_type_t where "PSEUDO_RANDOM_FUNCTION \<equiv> 2"
abbreviation (input) INTEGRITY_ALGORITHM :: transform_type_t where "INTEGRITY_ALGORITHM \<equiv> 3"
abbreviation (input) KEY_EXCHANGE_METHOD :: transform_type_t where "KEY_EXCHANGE_METHOD \<equiv> 4"
abbreviation (input) EXTENDED_SEQUENCE_NUMBERS :: transform_type_t where "EXTENDED_SEQUENCE_NUMBERS \<equiv> 5"
abbreviation (input) ADDITIONAL_KEY_EXCHANGE_1 :: transform_type_t where "ADDITIONAL_KEY_EXCHANGE_1 \<equiv> 6"
abbreviation (input) ADDITIONAL_KEY_EXCHANGE_7 :: transform_type_t where "ADDITIONAL_KEY_EXCHANGE_7 \<equiv> 12"

definition is_ke_transform :: "transform_type_t \<Rightarrow> bool" where
  "is_ke_transform type \<longleftrightarrow> type = KEY_EXCHANGE_METHOD \<or> ADDITIONAL_KEY_EXCHANGE_1 \<le> type \<and> type \<le> ADDITIONAL_KEY_EXCHANGE_7"

text \<open>AES-CCM and AES-GCM with three sizes of tags each, AES-GMAC, Camellia-CCM and ChaCha20-Poly1305.\<close>

definition encryption_algorithm_is_aead :: "u16 \<Rightarrow> bool" where
  "encryption_algorithm_is_aead alg \<longleftrightarrow> alg \<in> {14, 15, 16, 18, 19, 20, 21, 25, 26, 27, 28}"

abbreviation (input) PROPOSAL_PREFER_SUPPLIED :: u32 where "PROPOSAL_PREFER_SUPPLIED \<equiv> 1"
abbreviation (input) PROPOSAL_SKIP_PRIVATE :: u32 where "PROPOSAL_SKIP_PRIVATE \<equiv> 2"
abbreviation (input) PROPOSAL_SKIP_KE :: u32 where "PROPOSAL_SKIP_KE \<equiv> 4"

abbreviation (input) has_flag :: "u32 \<Rightarrow> u32 \<Rightarrow> bool" where "has_flag flags f \<equiv> flags AND f \<noteq> 0"

record transform_t =
  tf_type :: transform_type_t
  tf_alg :: u16
  tf_key_size :: u16

record proposal_t =
  pr_protocol :: protocol_id_t
  pr_transforms :: "transform_t list"
  pr_types :: "transform_type_t list"
  pr_spi :: u64
  pr_number :: u8
  pr_transform_number :: u8

definition type_for_sort :: "transform_type_t \<Rightarrow> transform_type_t" where
  "type_for_sort type =
     (if type = PSEUDO_RANDOM_FUNCTION then INTEGRITY_ALGORITHM
      else if type = INTEGRITY_ALGORITHM then PSEUDO_RANDOM_FUNCTION else type)"

text \<open>\<^verbatim>\<open>bsearch\<close> of the C library on the positions \<open>l\<close> to \<open>u\<close> with the comparison \<^verbatim>\<open>type_find\<close>.\<close>

function type_bsearch :: "transform_type_t list \<Rightarrow> transform_type_t \<Rightarrow> nat \<Rightarrow> nat \<Rightarrow> nat option" where
  "type_bsearch types type l u =
     (if l < u
      then let i = (l + u) div 2
           in if type_for_sort type < type_for_sort (types ! i) then type_bsearch types type l i
              else if type_for_sort type > type_for_sort (types ! i) then type_bsearch types type (i + 1) u
              else Some i
      else None)"
  by pat_completeness auto
termination
  by (relation "measure (\<lambda>(types, type, l, u). u - l)") auto

declare type_bsearch.simps [simp del]

definition contains_type :: "transform_type_t list \<Rightarrow> transform_type_t \<Rightarrow> bool" where
  "contains_type types type \<longleftrightarrow> type_bsearch types type 0 (length types) \<noteq> None"

definition add_type :: "transform_type_t list \<Rightarrow> transform_type_t \<Rightarrow> transform_type_t list" where
  "add_type types type = (if contains_type types type then types else sort_key type_for_sort (types @ [type]))"

definition merge_types :: "proposal_t \<Rightarrow> proposal_t \<Rightarrow> transform_type_t list" where
  "merge_types this other =
     foldl (\<lambda>types i.
              let types = (if i < length (pr_types this) then add_type types (pr_types this ! i) else types)
              in if i < length (pr_types other) then add_type types (pr_types other ! i) else types)
       [] [0..<max (length (pr_types this)) (length (pr_types other))]"

definition remove_type :: "proposal_t \<Rightarrow> transform_type_t \<Rightarrow> proposal_t" where
  "remove_type this type =
     (case type_bsearch (pr_types this) type 0 (length (pr_types this)) of
        Some i \<Rightarrow> this\<lparr>pr_types := take i (pr_types this) @ drop (i + 1) (pr_types this)\<rparr>
      | None \<Rightarrow> this)"

definition add_algorithm :: "proposal_t \<Rightarrow> transform_type_t \<Rightarrow> u16 \<Rightarrow> u16 \<Rightarrow> proposal_t" where
  "add_algorithm this type alg key_size =
     this\<lparr>pr_transforms := pr_transforms this @ [\<lparr>tf_type = type, tf_alg = alg, tf_key_size = key_size\<rparr>],
          pr_types := add_type (pr_types this) type\<rparr>"

text \<open>What the enumerator of a type returns.\<close>

definition algs_of :: "proposal_t \<Rightarrow> transform_type_t \<Rightarrow> (u16 \<times> u16) list" where
  "algs_of this type = map (\<lambda>e. (tf_alg e, tf_key_size e)) (filter (\<lambda>e. tf_type e = type) (pr_transforms this))"

definition get_algorithm :: "proposal_t \<Rightarrow> transform_type_t \<Rightarrow> (u16 \<times> u16) option" where
  "get_algorithm this type = (case algs_of this type of [] \<Rightarrow> None | x # _ \<Rightarrow> Some x)"

definition has_transform :: "proposal_t \<Rightarrow> transform_type_t \<Rightarrow> u16 \<Rightarrow> bool" where
  "has_transform this type alg =
     (let current = map fst (algs_of this type)
      in if list_ex (\<lambda>c. c \<noteq> 0 \<and> alg \<noteq> 0 \<and> c = alg) current then True
         else \<not> list_ex (\<lambda>c. c \<noteq> 0) current \<and> alg = 0)"

definition promote_transform :: "proposal_t \<Rightarrow> transform_type_t \<Rightarrow> u16 \<Rightarrow> bool \<times> proposal_t" where
  "promote_transform this type alg =
     (let fits = (\<lambda>e. tf_type e = type \<and> tf_alg e = alg)
      in if list_ex fits (pr_transforms this)
         then (True, this\<lparr>pr_transforms := \<lparr>tf_type = type, tf_alg = alg, tf_key_size = 0\<rparr> #
                                            filter (\<lambda>e. \<not> fits e) (pr_transforms this)\<rparr>)
         else (False, this))"

text \<open>
  The loops of \<^verbatim>\<open>select_algo\<close>: the first algorithm of this proposal that the other one has, too. Key exchanges
  that are already selected are skipped.
\<close>

fun match_alg :: "u32 \<Rightarrow> u16 \<times> u16 \<Rightarrow> (u16 \<times> u16) list \<Rightarrow> bool" where
  "match_alg flags a1 [] = False"
| "match_alg flags a1 (a2 # e2) =
     (if a1 = a2
      then if has_flag flags PROPOSAL_SKIP_PRIVATE \<and> fst a1 \<ge> 1024 then match_alg flags a1 e2 else True
      else match_alg flags a1 e2)"

fun first_match :: "u32 \<Rightarrow> transform_type_t \<Rightarrow> u16 list \<Rightarrow> (u16 \<times> u16) list \<Rightarrow> (u16 \<times> u16) list \<Rightarrow> (u16 \<times> u16) option" where
  "first_match flags type kes [] e2 = None"
| "first_match flags type kes (a1 # e1) e2 =
     (if is_ke_transform type \<and> fst a1 \<in> set kes then first_match flags type kes e1 e2
      else if match_alg flags a1 e2 then Some a1 else first_match flags type kes e1 e2)"

definition select_algo ::
  "proposal_t \<Rightarrow> proposal_t \<Rightarrow> transform_type_t \<Rightarrow> u32 \<Rightarrow> u16 list \<Rightarrow> (u16 \<times> u16) option" where
  "select_algo this other type flags kes =
     (let optional = is_ke_transform type \<and>
            (pr_protocol this = PROTO_ESP \<or> pr_protocol this = PROTO_AH \<or> type \<noteq> KEY_EXCHANGE_METHOD);
          e1 = algs_of this type;
          e2 = algs_of other type;
          found = (if e1 = []
                   then if e2 = [] then True else optional \<and> list_ex (\<lambda>a. fst a = 0) e2
                   else e2 = [] \<and> optional \<and> list_ex (\<lambda>a. fst a = 0) e1)
      in if found then Some (0, 0) else first_match flags type kes e1 e2)"

fun select_algos_loop ::
  "proposal_t \<Rightarrow> proposal_t \<Rightarrow> u32 \<Rightarrow> transform_type_t list \<Rightarrow> bool \<Rightarrow> u16 list \<Rightarrow> proposal_t option \<Rightarrow>
   bool \<times> proposal_t option" where
  "select_algos_loop this other flags [] skip_integrity kes selected = (True, selected)"
| "select_algos_loop this other flags (type # types) skip_integrity kes selected =
     (if type = INTEGRITY_ALGORITHM \<and> skip_integrity
      then select_algos_loop this other flags types skip_integrity kes selected
      else if is_ke_transform type \<and> has_flag flags PROPOSAL_SKIP_KE
      then select_algos_loop this other flags types skip_integrity kes selected
      else case select_algo this other type flags kes of
             None \<Rightarrow> (False, selected)
           | Some (alg, ks) \<Rightarrow>
               if alg = 0 \<and> type \<noteq> EXTENDED_SEQUENCE_NUMBERS
               then select_algos_loop this other flags types skip_integrity kes selected
               else select_algos_loop this other flags types
                      (skip_integrity \<or> type = ENCRYPTION_ALGORITHM \<and> encryption_algorithm_is_aead alg)
                      (if is_ke_transform type then alg # kes else kes)
                      (map_option (\<lambda>s. add_algorithm s type alg ks) selected))"

definition select_algos :: "proposal_t \<Rightarrow> proposal_t \<Rightarrow> proposal_t option \<Rightarrow> u32 \<Rightarrow> bool \<times> proposal_t option" where
  "select_algos this other selected flags = select_algos_loop this other flags (merge_types this other) False [] selected"

definition proposal_create_v1 :: "protocol_id_t \<Rightarrow> u8 \<Rightarrow> u8 \<Rightarrow> proposal_t" where
  "proposal_create_v1 protocol number transform =
     \<lparr>pr_protocol = protocol, pr_transforms = [], pr_types = [], pr_spi = 0, pr_number = number,
      pr_transform_number = transform\<rparr>"

definition proposal_create :: "protocol_id_t \<Rightarrow> u8 \<Rightarrow> proposal_t" where
  "proposal_create protocol number = proposal_create_v1 protocol number 0"

definition select_proposal :: "proposal_t \<Rightarrow> proposal_t \<Rightarrow> u32 \<Rightarrow> proposal_t option" where
  "select_proposal this other flags =
     (if pr_protocol this \<noteq> pr_protocol other then None
      else let source = (if has_flag flags PROPOSAL_PREFER_SUPPLIED then this else other);
               selected = proposal_create_v1 (pr_protocol this) (pr_number source) (pr_transform_number source)
                            \<lparr>pr_spi := pr_spi source\<rparr>;
               (ok, selected) = select_algos this other (Some selected) flags
           in if ok then selected else None)"

definition proposal_matches :: "proposal_t \<Rightarrow> proposal_t \<Rightarrow> u32 \<Rightarrow> bool" where
  "proposal_matches this other flags \<longleftrightarrow>
     pr_protocol this = pr_protocol other \<and> fst (select_algos this other None flags)"

fun algs_equal :: "(u16 \<times> u16) list \<Rightarrow> (u16 \<times> u16) list \<Rightarrow> bool" where
  "algs_equal [] [] = True"
| "algs_equal (a1 # e1) [] = False"
| "algs_equal [] (a2 # e2) = False"
| "algs_equal (a1 # e1) (a2 # e2) = (if fst a1 \<noteq> fst a2 \<or> snd a1 \<noteq> snd a2 then False else algs_equal e1 e2)"

definition algo_list_equals :: "proposal_t \<Rightarrow> proposal_t \<Rightarrow> transform_type_t \<Rightarrow> bool" where
  "algo_list_equals this other type = algs_equal (algs_of this type) (algs_of other type)"

definition proposal_equals :: "proposal_t \<Rightarrow> proposal_t \<Rightarrow> bool" where
  "proposal_equals this other \<longleftrightarrow> list_all (algo_list_equals this other) (merge_types this other)"

definition proposal_clone :: "proposal_t \<Rightarrow> u32 \<Rightarrow> proposal_t" where
  "proposal_clone this flags =
     (foldl (\<lambda>clone e.
        if tf_alg e \<ge> 1024 \<and> has_flag flags PROPOSAL_SKIP_PRIVATE then clone
        else if is_ke_transform (tf_type e) \<and> has_flag flags PROPOSAL_SKIP_KE then clone
        else clone\<lparr>pr_transforms := pr_transforms clone @ [e], pr_types := add_type (pr_types clone) (tf_type e)\<rparr>)
        (proposal_create (pr_protocol this) 0) (pr_transforms this))
     \<lparr>pr_spi := pr_spi this, pr_number := pr_number this, pr_transform_number := pr_transform_number this\<rparr>"

text \<open>Integrity algorithms and the PRF that uses the same algorithm: HMACs, XCBC and CMAC.\<close>

definition integ_prf_map :: "(u16 \<times> u16) list" where
  "integ_prf_map = [(2, 2), (7, 2), (12, 5), (13, 6), (14, 7), (1, 1), (6, 1), (5, 4), (1030, 1028), (8, 8)]"

definition remove_transform :: "proposal_t \<Rightarrow> transform_type_t \<Rightarrow> proposal_t" where
  "remove_transform this type =
     remove_type (this\<lparr>pr_transforms := filter (\<lambda>e. tf_type e \<noteq> type) (pr_transforms this)\<rparr>) type"

definition add_prfs :: "proposal_t \<Rightarrow> proposal_t" where
  "add_prfs this =
     foldl (\<lambda>this (alg, ks). case map_of integ_prf_map alg of
                               Some prf \<Rightarrow> add_algorithm this PSEUDO_RANDOM_FUNCTION prf 0
                             | None \<Rightarrow> this) this (algs_of this INTEGRITY_ALGORITHM)"

definition check_ike :: "proposal_t \<Rightarrow> proposal_t option" where
  "check_ike this =
     (let this = (if get_algorithm this PSEUDO_RANDOM_FUNCTION = None then add_prfs this else this)
      in if get_algorithm this PSEUDO_RANDOM_FUNCTION = None then None
         else let this = this\<lparr>pr_transforms := filter (\<lambda>e. \<not> (tf_type e = KEY_EXCHANGE_METHOD \<and> tf_alg e = 0)) (pr_transforms this)\<rparr>
              in if get_algorithm this KEY_EXCHANGE_METHOD = None then None else Some this)"

definition check_encryption :: "proposal_t \<Rightarrow> proposal_t option" where
  "check_encryption this =
     (let encr = map fst (algs_of this ENCRYPTION_ALGORITHM);
          any_enc = (encr \<noteq> []);
          any_aead = list_ex encryption_algorithm_is_aead encr;
          all_aead = list_all encryption_algorithm_is_aead encr
      in if \<not> any_enc then None
         else if any_aead \<and> \<not> all_aead then None
         else if all_aead then Some (remove_transform this INTEGRITY_ALGORITHM)
         else if pr_protocol this = PROTO_IKE \<and> get_algorithm this INTEGRITY_ALGORITHM = None then None
         else Some this)"

text \<open>AES-GMAC (21) is mapped to the integrity algorithm of its key size, other encryption algorithms are removed.\<close>

definition map_gmac :: "transform_t \<Rightarrow> transform_t option" where
  "map_gmac e =
     (if tf_type e = ENCRYPTION_ALGORITHM
      then if tf_alg e = 21
           then if tf_key_size e = 128 then Some \<lparr>tf_type = INTEGRITY_ALGORITHM, tf_alg = 9, tf_key_size = 0\<rparr>
                else if tf_key_size e = 192 then Some \<lparr>tf_type = INTEGRITY_ALGORITHM, tf_alg = 10, tf_key_size = 0\<rparr>
                else if tf_key_size e = 256 then Some \<lparr>tf_type = INTEGRITY_ALGORITHM, tf_alg = 11, tf_key_size = 0\<rparr>
                else None
           else None
      else Some e)"

definition check_ah :: "proposal_t \<Rightarrow> proposal_t option" where
  "check_ah this =
     (let this = remove_type (this\<lparr>pr_transforms := List.map_filter map_gmac (pr_transforms this)\<rparr>) ENCRYPTION_ALGORITHM
      in if get_algorithm this INTEGRITY_ALGORITHM = None then None else Some this)"

definition check_proposal :: "proposal_t \<Rightarrow> proposal_t option" where
  "check_proposal this =
     do { this \<leftarrow> (if pr_protocol this = PROTO_IKE then check_ike this
                    else Some (remove_transform this PSEUDO_RANDOM_FUNCTION));
          this \<leftarrow> (if pr_protocol this = PROTO_IKE \<or> pr_protocol this = PROTO_ESP then check_encryption this
                    else check_ah this);
          Some (if (pr_protocol this = PROTO_AH \<or> pr_protocol this = PROTO_ESP) \<and>
                   get_algorithm this EXTENDED_SEQUENCE_NUMBERS = None
                then add_algorithm this EXTENDED_SEQUENCE_NUMBERS 0 0 else this) }"

text \<open>
  Configured proposals are strings of keywords. The keywords are found in a table that the build generates
  (a parameter), among the registered tokens and by the registered parsers. The reader of tokens
  (\<^verbatim>\<open>src/src/libstrongswan/collections/enumerator.c\<close>) takes the characters that separate tokens and those that
  are trimmed from them; it returns the token and the rest of the string.
\<close>

record proposal_keywords_t =
  kw_static :: "string \<Rightarrow> transform_t option"
  kw_tokens :: "(string \<times> transform_t) list"
  kw_parsers :: "(string \<Rightarrow> transform_t option) list"

definition find_token :: "proposal_keywords_t \<Rightarrow> string \<Rightarrow> transform_t option" where
  "find_token this str = map_option snd (List.find (\<lambda>token. fst token = str) (kw_tokens this))"

fun parse_token :: "(string \<Rightarrow> transform_t option) list \<Rightarrow> string \<Rightarrow> transform_t option" where
  "parse_token [] str = None"
| "parse_token (parser # parsers) str = (case parser str of Some t \<Rightarrow> Some t | None \<Rightarrow> parse_token parsers str)"

definition get_token :: "proposal_keywords_t \<Rightarrow> string \<Rightarrow> transform_t option" where
  "get_token this str =
     (case kw_static this str of
        Some t \<Rightarrow> Some t
      | None \<Rightarrow> (case find_token this str of Some t \<Rightarrow> Some t | None \<Rightarrow> parse_token (kw_parsers this) str))"

definition register_token :: "proposal_keywords_t \<Rightarrow> string \<Rightarrow> transform_type_t \<Rightarrow> u16 \<Rightarrow> u16 \<Rightarrow> proposal_keywords_t" where
  "register_token this name type algorithm keysize =
     this\<lparr>kw_tokens := (name, \<lparr>tf_type = type, tf_alg = algorithm, tf_key_size = keysize\<rparr>) # kw_tokens this\<rparr>"

definition register_algname_parser :: "proposal_keywords_t \<Rightarrow> (string \<Rightarrow> transform_t option) \<Rightarrow> proposal_keywords_t" where
  "register_algname_parser this parser = this\<lparr>kw_parsers := parser # kw_parsers this\<rparr>"

fun skip_lead :: "string \<Rightarrow> string \<Rightarrow> string \<Rightarrow> string" where
  "skip_lead sep trim [] = []"
| "skip_lead sep trim (c # s) =
     (if c \<in> set trim
      then case s of d # s' \<Rightarrow> if d \<in> set sep then skip_lead sep trim s' else skip_lead sep trim s | [] \<Rightarrow> []
      else if c \<in> set sep then skip_lead sep trim s else c # s)"

definition trim_trail :: "string \<Rightarrow> string \<Rightarrow> string" where
  "trim_trail trim token = rev (dropWhile (\<lambda>c. c \<in> set trim) (rev token))"

definition enumerate_token_enum :: "string \<Rightarrow> string \<Rightarrow> string \<Rightarrow> (string \<times> string) option" where
  "enumerate_token_enum sep trim s =
     (let s = skip_lead sep trim s
      in if s \<noteq> [] \<and> (hd s = CHR 0x22 \<or> hd s = CHR 0x27) \<and> hd s \<in> set (tl s)
         then Some (takeWhile (\<lambda>c. c \<noteq> hd s) (tl s), tl (dropWhile (\<lambda>c. c \<noteq> hd s) (tl s)))
         else let token = takeWhile (\<lambda>c. c \<notin> set sep) s; rest = dropWhile (\<lambda>c. c \<notin> set sep) s
              in if rest \<noteq> [] then Some (trim_trail trim token, tl rest)
                 else if trim_trail trim token \<noteq> [] then Some (trim_trail trim token, []) else None)"

lemma skip_lead_eq: "skip_lead sep trim s = dropWhile (\<lambda>c. c \<in> set trim \<or> c \<in> set sep) s"
proof (induction s rule: length_induct)
  case (1 s)
  show ?case
  proof (cases s)
    case (Cons c s')
    then have "skip_lead sep trim s' = dropWhile (\<lambda>c. c \<in> set trim \<or> c \<in> set sep) s'"
      "s' \<noteq> [] \<Longrightarrow> skip_lead sep trim (tl s') = dropWhile (\<lambda>c. c \<in> set trim \<or> c \<in> set sep) (tl s')" using 1 by simp_all
    then show ?thesis using skip_lead.simps(2)[of sep trim c s'] unfolding Cons by (auto simp del: skip_lead.simps split: list.splits)
  qed simp
qed

lemma skip_lead_length: "length (skip_lead sep trim s) \<le> length s"
  by (simp add: skip_lead_eq length_dropWhile_le)

lemma enumerate_token_shorter: "enumerate_token_enum sep trim s = Some (token, rest) \<Longrightarrow> length rest < length s"
proof -
  assume e: "enumerate_token_enum sep trim s = Some (token, rest)"
  let ?s = "skip_lead sep trim s"
  have ne: "?s \<noteq> []" using e by (auto simp: enumerate_token_enum_def Let_def trim_trail_def split: if_splits)
  have l: "length ?s = Suc (length (tl ?s))" using ne by (cases ?s) auto
  have "length (tl (dropWhile P (tl ?s))) < length ?s" "length (tl (dropWhile P ?s)) < length ?s" for P
    using l length_dropWhile_le[of P "tl ?s"] length_dropWhile_le[of P ?s] unfolding length_tl by linarith+
  then have "length rest < length ?s" using e ne by (auto simp: enumerate_token_enum_def Let_def split: if_splits)
  then show ?thesis using skip_lead_length[of sep trim s] by linarith
qed

function tokens_of :: "string \<Rightarrow> string \<Rightarrow> string \<Rightarrow> string list" where
  "tokens_of sep trim s =
     (case enumerate_token_enum sep trim s of Some (token, rest) \<Rightarrow> token # tokens_of sep trim rest | None \<Rightarrow> [])"
  by pat_completeness auto
termination
  by (relation "measure (\<lambda>(sep, trim, s). length s)") (auto simp: enumerate_token_shorter)

declare tokens_of.simps [simp del]

definition add_string_algo :: "proposal_keywords_t \<Rightarrow> proposal_t \<Rightarrow> string \<Rightarrow> proposal_t option" where
  "add_string_algo keywords this alg =
     (case get_token keywords alg of
        None \<Rightarrow> None
      | Some t \<Rightarrow> Some (add_algorithm this (tf_type t) (tf_alg t) (tf_key_size t)))"

fun add_string_algos :: "proposal_keywords_t \<Rightarrow> proposal_t \<Rightarrow> string list \<Rightarrow> proposal_t option" where
  "add_string_algos keywords this [] = Some this"
| "add_string_algos keywords this (alg # algs) =
     (case add_string_algo keywords this alg of None \<Rightarrow> None | Some this \<Rightarrow> add_string_algos keywords this algs)"

definition proposal_create_from_string :: "proposal_keywords_t \<Rightarrow> protocol_id_t \<Rightarrow> string \<Rightarrow> proposal_t option" where
  "proposal_create_from_string keywords protocol algs =
     (let tokens = tokens_of ''-'' '' '' algs
      in if tokens = [] then None
         else Option.bind (add_string_algos keywords (proposal_create protocol 0) tokens) check_proposal)"

fun select_match :: "proposal_t \<Rightarrow> proposal_t list \<Rightarrow> u32 \<Rightarrow> proposal_t option" where
  "select_match proposal [] flags = None"
| "select_match proposal (match # rest) flags =
     (case select_proposal proposal match flags of Some s \<Rightarrow> Some s | None \<Rightarrow> select_match proposal rest flags)"

fun select_prefer :: "proposal_t list \<Rightarrow> proposal_t list \<Rightarrow> u32 \<Rightarrow> proposal_t option" where
  "select_prefer [] matches flags = None"
| "select_prefer (proposal # rest) matches flags =
     (case select_match proposal matches flags of Some s \<Rightarrow> Some s | None \<Rightarrow> select_prefer rest matches flags)"

definition proposal_select :: "proposal_t list \<Rightarrow> proposal_t list \<Rightarrow> u32 \<Rightarrow> proposal_t option" where
  "proposal_select configured supplied flags =
     (if has_flag flags PROPOSAL_PREFER_SUPPLIED then select_prefer supplied configured flags
      else select_prefer configured supplied flags)"

definition proposal_has_additional_ke :: "proposal_t \<Rightarrow> bool" where
  "proposal_has_additional_ke this \<longleftrightarrow>
     list_ex (\<lambda>e. tf_type e \<noteq> KEY_EXCHANGE_METHOD \<and> is_ke_transform (tf_type e)) (pr_transforms this)"

definition add_algorithms :: "proposal_t \<Rightarrow> (transform_type_t \<times> u16 \<times> u16) list \<Rightarrow> proposal_t" where
  "add_algorithms this l = foldl (\<lambda>this (type, alg, ks). add_algorithm this type alg ks) this l"

text \<open>The algorithms that plugins support are parameters, in the order of the enumerators of the crypto factory.\<close>

record supported_t =
  sup_aeads :: "u16 list"
  sup_crypters :: "u16 list"
  sup_signers :: "u16 list"
  sup_prfs :: "u16 list"
  sup_kes :: "u16 list"

definition pick :: "u16 list \<Rightarrow> u16 list \<Rightarrow> transform_type_t \<Rightarrow> u16 list \<Rightarrow> (transform_type_t \<times> u16 \<times> u16) list" where
  "pick supported wanted type sizes = concat (map (\<lambda>alg. if alg \<in> set wanted then map (\<lambda>ks. (type, alg, ks)) sizes else []) supported)"

definition pick_aead :: "u16 list \<Rightarrow> (transform_type_t \<times> u16 \<times> u16) list" where
  "pick_aead supported = concat (map (\<lambda>alg.
     if alg \<in> set [20, 16, 27] then map (\<lambda>ks. (ENCRYPTION_ALGORITHM, alg, ks)) [128, 192, 256]
     else if alg = 28 then [(ENCRYPTION_ALGORITHM, alg, 0)] else []) supported)"

definition proposal_add_supported_ike :: "supported_t \<Rightarrow> proposal_t \<Rightarrow> bool \<Rightarrow> proposal_t option" where
  "proposal_add_supported_ike avail this aead =
     (let this = (if aead
                  then add_algorithms this (pick_aead (sup_aeads avail) @ pick (sup_aeads avail) [19, 18, 15, 14, 26, 25] ENCRYPTION_ALGORITHM [128, 192, 256])
                  else add_algorithms this (pick (sup_crypters avail) [12, 13, 23, 24] ENCRYPTION_ALGORITHM [128, 192, 256] @
                                            pick (sup_crypters avail) [3] ENCRYPTION_ALGORITHM [0]))
      in if pr_transforms this = [] then None
         else Some (add_algorithms this
           ((if aead then [] else pick (sup_signers avail) [12, 13, 14] INTEGRITY_ALGORITHM [0] @ pick (sup_signers avail) [5, 8, 2] INTEGRITY_ALGORITHM [0]) @
            pick (sup_prfs avail) [5, 6, 7] PSEUDO_RANDOM_FUNCTION [0] @ pick (sup_prfs avail) [4, 8] PSEUDO_RANDOM_FUNCTION [0] @
            pick (sup_prfs avail) [2] PSEUDO_RANDOM_FUNCTION [0] @
            pick (sup_kes avail) [19, 20, 21, 28, 29, 30, 31, 32] KEY_EXCHANGE_METHOD [0] @
            pick (sup_kes avail) [15, 16, 17, 18] KEY_EXCHANGE_METHOD [0] @ pick (sup_kes avail) [14] KEY_EXCHANGE_METHOD [0])))"

definition default_integ :: "(transform_type_t \<times> u16 \<times> u16) list" where
  "default_integ = map (\<lambda>alg. (INTEGRITY_ALGORITHM, alg, 0)) [12, 13, 14, 2, 5]"

definition proposal_create_default :: "supported_t \<Rightarrow> protocol_id_t \<Rightarrow> proposal_t option" where
  "proposal_create_default avail protocol =
     (let this = proposal_create protocol 0
      in case protocol of
           PROTO_IKE \<Rightarrow> proposal_add_supported_ike avail this False
         | PROTO_ESP \<Rightarrow> Some (add_algorithms this
             (map (\<lambda>ks. (ENCRYPTION_ALGORITHM, 12, ks)) [128, 192, 256] @ default_integ @ [(EXTENDED_SEQUENCE_NUMBERS, 0, 0)]))
         | PROTO_AH \<Rightarrow> Some (add_algorithms this (default_integ @ [(EXTENDED_SEQUENCE_NUMBERS, 0, 0)]))
         | _ \<Rightarrow> Some this)"

definition proposal_create_default_aead :: "supported_t \<Rightarrow> protocol_id_t \<Rightarrow> proposal_t option" where
  "proposal_create_default_aead avail protocol =
     (case protocol of
        PROTO_IKE \<Rightarrow> proposal_add_supported_ike avail (proposal_create protocol 0) True
      | PROTO_ESP \<Rightarrow> Some (add_algorithms (proposal_create protocol 0)
          (map (\<lambda>ks. (ENCRYPTION_ALGORITHM, 20, ks)) [128, 192, 256] @ [(EXTENDED_SEQUENCE_NUMBERS, 0, 0)]))
      | _ \<Rightarrow> None)"

end
