(* ===== verification/Proposal_Proofs.thy ===== *)
theory Proposal_Proofs
  imports Proposal
begin

text \<open>
  Selection of proposals: the sorted set of types is searched and kept correctly, a selected proposal
  contains only transforms that both sides offer, one for each type, and covers every offered type; configured
  proposals that pass the check are well formed.
\<close>

section \<open>Sets of types\<close>

lemma type_for_sort_inj: "type_for_sort a = type_for_sort b \<longleftrightarrow> a = b"
  by (auto simp: type_for_sort_def)

definition types_ok :: "transform_type_t list \<Rightarrow> bool" where
  "types_ok ts \<longleftrightarrow> sorted_wrt (\<lambda>a b. type_for_sort a < type_for_sort b) ts"

lemma types_ok_nth: "types_ok ts \<Longrightarrow> i < j \<Longrightarrow> j < length ts \<Longrightarrow> type_for_sort (ts ! i) < type_for_sort (ts ! j)"
  by (simp add: types_ok_def sorted_wrt_iff_nth_less)

lemma types_ok_iff: "types_ok ts \<longleftrightarrow> sorted (map type_for_sort ts) \<and> distinct ts"
proof -
  have "types_ok ts \<longleftrightarrow> sorted_wrt (<) (map type_for_sort ts)" by (simp add: types_ok_def sorted_wrt_map)
  also have "\<dots> \<longleftrightarrow> sorted (map type_for_sort ts) \<and> distinct (map type_for_sort ts)" by (rule strict_sorted_iff)
  finally show ?thesis by (simp add: distinct_map inj_on_def type_for_sort_inj)
qed

lemma bsearch_ok:
  assumes "types_ok ts" "u \<le> length ts"
  shows "case type_bsearch ts type l u of
      Some i \<Rightarrow> l \<le> i \<and> i < u \<and> ts ! i = type
    | None \<Rightarrow> \<forall>i. l \<le> i \<and> i < u \<longrightarrow> ts ! i \<noteq> type"
  using assms
proof (induction ts type l u rule: type_bsearch.induct)
  case (1 ts type l u)
  show ?case
  proof (cases "l < u")
    case False
    then show ?thesis by (subst type_bsearch.simps) simp
  next
    case True
    define i where "i = (l + u) div 2"
    have i: "l \<le> i" "i < u" "i < length ts" using True 1(4) by (auto simp: i_def)
    consider "type_for_sort type < type_for_sort (ts ! i)" | "type_for_sort type > type_for_sort (ts ! i)" | "type = ts ! i"
      using type_for_sort_inj[of type "ts ! i"] by linarith
    then show ?thesis
    proof cases
      case 1
      then have e: "type_bsearch ts type l u = type_bsearch ts type l i" using True by (subst type_bsearch.simps) (simp add: i_def)
      have "ts ! j \<noteq> type" if "i \<le> j" "j < u" for j
        using types_ok_nth[OF "1.prems"(1), of i j] that 1 "1.prems"(2) by (cases "i = j") auto
      moreover have "i \<le> length ts" using i by simp
      ultimately show ?thesis using "1.IH"(1)[OF True i_def 1 "1.prems"(1)] i unfolding e
        by (auto split: option.splits) (metis not_le)
    next
      case 2
      then have e: "type_bsearch ts type l u = type_bsearch ts type (i + 1) u" using True by (subst type_bsearch.simps) (simp add: i_def)
      have "ts ! j \<noteq> type" if "j \<le> i" for j
        using types_ok_nth[OF "1.prems"(1), of j i] that 2 i(3) by (cases "i = j") auto
      moreover have "\<not> type_for_sort type < type_for_sort (ts ! i)" using 2 by simp
      ultimately show ?thesis using "1.IH"(2)[OF True i_def _ 2 "1.prems"] i unfolding e
        by (auto split: option.splits) (metis Suc_leI not_le)
    next
      case 3
      then have "type_bsearch ts type l u = Some i" using True by (subst type_bsearch.simps) (simp add: i_def)
      then show ?thesis using i 3 by simp
    qed
  qed
qed

lemma bsearch_Some: "types_ok ts \<Longrightarrow> type_bsearch ts type 0 (length ts) = Some i \<Longrightarrow> i < length ts \<and> ts ! i = type"
  using bsearch_ok[where ts = ts and u = "length ts" and type = type and l = 0] by simp

lemma contains_type_iff: "types_ok ts \<Longrightarrow> contains_type ts type \<longleftrightarrow> type \<in> set ts"
  using bsearch_ok[where ts = ts and u = "length ts" and type = type and l = 0] by (auto simp: contains_type_def in_set_conv_nth split: option.splits)

lemma add_type_ok:
  assumes "types_ok ts"
  shows "types_ok (add_type ts type)" "set (add_type ts type) = insert type (set ts)"
  using assms contains_type_iff[OF assms, of type] by (auto simp: add_type_def types_ok_iff)

lemma remove_type_ok:
  assumes "types_ok (pr_types p)"
  shows "types_ok (pr_types (remove_type p type))" "set (pr_types (remove_type p type)) = set (pr_types p) - {type}"
proof -
  let ?ts = "pr_types p"
  have "types_ok (pr_types (remove_type p type)) \<and> set (pr_types (remove_type p type)) = set ?ts - {type}"
  proof (cases "type_bsearch ?ts type 0 (length ?ts)")
    case None
    then have "type \<notin> set ?ts" using contains_type_iff[OF assms, of type] by (simp add: contains_type_def)
    then show ?thesis using None assms by (simp add: remove_type_def)
  next
    case (Some i)
    then have i: "i < length ?ts" "?ts ! i = type" using bsearch_Some[OF assms] by auto
    have s: "?ts = take i ?ts @ type # drop (i + 1) ?ts" using id_take_nth_drop[OF i(1)] i(2) by simp
    have r: "pr_types (remove_type p type) = take i ?ts @ drop (i + 1) ?ts" using Some by (simp add: remove_type_def)
    have "types_ok (take i ?ts @ type # drop (i + 1) ?ts)" using assms s by simp
    then have "types_ok (take i ?ts @ drop (i + 1) ?ts)" "type \<notin> set (take i ?ts) \<union> set (drop (i + 1) ?ts)"
      by (auto simp: types_ok_def sorted_wrt_append)
    moreover have "set ?ts = set (take i ?ts @ type # drop (i + 1) ?ts)" using s by (rule arg_cong)
    ultimately show ?thesis using r by auto
  qed
  then show "types_ok (pr_types (remove_type p type))" "set (pr_types (remove_type p type)) = set (pr_types p) - {type}" by blast+
qed

lemma merge_types_ok: "types_ok (merge_types this other)" "set (merge_types this other) = set (pr_types this) \<union> set (pr_types other)"
proof -
  let ?A = "pr_types this" and ?B = "pr_types other"
  let ?f = "\<lambda>types i. let types = (if i < length ?A then add_type types (?A ! i) else types)
              in if i < length ?B then add_type types (?B ! i) else types"
  have "types_ok (foldl ?f [] [0..<n]) \<and> set (foldl ?f [] [0..<n]) = set (take n ?A) \<union> set (take n ?B)" for n
  proof (induction n)
    case 0
    then show ?case by (simp add: types_ok_def)
  next
    case (Suc n)
    then show ?case by (auto simp: Let_def add_type_ok take_Suc_conv_app_nth)
  qed
  from this[of "max (length ?A) (length ?B)"]
  show "types_ok (merge_types this other)" "set (merge_types this other) = set ?A \<union> set ?B"
    unfolding merge_types_def by simp_all
qed

section \<open>Well-formed proposals\<close>

text \<open>The set of types of a proposal is the set of the types of its transforms.\<close>

definition proposal_ok :: "proposal_t \<Rightarrow> bool" where
  "proposal_ok p \<longleftrightarrow> types_ok (pr_types p) \<and> set (pr_types p) = tf_type ` set (pr_transforms p)"

lemma algs_of_Nil: "algs_of p type = [] \<longleftrightarrow> type \<notin> tf_type ` set (pr_transforms p)"
  by (auto simp: algs_of_def filter_empty_conv)

lemma in_algs_of: "(alg, ks) \<in> set (algs_of p type) \<longleftrightarrow> \<lparr>tf_type = type, tf_alg = alg, tf_key_size = ks\<rparr> \<in> set (pr_transforms p)"
  (is "?l \<longleftrightarrow> ?r")
proof
  assume ?l
  then obtain e where "e \<in> set (pr_transforms p)" "tf_type e = type" "tf_alg e = alg" "tf_key_size e = ks"
    by (auto simp: algs_of_def)
  then show ?r by (cases e rule: transform_t.cases) simp
next
  assume ?r
  then show ?l by (force simp: algs_of_def)
qed

lemma get_algorithm_None: "get_algorithm p type = None \<longleftrightarrow> type \<notin> tf_type ` set (pr_transforms p)"
  by (simp add: get_algorithm_def algs_of_Nil[symmetric] split: list.split)

lemma proposal_create_ok: "proposal_ok (proposal_create_v1 protocol n tn)" "proposal_ok (proposal_create protocol n)"
  by (simp_all add: proposal_ok_def proposal_create_def proposal_create_v1_def types_ok_def)

lemma add_algorithm_ok: "proposal_ok p \<Longrightarrow> proposal_ok (add_algorithm p type alg ks)"
  by (simp add: proposal_ok_def add_algorithm_def add_type_ok)

lemma add_algorithms_ok: "proposal_ok p \<Longrightarrow> proposal_ok (add_algorithms p l)"
  unfolding add_algorithms_def by (induction l arbitrary: p) (auto simp: add_algorithm_ok)

lemma remove_transform_ok: "proposal_ok p \<Longrightarrow> proposal_ok (remove_transform p type)"
  using remove_type_ok[of "p\<lparr>pr_transforms := filter (\<lambda>e. tf_type e \<noteq> type) (pr_transforms p)\<rparr>" type]
  by (auto simp: proposal_ok_def remove_transform_def remove_type_def split: option.splits)

lemma proposal_clone_ok:
  "proposal_ok (proposal_clone p flags)"
  "pr_transforms (proposal_clone p flags) =
     filter (\<lambda>e. \<not> (tf_alg e \<ge> 1024 \<and> has_flag flags PROPOSAL_SKIP_PRIVATE) \<and> \<not> (is_ke_transform (tf_type e) \<and> has_flag flags PROPOSAL_SKIP_KE))
       (pr_transforms p)"
proof -
  let ?f = "\<lambda>clone e.
        if tf_alg e \<ge> 1024 \<and> has_flag flags PROPOSAL_SKIP_PRIVATE then clone
        else if is_ke_transform (tf_type e) \<and> has_flag flags PROPOSAL_SKIP_KE then clone
        else clone\<lparr>pr_transforms := pr_transforms clone @ [e], pr_types := add_type (pr_types clone) (tf_type e)\<rparr>"
  let ?P = "\<lambda>e. \<not> (tf_alg e \<ge> 1024 \<and> has_flag flags PROPOSAL_SKIP_PRIVATE) \<and> \<not> (is_ke_transform (tf_type e) \<and> has_flag flags PROPOSAL_SKIP_KE)"
  have "proposal_ok (foldl ?f q es) \<and> pr_transforms (foldl ?f q es) = pr_transforms q @ filter ?P es" if "proposal_ok q" for q es
    using that
  proof (induction es arbitrary: q)
    case (Cons e es)
    have "proposal_ok (q\<lparr>pr_transforms := pr_transforms q @ [e], pr_types := add_type (pr_types q) (tf_type e)\<rparr>)"
      using Cons.prems by (simp add: proposal_ok_def add_type_ok)
    then show ?case using Cons.IH Cons.prems by simp
  qed simp
  from this[OF proposal_create_ok(2), of "pr_protocol p" 0 "pr_transforms p"]
  show "proposal_ok (proposal_clone p flags)"
    "pr_transforms (proposal_clone p flags) = filter ?P (pr_transforms p)"
    by (simp_all add: proposal_clone_def proposal_ok_def proposal_create_def proposal_create_v1_def)
qed

lemma promote_transform_ok:
  assumes "proposal_ok p" "promote_transform p type alg = (found, q)"
  shows "proposal_ok q" "found \<longleftrightarrow> (\<exists>ks. (alg, ks) \<in> set (algs_of p type))" "found \<Longrightarrow> get_algorithm q type = Some (alg, 0)"
proof -
  have e: "list_ex (\<lambda>e. tf_type e = type \<and> tf_alg e = alg) (pr_transforms p) \<longleftrightarrow> (\<exists>ks. (alg, ks) \<in> set (algs_of p type))"
    by (auto simp: list_ex_iff algs_of_def)
  show "proposal_ok q" "found \<longleftrightarrow> (\<exists>ks. (alg, ks) \<in> set (algs_of p type))" "found \<Longrightarrow> get_algorithm q type = Some (alg, 0)"
    using assms unfolding e[symmetric]
    by (auto simp: promote_transform_def proposal_ok_def list_ex_iff get_algorithm_def algs_of_def split: if_splits)
qed

section \<open>Selection\<close>

lemma match_alg_iff: "match_alg flags a e2 \<longleftrightarrow> a \<in> set e2 \<and> \<not> (has_flag flags PROPOSAL_SKIP_PRIVATE \<and> fst a \<ge> 1024)"
  by (induction flags a e2 rule: match_alg.induct) auto

lemma first_match_find:
  "first_match flags type kes e1 e2 =
     List.find (\<lambda>a. \<not> (is_ke_transform type \<and> fst a \<in> set kes) \<and> a \<in> set e2 \<and> \<not> (has_flag flags PROPOSAL_SKIP_PRIVATE \<and> fst a \<ge> 1024)) e1"
  by (induction e1) (auto simp: match_alg_iff)

lemma first_match_Some:
  assumes "first_match flags type kes e1 e2 = Some (alg, ks)"
  shows "(alg, ks) \<in> set e1 \<and> (alg, ks) \<in> set e2 \<and> \<not> (has_flag flags PROPOSAL_SKIP_PRIVATE \<and> alg \<ge> 1024) \<and>
    \<not> (is_ke_transform type \<and> alg \<in> set kes)"
  using assms unfolding first_match_find find_Some_iff by (metis (no_types, lifting) fst_conv nth_mem)

lemma select_algo_Some:
  assumes "select_algo this other type flags kes = Some (alg, ks)" "algs_of this type \<noteq> [] \<or> algs_of other type \<noteq> []"
    and "alg \<noteq> 0 \<or> \<not> is_ke_transform type"
  shows "(alg, ks) \<in> set (algs_of this type)" "(alg, ks) \<in> set (algs_of other type)"
    "has_flag flags PROPOSAL_SKIP_PRIVATE \<Longrightarrow> alg < 1024" "is_ke_transform type \<Longrightarrow> alg \<notin> set kes"
proof -
  have "first_match flags type kes (algs_of this type) (algs_of other type) = Some (alg, ks)"
    using assms by (auto simp: select_algo_def Let_def split: if_splits)
  from first_match_Some[OF this]
  show "(alg, ks) \<in> set (algs_of this type)" "(alg, ks) \<in> set (algs_of other type)"
    "has_flag flags PROPOSAL_SKIP_PRIVATE \<Longrightarrow> alg < 1024" "is_ke_transform type \<Longrightarrow> alg \<notin> set kes" by auto
qed

text \<open>A transform that may be selected, and the transforms a run of the loop adds.\<close>

definition common :: "proposal_t \<Rightarrow> proposal_t \<Rightarrow> u32 \<Rightarrow> transform_t \<Rightarrow> bool" where
  "common this other flags e \<longleftrightarrow> e \<in> set (pr_transforms this) \<and> e \<in> set (pr_transforms other) \<and>
     (has_flag flags PROPOSAL_SKIP_PRIVATE \<longrightarrow> tf_alg e < 1024) \<and> (has_flag flags PROPOSAL_SKIP_KE \<longrightarrow> \<not> is_ke_transform (tf_type e))"

abbreviation ke_algs :: "transform_t list \<Rightarrow> u16 list" where
  "ke_algs es \<equiv> map tf_alg (filter (\<lambda>e. is_ke_transform (tf_type e)) es)"

lemma select_loop_adds:
  assumes "select_algos_loop this other flags types skip kes (Some s) = (True, Some s')"
    and "distinct types" "\<And>type. type \<in> set types \<Longrightarrow> algs_of this type \<noteq> [] \<or> algs_of other type \<noteq> []" "proposal_ok s"
  shows "\<exists>new. s' = s\<lparr>pr_transforms := pr_transforms s @ new, pr_types := pr_types s'\<rparr> \<and> proposal_ok s' \<and>
    (\<forall>e \<in> set new. common this other flags e \<and> tf_type e \<in> set types) \<and> distinct (map tf_type new) \<and>
    distinct (ke_algs new) \<and> set (ke_algs new) \<inter> set kes = {}"
  using assms
proof (induction types arbitrary: skip kes s)
  case Nil
  then show ?case by (intro exI[of _ "[]"]) auto
next
  case (Cons type types)
  let ?skip = "type = INTEGRITY_ALGORITHM \<and> skip \<or> is_ke_transform type \<and> has_flag flags PROPOSAL_SKIP_KE"
  have d: "distinct types" "type \<notin> set types" using Cons.prems(2) by auto
  have sub: "\<And>type. type \<in> set types \<Longrightarrow> algs_of this type \<noteq> [] \<or> algs_of other type \<noteq> []" using Cons.prems(3) by simp
  consider (skipped) "select_algos_loop this other flags types skip kes (Some s) = (True, Some s')"
    | (added) alg ks skip' where "\<not> ?skip" "select_algo this other type flags kes = Some (alg, ks)" "alg \<noteq> 0 \<or> type = EXTENDED_SEQUENCE_NUMBERS"
        "select_algos_loop this other flags types skip' (if is_ke_transform type then alg # kes else kes) (Some (add_algorithm s type alg ks)) = (True, Some s')"
    using Cons.prems(1) by (auto split: if_splits option.splits)
  then show ?case
  proof cases
    case skipped
    then show ?thesis using Cons.IH[OF skipped d(1) sub Cons.prems(4)] by fastforce
  next
    case added
    let ?e = "\<lparr>tf_type = type, tf_alg = alg, tf_key_size = ks\<rparr>"
    have "alg \<noteq> 0 \<or> \<not> is_ke_transform type" using added(3) by (auto simp: is_ke_transform_def)
    moreover have "algs_of this type \<noteq> [] \<or> algs_of other type \<noteq> []" using Cons.prems(3)[of type] by simp
    ultimately have S: "(alg, ks) \<in> set (algs_of this type)" "(alg, ks) \<in> set (algs_of other type)"
      "has_flag flags PROPOSAL_SKIP_PRIVATE \<Longrightarrow> alg < 1024" "is_ke_transform type \<Longrightarrow> alg \<notin> set kes"
      using select_algo_Some[OF added(2)] by auto
    have c: "common this other flags ?e" using S added(1) by (auto simp: common_def in_algs_of)
    obtain new where new: "s' = add_algorithm s type alg ks\<lparr>pr_transforms := pr_transforms (add_algorithm s type alg ks) @ new, pr_types := pr_types s'\<rparr>"
      "proposal_ok s'" "\<forall>e \<in> set new. common this other flags e \<and> tf_type e \<in> set types" "distinct (map tf_type new)"
      "distinct (ke_algs new)" "set (ke_algs new) \<inter> set (if is_ke_transform type then alg # kes else kes) = {}"
      using Cons.IH[OF added(4) d(1) sub add_algorithm_ok[OF Cons.prems(4)]] by blast
    have "s' = s\<lparr>pr_transforms := pr_transforms s @ ?e # new, pr_types := pr_types s'\<rparr>" using new(1) by (simp add: add_algorithm_def)
    moreover have "type \<notin> tf_type ` set new" using new(3) d(2) by auto
    ultimately show ?thesis using new(2-6) c S(4) by (intro exI[of _ "?e # new"]) (auto split: if_splits)
  qed
qed

lemma select_proposal_run:
  obtains s where "proposal_ok s" "pr_transforms s = []" "pr_protocol s = pr_protocol this"
    "select_proposal this other flags =
       (if pr_protocol this \<noteq> pr_protocol other then None
        else let r = select_algos_loop this other flags (merge_types this other) False [] (Some s) in if fst r then snd r else None)"
proof
  let ?src = "if has_flag flags PROPOSAL_PREFER_SUPPLIED then this else other"
  let ?s = "proposal_create_v1 (pr_protocol this) (pr_number ?src) (pr_transform_number ?src)\<lparr>pr_spi := pr_spi ?src\<rparr>"
  show "proposal_ok ?s" "pr_transforms ?s = []" "pr_protocol ?s = pr_protocol this"
    by (simp_all add: proposal_create_v1_def proposal_ok_def types_ok_def)
  show "select_proposal this other flags =
       (if pr_protocol this \<noteq> pr_protocol other then None
        else let r = select_algos_loop this other flags (merge_types this other) False [] (Some ?s) in if fst r then snd r else None)"
    unfolding select_proposal_def select_algos_def Let_def by (simp add: case_prod_beta)
qed

lemma select_proposal_Some:
  assumes "select_proposal this other flags = Some sel"
  obtains s where "proposal_ok s" "pr_transforms s = []" "pr_protocol s = pr_protocol this" "pr_protocol other = pr_protocol this"
    "select_algos_loop this other flags (merge_types this other) False [] (Some s) = (True, Some sel)"
proof -
  obtain s where s: "proposal_ok s" "pr_transforms s = []" "pr_protocol s = pr_protocol this"
    "select_proposal this other flags =
       (if pr_protocol this \<noteq> pr_protocol other then None
        else let r = select_algos_loop this other flags (merge_types this other) False [] (Some s) in if fst r then snd r else None)"
    by (rule select_proposal_run)
  show ?thesis using that[OF s(1-3)] s(4) assms by (auto simp: Let_def prod_eq_iff split: if_splits)
qed

lemma merged_offered:
  assumes "proposal_ok this" "proposal_ok other"
  shows "type \<in> set (merge_types this other) \<longleftrightarrow> algs_of this type \<noteq> [] \<or> algs_of other type \<noteq> []"
  using assms unfolding merge_types_ok(2) by (auto simp: proposal_ok_def algs_of_Nil)

lemma select_proposal_common:
  assumes ok: "proposal_ok this" "proposal_ok other" and sel: "select_proposal this other flags = Some sel"
  shows "proposal_ok sel" "pr_protocol sel = pr_protocol this" "pr_protocol other = pr_protocol this"
    "\<forall>e \<in> set (pr_transforms sel). common this other flags e" "distinct (map tf_type (pr_transforms sel))"
    "distinct (ke_algs (pr_transforms sel))"
proof -
  obtain s where s: "proposal_ok s" "pr_transforms s = []" "pr_protocol s = pr_protocol this"
    and p: "pr_protocol other = pr_protocol this"
    and l: "select_algos_loop this other flags (merge_types this other) False [] (Some s) = (True, Some sel)"
    using select_proposal_Some[OF sel] .
  have "distinct (merge_types this other)" using merge_types_ok(1)[of this other] by (simp add: types_ok_iff)
  then obtain new where "sel = s\<lparr>pr_transforms := pr_transforms s @ new, pr_types := pr_types sel\<rparr>" "proposal_ok sel"
    "\<forall>e \<in> set new. common this other flags e" "distinct (map tf_type new)" "distinct (ke_algs new)"
    using select_loop_adds[OF l _ _ s(1)] merged_offered[OF ok] by meson
  moreover from this(1) have "pr_transforms sel = new" "pr_protocol sel = pr_protocol s"
    using s by (metis append_Nil proposal_t.select_convs proposal_t.surjective proposal_t.update_convs)+
  ultimately show "proposal_ok sel" "pr_protocol sel = pr_protocol this" "pr_protocol other = pr_protocol this"
    "\<forall>e \<in> set (pr_transforms sel). common this other flags e" "distinct (map tf_type (pr_transforms sel))"
    "distinct (ke_algs (pr_transforms sel))" using p s(3) by simp_all
qed

lemma select_match_Some: "select_match p ms flags = Some s \<Longrightarrow> \<exists>m \<in> set ms. select_proposal p m flags = Some s"
  by (induction p ms flags rule: select_match.induct) (auto split: option.splits)

lemma select_prefer_Some: "select_prefer ps ms flags = Some s \<Longrightarrow> \<exists>p \<in> set ps. \<exists>m \<in> set ms. select_proposal p m flags = Some s"
  by (induction ps ms flags rule: select_prefer.induct) (auto dest!: select_match_Some split: option.splits)

text \<open>
  C22. A proposal selected from configured and supplied proposals is well formed and has the protocol of a configured and
  a supplied proposal that both contain each of its transforms; it has at most one transform of each type, no
  key exchange method twice, and no private algorithm or key exchange if the flags exclude them.
\<close>

theorem selected_proposal_configured:
  assumes "\<forall>p \<in> set configured \<union> set supplied. proposal_ok p"
    and "proposal_select configured supplied flags = Some sel"
  shows "proposal_ok sel \<and> distinct (map tf_type (pr_transforms sel)) \<and> distinct (ke_algs (pr_transforms sel)) \<and>
    (\<exists>c \<in> set configured. \<exists>s \<in> set supplied. pr_protocol c = pr_protocol sel \<and> pr_protocol s = pr_protocol sel \<and>
       (\<forall>e \<in> set (pr_transforms sel). common c s flags e))"
proof -
  obtain c s where cs: "c \<in> set configured" "s \<in> set supplied" "select_proposal c s flags = Some sel \<or> select_proposal s c flags = Some sel"
    using assms(2) select_prefer_Some[of configured supplied flags sel] select_prefer_Some[of supplied configured flags sel]
    by (auto simp: proposal_select_def split: if_splits)
  have "common s c flags = common c s flags" by (auto simp: common_def)
  then show ?thesis
    using cs assms(1) select_proposal_common[of c s flags sel] select_proposal_common[of s c flags sel] by (metis Un_iff)
qed

section \<open>Test of a match\<close>

lemma select_loop_None:
  "select_algos_loop this other flags types skip kes None =
     (fst (select_algos_loop this other flags types skip kes (Some s)), None)"
  "snd (select_algos_loop this other flags types skip kes (Some s)) \<noteq> None"
  by (induction types arbitrary: skip kes s) (auto split: option.split prod.split)

text \<open>
  \<^verbatim>\<open>matches\<close> returns true exactly for the proposals from which \<^verbatim>\<open>select\<close> selects one.
\<close>

lemma matches_iff_selected: "proposal_matches this other flags \<longleftrightarrow> select_proposal this other flags \<noteq> None"
proof -
  obtain s where "select_proposal this other flags =
       (if pr_protocol this \<noteq> pr_protocol other then None
        else let r = select_algos_loop this other flags (merge_types this other) False [] (Some s) in if fst r then snd r else None)"
    by (rule select_proposal_run)
  then show ?thesis using select_loop_None[of this other flags "merge_types this other" False "[]" s]
    by (auto simp: proposal_matches_def select_algos_def Let_def)
qed

section \<open>Every type is covered\<close>

definition has_aead :: "proposal_t \<Rightarrow> bool" where
  "has_aead p \<longleftrightarrow> (\<exists>(alg, ks) \<in> set (algs_of p ENCRYPTION_ALGORITHM). encryption_algorithm_is_aead alg)"

definition offers_none :: "proposal_t \<Rightarrow> transform_type_t \<Rightarrow> bool" where
  "offers_none p type \<longleftrightarrow> 0 \<in> fst ` set (algs_of p type)"

lemma algs_of_add: "algs_of (add_algorithm s type alg ks) t = algs_of s t @ (if type = t then [(alg, ks)] else [])"
  by (simp add: algs_of_def add_algorithm_def)

lemma select_loop_mono:
  "select_algos_loop this other flags types skip kes (Some s) = (ok, Some s') \<Longrightarrow> set (algs_of s t) \<subseteq> set (algs_of s' t)"
proof (induction types arbitrary: skip kes s)
  case (Cons type types)
  then show ?case by (fastforce simp: algs_of_add split: if_splits option.splits)
qed simp

lemma has_aead_mono: "(\<And>t. set (algs_of s t) \<subseteq> set (algs_of s' t)) \<Longrightarrow> has_aead s \<Longrightarrow> has_aead s'"
  by (fastforce simp: has_aead_def)

lemma select_algo_none:
  assumes "select_algo this other type flags kes = Some (0, ks)" "algs_of this type \<noteq> [] \<or> algs_of other type \<noteq> []"
  shows "offers_none this type \<or> offers_none other type"
proof -
  have "list_ex (\<lambda>a. fst a = 0) (algs_of this type) \<or> list_ex (\<lambda>a. fst a = 0) (algs_of other type) \<or>
      first_match flags type kes (algs_of this type) (algs_of other type) = Some (0, ks)"
    using assms by (auto simp: select_algo_def Let_def split: if_splits)
  then show ?thesis
    using first_match_Some[of flags type kes "algs_of this type" "algs_of other type" 0 ks]
    by (force simp: offers_none_def list_ex_iff)
qed

lemma select_loop_covers:
  assumes "select_algos_loop this other flags types skip kes (Some s) = (True, Some s')"
    and "\<And>type. type \<in> set types \<Longrightarrow> algs_of this type \<noteq> [] \<or> algs_of other type \<noteq> []" "skip \<Longrightarrow> has_aead s" "type \<in> set types"
  shows "algs_of s' type \<noteq> [] \<or> type = INTEGRITY_ALGORITHM \<and> has_aead s' \<or>
    is_ke_transform type \<and> has_flag flags PROPOSAL_SKIP_KE \<or> offers_none this type \<or> offers_none other type"
  using assms
proof (induction types arbitrary: skip kes s)
  case (Cons t types)
  let ?skip = "t = INTEGRITY_ALGORITHM \<and> skip \<or> is_ke_transform t \<and> has_flag flags PROPOSAL_SKIP_KE"
  have sub: "\<And>type. type \<in> set types \<Longrightarrow> algs_of this type \<noteq> [] \<or> algs_of other type \<noteq> []" using Cons.prems(2) by simp
  have ne: "algs_of this t \<noteq> [] \<or> algs_of other t \<noteq> []" using Cons.prems(2) by simp
  consider (skipped) "select_algos_loop this other flags types skip kes (Some s) = (True, Some s')"
      "?skip \<or> (\<exists>ks. select_algo this other t flags kes = Some (0, ks))"
    | (added) alg ks skip' kes' where "skip' \<longleftrightarrow> skip \<or> t = ENCRYPTION_ALGORITHM \<and> encryption_algorithm_is_aead alg"
        "select_algos_loop this other flags types skip' kes' (Some (add_algorithm s t alg ks)) = (True, Some s')"
    using Cons.prems(1) by (auto split: if_splits option.splits)
  then show ?case
  proof cases
    case skipped
    have "has_aead s \<Longrightarrow> has_aead s'" using has_aead_mono select_loop_mono[OF skipped(1)] by blast
    then show ?thesis
      using skipped Cons.IH[OF skipped(1) sub Cons.prems(3)] Cons.prems(3,4) select_algo_none[OF _ ne] by auto
  next
    case added
    have "skip' \<Longrightarrow> has_aead (add_algorithm s t alg ks)"
      using added(1) Cons.prems(3) by (auto simp: has_aead_def algs_of_add)
    moreover have "algs_of s' t \<noteq> []" using select_loop_mono[OF added(2), of t] by (auto simp: algs_of_add)
    ultimately show ?thesis using Cons.IH[OF added(2) sub] Cons.prems(4) by auto
  qed
qed simp


section \<open>Checked proposals\<close>

definition proposal_valid :: "proposal_t \<Rightarrow> bool" where
  "proposal_valid p \<longleftrightarrow> proposal_ok p \<and> algs_of p ENCRYPTION_ALGORITHM \<noteq> [] \<and>
     (if has_aead p
      then list_all (\<lambda>a. encryption_algorithm_is_aead (fst a)) (algs_of p ENCRYPTION_ALGORITHM) \<and> algs_of p INTEGRITY_ALGORITHM = []
      else pr_protocol p = PROTO_IKE \<longrightarrow> algs_of p INTEGRITY_ALGORITHM \<noteq> []) \<and>
     (if pr_protocol p = PROTO_IKE
      then algs_of p PSEUDO_RANDOM_FUNCTION \<noteq> [] \<and> algs_of p KEY_EXCHANGE_METHOD \<noteq> [] \<and> \<not> offers_none p KEY_EXCHANGE_METHOD
      else algs_of p PSEUDO_RANDOM_FUNCTION = [] \<and> algs_of p EXTENDED_SEQUENCE_NUMBERS \<noteq> [])"

lemma get_algorithm_Nil: "get_algorithm p type = None \<longleftrightarrow> algs_of p type = []"
  by (simp add: get_algorithm_def split: list.split)

lemma algs_of_remove: "algs_of (remove_transform p type) t = (if t = type then [] else algs_of p t)"
  by (auto simp: algs_of_def remove_transform_def remove_type_def split: option.split intro!: arg_cong[where f = "map _"] filter_cong)

lemma protocol_kept:
  "pr_protocol (remove_transform p type) = pr_protocol p" "pr_protocol (add_algorithm p type alg ks) = pr_protocol p"
  by (simp_all add: remove_transform_def remove_type_def add_algorithm_def split: option.split)

lemma add_prfs_ok: "proposal_ok p \<Longrightarrow> proposal_ok (add_prfs p)" "pr_protocol (add_prfs p) = pr_protocol p"
proof -
  let ?f = "\<lambda>this (alg, ks). case map_of integ_prf_map alg of
                               Some prf \<Rightarrow> add_algorithm this PSEUDO_RANDOM_FUNCTION prf 0
                             | None \<Rightarrow> this"
  have "(proposal_ok q \<longrightarrow> proposal_ok (foldl ?f q l)) \<and> pr_protocol (foldl ?f q l) = pr_protocol q" for q l
    by (induction l arbitrary: q) (auto simp: add_algorithm_ok protocol_kept split: option.split)
  then show "proposal_ok p \<Longrightarrow> proposal_ok (add_prfs p)" "pr_protocol (add_prfs p) = pr_protocol p"
    unfolding add_prfs_def by blast+
qed

lemma check_ike_ok:
  assumes "proposal_ok p" "check_ike p = Some q"
  shows "proposal_ok q" "pr_protocol q = pr_protocol p" "algs_of q PSEUDO_RANDOM_FUNCTION \<noteq> []"
    "algs_of q KEY_EXCHANGE_METHOD \<noteq> []" "\<not> offers_none q KEY_EXCHANGE_METHOD"
proof -
  define r where "r = (if get_algorithm p PSEUDO_RANDOM_FUNCTION = None then add_prfs p else p)"
  let ?P = "\<lambda>e. \<not> (tf_type e = KEY_EXCHANGE_METHOD \<and> tf_alg e = 0)"
  have r: "proposal_ok r" "pr_protocol r = pr_protocol p" using assms(1) by (simp_all add: r_def add_prfs_ok)
  have q: "q = r\<lparr>pr_transforms := filter ?P (pr_transforms r)\<rparr>" "algs_of r PSEUDO_RANDOM_FUNCTION \<noteq> []" "algs_of q KEY_EXCHANGE_METHOD \<noteq> []"
  proof -
    have "check_ike p = (if algs_of r PSEUDO_RANDOM_FUNCTION = [] then None
        else if algs_of (r\<lparr>pr_transforms := filter ?P (pr_transforms r)\<rparr>) KEY_EXCHANGE_METHOD = [] then None
        else Some (r\<lparr>pr_transforms := filter ?P (pr_transforms r)\<rparr>))"
      unfolding check_ike_def r_def[symmetric] get_algorithm_Nil[symmetric] by (simp only: Let_def r_def[symmetric])
    then show "q = r\<lparr>pr_transforms := filter ?P (pr_transforms r)\<rparr>" "algs_of r PSEUDO_RANDOM_FUNCTION \<noteq> []" "algs_of q KEY_EXCHANGE_METHOD \<noteq> []"
      using assms(2) by (auto split: if_splits)
  qed
  have "tf_type ` set (filter ?P (pr_transforms r)) = tf_type ` set (pr_transforms r)"
  proof -
    obtain e where e: "e \<in> set (pr_transforms r)" "?P e" "tf_type e = KEY_EXCHANGE_METHOD"
      using q(3) by (auto simp: q(1) algs_of_Nil)
    have "tf_type d \<in> tf_type ` set (filter ?P (pr_transforms r))" if "d \<in> set (pr_transforms r)" for d
      using that e by (cases "?P d") (auto intro: image_eqI[where x = e])
    then show ?thesis by auto
  qed
  then show "proposal_ok q" using r(1) by (simp add: q(1) proposal_ok_def)
  show "pr_protocol q = pr_protocol p" by (simp add: q(1) r(2))
  show "algs_of q KEY_EXCHANGE_METHOD \<noteq> []" by (rule q(3))
  show "algs_of q PSEUDO_RANDOM_FUNCTION \<noteq> []" using q(2) by (auto simp: q(1) algs_of_Nil)
  show "\<not> offers_none q KEY_EXCHANGE_METHOD" by (auto simp: q(1) offers_none_def algs_of_def)
qed

lemma check_encryption_ok:
  assumes "check_encryption p = Some q"
  shows "q = p \<and> \<not> has_aead p \<and> (pr_protocol p = PROTO_IKE \<longrightarrow> algs_of p INTEGRITY_ALGORITHM \<noteq> []) \<or>
      q = remove_transform p INTEGRITY_ALGORITHM \<and> list_all (\<lambda>a. encryption_algorithm_is_aead (fst a)) (algs_of p ENCRYPTION_ALGORITHM)"
    "algs_of p ENCRYPTION_ALGORITHM \<noteq> []"
  using assms unfolding check_encryption_def Let_def get_algorithm_Nil
  by (auto simp: has_aead_def list_ex_iff list_all_iff split: if_splits)

lemma check_proposal_valid:
  assumes "proposal_ok p" "pr_protocol p = PROTO_IKE \<or> pr_protocol p = PROTO_ESP" "check_proposal p = Some q"
  shows "proposal_valid q \<and> pr_protocol q = pr_protocol p"
proof -
  obtain r where r: "(if pr_protocol p = PROTO_IKE then check_ike p else Some (remove_transform p PSEUDO_RANDOM_FUNCTION)) = Some r"
    using assms(3) by (auto simp: check_proposal_def split: bind_splits)
  have rok: "proposal_ok r" "pr_protocol r = pr_protocol p"
    "if pr_protocol p = PROTO_IKE
     then algs_of r PSEUDO_RANDOM_FUNCTION \<noteq> [] \<and> algs_of r KEY_EXCHANGE_METHOD \<noteq> [] \<and> \<not> offers_none r KEY_EXCHANGE_METHOD
     else algs_of r PSEUDO_RANDOM_FUNCTION = []"
    using r check_ike_ok[OF assms(1), of r] remove_transform_ok[OF assms(1)]
    by (auto simp: protocol_kept algs_of_remove split: if_splits)
  obtain s where s: "check_encryption r = Some s"
    and q: "q = (if (pr_protocol s = PROTO_AH \<or> pr_protocol s = PROTO_ESP) \<and> algs_of s EXTENDED_SEQUENCE_NUMBERS = []
                 then add_algorithm s EXTENDED_SEQUENCE_NUMBERS 0 0 else s)"
    using assms(2,3) r rok(2) by (auto simp: check_proposal_def get_algorithm_Nil split: bind_splits if_splits)
  have aead: "has_aead s" if "s = remove_transform r INTEGRITY_ALGORITHM" "algs_of r ENCRYPTION_ALGORITHM \<noteq> []"
    "list_all (\<lambda>a. encryption_algorithm_is_aead (fst a)) (algs_of r ENCRYPTION_ALGORITHM)"
    using that by (cases "algs_of r ENCRYPTION_ALGORITHM") (auto simp: has_aead_def algs_of_remove)
  have sp: "pr_protocol s = pr_protocol p" "proposal_ok s" "algs_of s ENCRYPTION_ALGORITHM \<noteq> []"
    "if has_aead s
     then list_all (\<lambda>a. encryption_algorithm_is_aead (fst a)) (algs_of s ENCRYPTION_ALGORITHM) \<and> algs_of s INTEGRITY_ALGORITHM = []
     else pr_protocol s = PROTO_IKE \<longrightarrow> algs_of s INTEGRITY_ALGORITHM \<noteq> []"
    using check_encryption_ok[OF s] rok(1,2) aead by (auto simp: protocol_kept remove_transform_ok algs_of_remove)
  have st: "algs_of s t = algs_of r t" if "t \<noteq> INTEGRITY_ALGORITHM" for t
    using check_encryption_ok(1)[OF s] that by (auto simp: algs_of_remove)
  have s2: "if pr_protocol p = PROTO_IKE
     then algs_of s PSEUDO_RANDOM_FUNCTION \<noteq> [] \<and> algs_of s KEY_EXCHANGE_METHOD \<noteq> [] \<and> \<not> offers_none s KEY_EXCHANGE_METHOD
     else algs_of s PSEUDO_RANDOM_FUNCTION = []" using rok(3) by (auto simp: st offers_none_def split: if_splits)
  have aq: "has_aead q = has_aead s" "pr_protocol q = pr_protocol s" "proposal_ok q"
    "\<And>t. t \<noteq> EXTENDED_SEQUENCE_NUMBERS \<Longrightarrow> algs_of q t = algs_of s t"
    "pr_protocol p = PROTO_ESP \<Longrightarrow> algs_of q EXTENDED_SEQUENCE_NUMBERS \<noteq> []"
    using sp(1,2) by (simp_all add: q has_aead_def algs_of_add protocol_kept add_algorithm_ok)
  moreover have "offers_none q KEY_EXCHANGE_METHOD = offers_none s KEY_EXCHANGE_METHOD" by (simp add: offers_none_def aq(4))
  ultimately show ?thesis using sp s2 assms(2) by (auto simp: proposal_valid_def)
qed

lemma add_string_algos_ok:
  "proposal_ok p \<Longrightarrow> add_string_algos kw p l = Some q \<Longrightarrow> proposal_ok q \<and> pr_protocol q = pr_protocol p"
  by (induction kw p l rule: add_string_algos.induct)
     (auto simp: add_string_algo_def add_algorithm_ok protocol_kept split: option.splits)

text \<open>
  C24. Every IKE or ESP proposal created from a configured string is well formed: its set of types is that of its
  transforms, it has encryption algorithms that are all AEADs without integrity algorithms or all classic,
  for IKE a PRF, a key exchange method other than NONE and integrity for classic encryption, for ESP no
  PRF and the use of extended sequence numbers.
\<close>

theorem configured_proposal_valid:
  assumes "protocol = PROTO_IKE \<or> protocol = PROTO_ESP" "proposal_create_from_string kw protocol algs = Some p"
  shows "proposal_valid p \<and> pr_protocol p = protocol"
proof -
  obtain q where q: "add_string_algos kw (proposal_create protocol 0) (tokens_of ''-'' '' '' algs) = Some q" "check_proposal q = Some p"
    using assms(2) by (auto simp: proposal_create_from_string_def Let_def split: if_splits bind_splits)
  then show ?thesis
    using add_string_algos_ok[OF proposal_create_ok(2) q(1)] check_proposal_valid[OF _ _ q(2)] assms(1)
    by (auto simp: proposal_create_def proposal_create_v1_def)
qed

section \<open>Equality and copies\<close>

lemma algs_equal_iff: "algs_equal e1 e2 \<longleftrightarrow> e1 = e2"
  by (induction e1 e2 rule: algs_equal.induct) (auto simp: prod_eq_iff)

lemma proposal_equals_iff:
  assumes "proposal_ok p" "proposal_ok q"
  shows "proposal_equals p q \<longleftrightarrow> (\<forall>type. algs_of p type = algs_of q type)"
  using merged_offered[OF assms] by (auto simp: proposal_equals_def list_all_iff algo_list_equals_def algs_equal_iff)

lemma proposal_clone_equals: "proposal_ok p \<Longrightarrow> proposal_equals p (proposal_clone p 0)"
  using proposal_clone_ok[of p 0] by (simp add: proposal_equals_iff algs_of_def)

section \<open>Tokens\<close>

definition plain_token :: "string \<Rightarrow> string \<Rightarrow> string \<Rightarrow> bool" where
  "plain_token sep trim t \<longleftrightarrow> t \<noteq> [] \<and> (\<forall>c \<in> set t. c \<notin> set sep) \<and> hd t \<notin> set trim \<and> last t \<notin> set trim \<and>
     hd t \<noteq> CHR 0x22 \<and> hd t \<noteq> CHR 0x27"

fun join :: "char \<Rightarrow> string list \<Rightarrow> string" where
  "join c [] = []"
| "join c [t] = t"
| "join c (t # u # ts) = t @ c # join c (u # ts)"

lemma plain_token_read:
  assumes "plain_token sep trim t"
  shows "enumerate_token_enum sep trim t = Some (t, [])"
    "c \<in> set sep \<Longrightarrow> enumerate_token_enum sep trim (t @ c # s) = Some (t, s)"
proof -
  have tr: "trim_trail trim t = t" using assms
    by (cases t rule: rev_cases) (auto simp: plain_token_def trim_trail_def)
  have sk: "skip_lead sep trim (t @ s) = t @ s" for s
    using assms by (cases t) (auto simp: plain_token_def skip_lead_eq)
  have tw: "takeWhile (\<lambda>c. c \<notin> set sep) t = t" "dropWhile (\<lambda>c. c \<notin> set sep) t = []" using assms
    by (auto simp: plain_token_def)
  have hd: "hd (t @ s) \<noteq> CHR 0x22" "hd (t @ s) \<noteq> CHR 0x27" for s using assms by (auto simp: plain_token_def)
  show "enumerate_token_enum sep trim t = Some (t, [])"
    using sk[of "[]"] hd[of "[]"] assms by (simp add: enumerate_token_enum_def tr tw plain_token_def)
  assume c: "c \<in> set sep"
  have "takeWhile (\<lambda>c. c \<notin> set sep) (t @ c # s) = t" "dropWhile (\<lambda>c. c \<notin> set sep) (t @ c # s) = c # s"
    using assms c by (simp_all add: plain_token_def takeWhile_tail)
  then show "enumerate_token_enum sep trim (t @ c # s) = Some (t, s)"
    using hd[of "c # s"] unfolding enumerate_token_enum_def sk Let_def by (simp add: tr)
qed

lemma tokens_of_Nil: "tokens_of sep trim [] = []"
  by (simp add: tokens_of.simps[of sep trim "[]"] enumerate_token_enum_def trim_trail_def)

text \<open>Tokens that are joined by a separator are read back.\<close>

lemma tokens_of_join:
  assumes "c \<in> set sep" "\<forall>t \<in> set ts. plain_token sep trim t"
  shows "tokens_of sep trim (join c ts) = ts"
  using assms
proof (induction c ts rule: join.induct)
  case (2 c t)
  then show ?case by (simp add: tokens_of.simps[of sep trim t] plain_token_read tokens_of_Nil)
next
  case (3 c t u ts)
  then show ?case by (simp add: tokens_of.simps[of sep trim "t @ _"] plain_token_read)
qed (simp add: tokens_of_Nil)

section \<open>Examples\<close>

definition sample_keywords :: proposal_keywords_t where
  "sample_keywords = \<lparr>kw_static = map_of
      [(''aes128'', \<lparr>tf_type = 1, tf_alg = 12, tf_key_size = 128\<rparr>), (''sha256'', \<lparr>tf_type = 3, tf_alg = 12, tf_key_size = 0\<rparr>),
       (''x25519'', \<lparr>tf_type = 4, tf_alg = 31, tf_key_size = 0\<rparr>), (''aes128gmac'', \<lparr>tf_type = 1, tf_alg = 21, tf_key_size = 128\<rparr>),
       (''aes256gmac'', \<lparr>tf_type = 1, tf_alg = 21, tf_key_size = 256\<rparr>)], kw_tokens = [], kw_parsers = []\<rparr>"

definition sample_ike :: proposal_t where
  "sample_ike = \<lparr>pr_protocol = PROTO_IKE, pr_transforms =
     [\<lparr>tf_type = 1, tf_alg = 12, tf_key_size = 128\<rparr>, \<lparr>tf_type = 3, tf_alg = 12, tf_key_size = 0\<rparr>,
      \<lparr>tf_type = 4, tf_alg = 31, tf_key_size = 0\<rparr>, \<lparr>tf_type = 2, tf_alg = 5, tf_key_size = 0\<rparr>],
     pr_types = [1, 3, 2, 4], pr_spi = 0, pr_number = 0, pr_transform_number = 0\<rparr>"

definition sample_ah :: "u16 \<Rightarrow> proposal_t" where
  "sample_ah alg = \<lparr>pr_protocol = PROTO_AH, pr_transforms =
     [\<lparr>tf_type = 3, tf_alg = alg, tf_key_size = 0\<rparr>, \<lparr>tf_type = 5, tf_alg = 0, tf_key_size = 0\<rparr>],
     pr_types = [5], pr_spi = 0, pr_number = 0, pr_transform_number = 0\<rparr>"

lemma sample_ike_created: "proposal_create_from_string sample_keywords PROTO_IKE ''aes128-sha256-x25519'' = Some sample_ike"
  by code_simp

text \<open>
  AES-GMAC in an AH proposal becomes an integrity algorithm, but the set of types does not get the type: proposals
  with different algorithms are considered equal.
\<close>

lemma ah_gmac_type_missing:
  "proposal_create_from_string sample_keywords PROTO_AH ''aes128gmac'' = Some (sample_ah 9)"
  "proposal_create_from_string sample_keywords PROTO_AH ''aes256gmac'' = Some (sample_ah 11)"
  "proposal_equals (sample_ah 9) (sample_ah 11)" "get_algorithm (sample_ah 9) 3 = Some (9, 0)" "get_algorithm (sample_ah 11) 3 = Some (11, 0)"
  by code_simp+

definition two_kes :: proposal_t where
  "two_kes = add_algorithms (proposal_create PROTO_IKE 1) [(4, 31, 0), (4, 19, 0), (6, 31, 0)]"

text \<open>
  Key exchanges are selected one after the other without revising earlier choices: this proposal does not match itself
  although its second key exchange method would leave the first one for the additional exchange.
\<close>

lemma greedy_key_exchange:
  "select_proposal two_kes two_kes 0 = None"
  "select_proposal two_kes (add_algorithms (proposal_create PROTO_IKE 1) [(4, 19, 0), (6, 31, 0)]) 0 \<noteq> None"
  by code_simp+

lemma sample_ike_ok: "proposal_ok sample_ike" "proposal_ok (sample_ike\<lparr>pr_spi := 7\<rparr>)"
  by code_simp+

definition sample_selected :: proposal_t where
  "sample_selected = sample_ike\<lparr>pr_transforms :=
     [\<lparr>tf_type = 1, tf_alg = 12, tf_key_size = 128\<rparr>, \<lparr>tf_type = 3, tf_alg = 12, tf_key_size = 0\<rparr>,
      \<lparr>tf_type = 2, tf_alg = 5, tf_key_size = 0\<rparr>, \<lparr>tf_type = 4, tf_alg = 31, tf_key_size = 0\<rparr>], pr_spi := 7\<rparr>"

lemma sample_select: "proposal_select [sample_ike] [sample_ike\<lparr>pr_spi := 7\<rparr>] 0 = Some sample_selected"
  "select_proposal sample_ike (sample_ike\<lparr>pr_spi := 7\<rparr>) 0 = Some sample_selected"
  by code_simp+

theorem selected_proposal_configured_witness:
  "proposal_ok sample_selected \<and> distinct (map tf_type (pr_transforms sample_selected)) \<and>
   list_all (common sample_ike (sample_ike\<lparr>pr_spi := 7\<rparr>) 0) (pr_transforms sample_selected)"
  using selected_proposal_configured[of "[sample_ike]" "[sample_ike\<lparr>pr_spi := 7\<rparr>]" 0 sample_selected] sample_ike_ok sample_select(1)
  by (simp add: list_all_iff)


theorem configured_proposal_valid_witness: "proposal_valid sample_ike \<and> pr_protocol sample_ike = PROTO_IKE"
  using configured_proposal_valid[OF _ sample_ike_created] by simp

end
