(* ===== verification/Payload_Tables.thy ===== *)
theory Payload_Tables
  imports IKE_Payloads
begin

text \<open>
  The payloads of IKE messages as the parser and the generator see them
  (\<^verbatim>\<open>src/src/libcharon/encoding/payloads\<close>): every class of payload keeps its fields in a struct, and a table of
  encoding rules names the fields in the order of the wire format. An object of the model has a class, the
  payload type it was created for and the encoded fields of its struct; offsets are the names of fields.
\<close>

section \<open>Encoding rules and objects\<close>

datatype encoding_type_t =
    U_INT_4 | U_INT_8 | U_INT_16 | U_INT_32 | RESERVED_BIT | RESERVED_BYTE | FLAG | PAYLOAD_LENGTH | HEADER_LENGTH
  | SPI_SIZE | SPI | ATTRIBUTE_FORMAT | ATTRIBUTE_TYPE | ATTRIBUTE_LENGTH_OR_VALUE | ATTRIBUTE_LENGTH | ATTRIBUTE_VALUE
  | CHUNK_DATA | IKE_SPI | ENCRYPTED_DATA | PAYLOAD_LIST payload_type_t

type_synonym encoding_rule_t = "encoding_type_t \<times> string"

datatype payload_class =
    C_IKE_HEADER | C_SA | C_PROPOSAL | C_TRANSFORM | C_TRANSFORM_ATTRIBUTE | C_NONCE | C_ID
  | C_AUTH | C_CERT | C_CERTREQ | C_TS_SUBSTRUCTURE | C_TS | C_KE
  | C_NOTIFY | C_DELETE | C_VENDOR_ID | C_HASH | C_CP | C_CONFIGURATION_ATTRIBUTE
  | C_EAP | C_ENCRYPTED | C_FRAGMENT_V1 | C_ENCRYPTED_FRAGMENT | C_UNKNOWN

text \<open>The SPIs of the header are 8 bytes of memory whose order is never changed.\<close>

datatype payload_field =
    FU8 u8 | FU16 u16 | FU32 u32 | FBool bool | FSpi bytes | FChunk bytes | FList "payload_obj list"
and payload_obj =
    Payload_Obj (obj_class: payload_class) (obj_type: nat) (obj_fields: "(string \<times> payload_field) list")

definition get_field :: "payload_obj \<Rightarrow> string \<Rightarrow> payload_field option" where
  "get_field obj off = map_of (obj_fields obj) off"

definition set_field :: "payload_obj \<Rightarrow> string \<Rightarrow> payload_field \<Rightarrow> payload_obj" where
  "set_field obj off v =
     Payload_Obj (obj_class obj) (obj_type obj) (map (\<lambda>(k, w). (k, if k = off then v else w)) (obj_fields obj))"

definition get_u8 :: "payload_obj \<Rightarrow> string \<Rightarrow> u8" where
  "get_u8 obj off = (case get_field obj off of Some (FU8 v) \<Rightarrow> v | _ \<Rightarrow> 0)"

definition get_u16 :: "payload_obj \<Rightarrow> string \<Rightarrow> u16" where
  "get_u16 obj off = (case get_field obj off of Some (FU16 v) \<Rightarrow> v | _ \<Rightarrow> 0)"

definition get_u32 :: "payload_obj \<Rightarrow> string \<Rightarrow> u32" where
  "get_u32 obj off = (case get_field obj off of Some (FU32 v) \<Rightarrow> v | _ \<Rightarrow> 0)"

definition get_bool :: "payload_obj \<Rightarrow> string \<Rightarrow> bool" where
  "get_bool obj off = (case get_field obj off of Some (FBool v) \<Rightarrow> v | _ \<Rightarrow> False)"

definition get_spi_bytes :: "payload_obj \<Rightarrow> string \<Rightarrow> bytes" where
  "get_spi_bytes obj off = (case get_field obj off of Some (FSpi v) \<Rightarrow> v | _ \<Rightarrow> replicate 8 0)"

definition get_chunk_field :: "payload_obj \<Rightarrow> string \<Rightarrow> bytes" where
  "get_chunk_field obj off = (case get_field obj off of Some (FChunk v) \<Rightarrow> v | _ \<Rightarrow> [])"

definition get_list_field :: "payload_obj \<Rightarrow> string \<Rightarrow> payload_obj list" where
  "get_list_field obj off = (case get_field obj off of Some (FList v) \<Rightarrow> v | _ \<Rightarrow> [])"

section \<open>Numbers of payload types\<close>

fun payload_number :: "payload_type_t \<Rightarrow> nat" where
  "payload_number PL_NONE = 0"
| "payload_number PLV1_SECURITY_ASSOCIATION = 1"
| "payload_number PLV1_PROPOSAL = 2"
| "payload_number PLV1_TRANSFORM = 3"
| "payload_number PLV1_KEY_EXCHANGE = 4"
| "payload_number PLV1_ID = 5"
| "payload_number PLV1_CERTIFICATE = 6"
| "payload_number PLV1_CERTREQ = 7"
| "payload_number PLV1_HASH = 8"
| "payload_number PLV1_SIGNATURE = 9"
| "payload_number PLV1_NONCE = 10"
| "payload_number PLV1_NOTIFY = 11"
| "payload_number PLV1_DELETE = 12"
| "payload_number PLV1_VENDOR_ID = 13"
| "payload_number PLV1_CONFIGURATION = 14"
| "payload_number PLV1_NAT_D = 20"
| "payload_number PLV1_NAT_OA = 21"
| "payload_number PLV2_SECURITY_ASSOCIATION = 33"
| "payload_number PLV2_KEY_EXCHANGE = 34"
| "payload_number PLV2_ID_INITIATOR = 35"
| "payload_number PLV2_ID_RESPONDER = 36"
| "payload_number PLV2_CERTIFICATE = 37"
| "payload_number PLV2_CERTREQ = 38"
| "payload_number PLV2_AUTH = 39"
| "payload_number PLV2_NONCE = 40"
| "payload_number PLV2_NOTIFY = 41"
| "payload_number PLV2_DELETE = 42"
| "payload_number PLV2_VENDOR_ID = 43"
| "payload_number PLV2_TS_INITIATOR = 44"
| "payload_number PLV2_TS_RESPONDER = 45"
| "payload_number PLV2_ENCRYPTED = 46"
| "payload_number PLV2_CONFIGURATION = 47"
| "payload_number PLV2_EAP = 48"
| "payload_number PLV2_GSPM = 49"
| "payload_number PLV2_IDG = 50"
| "payload_number PLV2_GSA = 51"
| "payload_number PLV2_KD = 52"
| "payload_number PLV2_FRAGMENT = 53"
| "payload_number PLV1_NAT_D_DRAFT_00_03 = 130"
| "payload_number PLV1_NAT_OA_DRAFT_00_03 = 131"
| "payload_number PLV1_FRAGMENT = 132"
| "payload_number PL_HEADER = 256"
| "payload_number PL_UNKNOWN = 257"
| "payload_number PLV2_PROPOSAL_SUBSTRUCTURE = 258"
| "payload_number PLV1_PROPOSAL_SUBSTRUCTURE = 259"
| "payload_number PLV2_TRANSFORM_SUBSTRUCTURE = 260"
| "payload_number PLV1_TRANSFORM_SUBSTRUCTURE = 261"
| "payload_number PLV2_TRANSFORM_ATTRIBUTE = 262"
| "payload_number PLV1_TRANSFORM_ATTRIBUTE = 263"
| "payload_number PLV2_TRAFFIC_SELECTOR_SUBSTRUCTURE = 264"
| "payload_number PLV2_CONFIGURATION_ATTRIBUTE = 265"
| "payload_number PLV1_CONFIGURATION_ATTRIBUTE = 266"
| "payload_number PLV1_ENCRYPTED = 267"

definition all_payload_types :: "payload_type_t list" where
  "all_payload_types =
    [PL_NONE, PLV1_SECURITY_ASSOCIATION, PLV1_PROPOSAL, PLV1_TRANSFORM, PLV1_KEY_EXCHANGE,
     PLV1_ID, PLV1_CERTIFICATE, PLV1_CERTREQ, PLV1_HASH, PLV1_SIGNATURE,
     PLV1_NONCE, PLV1_NOTIFY, PLV1_DELETE, PLV1_VENDOR_ID, PLV1_CONFIGURATION,
     PLV1_NAT_D, PLV1_NAT_OA, PLV2_SECURITY_ASSOCIATION, PLV2_KEY_EXCHANGE, PLV2_ID_INITIATOR,
     PLV2_ID_RESPONDER, PLV2_CERTIFICATE, PLV2_CERTREQ, PLV2_AUTH, PLV2_NONCE,
     PLV2_NOTIFY, PLV2_DELETE, PLV2_VENDOR_ID, PLV2_TS_INITIATOR, PLV2_TS_RESPONDER,
     PLV2_ENCRYPTED, PLV2_CONFIGURATION, PLV2_EAP, PLV2_GSPM, PLV2_IDG,
     PLV2_GSA, PLV2_KD, PLV2_FRAGMENT, PLV1_NAT_D_DRAFT_00_03, PLV1_NAT_OA_DRAFT_00_03,
     PLV1_FRAGMENT, PL_HEADER, PL_UNKNOWN, PLV2_PROPOSAL_SUBSTRUCTURE, PLV1_PROPOSAL_SUBSTRUCTURE,
     PLV2_TRANSFORM_SUBSTRUCTURE, PLV1_TRANSFORM_SUBSTRUCTURE, PLV2_TRANSFORM_ATTRIBUTE, PLV1_TRANSFORM_ATTRIBUTE, PLV2_TRAFFIC_SELECTOR_SUBSTRUCTURE,
     PLV2_CONFIGURATION_ATTRIBUTE, PLV1_CONFIGURATION_ATTRIBUTE, PLV1_ENCRYPTED]"

definition payload_type_of :: "nat \<Rightarrow> payload_type_t option" where
  "payload_type_of n = List.find (\<lambda>t. payload_number t = n) all_payload_types"

section \<open>Payload classes\<close>

text \<open>\<^verbatim>\<open>ike_header.c\<close>.\<close>

definition ike_header_encodings :: "encoding_rule_t list" where
  "ike_header_encodings =
    [(IKE_SPI, ''initiator_spi''), (IKE_SPI, ''responder_spi''), (U_INT_8, ''next_payload''),
     (U_INT_4, ''maj_version''), (U_INT_4, ''min_version''), (U_INT_8, ''exchange_type''),
     (RESERVED_BIT, ''reserved[0]''), (RESERVED_BIT, ''reserved[1]''), (FLAG, ''flags.response''),
     (FLAG, ''flags.version''), (FLAG, ''flags.initiator''), (FLAG, ''flags.authonly''), (FLAG, ''flags.commit''),
     (FLAG, ''flags.encryption''), (U_INT_32, ''message_id''), (HEADER_LENGTH, ''length'')]"

definition ike_header_get_encoding_rules :: "nat \<Rightarrow> encoding_rule_t list" where
  "ike_header_get_encoding_rules type = ike_header_encodings"

definition ike_header_get_header_length :: "nat \<Rightarrow> payload_obj \<Rightarrow> nat" where
  "ike_header_get_header_length type obj = 28"

definition ike_header_create :: "nat \<Rightarrow> payload_obj" where
  "ike_header_create type = Payload_Obj C_IKE_HEADER type
      [(''initiator_spi'', FSpi (replicate 8 0)), (''responder_spi'', FSpi (replicate 8 0)), (''next_payload'', FU8 0),
       (''maj_version'', FU8 0), (''min_version'', FU8 0), (''exchange_type'', FU8 255),
       (''flags.initiator'', FBool False), (''flags.version'', FBool False), (''flags.response'', FBool False),
       (''flags.encryption'', FBool False), (''flags.commit'', FBool False), (''flags.authonly'', FBool False),
       (''reserved[0]'', FBool False), (''reserved[1]'', FBool False), (''message_id'', FU32 0), (''length'', FU32 28)]"

text \<open>\<^verbatim>\<open>sa_payload.c\<close>.\<close>

definition sa_payload_encodings_v1 :: "encoding_rule_t list" where
  "sa_payload_encodings_v1 =
    [(U_INT_8, ''next_payload''), (RESERVED_BIT, ''reserved[0]''), (RESERVED_BIT, ''reserved[1]''),
     (RESERVED_BIT, ''reserved[2]''), (RESERVED_BIT, ''reserved[3]''), (RESERVED_BIT, ''reserved[4]''),
     (RESERVED_BIT, ''reserved[5]''), (RESERVED_BIT, ''reserved[6]''), (RESERVED_BIT, ''reserved[7]''),
     (PAYLOAD_LENGTH, ''payload_length''), (U_INT_32, ''doi''), (U_INT_32, ''situation''),
     (PAYLOAD_LIST PLV1_PROPOSAL_SUBSTRUCTURE, ''proposals'')]"

definition sa_payload_encodings_v2 :: "encoding_rule_t list" where
  "sa_payload_encodings_v2 =
    [(U_INT_8, ''next_payload''), (FLAG, ''critical''), (RESERVED_BIT, ''reserved[0]''),
     (RESERVED_BIT, ''reserved[1]''), (RESERVED_BIT, ''reserved[2]''), (RESERVED_BIT, ''reserved[3]''),
     (RESERVED_BIT, ''reserved[4]''), (RESERVED_BIT, ''reserved[5]''), (RESERVED_BIT, ''reserved[6]''),
     (PAYLOAD_LENGTH, ''payload_length''), (PAYLOAD_LIST PLV2_PROPOSAL_SUBSTRUCTURE, ''proposals'')]"

definition sa_payload_get_encoding_rules :: "nat \<Rightarrow> encoding_rule_t list" where
  "sa_payload_get_encoding_rules type = (if type = payload_number PLV1_SECURITY_ASSOCIATION then sa_payload_encodings_v1 else sa_payload_encodings_v2)"

definition sa_payload_get_header_length :: "nat \<Rightarrow> payload_obj \<Rightarrow> nat" where
  "sa_payload_get_header_length type obj = (if type = payload_number PLV1_SECURITY_ASSOCIATION then 12 else 4)"

definition sa_payload_create :: "nat \<Rightarrow> payload_obj" where
  "sa_payload_create type = Payload_Obj C_SA type
      [(''next_payload'', FU8 0), (''critical'', FBool False), (''reserved[0]'', FBool False),
       (''reserved[1]'', FBool False), (''reserved[2]'', FBool False), (''reserved[3]'', FBool False),
       (''reserved[4]'', FBool False), (''reserved[5]'', FBool False), (''reserved[6]'', FBool False),
       (''reserved[7]'', FBool False),
       (''payload_length'', FU16 (if type = payload_number PLV1_SECURITY_ASSOCIATION then 12 else 4)),
       (''proposals'', FList []), (''doi'', FU32 1), (''situation'', FU32 1)]"

text \<open>\<^verbatim>\<open>proposal_substructure.c\<close>.\<close>

definition proposal_substructure_encodings_v1 :: "encoding_rule_t list" where
  "proposal_substructure_encodings_v1 =
    [(U_INT_8, ''next_payload''), (RESERVED_BYTE, ''reserved''), (PAYLOAD_LENGTH, ''proposal_length''),
     (U_INT_8, ''proposal_number''), (U_INT_8, ''protocol_id''), (SPI_SIZE, ''spi_size''),
     (U_INT_8, ''transforms_count''), (SPI, ''spi''), (PAYLOAD_LIST PLV1_TRANSFORM_SUBSTRUCTURE, ''transforms'')]"

definition proposal_substructure_encodings_v2 :: "encoding_rule_t list" where
  "proposal_substructure_encodings_v2 =
    [(U_INT_8, ''next_payload''), (RESERVED_BYTE, ''reserved''), (PAYLOAD_LENGTH, ''proposal_length''),
     (U_INT_8, ''proposal_number''), (U_INT_8, ''protocol_id''), (SPI_SIZE, ''spi_size''),
     (U_INT_8, ''transforms_count''), (SPI, ''spi''), (PAYLOAD_LIST PLV2_TRANSFORM_SUBSTRUCTURE, ''transforms'')]"

definition proposal_substructure_get_encoding_rules :: "nat \<Rightarrow> encoding_rule_t list" where
  "proposal_substructure_get_encoding_rules type = (if type = payload_number PLV2_PROPOSAL_SUBSTRUCTURE then proposal_substructure_encodings_v2 else proposal_substructure_encodings_v1)"

definition proposal_substructure_get_header_length :: "nat \<Rightarrow> payload_obj \<Rightarrow> nat" where
  "proposal_substructure_get_header_length type obj = 8 + unat (get_u8 obj ''spi_size'')"

definition proposal_substructure_create :: "nat \<Rightarrow> payload_obj" where
  "proposal_substructure_create type = Payload_Obj C_PROPOSAL type
      [(''next_payload'', FU8 0), (''reserved'', FU8 0), (''proposal_length'', FU16 8), (''proposal_number'', FU8 0),
       (''protocol_id'', FU8 0), (''spi_size'', FU8 0), (''transforms_count'', FU8 0), (''spi'', FChunk []),
       (''transforms'', FList [])]"

text \<open>\<^verbatim>\<open>transform_substructure.c\<close>.\<close>

definition transform_substructure_encodings_v2 :: "encoding_rule_t list" where
  "transform_substructure_encodings_v2 =
    [(U_INT_8, ''next_payload''), (RESERVED_BYTE, ''reserved[0]''), (PAYLOAD_LENGTH, ''transform_length''),
     (U_INT_8, ''transform_ton''), (RESERVED_BYTE, ''reserved[1]''), (U_INT_16, ''transform_id_v2''),
     (PAYLOAD_LIST PLV2_TRANSFORM_ATTRIBUTE, ''attributes'')]"

definition transform_substructure_encodings_v1 :: "encoding_rule_t list" where
  "transform_substructure_encodings_v1 =
    [(U_INT_8, ''next_payload''), (RESERVED_BYTE, ''reserved[0]''), (PAYLOAD_LENGTH, ''transform_length''),
     (U_INT_8, ''transform_ton''), (U_INT_8, ''transform_id_v1''), (RESERVED_BYTE, ''reserved[1]''),
     (RESERVED_BYTE, ''reserved[2]''), (PAYLOAD_LIST PLV1_TRANSFORM_ATTRIBUTE, ''attributes'')]"

definition transform_substructure_get_encoding_rules :: "nat \<Rightarrow> encoding_rule_t list" where
  "transform_substructure_get_encoding_rules type = (if type = payload_number PLV2_TRANSFORM_SUBSTRUCTURE then transform_substructure_encodings_v2 else transform_substructure_encodings_v1)"

definition transform_substructure_get_header_length :: "nat \<Rightarrow> payload_obj \<Rightarrow> nat" where
  "transform_substructure_get_header_length type obj = 8"

definition transform_substructure_create :: "nat \<Rightarrow> payload_obj" where
  "transform_substructure_create type = Payload_Obj C_TRANSFORM type
      [(''next_payload'', FU8 0), (''reserved[0]'', FU8 0), (''reserved[1]'', FU8 0), (''reserved[2]'', FU8 0),
       (''transform_length'', FU16 8), (''transform_ton'', FU8 0), (''transform_id_v1'', FU8 0),
       (''transform_id_v2'', FU16 0), (''attributes'', FList [])]"

text \<open>\<^verbatim>\<open>transform_attribute.c\<close>.\<close>

definition transform_attribute_encodings :: "encoding_rule_t list" where
  "transform_attribute_encodings =
    [(ATTRIBUTE_FORMAT, ''attribute_format''), (ATTRIBUTE_TYPE, ''attribute_type''),
     (ATTRIBUTE_LENGTH_OR_VALUE, ''attribute_length_or_value''), (ATTRIBUTE_VALUE, ''attribute_value'')]"

definition transform_attribute_get_encoding_rules :: "nat \<Rightarrow> encoding_rule_t list" where
  "transform_attribute_get_encoding_rules type = transform_attribute_encodings"

definition transform_attribute_get_header_length :: "nat \<Rightarrow> payload_obj \<Rightarrow> nat" where
  "transform_attribute_get_header_length type obj = 0"

definition transform_attribute_create :: "nat \<Rightarrow> payload_obj" where
  "transform_attribute_create type = Payload_Obj C_TRANSFORM_ATTRIBUTE type
      [(''attribute_format'', FBool False), (''attribute_type'', FU16 0), (''attribute_length_or_value'', FU16 0),
       (''attribute_value'', FChunk [])]"

text \<open>\<^verbatim>\<open>nonce_payload.c\<close>.\<close>

definition nonce_payload_encodings :: "encoding_rule_t list" where
  "nonce_payload_encodings =
    [(U_INT_8, ''next_payload''), (FLAG, ''critical''), (RESERVED_BIT, ''reserved[0]''),
     (RESERVED_BIT, ''reserved[1]''), (RESERVED_BIT, ''reserved[2]''), (RESERVED_BIT, ''reserved[3]''),
     (RESERVED_BIT, ''reserved[4]''), (RESERVED_BIT, ''reserved[5]''), (RESERVED_BIT, ''reserved[6]''),
     (PAYLOAD_LENGTH, ''payload_length''), (CHUNK_DATA, ''nonce'')]"

definition nonce_payload_get_encoding_rules :: "nat \<Rightarrow> encoding_rule_t list" where
  "nonce_payload_get_encoding_rules type = nonce_payload_encodings"

definition nonce_payload_get_header_length :: "nat \<Rightarrow> payload_obj \<Rightarrow> nat" where
  "nonce_payload_get_header_length type obj = 4"

definition nonce_payload_create :: "nat \<Rightarrow> payload_obj" where
  "nonce_payload_create type = Payload_Obj C_NONCE type
      [(''next_payload'', FU8 0), (''critical'', FBool False), (''reserved[0]'', FBool False),
       (''reserved[1]'', FBool False), (''reserved[2]'', FBool False), (''reserved[3]'', FBool False),
       (''reserved[4]'', FBool False), (''reserved[5]'', FBool False), (''reserved[6]'', FBool False),
       (''payload_length'', FU16 4), (''nonce'', FChunk [])]"

text \<open>\<^verbatim>\<open>id_payload.c\<close>.\<close>

definition id_payload_encodings_v2 :: "encoding_rule_t list" where
  "id_payload_encodings_v2 =
    [(U_INT_8, ''next_payload''), (FLAG, ''critical''), (RESERVED_BIT, ''reserved_bit[0]''),
     (RESERVED_BIT, ''reserved_bit[1]''), (RESERVED_BIT, ''reserved_bit[2]''), (RESERVED_BIT, ''reserved_bit[3]''),
     (RESERVED_BIT, ''reserved_bit[4]''), (RESERVED_BIT, ''reserved_bit[5]''), (RESERVED_BIT, ''reserved_bit[6]''),
     (PAYLOAD_LENGTH, ''payload_length''), (U_INT_8, ''id_type''), (RESERVED_BYTE, ''reserved_byte[0]''),
     (RESERVED_BYTE, ''reserved_byte[1]''), (RESERVED_BYTE, ''reserved_byte[2]''), (CHUNK_DATA, ''id_data'')]"

definition id_payload_encodings_v1 :: "encoding_rule_t list" where
  "id_payload_encodings_v1 =
    [(U_INT_8, ''next_payload''), (RESERVED_BYTE, ''reserved_byte[0]''), (PAYLOAD_LENGTH, ''payload_length''),
     (U_INT_8, ''id_type''), (U_INT_8, ''protocol_id''), (U_INT_16, ''port''), (CHUNK_DATA, ''id_data'')]"

definition id_payload_get_encoding_rules :: "nat \<Rightarrow> encoding_rule_t list" where
  "id_payload_get_encoding_rules type = (if type \<in> {payload_number PLV1_ID, payload_number PLV1_NAT_OA, payload_number PLV1_NAT_OA_DRAFT_00_03} then id_payload_encodings_v1 else id_payload_encodings_v2)"

definition id_payload_get_header_length :: "nat \<Rightarrow> payload_obj \<Rightarrow> nat" where
  "id_payload_get_header_length type obj = 8"

definition id_payload_create :: "nat \<Rightarrow> payload_obj" where
  "id_payload_create type = Payload_Obj C_ID type
      [(''next_payload'', FU8 0), (''critical'', FBool False), (''reserved_bit[0]'', FBool False),
       (''reserved_bit[1]'', FBool False), (''reserved_bit[2]'', FBool False), (''reserved_bit[3]'', FBool False),
       (''reserved_bit[4]'', FBool False), (''reserved_bit[5]'', FBool False), (''reserved_bit[6]'', FBool False),
       (''reserved_byte[0]'', FU8 0), (''reserved_byte[1]'', FU8 0), (''reserved_byte[2]'', FU8 0),
       (''payload_length'', FU16 8), (''id_type'', FU8 0), (''id_data'', FChunk []), (''protocol_id'', FU8 0),
       (''port'', FU16 0)]"

text \<open>\<^verbatim>\<open>auth_payload.c\<close>.\<close>

definition auth_payload_encodings :: "encoding_rule_t list" where
  "auth_payload_encodings =
    [(U_INT_8, ''next_payload''), (FLAG, ''critical''), (RESERVED_BIT, ''reserved_bit[0]''),
     (RESERVED_BIT, ''reserved_bit[1]''), (RESERVED_BIT, ''reserved_bit[2]''), (RESERVED_BIT, ''reserved_bit[3]''),
     (RESERVED_BIT, ''reserved_bit[4]''), (RESERVED_BIT, ''reserved_bit[5]''), (RESERVED_BIT, ''reserved_bit[6]''),
     (PAYLOAD_LENGTH, ''payload_length''), (U_INT_8, ''auth_method''), (RESERVED_BYTE, ''reserved_byte[0]''),
     (RESERVED_BYTE, ''reserved_byte[1]''), (RESERVED_BYTE, ''reserved_byte[2]''), (CHUNK_DATA, ''auth_data'')]"

definition auth_payload_get_encoding_rules :: "nat \<Rightarrow> encoding_rule_t list" where
  "auth_payload_get_encoding_rules type = auth_payload_encodings"

definition auth_payload_get_header_length :: "nat \<Rightarrow> payload_obj \<Rightarrow> nat" where
  "auth_payload_get_header_length type obj = 8"

definition auth_payload_create :: "nat \<Rightarrow> payload_obj" where
  "auth_payload_create type = Payload_Obj C_AUTH type
      [(''next_payload'', FU8 0), (''critical'', FBool False), (''reserved_bit[0]'', FBool False),
       (''reserved_bit[1]'', FBool False), (''reserved_bit[2]'', FBool False), (''reserved_bit[3]'', FBool False),
       (''reserved_bit[4]'', FBool False), (''reserved_bit[5]'', FBool False), (''reserved_bit[6]'', FBool False),
       (''reserved_byte[0]'', FU8 0), (''reserved_byte[1]'', FU8 0), (''reserved_byte[2]'', FU8 0),
       (''payload_length'', FU16 8), (''auth_method'', FU8 0), (''auth_data'', FChunk [])]"

text \<open>\<^verbatim>\<open>cert_payload.c\<close>.\<close>

definition cert_payload_encodings :: "encoding_rule_t list" where
  "cert_payload_encodings =
    [(U_INT_8, ''next_payload''), (FLAG, ''critical''), (RESERVED_BIT, ''reserved[0]''),
     (RESERVED_BIT, ''reserved[1]''), (RESERVED_BIT, ''reserved[2]''), (RESERVED_BIT, ''reserved[3]''),
     (RESERVED_BIT, ''reserved[4]''), (RESERVED_BIT, ''reserved[5]''), (RESERVED_BIT, ''reserved[6]''),
     (PAYLOAD_LENGTH, ''payload_length''), (U_INT_8, ''encoding''), (CHUNK_DATA, ''data'')]"

definition cert_payload_get_encoding_rules :: "nat \<Rightarrow> encoding_rule_t list" where
  "cert_payload_get_encoding_rules type = cert_payload_encodings"

definition cert_payload_get_header_length :: "nat \<Rightarrow> payload_obj \<Rightarrow> nat" where
  "cert_payload_get_header_length type obj = 5"

definition cert_payload_create :: "nat \<Rightarrow> payload_obj" where
  "cert_payload_create type = Payload_Obj C_CERT type
      [(''next_payload'', FU8 0), (''critical'', FBool False), (''reserved[0]'', FBool False),
       (''reserved[1]'', FBool False), (''reserved[2]'', FBool False), (''reserved[3]'', FBool False),
       (''reserved[4]'', FBool False), (''reserved[5]'', FBool False), (''reserved[6]'', FBool False),
       (''payload_length'', FU16 5), (''encoding'', FU8 0), (''data'', FChunk []), (''invalid_hash_and_url'', FBool False)]"

text \<open>\<^verbatim>\<open>certreq_payload.c\<close>.\<close>

definition certreq_payload_encodings :: "encoding_rule_t list" where
  "certreq_payload_encodings =
    [(U_INT_8, ''next_payload''), (FLAG, ''critical''), (RESERVED_BIT, ''reserved[0]''),
     (RESERVED_BIT, ''reserved[1]''), (RESERVED_BIT, ''reserved[2]''), (RESERVED_BIT, ''reserved[3]''),
     (RESERVED_BIT, ''reserved[4]''), (RESERVED_BIT, ''reserved[5]''), (RESERVED_BIT, ''reserved[6]''),
     (PAYLOAD_LENGTH, ''payload_length''), (U_INT_8, ''encoding''), (CHUNK_DATA, ''data'')]"

definition certreq_payload_get_encoding_rules :: "nat \<Rightarrow> encoding_rule_t list" where
  "certreq_payload_get_encoding_rules type = certreq_payload_encodings"

definition certreq_payload_get_header_length :: "nat \<Rightarrow> payload_obj \<Rightarrow> nat" where
  "certreq_payload_get_header_length type obj = 5"

definition certreq_payload_create :: "nat \<Rightarrow> payload_obj" where
  "certreq_payload_create type = Payload_Obj C_CERTREQ type
      [(''next_payload'', FU8 0), (''critical'', FBool False), (''reserved[0]'', FBool False),
       (''reserved[1]'', FBool False), (''reserved[2]'', FBool False), (''reserved[3]'', FBool False),
       (''reserved[4]'', FBool False), (''reserved[5]'', FBool False), (''reserved[6]'', FBool False),
       (''payload_length'', FU16 5), (''encoding'', FU8 0), (''data'', FChunk [])]"

text \<open>\<^verbatim>\<open>traffic_selector_substructure.c\<close>.\<close>

definition traffic_selector_substructure_encodings :: "encoding_rule_t list" where
  "traffic_selector_substructure_encodings =
    [(U_INT_8, ''ts_type''), (U_INT_8, ''ip_protocol_id''), (PAYLOAD_LENGTH, ''payload_length''),
     (CHUNK_DATA, ''ts_data'')]"

definition traffic_selector_substructure_get_encoding_rules :: "nat \<Rightarrow> encoding_rule_t list" where
  "traffic_selector_substructure_get_encoding_rules type = traffic_selector_substructure_encodings"

definition traffic_selector_substructure_get_header_length :: "nat \<Rightarrow> payload_obj \<Rightarrow> nat" where
  "traffic_selector_substructure_get_header_length type obj = 4"

definition traffic_selector_substructure_create :: "nat \<Rightarrow> payload_obj" where
  "traffic_selector_substructure_create type = Payload_Obj C_TS_SUBSTRUCTURE type
      [(''ts_type'', FU8 7), (''ip_protocol_id'', FU8 0), (''payload_length'', FU16 4), (''ts_data'', FChunk [])]"

text \<open>\<^verbatim>\<open>ts_payload.c\<close>.\<close>

definition ts_payload_encodings :: "encoding_rule_t list" where
  "ts_payload_encodings =
    [(U_INT_8, ''next_payload''), (FLAG, ''critical''), (RESERVED_BIT, ''reserved_bit[0]''),
     (RESERVED_BIT, ''reserved_bit[1]''), (RESERVED_BIT, ''reserved_bit[2]''), (RESERVED_BIT, ''reserved_bit[3]''),
     (RESERVED_BIT, ''reserved_bit[4]''), (RESERVED_BIT, ''reserved_bit[5]''), (RESERVED_BIT, ''reserved_bit[6]''),
     (PAYLOAD_LENGTH, ''payload_length''), (U_INT_8, ''ts_num''), (RESERVED_BYTE, ''reserved_byte[0]''),
     (RESERVED_BYTE, ''reserved_byte[1]''), (RESERVED_BYTE, ''reserved_byte[2]''),
     (PAYLOAD_LIST PLV2_TRAFFIC_SELECTOR_SUBSTRUCTURE, ''substrs'')]"

definition ts_payload_get_encoding_rules :: "nat \<Rightarrow> encoding_rule_t list" where
  "ts_payload_get_encoding_rules type = ts_payload_encodings"

definition ts_payload_get_header_length :: "nat \<Rightarrow> payload_obj \<Rightarrow> nat" where
  "ts_payload_get_header_length type obj = 8"

definition ts_payload_create :: "nat \<Rightarrow> payload_obj" where
  "ts_payload_create type = Payload_Obj C_TS type
      [(''next_payload'', FU8 0), (''critical'', FBool False), (''reserved_bit[0]'', FBool False),
       (''reserved_bit[1]'', FBool False), (''reserved_bit[2]'', FBool False), (''reserved_bit[3]'', FBool False),
       (''reserved_bit[4]'', FBool False), (''reserved_bit[5]'', FBool False), (''reserved_bit[6]'', FBool False),
       (''reserved_byte[0]'', FU8 0), (''reserved_byte[1]'', FU8 0), (''reserved_byte[2]'', FU8 0),
       (''payload_length'', FU16 8), (''ts_num'', FU8 0), (''substrs'', FList [])]"

text \<open>\<^verbatim>\<open>ke_payload.c\<close>.\<close>

definition ke_payload_encodings_v2 :: "encoding_rule_t list" where
  "ke_payload_encodings_v2 =
    [(U_INT_8, ''next_payload''), (FLAG, ''critical''), (RESERVED_BIT, ''reserved_bit[0]''),
     (RESERVED_BIT, ''reserved_bit[1]''), (RESERVED_BIT, ''reserved_bit[2]''), (RESERVED_BIT, ''reserved_bit[3]''),
     (RESERVED_BIT, ''reserved_bit[4]''), (RESERVED_BIT, ''reserved_bit[5]''), (RESERVED_BIT, ''reserved_bit[6]''),
     (PAYLOAD_LENGTH, ''payload_length''), (U_INT_16, ''ke_method''), (RESERVED_BYTE, ''reserved_byte[0]''),
     (RESERVED_BYTE, ''reserved_byte[1]''), (CHUNK_DATA, ''key_exchange_data'')]"

definition ke_payload_encodings_v1 :: "encoding_rule_t list" where
  "ke_payload_encodings_v1 =
    [(U_INT_8, ''next_payload''), (RESERVED_BYTE, ''reserved_byte[0]''), (PAYLOAD_LENGTH, ''payload_length''),
     (CHUNK_DATA, ''key_exchange_data'')]"

definition ke_payload_get_encoding_rules :: "nat \<Rightarrow> encoding_rule_t list" where
  "ke_payload_get_encoding_rules type = (if type = payload_number PLV2_KEY_EXCHANGE then ke_payload_encodings_v2 else ke_payload_encodings_v1)"

definition ke_payload_get_header_length :: "nat \<Rightarrow> payload_obj \<Rightarrow> nat" where
  "ke_payload_get_header_length type obj = (if type = payload_number PLV2_KEY_EXCHANGE then 8 else 4)"

definition ke_payload_create :: "nat \<Rightarrow> payload_obj" where
  "ke_payload_create type = Payload_Obj C_KE type
      [(''next_payload'', FU8 0), (''critical'', FBool False), (''reserved_bit[0]'', FBool False),
       (''reserved_bit[1]'', FBool False), (''reserved_bit[2]'', FBool False), (''reserved_bit[3]'', FBool False),
       (''reserved_bit[4]'', FBool False), (''reserved_bit[5]'', FBool False), (''reserved_bit[6]'', FBool False),
       (''reserved_byte[0]'', FU8 0), (''reserved_byte[1]'', FU8 0),
       (''payload_length'', FU16 (if type = payload_number PLV2_KEY_EXCHANGE then 8 else 4)), (''ke_method'', FU16 0),
       (''key_exchange_data'', FChunk [])]"

text \<open>\<^verbatim>\<open>notify_payload.c\<close>.\<close>

definition notify_payload_encodings_v2 :: "encoding_rule_t list" where
  "notify_payload_encodings_v2 =
    [(U_INT_8, ''next_payload''), (FLAG, ''critical''), (RESERVED_BIT, ''reserved[0]''),
     (RESERVED_BIT, ''reserved[1]''), (RESERVED_BIT, ''reserved[2]''), (RESERVED_BIT, ''reserved[3]''),
     (RESERVED_BIT, ''reserved[4]''), (RESERVED_BIT, ''reserved[5]''), (RESERVED_BIT, ''reserved[6]''),
     (PAYLOAD_LENGTH, ''payload_length''), (U_INT_8, ''protocol_id''), (SPI_SIZE, ''spi_size''),
     (U_INT_16, ''notify_type''), (SPI, ''spi''), (CHUNK_DATA, ''notify_data'')]"

definition notify_payload_encodings_v1 :: "encoding_rule_t list" where
  "notify_payload_encodings_v1 =
    [(U_INT_8, ''next_payload''), (RESERVED_BIT, ''reserved[0]''), (RESERVED_BIT, ''reserved[1]''),
     (RESERVED_BIT, ''reserved[2]''), (RESERVED_BIT, ''reserved[3]''), (RESERVED_BIT, ''reserved[4]''),
     (RESERVED_BIT, ''reserved[5]''), (RESERVED_BIT, ''reserved[6]''), (RESERVED_BIT, ''reserved[7]''),
     (PAYLOAD_LENGTH, ''payload_length''), (U_INT_32, ''doi''), (U_INT_8, ''protocol_id''), (SPI_SIZE, ''spi_size''),
     (U_INT_16, ''notify_type''), (SPI, ''spi''), (CHUNK_DATA, ''notify_data'')]"

definition notify_payload_get_encoding_rules :: "nat \<Rightarrow> encoding_rule_t list" where
  "notify_payload_get_encoding_rules type = (if type = payload_number PLV2_NOTIFY then notify_payload_encodings_v2 else notify_payload_encodings_v1)"

definition notify_payload_get_header_length :: "nat \<Rightarrow> payload_obj \<Rightarrow> nat" where
  "notify_payload_get_header_length type obj = (if type = payload_number PLV2_NOTIFY then 8 else 12) + unat (get_u8 obj ''spi_size'')"

definition notify_payload_create :: "nat \<Rightarrow> payload_obj" where
  "notify_payload_create type = Payload_Obj C_NOTIFY type
      [(''next_payload'', FU8 0), (''critical'', FBool False), (''reserved[0]'', FBool False),
       (''reserved[1]'', FBool False), (''reserved[2]'', FBool False), (''reserved[3]'', FBool False),
       (''reserved[4]'', FBool False), (''reserved[5]'', FBool False), (''reserved[6]'', FBool False),
       (''reserved[7]'', FBool False),
       (''payload_length'', FU16 (if type = payload_number PLV2_NOTIFY then 8 else 12)), (''doi'', FU32 1),
       (''protocol_id'', FU8 0), (''spi_size'', FU8 0), (''notify_type'', FU16 0), (''spi'', FChunk []),
       (''notify_data'', FChunk [])]"

text \<open>\<^verbatim>\<open>delete_payload.c\<close>.\<close>

definition delete_payload_encodings_v2 :: "encoding_rule_t list" where
  "delete_payload_encodings_v2 =
    [(U_INT_8, ''next_payload''), (FLAG, ''critical''), (RESERVED_BIT, ''reserved[0]''),
     (RESERVED_BIT, ''reserved[1]''), (RESERVED_BIT, ''reserved[2]''), (RESERVED_BIT, ''reserved[3]''),
     (RESERVED_BIT, ''reserved[4]''), (RESERVED_BIT, ''reserved[5]''), (RESERVED_BIT, ''reserved[6]''),
     (PAYLOAD_LENGTH, ''payload_length''), (U_INT_8, ''protocol_id''), (U_INT_8, ''spi_size''),
     (U_INT_16, ''spi_count''), (CHUNK_DATA, ''spis'')]"

definition delete_payload_encodings_v1 :: "encoding_rule_t list" where
  "delete_payload_encodings_v1 =
    [(U_INT_8, ''next_payload''), (RESERVED_BIT, ''reserved[0]''), (RESERVED_BIT, ''reserved[1]''),
     (RESERVED_BIT, ''reserved[2]''), (RESERVED_BIT, ''reserved[3]''), (RESERVED_BIT, ''reserved[4]''),
     (RESERVED_BIT, ''reserved[5]''), (RESERVED_BIT, ''reserved[6]''), (RESERVED_BIT, ''reserved[7]''),
     (PAYLOAD_LENGTH, ''payload_length''), (U_INT_32, ''doi''), (U_INT_8, ''protocol_id''), (U_INT_8, ''spi_size''),
     (U_INT_16, ''spi_count''), (CHUNK_DATA, ''spis'')]"

definition delete_payload_get_encoding_rules :: "nat \<Rightarrow> encoding_rule_t list" where
  "delete_payload_get_encoding_rules type = (if type = payload_number PLV2_DELETE then delete_payload_encodings_v2 else delete_payload_encodings_v1)"

definition delete_payload_get_header_length :: "nat \<Rightarrow> payload_obj \<Rightarrow> nat" where
  "delete_payload_get_header_length type obj = (if type = payload_number PLV2_DELETE then 8 else 12)"

definition delete_payload_create :: "nat \<Rightarrow> payload_obj" where
  "delete_payload_create type = Payload_Obj C_DELETE type
      [(''next_payload'', FU8 0), (''critical'', FBool False), (''reserved[0]'', FBool False),
       (''reserved[1]'', FBool False), (''reserved[2]'', FBool False), (''reserved[3]'', FBool False),
       (''reserved[4]'', FBool False), (''reserved[5]'', FBool False), (''reserved[6]'', FBool False),
       (''reserved[7]'', FBool False),
       (''payload_length'', FU16 (if type = payload_number PLV2_DELETE then 8 else 12)), (''doi'', FU32 1),
       (''protocol_id'', FU8 0), (''spi_size'', FU8 4), (''spi_count'', FU16 0), (''spis'', FChunk [])]"

text \<open>\<^verbatim>\<open>vendor_id_payload.c\<close>.\<close>

definition vendor_id_payload_encodings :: "encoding_rule_t list" where
  "vendor_id_payload_encodings =
    [(U_INT_8, ''next_payload''), (FLAG, ''critical''), (RESERVED_BIT, ''reserved[0]''),
     (RESERVED_BIT, ''reserved[1]''), (RESERVED_BIT, ''reserved[2]''), (RESERVED_BIT, ''reserved[3]''),
     (RESERVED_BIT, ''reserved[4]''), (RESERVED_BIT, ''reserved[5]''), (RESERVED_BIT, ''reserved[6]''),
     (PAYLOAD_LENGTH, ''payload_length''), (CHUNK_DATA, ''data'')]"

definition vendor_id_payload_get_encoding_rules :: "nat \<Rightarrow> encoding_rule_t list" where
  "vendor_id_payload_get_encoding_rules type = vendor_id_payload_encodings"

definition vendor_id_payload_get_header_length :: "nat \<Rightarrow> payload_obj \<Rightarrow> nat" where
  "vendor_id_payload_get_header_length type obj = 4"

definition vendor_id_payload_create :: "nat \<Rightarrow> payload_obj" where
  "vendor_id_payload_create type = Payload_Obj C_VENDOR_ID type
      [(''next_payload'', FU8 0), (''critical'', FBool False), (''reserved[0]'', FBool False),
       (''reserved[1]'', FBool False), (''reserved[2]'', FBool False), (''reserved[3]'', FBool False),
       (''reserved[4]'', FBool False), (''reserved[5]'', FBool False), (''reserved[6]'', FBool False),
       (''payload_length'', FU16 4), (''data'', FChunk [])]"

text \<open>\<^verbatim>\<open>hash_payload.c\<close>.\<close>

definition hash_payload_encodings :: "encoding_rule_t list" where
  "hash_payload_encodings =
    [(U_INT_8, ''next_payload''), (RESERVED_BYTE, ''reserved''), (PAYLOAD_LENGTH, ''payload_length''),
     (CHUNK_DATA, ''hash'')]"

definition hash_payload_get_encoding_rules :: "nat \<Rightarrow> encoding_rule_t list" where
  "hash_payload_get_encoding_rules type = hash_payload_encodings"

definition hash_payload_get_header_length :: "nat \<Rightarrow> payload_obj \<Rightarrow> nat" where
  "hash_payload_get_header_length type obj = 4"

definition hash_payload_create :: "nat \<Rightarrow> payload_obj" where
  "hash_payload_create type = Payload_Obj C_HASH type
      [(''next_payload'', FU8 0), (''reserved'', FU8 0), (''payload_length'', FU16 4), (''hash'', FChunk [])]"

text \<open>\<^verbatim>\<open>cp_payload.c\<close>.\<close>

definition cp_payload_encodings_v2 :: "encoding_rule_t list" where
  "cp_payload_encodings_v2 =
    [(U_INT_8, ''next_payload''), (FLAG, ''critical''), (RESERVED_BIT, ''reserved_bit[0]''),
     (RESERVED_BIT, ''reserved_bit[1]''), (RESERVED_BIT, ''reserved_bit[2]''), (RESERVED_BIT, ''reserved_bit[3]''),
     (RESERVED_BIT, ''reserved_bit[4]''), (RESERVED_BIT, ''reserved_bit[5]''), (RESERVED_BIT, ''reserved_bit[6]''),
     (PAYLOAD_LENGTH, ''payload_length''), (U_INT_8, ''cfg_type''), (RESERVED_BYTE, ''reserved_byte[0]''),
     (RESERVED_BYTE, ''reserved_byte[1]''), (RESERVED_BYTE, ''reserved_byte[2]''),
     (PAYLOAD_LIST PLV2_CONFIGURATION_ATTRIBUTE, ''attributes'')]"

definition cp_payload_encodings_v1 :: "encoding_rule_t list" where
  "cp_payload_encodings_v1 =
    [(U_INT_8, ''next_payload''), (FLAG, ''critical''), (RESERVED_BIT, ''reserved_bit[0]''),
     (RESERVED_BIT, ''reserved_bit[1]''), (RESERVED_BIT, ''reserved_bit[2]''), (RESERVED_BIT, ''reserved_bit[3]''),
     (RESERVED_BIT, ''reserved_bit[4]''), (RESERVED_BIT, ''reserved_bit[5]''), (RESERVED_BIT, ''reserved_bit[6]''),
     (PAYLOAD_LENGTH, ''payload_length''), (U_INT_8, ''cfg_type''), (RESERVED_BYTE, ''reserved_byte[0]''),
     (U_INT_16, ''identifier''), (PAYLOAD_LIST PLV1_CONFIGURATION_ATTRIBUTE, ''attributes'')]"

definition cp_payload_get_encoding_rules :: "nat \<Rightarrow> encoding_rule_t list" where
  "cp_payload_get_encoding_rules type = (if type = payload_number PLV2_CONFIGURATION then cp_payload_encodings_v2 else cp_payload_encodings_v1)"

definition cp_payload_get_header_length :: "nat \<Rightarrow> payload_obj \<Rightarrow> nat" where
  "cp_payload_get_header_length type obj = 8"

definition cp_payload_create :: "nat \<Rightarrow> payload_obj" where
  "cp_payload_create type = Payload_Obj C_CP type
      [(''next_payload'', FU8 0), (''critical'', FBool False), (''reserved_bit[0]'', FBool False),
       (''reserved_bit[1]'', FBool False), (''reserved_bit[2]'', FBool False), (''reserved_bit[3]'', FBool False),
       (''reserved_bit[4]'', FBool False), (''reserved_bit[5]'', FBool False), (''reserved_bit[6]'', FBool False),
       (''reserved_byte[0]'', FU8 0), (''reserved_byte[1]'', FU8 0), (''reserved_byte[2]'', FU8 0),
       (''payload_length'', FU16 8), (''identifier'', FU16 0), (''attributes'', FList []), (''cfg_type'', FU8 1)]"

text \<open>\<^verbatim>\<open>configuration_attribute.c\<close>.\<close>

definition configuration_attribute_encodings_v2 :: "encoding_rule_t list" where
  "configuration_attribute_encodings_v2 =
    [(RESERVED_BIT, ''reserved''), (ATTRIBUTE_TYPE, ''attr_type''), (ATTRIBUTE_LENGTH, ''length_or_value''),
     (ATTRIBUTE_VALUE, ''value'')]"

definition configuration_attribute_encodings_v1 :: "encoding_rule_t list" where
  "configuration_attribute_encodings_v1 =
    [(ATTRIBUTE_FORMAT, ''af_flag''), (ATTRIBUTE_TYPE, ''attr_type''),
     (ATTRIBUTE_LENGTH_OR_VALUE, ''length_or_value''), (ATTRIBUTE_VALUE, ''value'')]"

definition configuration_attribute_get_encoding_rules :: "nat \<Rightarrow> encoding_rule_t list" where
  "configuration_attribute_get_encoding_rules type = (if type = payload_number PLV2_CONFIGURATION_ATTRIBUTE then configuration_attribute_encodings_v2 else configuration_attribute_encodings_v1)"

definition configuration_attribute_get_header_length :: "nat \<Rightarrow> payload_obj \<Rightarrow> nat" where
  "configuration_attribute_get_header_length type obj = 4"

definition configuration_attribute_create :: "nat \<Rightarrow> payload_obj" where
  "configuration_attribute_create type = Payload_Obj C_CONFIGURATION_ATTRIBUTE type
      [(''af_flag'', FBool False), (''reserved'', FBool False), (''attr_type'', FU16 0), (''length_or_value'', FU16 0),
       (''value'', FChunk [])]"

text \<open>\<^verbatim>\<open>eap_payload.c\<close>.\<close>

definition eap_payload_encodings :: "encoding_rule_t list" where
  "eap_payload_encodings =
    [(U_INT_8, ''next_payload''), (FLAG, ''critical''), (RESERVED_BIT, ''reserved[0]''),
     (RESERVED_BIT, ''reserved[1]''), (RESERVED_BIT, ''reserved[2]''), (RESERVED_BIT, ''reserved[3]''),
     (RESERVED_BIT, ''reserved[4]''), (RESERVED_BIT, ''reserved[5]''), (RESERVED_BIT, ''reserved[6]''),
     (PAYLOAD_LENGTH, ''payload_length''), (CHUNK_DATA, ''data'')]"

definition eap_payload_get_encoding_rules :: "nat \<Rightarrow> encoding_rule_t list" where
  "eap_payload_get_encoding_rules type = eap_payload_encodings"

definition eap_payload_get_header_length :: "nat \<Rightarrow> payload_obj \<Rightarrow> nat" where
  "eap_payload_get_header_length type obj = 4"

definition eap_payload_create :: "nat \<Rightarrow> payload_obj" where
  "eap_payload_create type = Payload_Obj C_EAP type
      [(''next_payload'', FU8 0), (''critical'', FBool False), (''reserved[0]'', FBool False),
       (''reserved[1]'', FBool False), (''reserved[2]'', FBool False), (''reserved[3]'', FBool False),
       (''reserved[4]'', FBool False), (''reserved[5]'', FBool False), (''reserved[6]'', FBool False),
       (''payload_length'', FU16 4), (''data'', FChunk [])]"

text \<open>\<^verbatim>\<open>encrypted_payload.c\<close>.\<close>

definition encrypted_payload_encodings_v2 :: "encoding_rule_t list" where
  "encrypted_payload_encodings_v2 =
    [(U_INT_8, ''next_payload''), (U_INT_8, ''flags''), (PAYLOAD_LENGTH, ''payload_length''),
     (CHUNK_DATA, ''encrypted'')]"

definition encrypted_payload_encodings_v1 :: "encoding_rule_t list" where
  "encrypted_payload_encodings_v1 =
    [(ENCRYPTED_DATA, ''encrypted'')]"

definition encrypted_payload_get_encoding_rules :: "nat \<Rightarrow> encoding_rule_t list" where
  "encrypted_payload_get_encoding_rules type = (if type = payload_number PLV2_ENCRYPTED then encrypted_payload_encodings_v2 else encrypted_payload_encodings_v1)"

definition encrypted_payload_get_header_length :: "nat \<Rightarrow> payload_obj \<Rightarrow> nat" where
  "encrypted_payload_get_header_length type obj = (if type = payload_number PLV2_ENCRYPTED then 4 else 0)"

definition encrypted_payload_create :: "nat \<Rightarrow> payload_obj" where
  "encrypted_payload_create type = Payload_Obj C_ENCRYPTED type
      [(''next_payload'', FU8 0), (''flags'', FU8 0),
       (''payload_length'', FU16 (if type = payload_number PLV2_ENCRYPTED then 4 else 0)), (''encrypted'', FChunk [])]"

text \<open>\<^verbatim>\<open>fragment_payload.c\<close>.\<close>

definition fragment_payload_encodings :: "encoding_rule_t list" where
  "fragment_payload_encodings =
    [(U_INT_8, ''next_payload''), (RESERVED_BYTE, ''reserved''), (PAYLOAD_LENGTH, ''payload_length''),
     (U_INT_16, ''fragment_id''), (U_INT_8, ''fragment_number''), (U_INT_8, ''flags''), (CHUNK_DATA, ''data'')]"

definition fragment_payload_get_encoding_rules :: "nat \<Rightarrow> encoding_rule_t list" where
  "fragment_payload_get_encoding_rules type = fragment_payload_encodings"

definition fragment_payload_get_header_length :: "nat \<Rightarrow> payload_obj \<Rightarrow> nat" where
  "fragment_payload_get_header_length type obj = 8"

definition fragment_payload_create :: "nat \<Rightarrow> payload_obj" where
  "fragment_payload_create type = Payload_Obj C_FRAGMENT_V1 type
      [(''next_payload'', FU8 0), (''reserved'', FU8 0), (''payload_length'', FU16 8), (''fragment_id'', FU16 0),
       (''fragment_number'', FU8 0), (''flags'', FU8 0), (''data'', FChunk [])]"

text \<open>\<^verbatim>\<open>encrypted_payload.c\<close>.\<close>

definition encrypted_fragment_payload_encodings :: "encoding_rule_t list" where
  "encrypted_fragment_payload_encodings =
    [(U_INT_8, ''next_payload''), (U_INT_8, ''flags''), (PAYLOAD_LENGTH, ''payload_length''),
     (U_INT_16, ''fragment_number''), (U_INT_16, ''total_fragments''), (CHUNK_DATA, ''encrypted'')]"

definition encrypted_fragment_payload_get_encoding_rules :: "nat \<Rightarrow> encoding_rule_t list" where
  "encrypted_fragment_payload_get_encoding_rules type = encrypted_fragment_payload_encodings"

definition encrypted_fragment_payload_get_header_length :: "nat \<Rightarrow> payload_obj \<Rightarrow> nat" where
  "encrypted_fragment_payload_get_header_length type obj = 8"

definition encrypted_fragment_payload_create :: "nat \<Rightarrow> payload_obj" where
  "encrypted_fragment_payload_create type = Payload_Obj C_ENCRYPTED_FRAGMENT type
      [(''next_payload'', FU8 0), (''flags'', FU8 0), (''payload_length'', FU16 8), (''encrypted'', FChunk []),
       (''fragment_number'', FU16 0), (''total_fragments'', FU16 0)]"

text \<open>\<^verbatim>\<open>unknown_payload.c\<close>.\<close>

definition unknown_payload_encodings :: "encoding_rule_t list" where
  "unknown_payload_encodings =
    [(U_INT_8, ''next_payload''), (FLAG, ''critical''), (RESERVED_BIT, ''reserved[0]''),
     (RESERVED_BIT, ''reserved[1]''), (RESERVED_BIT, ''reserved[2]''), (RESERVED_BIT, ''reserved[3]''),
     (RESERVED_BIT, ''reserved[4]''), (RESERVED_BIT, ''reserved[5]''), (RESERVED_BIT, ''reserved[6]''),
     (PAYLOAD_LENGTH, ''payload_length''), (CHUNK_DATA, ''data'')]"

definition unknown_payload_get_encoding_rules :: "nat \<Rightarrow> encoding_rule_t list" where
  "unknown_payload_get_encoding_rules type = unknown_payload_encodings"

definition unknown_payload_get_header_length :: "nat \<Rightarrow> payload_obj \<Rightarrow> nat" where
  "unknown_payload_get_header_length type obj = 4"

definition unknown_payload_create :: "nat \<Rightarrow> payload_obj" where
  "unknown_payload_create type = Payload_Obj C_UNKNOWN type
      [(''next_payload'', FU8 0), (''critical'', FBool False), (''reserved[0]'', FBool False),
       (''reserved[1]'', FBool False), (''reserved[2]'', FBool False), (''reserved[3]'', FBool False),
       (''reserved[4]'', FBool False), (''reserved[5]'', FBool False), (''reserved[6]'', FBool False),
       (''payload_length'', FU16 4), (''data'', FChunk [])]"

section \<open>Dispatch\<close>

definition get_encoding_rules :: "payload_obj \<Rightarrow> encoding_rule_t list" where
  "get_encoding_rules obj =
     (let type = obj_type obj
      in case obj_class obj of
           C_IKE_HEADER \<Rightarrow> ike_header_get_encoding_rules type
         | C_SA \<Rightarrow> sa_payload_get_encoding_rules type
         | C_PROPOSAL \<Rightarrow> proposal_substructure_get_encoding_rules type
         | C_TRANSFORM \<Rightarrow> transform_substructure_get_encoding_rules type
         | C_TRANSFORM_ATTRIBUTE \<Rightarrow> transform_attribute_get_encoding_rules type
         | C_NONCE \<Rightarrow> nonce_payload_get_encoding_rules type
         | C_ID \<Rightarrow> id_payload_get_encoding_rules type
         | C_AUTH \<Rightarrow> auth_payload_get_encoding_rules type
         | C_CERT \<Rightarrow> cert_payload_get_encoding_rules type
         | C_CERTREQ \<Rightarrow> certreq_payload_get_encoding_rules type
         | C_TS_SUBSTRUCTURE \<Rightarrow> traffic_selector_substructure_get_encoding_rules type
         | C_TS \<Rightarrow> ts_payload_get_encoding_rules type
         | C_KE \<Rightarrow> ke_payload_get_encoding_rules type
         | C_NOTIFY \<Rightarrow> notify_payload_get_encoding_rules type
         | C_DELETE \<Rightarrow> delete_payload_get_encoding_rules type
         | C_VENDOR_ID \<Rightarrow> vendor_id_payload_get_encoding_rules type
         | C_HASH \<Rightarrow> hash_payload_get_encoding_rules type
         | C_CP \<Rightarrow> cp_payload_get_encoding_rules type
         | C_CONFIGURATION_ATTRIBUTE \<Rightarrow> configuration_attribute_get_encoding_rules type
         | C_EAP \<Rightarrow> eap_payload_get_encoding_rules type
         | C_ENCRYPTED \<Rightarrow> encrypted_payload_get_encoding_rules type
         | C_FRAGMENT_V1 \<Rightarrow> fragment_payload_get_encoding_rules type
         | C_ENCRYPTED_FRAGMENT \<Rightarrow> encrypted_fragment_payload_get_encoding_rules type
         | C_UNKNOWN \<Rightarrow> unknown_payload_get_encoding_rules type)"

definition get_header_length :: "payload_obj \<Rightarrow> nat" where
  "get_header_length obj =
     (let type = obj_type obj
      in case obj_class obj of
           C_IKE_HEADER \<Rightarrow> ike_header_get_header_length type obj
         | C_SA \<Rightarrow> sa_payload_get_header_length type obj
         | C_PROPOSAL \<Rightarrow> proposal_substructure_get_header_length type obj
         | C_TRANSFORM \<Rightarrow> transform_substructure_get_header_length type obj
         | C_TRANSFORM_ATTRIBUTE \<Rightarrow> transform_attribute_get_header_length type obj
         | C_NONCE \<Rightarrow> nonce_payload_get_header_length type obj
         | C_ID \<Rightarrow> id_payload_get_header_length type obj
         | C_AUTH \<Rightarrow> auth_payload_get_header_length type obj
         | C_CERT \<Rightarrow> cert_payload_get_header_length type obj
         | C_CERTREQ \<Rightarrow> certreq_payload_get_header_length type obj
         | C_TS_SUBSTRUCTURE \<Rightarrow> traffic_selector_substructure_get_header_length type obj
         | C_TS \<Rightarrow> ts_payload_get_header_length type obj
         | C_KE \<Rightarrow> ke_payload_get_header_length type obj
         | C_NOTIFY \<Rightarrow> notify_payload_get_header_length type obj
         | C_DELETE \<Rightarrow> delete_payload_get_header_length type obj
         | C_VENDOR_ID \<Rightarrow> vendor_id_payload_get_header_length type obj
         | C_HASH \<Rightarrow> hash_payload_get_header_length type obj
         | C_CP \<Rightarrow> cp_payload_get_header_length type obj
         | C_CONFIGURATION_ATTRIBUTE \<Rightarrow> configuration_attribute_get_header_length type obj
         | C_EAP \<Rightarrow> eap_payload_get_header_length type obj
         | C_ENCRYPTED \<Rightarrow> encrypted_payload_get_header_length type obj
         | C_FRAGMENT_V1 \<Rightarrow> fragment_payload_get_header_length type obj
         | C_ENCRYPTED_FRAGMENT \<Rightarrow> encrypted_fragment_payload_get_header_length type obj
         | C_UNKNOWN \<Rightarrow> unknown_payload_get_header_length type obj)"

definition payload_create :: "nat \<Rightarrow> payload_obj" where
  "payload_create type =
     (case payload_type_of type of
        None \<Rightarrow> unknown_payload_create type
      | Some t \<Rightarrow>
          if t = PL_HEADER then ike_header_create type
          else if t \<in> {PLV2_SECURITY_ASSOCIATION, PLV1_SECURITY_ASSOCIATION} then sa_payload_create type
          else if t \<in> {PLV2_PROPOSAL_SUBSTRUCTURE, PLV1_PROPOSAL_SUBSTRUCTURE} then proposal_substructure_create type
          else if t \<in> {PLV2_TRANSFORM_SUBSTRUCTURE, PLV1_TRANSFORM_SUBSTRUCTURE} then transform_substructure_create type
          else if t \<in> {PLV2_TRANSFORM_ATTRIBUTE, PLV1_TRANSFORM_ATTRIBUTE} then transform_attribute_create type
          else if t \<in> {PLV2_NONCE, PLV1_NONCE} then nonce_payload_create type
          else if t \<in> {PLV2_ID_INITIATOR, PLV2_ID_RESPONDER, PLV1_ID, PLV1_NAT_OA, PLV1_NAT_OA_DRAFT_00_03} then id_payload_create type
          else if t = PLV2_AUTH then auth_payload_create type
          else if t \<in> {PLV2_CERTIFICATE, PLV1_CERTIFICATE} then cert_payload_create type
          else if t \<in> {PLV2_CERTREQ, PLV1_CERTREQ} then certreq_payload_create type
          else if t = PLV2_TRAFFIC_SELECTOR_SUBSTRUCTURE then traffic_selector_substructure_create type
          else if t \<in> {PLV2_TS_INITIATOR, PLV2_TS_RESPONDER} then ts_payload_create type
          else if t \<in> {PLV2_KEY_EXCHANGE, PLV1_KEY_EXCHANGE} then ke_payload_create type
          else if t \<in> {PLV2_NOTIFY, PLV1_NOTIFY} then notify_payload_create type
          else if t \<in> {PLV2_DELETE, PLV1_DELETE} then delete_payload_create type
          else if t \<in> {PLV2_VENDOR_ID, PLV1_VENDOR_ID} then vendor_id_payload_create type
          else if t \<in> {PLV1_HASH, PLV1_SIGNATURE, PLV1_NAT_D, PLV1_NAT_D_DRAFT_00_03} then hash_payload_create type
          else if t \<in> {PLV2_CONFIGURATION, PLV1_CONFIGURATION} then cp_payload_create type
          else if t \<in> {PLV2_CONFIGURATION_ATTRIBUTE, PLV1_CONFIGURATION_ATTRIBUTE} then configuration_attribute_create type
          else if t = PLV2_EAP then eap_payload_create type
          else if t \<in> {PLV2_ENCRYPTED, PLV1_ENCRYPTED} then encrypted_payload_create type
          else if t = PLV1_FRAGMENT then fragment_payload_create type
          else if t = PLV2_FRAGMENT then encrypted_fragment_payload_create type
          else unknown_payload_create type)"

text \<open>Without a version (0) the payloads of both versions are known. The mediation extension is not built.\<close>

definition payload_is_known :: "nat \<Rightarrow> u8 \<Rightarrow> bool" where
  "payload_is_known type maj_ver \<longleftrightarrow>
     (let v1 = payload_number PLV1_SECURITY_ASSOCIATION \<le> type \<and> type \<le> payload_number PLV1_CONFIGURATION \<or>
               payload_number PLV1_NAT_D \<le> type \<and> type \<le> payload_number PLV1_NAT_OA \<or>
               payload_number PLV1_NAT_D_DRAFT_00_03 \<le> type \<and> type \<le> payload_number PLV1_FRAGMENT;
          v2 = payload_number PLV2_SECURITY_ASSOCIATION \<le> type \<and> type \<le> payload_number PLV2_EAP \<or>
               type = payload_number PLV2_FRAGMENT
      in if type \<ge> payload_number PL_HEADER then True
         else if maj_ver = 0 then v1 \<or> v2
         else if maj_ver = 1 then v1
         else if maj_ver = 2 then v2
         else False)"

end
