(* ===== verification/Payload_Codec.thy ===== *)
theory Payload_Codec
  imports Payload_Tables Bio
begin

text \<open>
  The parser (\<^verbatim>\<open>src/src/libcharon/encoding/parser.c\<close>) and the generator
  (\<^verbatim>\<open>src/src/libcharon/encoding/generator.c\<close>) of payloads. Both follow the encoding rules of a payload; flags and
  4-bit numbers share bytes, so that they keep a position in the current byte. Pointers into the input and into the
  buffer are positions. A parsing function returns \<open>None\<close> where the code logs an error and returns FALSE.
\<close>

section \<open>Parser\<close>

record parser_t =
  pa_input :: bytes
  byte_pos :: nat
  input_roof :: nat
  bit_pos :: nat
  major_version :: u8

definition parser_create :: "bytes \<Rightarrow> parser_t" where
  "parser_create data = \<lparr>pa_input = data, byte_pos = 0, input_roof = length data, bit_pos = 0, major_version = 0\<rparr>"

definition reset_context :: "parser_t \<Rightarrow> parser_t" where
  "reset_context this = this\<lparr>byte_pos := 0, bit_pos := 0\<rparr>"

definition set_major_version :: "parser_t \<Rightarrow> u8 \<Rightarrow> parser_t" where
  "set_major_version this v = this\<lparr>major_version := v\<rparr>"

definition get_remaining_byte_count :: "parser_t \<Rightarrow> nat" where
  "get_remaining_byte_count this = input_roof this - byte_pos this"

definition parse_uint4 :: "parser_t \<Rightarrow> (parser_t \<times> u8) option" where
  "parse_uint4 this =
     (if byte_pos this + 1 > input_roof this then None
      else if bit_pos this = 0 then Some (this\<lparr>bit_pos := 4\<rparr>, drop_bit 4 (pa_input this ! byte_pos this))
      else if bit_pos this = 4
      then Some (this\<lparr>bit_pos := 0, byte_pos := byte_pos this + 1\<rparr>, (pa_input this ! byte_pos this) AND 0x0F)
      else None)"

definition parse_bytes :: "parser_t \<Rightarrow> nat \<Rightarrow> (parser_t \<times> bytes) option" where
  "parse_bytes this bytes =
     (if byte_pos this + bytes > input_roof this then None
      else if bit_pos this \<noteq> 0 then None
      else Some (this\<lparr>byte_pos := byte_pos this + bytes\<rparr>, take bytes (drop (byte_pos this) (pa_input this))))"

definition parse_uint8 :: "parser_t \<Rightarrow> (parser_t \<times> u8) option" where
  "parse_uint8 this =
     (if byte_pos this + 1 > input_roof this then None
      else if bit_pos this \<noteq> 0 then None
      else Some (this\<lparr>byte_pos := byte_pos this + 1\<rparr>, pa_input this ! byte_pos this))"

definition parse_uint16 :: "parser_t \<Rightarrow> (parser_t \<times> u16) option" where
  "parse_uint16 this =
     (if byte_pos this + 2 > input_roof this then None
      else if bit_pos this \<noteq> 0 then None
      else Some (this\<lparr>byte_pos := byte_pos this + 2\<rparr>, of_nat (be_decode (take 2 (drop (byte_pos this) (pa_input this))))))"

definition parse_uint15 :: "parser_t \<Rightarrow> (parser_t \<times> u16) option" where
  "parse_uint15 this =
     (if byte_pos this + 2 > input_roof this then None
      else if bit_pos this \<noteq> 1 then None
      else Some (this\<lparr>byte_pos := byte_pos this + 2, bit_pos := 0\<rparr>,
                 of_nat (be_decode (take 2 (drop (byte_pos this) (pa_input this)))) AND 0x7FFF))"

definition parse_uint32 :: "parser_t \<Rightarrow> (parser_t \<times> u32) option" where
  "parse_uint32 this =
     (if byte_pos this + 4 > input_roof this then None
      else if bit_pos this \<noteq> 0 then None
      else Some (this\<lparr>byte_pos := byte_pos this + 4\<rparr>, of_nat (be_decode (take 4 (drop (byte_pos this) (pa_input this))))))"

definition parse_bit :: "parser_t \<Rightarrow> (parser_t \<times> bool) option" where
  "parse_bit this =
     (if byte_pos this + 1 > input_roof this then None
      else let v = (pa_input this ! byte_pos this) AND push_bit (7 - bit_pos this) 1 \<noteq> 0;
               this = this\<lparr>bit_pos := (bit_pos this + 1) mod 8\<rparr>
           in Some (if bit_pos this = 0 then this\<lparr>byte_pos := byte_pos this + 1\<rparr> else this, v))"

definition parse_chunk :: "parser_t \<Rightarrow> nat \<Rightarrow> (parser_t \<times> bytes) option" where
  "parse_chunk this len =
     (if byte_pos this + len > input_roof this then None
      else if bit_pos this \<noteq> 0 then None
      else Some (this\<lparr>byte_pos := byte_pos this + len\<rparr>, take len (drop (byte_pos this) (pa_input this))))"

text \<open>
  Substructures are parsed by the parser of payloads itself, an argument of the loops over lists and rules. The result
  \<open>None\<close> stands for a loop that does not return; what returned is an error or the parsed value. A substructure replaces the
  table in \<^verbatim>\<open>this->rules\<close>, but lists are the last rule of every table, so that the loop over the rules of the outer payload
  has ended.
\<close>

datatype 'a parsed = Parse_Error | Parsed 'a

type_synonym payload_parser = "nat \<Rightarrow> parser_t \<Rightarrow> (parser_t \<times> payload_obj) parsed option"

partial_function (option) parse_list_loop ::
  "payload_parser \<Rightarrow> nat \<Rightarrow> parser_t \<Rightarrow> int \<Rightarrow> payload_obj list \<Rightarrow> (parser_t \<times> payload_obj list) parsed option" where
  "parse_list_loop parse_payload type this len list =
     (if len > 0
      then Option.bind (parse_payload type this) (\<lambda>r.
             case r of
               Parse_Error \<Rightarrow> Some Parse_Error
             | Parsed (this', payload) \<Rightarrow>
                 parse_list_loop parse_payload type this' (len - (int (byte_pos this') - int (byte_pos this))) (list @ [payload]))
      else if len \<noteq> 0 then Some Parse_Error
      else Some (Parsed (this, list)))"

definition parse_list ::
  "payload_parser \<Rightarrow> parser_t \<Rightarrow> payload_obj list \<Rightarrow> nat \<Rightarrow> int \<Rightarrow> (parser_t \<times> payload_obj list) parsed option" where
  "parse_list parse_payload this list type len =
     (if len < 0 then Some Parse_Error
      else if bit_pos this \<noteq> 0 then Some Parse_Error
      else parse_list_loop parse_payload type this len list)"

text \<open>The local variables of \<^verbatim>\<open>parse_payload\<close> that later rules depend on.\<close>

record parse_ctx =
  payload_length :: nat
  spi_size :: nat
  attribute_length :: nat
  attribute_format :: bool

definition parse_ctx0 :: parse_ctx where
  "parse_ctx0 = \<lparr>payload_length = 0, spi_size = 0, attribute_length = 0, attribute_format = False\<rparr>"

definition list_rule_types :: "payload_type_t list" where
  "list_rule_types =
    [PLV2_PROPOSAL_SUBSTRUCTURE, PLV1_PROPOSAL_SUBSTRUCTURE, PLV2_TRANSFORM_SUBSTRUCTURE, PLV1_TRANSFORM_SUBSTRUCTURE,
     PLV2_TRANSFORM_ATTRIBUTE, PLV1_TRANSFORM_ATTRIBUTE, PLV2_CONFIGURATION_ATTRIBUTE, PLV1_CONFIGURATION_ATTRIBUTE,
     PLV2_TRAFFIC_SELECTOR_SUBSTRUCTURE]"

definition parsed_field ::
  "(parser_t \<times> 'a) option \<Rightarrow> payload_obj \<Rightarrow> string \<Rightarrow> ('a \<Rightarrow> payload_field) \<Rightarrow> ('a \<Rightarrow> parse_ctx) \<Rightarrow> (parser_t \<times> parse_ctx \<times> payload_obj) parsed" where
  "parsed_field r pld off field ctx =
     (case r of None \<Rightarrow> Parse_Error | Some (this, v) \<Rightarrow> Parsed (this, ctx v, set_field pld off (field v)))"

definition parse_rule ::
  "payload_parser \<Rightarrow> parser_t \<Rightarrow> encoding_rule_t \<Rightarrow> parse_ctx \<Rightarrow> payload_obj \<Rightarrow> (parser_t \<times> parse_ctx \<times> payload_obj) parsed option" where
  "parse_rule parse_payload this rule ctx pld =
     (let header_length = get_header_length pld; off = snd rule
      in case fst rule of
           U_INT_4 \<Rightarrow> Some (parsed_field (parse_uint4 this) pld off FU8 (\<lambda>_. ctx))
         | U_INT_8 \<Rightarrow> Some (parsed_field (parse_uint8 this) pld off FU8 (\<lambda>_. ctx))
         | RESERVED_BYTE \<Rightarrow> Some (parsed_field (parse_uint8 this) pld off FU8 (\<lambda>_. ctx))
         | U_INT_16 \<Rightarrow> Some (parsed_field (parse_uint16 this) pld off FU16 (\<lambda>_. ctx))
         | U_INT_32 \<Rightarrow> Some (parsed_field (parse_uint32 this) pld off FU32 (\<lambda>_. ctx))
         | HEADER_LENGTH \<Rightarrow> Some (parsed_field (parse_uint32 this) pld off FU32 (\<lambda>_. ctx))
         | IKE_SPI \<Rightarrow> Some (parsed_field (parse_bytes this 8) pld off FSpi (\<lambda>_. ctx))
         | RESERVED_BIT \<Rightarrow> Some (parsed_field (parse_bit this) pld off FBool (\<lambda>_. ctx))
         | FLAG \<Rightarrow> Some (parsed_field (parse_bit this) pld off FBool (\<lambda>_. ctx))
         | PAYLOAD_LENGTH \<Rightarrow>
             Some (case parsed_field (parse_uint16 this) pld off FU16 (\<lambda>v. ctx\<lparr>payload_length := unat v\<rparr>) of
                     Parse_Error \<Rightarrow> Parse_Error
                   | Parsed (this, ctx, pld) \<Rightarrow> if payload_length ctx < 4 then Parse_Error else Parsed (this, ctx, pld))
         | SPI_SIZE \<Rightarrow> Some (parsed_field (parse_uint8 this) pld off FU8 (\<lambda>v. ctx\<lparr>spi_size := unat v\<rparr>))
         | SPI \<Rightarrow> Some (parsed_field (parse_chunk this (spi_size ctx)) pld off FChunk (\<lambda>_. ctx))
         | PAYLOAD_LIST t \<Rightarrow>
             if t \<in> set list_rule_types
             then if payload_length ctx < header_length then Some Parse_Error
                  else Option.bind (parse_list parse_payload this (get_list_field pld off) (payload_number t)
                                      (int (payload_length ctx) - int header_length))
                         (\<lambda>r. Some (case r of
                                      Parse_Error \<Rightarrow> Parse_Error
                                    | Parsed (this, list) \<Rightarrow> Parsed (this, ctx, set_field pld off (FList list))))
             else Some Parse_Error
         | CHUNK_DATA \<Rightarrow>
             if payload_length ctx < header_length then Some Parse_Error
             else Some (parsed_field (parse_chunk this (payload_length ctx - header_length)) pld off FChunk (\<lambda>_. ctx))
         | ENCRYPTED_DATA \<Rightarrow> Some (parsed_field (parse_chunk this (input_roof this - byte_pos this)) pld off FChunk (\<lambda>_. ctx))
         | ATTRIBUTE_FORMAT \<Rightarrow> Some (parsed_field (parse_bit this) pld off FBool (\<lambda>v. ctx\<lparr>attribute_format := v\<rparr>))
         | ATTRIBUTE_TYPE \<Rightarrow> Some (parsed_field (parse_uint15 this) pld off FU16 (\<lambda>_. ctx))
         | ATTRIBUTE_LENGTH \<Rightarrow> Some (parsed_field (parse_uint16 this) pld off FU16 (\<lambda>v. ctx\<lparr>attribute_length := unat v\<rparr>))
         | ATTRIBUTE_LENGTH_OR_VALUE \<Rightarrow>
             Some (parsed_field (parse_uint16 this) pld off FU16 (\<lambda>v. ctx\<lparr>attribute_length := unat v\<rparr>))
         | ATTRIBUTE_VALUE \<Rightarrow>
             if \<not> attribute_format ctx
             then Some (parsed_field (parse_chunk this (attribute_length ctx)) pld off FChunk (\<lambda>_. ctx))
             else Some (Parsed (this, ctx, pld)))"

fun parse_rules ::
  "payload_parser \<Rightarrow> parser_t \<Rightarrow> encoding_rule_t list \<Rightarrow> parse_ctx \<Rightarrow> payload_obj \<Rightarrow> (parser_t \<times> payload_obj) parsed option" where
  "parse_rules parse_payload this [] ctx pld = Some (Parsed (this, pld))"
| "parse_rules parse_payload this (rule # rules) ctx pld =
     (case parse_rule parse_payload this rule ctx pld of
        None \<Rightarrow> None
      | Some Parse_Error \<Rightarrow> Some Parse_Error
      | Some (Parsed (this, ctx, pld)) \<Rightarrow> parse_rules parse_payload this rules ctx pld)"

definition start_payload :: "u8 \<Rightarrow> nat \<Rightarrow> payload_obj" where
  "start_payload version type =
     (if payload_is_known type version then payload_create type else unknown_payload_create type)"

text \<open>The first argument bounds the nesting of payloads; a payload beyond it would not be returned.\<close>

fun parse_payload :: "nat \<Rightarrow> payload_parser" where
  "parse_payload 0 type this = None"
| "parse_payload (Suc depth) type this =
     (let pld = start_payload (major_version this) type
      in parse_rules (parse_payload depth) this (get_encoding_rules pld) parse_ctx0 pld)"

section \<open>Generator\<close>

text \<open>The contents of fresh memory are unknown: \<open>mem\<close> gives the byte at a position of the buffer.\<close>

record generator_t =
  gen_buffer :: bytes
  out_position :: nat
  current_bit :: nat
  header_length_offset :: u32
  gen_attribute_format :: bool
  gen_attribute_length :: u16

definition generator_create :: "(nat \<Rightarrow> u8) \<Rightarrow> generator_t" where
  "generator_create mem =
     \<lparr>gen_buffer = map mem [0..<500], out_position = 0, current_bit = 0, header_length_offset = 0,
      gen_attribute_format = False, gen_attribute_length = 0\<rparr>"

definition get_space :: "generator_t \<Rightarrow> nat" where
  "get_space this = length (gen_buffer this) - out_position this"

definition get_offset :: "generator_t \<Rightarrow> u32" where
  "get_offset this = of_nat (out_position this)"

function make_space_available :: "(nat \<Rightarrow> u8) \<Rightarrow> generator_t \<Rightarrow> nat \<Rightarrow> generator_t" where
  "make_space_available mem this bits =
     (if int (get_space this) * 8 - int (current_bit this) < int bits
      then make_space_available mem
             (this\<lparr>gen_buffer := gen_buffer this @ map mem [length (gen_buffer this)..<length (gen_buffer this) + 500]\<rparr>) bits
      else this)"
  by pat_completeness auto
termination
  by (relation "measure (\<lambda>(mem, this, bits). nat (int bits + int (current_bit this) + 8 * int (out_position this) - 8 * int (length (gen_buffer this))))")
     (auto simp: get_space_def)

declare make_space_available.simps [simp del]

definition write_bytes_to_buffer :: "(nat \<Rightarrow> u8) \<Rightarrow> generator_t \<Rightarrow> bytes \<Rightarrow> generator_t" where
  "write_bytes_to_buffer mem this bytes =
     (let this = make_space_available mem this (length bytes * 8)
      in this\<lparr>gen_buffer := take (out_position this) (gen_buffer this) @ bytes @
                            drop (out_position this + length bytes) (gen_buffer this),
              out_position := out_position this + length bytes\<rparr>)"

definition number_of_bits :: "encoding_type_t \<Rightarrow> nat option" where
  "number_of_bits int_type =
     (case int_type of
        U_INT_4 \<Rightarrow> Some 4
      | RESERVED_BYTE \<Rightarrow> Some 8 | SPI_SIZE \<Rightarrow> Some 8 | U_INT_8 \<Rightarrow> Some 8
      | U_INT_16 \<Rightarrow> Some 16 | PAYLOAD_LENGTH \<Rightarrow> Some 16 | ATTRIBUTE_LENGTH \<Rightarrow> Some 16
      | U_INT_32 \<Rightarrow> Some 32
      | ATTRIBUTE_TYPE \<Rightarrow> Some 15
      | IKE_SPI \<Rightarrow> Some 64
      | _ \<Rightarrow> None)"

abbreviation out_byte :: "generator_t \<Rightarrow> u8" where
  "out_byte this \<equiv> gen_buffer this ! out_position this"

definition set_out_byte :: "generator_t \<Rightarrow> u8 \<Rightarrow> generator_t" where
  "set_out_byte this b = this\<lparr>gen_buffer := (gen_buffer this)[out_position this := b]\<rparr>"

definition generate_uint4 :: "generator_t \<Rightarrow> u8 \<Rightarrow> generator_t" where
  "generate_uint4 this v =
     (if current_bit this = 0
      then let high = push_bit 4 v; low = out_byte this AND 0x0F
           in set_out_byte this (high OR low)\<lparr>current_bit := 4\<rparr>
      else if current_bit this = 4
      then let high = out_byte this AND 0xF0; low = v AND 0x0F
           in set_out_byte this (high OR low)\<lparr>current_bit := 0, out_position := out_position this + 1\<rparr>
      else this)"

definition generate_uint15 :: "(nat \<Rightarrow> u8) \<Rightarrow> generator_t \<Rightarrow> u16 \<Rightarrow> generator_t" where
  "generate_uint15 mem this v =
     (if current_bit this \<noteq> 1 then this
      else let attribute_format_flag = out_byte this AND 0x80;
               val = v AND 0x7FFF;
               val = (if attribute_format_flag \<noteq> 0 then val OR 0x8000 else val)
           in (write_bytes_to_buffer mem this (be_encode 2 (unat val)))\<lparr>current_bit := 0\<rparr>)"

definition generate_u_int_type ::
  "(nat \<Rightarrow> u8) \<Rightarrow> generator_t \<Rightarrow> payload_obj \<Rightarrow> encoding_type_t \<Rightarrow> string \<Rightarrow> generator_t" where
  "generate_u_int_type mem this obj int_type off =
     (case number_of_bits int_type of
        None \<Rightarrow> this
      | Some bits \<Rightarrow>
          if bits mod 8 = 0 \<and> current_bit this \<noteq> 0 then this
          else let this = make_space_available mem this bits
               in if int_type = U_INT_4 then generate_uint4 this (get_u8 obj off)
                  else if int_type \<in> {RESERVED_BYTE, SPI_SIZE, U_INT_8}
                  then set_out_byte this (get_u8 obj off)\<lparr>out_position := out_position this + 1\<rparr>
                  else if int_type = ATTRIBUTE_TYPE then generate_uint15 mem this (get_u16 obj off)
                  else if int_type \<in> {U_INT_16, PAYLOAD_LENGTH, ATTRIBUTE_LENGTH}
                  then write_bytes_to_buffer mem this (be_encode 2 (unat (get_u16 obj off)))
                  else if int_type = U_INT_32 then write_bytes_to_buffer mem this (be_encode 4 (unat (get_u32 obj off)))
                  else write_bytes_to_buffer mem this (get_spi_bytes obj off))"

definition generate_flag :: "(nat \<Rightarrow> u8) \<Rightarrow> generator_t \<Rightarrow> bool \<Rightarrow> generator_t" where
  "generate_flag mem this v =
     (let flag = push_bit (7 - current_bit this) (if v then 1 else 0 :: u8);
          this = make_space_available mem this 1;
          this = (if current_bit this = 0 then set_out_byte this 0 else this);
          this = set_out_byte this (out_byte this OR flag);
          this = this\<lparr>current_bit := current_bit this + 1\<rparr>
      in if current_bit this \<ge> 8
         then this\<lparr>current_bit := current_bit this mod 8, out_position := out_position this + 1\<rparr> else this)"

definition generate_from_chunk :: "(nat \<Rightarrow> u8) \<Rightarrow> generator_t \<Rightarrow> bytes \<Rightarrow> generator_t" where
  "generate_from_chunk mem this value =
     (if current_bit this \<noteq> 0 then this else write_bytes_to_buffer mem this value)"

text \<open>
  The generation of a payload and the loop over its rules. A payload that is generated while the list of another one
  is written leaves its address in \<^verbatim>\<open>data_struct\<close>, but lists are the last rule of every table.
\<close>

lemma get_list_field_size: "x \<in> set (get_list_field obj off) \<Longrightarrow> size x < size obj"
proof -
  assume x: "x \<in> set (get_list_field obj off)"
  then obtain l where l: "map_of (obj_fields obj) off = Some (FList l)" "x \<in> set l"
    by (cases "map_of (obj_fields obj) off") (auto simp: get_list_field_def get_field_def split: payload_field.splits)
  then have "(off, FList l) \<in> set (obj_fields obj)" by (simp add: map_of_SomeD)
  then have "size (FList l) < size obj"
    by (cases obj) (auto dest!: size_list_estimation'[where f = "size_prod (\<lambda>_. 0) size" and y = "size (FList l)"] simp: less_Suc_eq_le)
  moreover have "size x < size (FList l)" using l(2) size_list_estimation'[of x l "size x" size] by simp
  ultimately show ?thesis by simp
qed

function generate_payload :: "(nat \<Rightarrow> u8) \<Rightarrow> generator_t \<Rightarrow> payload_obj \<Rightarrow> generator_t"
  and generate_rules :: "(nat \<Rightarrow> u8) \<Rightarrow> generator_t \<Rightarrow> payload_obj \<Rightarrow> encoding_rule_t list \<Rightarrow> generator_t" where
  "generate_payload mem this payload = generate_rules mem this payload (get_encoding_rules payload)"
| "generate_rules mem this payload [] = this"
| "generate_rules mem this payload (rule # rules) =
     (let off = snd rule
      in case fst rule of
           RESERVED_BIT \<Rightarrow> generate_rules mem (generate_flag mem this (get_bool payload off)) payload rules
         | FLAG \<Rightarrow> generate_rules mem (generate_flag mem this (get_bool payload off)) payload rules
         | HEADER_LENGTH \<Rightarrow>
             generate_rules mem (generate_u_int_type mem (this\<lparr>header_length_offset := get_offset this\<rparr>) payload U_INT_32 off) payload rules
         | SPI \<Rightarrow> generate_rules mem (generate_from_chunk mem this (get_chunk_field payload off)) payload rules
         | CHUNK_DATA \<Rightarrow> generate_rules mem (generate_from_chunk mem this (get_chunk_field payload off)) payload rules
         | ENCRYPTED_DATA \<Rightarrow> generate_rules mem (generate_from_chunk mem this (get_chunk_field payload off)) payload rules
         | PAYLOAD_LIST t \<Rightarrow>
             if t \<in> set list_rule_types
             then generate_rules mem (fold (\<lambda>proposal this. generate_payload mem this proposal) (get_list_field payload off) this) payload rules
             else this
         | ATTRIBUTE_FORMAT \<Rightarrow>
             generate_rules mem ((generate_flag mem this (get_bool payload off))\<lparr>gen_attribute_format := get_bool payload off\<rparr>) payload rules
         | ATTRIBUTE_LENGTH_OR_VALUE \<Rightarrow>
             generate_rules mem
               (let this' = generate_u_int_type mem this payload U_INT_16 off
                in if gen_attribute_format this then this' else this'\<lparr>gen_attribute_length := get_u16 payload off\<rparr>) payload rules
         | ATTRIBUTE_VALUE \<Rightarrow>
             generate_rules mem (if \<not> gen_attribute_format this then generate_from_chunk mem this (get_chunk_field payload off) else this) payload rules
         | int_type \<Rightarrow> generate_rules mem (generate_u_int_type mem this payload int_type off) payload rules)"
  by pat_completeness auto
termination
  by (relation "measures [\<lambda>x. case x of Inl (mem, this, p) \<Rightarrow> size p | Inr (mem, this, p, rules) \<Rightarrow> size p,
       \<lambda>x. case x of Inl (mem, this, p) \<Rightarrow> Suc (length (get_encoding_rules p)) | Inr (mem, this, p, rules) \<Rightarrow> length rules]")
     (auto simp: get_list_field_size)

declare generate_payload.simps [simp del] generate_rules.simps(2) [simp del]

definition gen_get_chunk :: "generator_t \<Rightarrow> bytes" where
  "gen_get_chunk this = take (out_position this) (gen_buffer this)"

end
