(* ===== verification/Payload_Bits.thy ===== *)
theory Payload_Bits
  imports Payload_Codec
begin

text \<open>
  Bits of bytes, and what the primitives of the generator append and those of the parser read, as lists of bits.
\<close>

section \<open>Bytes as bits\<close>

definition bits8 :: "u8 \<Rightarrow> bool list" where
  "bits8 b = map (\<lambda>i. bit b (7 - i)) [0..<8]"

definition bits_of :: "bytes \<Rightarrow> bool list" where
  "bits_of bs = concat (map bits8 bs)"

lemma length_bits8 [simp]: "length (bits8 b) = 8"
  by (simp add: bits8_def)

lemma nth_bits8: "i < 8 \<Longrightarrow> bits8 b ! i = bit b (7 - i)"
  by (simp add: bits8_def)

lemma bits8_inj [simp]: "bits8 a = bits8 b \<longleftrightarrow> a = b"
proof
  assume e: "bits8 a = bits8 b"
  show "a = b"
  proof (rule bit_word_eqI)
    fix n assume "n < LENGTH(8)"
    then have "bits8 a ! (7 - n) = bit a n" "bits8 b ! (7 - n) = bit b n" by (simp_all add: nth_bits8)
    then show "bit a n = bit b n" using e by simp
  qed
qed simp

lemma bits_of_simps [simp]: "bits_of [] = []" "bits_of (b # bs) = bits8 b @ bits_of bs" "bits_of (xs @ ys) = bits_of xs @ bits_of ys"
  by (simp_all add: bits_of_def)

lemma length_bits_of [simp]: "length (bits_of bs) = 8 * length bs"
  by (induction bs) auto

lemma take_bits_of: "take (8 * n) (bits_of bs) = bits_of (take n bs)"
proof (induction bs arbitrary: n)
  case (Cons b bs)
  then show ?case by (cases n) (auto simp: take_append)
qed simp

lemma drop_bits_of: "drop (8 * n) (bits_of bs) = bits_of (drop n bs)"
proof (induction bs arbitrary: n)
  case (Cons b bs)
  then show ?case by (cases n) auto
qed simp

lemma bits_of_inj [simp]: "bits_of xs = bits_of ys \<longleftrightarrow> xs = ys"
proof
  assume "bits_of xs = bits_of ys"
  then show "xs = ys"
  proof (induction xs arbitrary: ys)
    case Nil
    then show ?case by (cases ys) (auto dest: arg_cong[where f = length])
  next
    case (Cons x xs)
    then obtain y zs where ys: "ys = y # zs" by (cases ys) (auto dest: arg_cong[where f = length])
    then have "bits8 x = bits8 y \<and> bits_of xs = bits_of zs" using Cons.prems by simp
    then show ?case using Cons.IH ys by simp
  qed
qed simp

lemma nth_bits_of: "i < length bs \<Longrightarrow> j < 8 \<Longrightarrow> bits_of bs ! (8 * i + j) = bit (bs ! i) (7 - j)"
proof (induction bs arbitrary: i)
  case (Cons b bs)
  then show ?case by (cases i) (auto simp: nth_append nth_bits8)
qed simp

text \<open>A prefix that ends inside a byte.\<close>

lemma take_bits_partial:
  assumes "i < length bs" "j \<le> 8"
  shows "take (8 * i + j) (bits_of bs) = bits_of (take i bs) @ take j (bits8 (bs ! i))"
proof -
  have "bits_of bs = bits_of (take i bs) @ bits8 (bs ! i) @ bits_of (drop (Suc i) bs)"
    using arg_cong[OF id_take_nth_drop[OF assms(1)], of bits_of] by simp
  then show ?thesis using assms by (simp add: take_append)
qed

section \<open>What the generator has written\<close>

definition gen_bits :: "generator_t \<Rightarrow> bool list" where
  "gen_bits g = take (8 * out_position g + current_bit g) (bits_of (gen_buffer g))"

definition gen_ok :: "generator_t \<Rightarrow> bool" where
  "gen_ok g \<longleftrightarrow> current_bit g < 8 \<and> 8 * out_position g + current_bit g \<le> 8 * length (gen_buffer g)"

text \<open>The rest of a byte that flags are written to is zero.\<close>

definition gen_clean :: "generator_t \<Rightarrow> bool" where
  "gen_clean g \<longleftrightarrow> (current_bit g \<noteq> 0 \<longrightarrow> (\<forall>i. current_bit g + i < 8 \<longrightarrow> \<not> bit (out_byte g) i))"

lemma gen_ok_pos: "gen_ok g \<Longrightarrow> current_bit g \<noteq> 0 \<Longrightarrow> out_position g < length (gen_buffer g)" "gen_ok g \<Longrightarrow> out_position g \<le> length (gen_buffer g)"
  by (auto simp: gen_ok_def)

lemma gen_bits_aligned: "current_bit g = 0 \<Longrightarrow> gen_bits g = bits_of (take (out_position g) (gen_buffer g))"
  by (simp add: gen_bits_def take_bits_of)

lemma gen_bits_partial:
  "gen_ok g \<Longrightarrow> out_position g < length (gen_buffer g) \<Longrightarrow>
   gen_bits g = bits_of (take (out_position g) (gen_buffer g)) @ take (current_bit g) (bits8 (out_byte g))"
  by (simp add: gen_bits_def take_bits_partial gen_ok_def)

lemma make_space:
  assumes "gen_ok g"
  shows "\<exists>ext. make_space_available mem g n = g\<lparr>gen_buffer := gen_buffer g @ ext\<rparr> \<and>
           8 * out_position g + current_bit g + n \<le> 8 * length (gen_buffer g @ ext)"
  using assms
proof (induction mem g n rule: make_space_available.induct)
  case (1 mem g n)
  show ?case
  proof (cases "int (get_space g) * 8 - int (current_bit g) < int n")
    case True
    let ?ext = "map mem [length (gen_buffer g)..<length (gen_buffer g) + 500]"
    have "gen_ok (g\<lparr>gen_buffer := gen_buffer g @ ?ext\<rparr>)" using 1(2) by (simp add: gen_ok_def)
    then obtain ext where e: "make_space_available mem (g\<lparr>gen_buffer := gen_buffer g @ ?ext\<rparr>) n =
        g\<lparr>gen_buffer := gen_buffer g @ ?ext\<rparr>\<lparr>gen_buffer := (gen_buffer g @ ?ext) @ ext\<rparr>"
      "8 * out_position g + current_bit g + n \<le> 8 * length ((gen_buffer g @ ?ext) @ ext)"
      using "1.IH"[OF True] by auto
    have "make_space_available mem g n = make_space_available mem (g\<lparr>gen_buffer := gen_buffer g @ ?ext\<rparr>) n"
      using True by (subst make_space_available.simps) simp
    then show ?thesis using e by (intro exI[of _ "?ext @ ext"]) simp
  next
    case False
    then have "8 * out_position g + current_bit g + n \<le> 8 * length (gen_buffer g)"
      using gen_ok_pos(2)[OF 1(2)] by (simp add: get_space_def)
    then show ?thesis using False by (intro exI[of _ "[]"]) (subst make_space_available.simps, simp)
  qed
qed

lemma make_space_keeps:
  assumes "gen_ok g" "g' = make_space_available mem g n"
  shows "gen_bits g' = gen_bits g" "gen_ok g'" "current_bit g' = current_bit g" "out_position g' = out_position g"
    "gen_clean g \<Longrightarrow> gen_clean g'" "gen_attribute_format g' = gen_attribute_format g"
    "8 * out_position g + current_bit g + n \<le> 8 * length (gen_buffer g')"
    "current_bit g \<noteq> 0 \<Longrightarrow> out_byte g' = out_byte g"
    "take (out_position g) (gen_buffer g') = take (out_position g) (gen_buffer g)"
proof -
  obtain ext where e: "g' = g\<lparr>gen_buffer := gen_buffer g @ ext\<rparr>" "8 * out_position g + current_bit g + n \<le> 8 * length (gen_buffer g @ ext)"
    using make_space[OF assms(1), of mem n] assms(2) by auto
  show "gen_bits g' = gen_bits g" using assms(1) by (simp add: e(1) gen_bits_def gen_ok_def)
  show "gen_ok g'" using assms(1) by (simp add: e(1) gen_ok_def)
  show "current_bit g' = current_bit g" "out_position g' = out_position g" "gen_attribute_format g' = gen_attribute_format g"
    by (simp_all add: e(1))
  show b: "out_byte g' = out_byte g" if "current_bit g \<noteq> 0"
    using gen_ok_pos(1)[OF assms(1) that] by (simp add: e(1) nth_append)
  show "gen_clean g'" if "gen_clean g" using that b by (auto simp: gen_clean_def e(1))
  show "8 * out_position g + current_bit g + n \<le> 8 * length (gen_buffer g')" using e by simp
  show "take (out_position g) (gen_buffer g') = take (out_position g) (gen_buffer g)"
    using gen_ok_pos(2)[OF assms(1)] by (simp add: e(1))
qed

text \<open>What one step of the generator guarantees: it appends bits and stays inside the buffer.\<close>

definition appends :: "generator_t \<Rightarrow> bool list \<Rightarrow> nat \<Rightarrow> generator_t \<Rightarrow> bool" where
  "appends g bs c g' \<longleftrightarrow> gen_bits g' = gen_bits g @ bs \<and> gen_ok g' \<and> current_bit g' = c"

lemma write_bytes_appends:
  assumes "gen_ok g" "current_bit g = 0"
  shows "appends g (bits_of bs) 0 (write_bytes_to_buffer mem g bs)"
    "gen_attribute_format (write_bytes_to_buffer mem g bs) = gen_attribute_format g"
proof -
  define h where "h = make_space_available mem g (length bs * 8)"
  note h = make_space_keeps[OF assms(1) h_def]
  have w: "write_bytes_to_buffer mem g bs = h\<lparr>gen_buffer := take (out_position g) (gen_buffer h) @ bs @ drop (out_position g + length bs) (gen_buffer h),
      out_position := out_position g + length bs\<rparr>"
    by (simp add: write_bytes_to_buffer_def Let_def h_def[symmetric] h(4))
  have l: "out_position g + length bs \<le> length (gen_buffer h)" using h(7) assms(2) by simp
  have "gen_bits (write_bytes_to_buffer mem g bs) = bits_of (take (out_position g) (gen_buffer h)) @ bits_of bs"
    using l h(3) assms(2) unfolding w by (cases bs) (simp_all add: gen_bits_aligned min_def)
  then show "appends g (bits_of bs) 0 (write_bytes_to_buffer mem g bs)"
    using l h(3) assms(2) by (simp add: appends_def gen_bits_aligned[OF assms(2)] h(9)) (simp add: w gen_ok_def)
  show "gen_attribute_format (write_bytes_to_buffer mem g bs) = gen_attribute_format g" by (simp add: w h(6))
qed

lemma appends_byte:
  assumes "gen_ok g" "current_bit g = 0" "8 * out_position g + 8 \<le> 8 * length (gen_buffer g)"
  shows "appends g (bits8 b) 0 (set_out_byte g b\<lparr>out_position := out_position g + 1\<rparr>)"
  using assms by (simp add: appends_def gen_bits_aligned gen_ok_def set_out_byte_def take_Suc_conv_app_nth)

lemma appends_make_space:
  "gen_ok g \<Longrightarrow> appends (make_space_available mem g n) bs c g' \<Longrightarrow> appends g bs c g'"
  using make_space_keeps(1)[of g] by (simp add: appends_def)

text \<open>Replacing the partial byte by one with the same leading bits.\<close>

lemma appends_partial:
  assumes "gen_ok g" "out_position g < length (gen_buffer g)" "take (current_bit g) (bits8 b) = take (current_bit g) (bits8 (out_byte g))"
    and c: "current_bit g \<le> c" "c \<le> 8" and bs: "bs = drop (current_bit g) (take c (bits8 b))"
  shows "c < 8 \<Longrightarrow> appends g bs c (set_out_byte g b\<lparr>current_bit := c\<rparr>)"
    "c = 8 \<Longrightarrow> appends g bs 0 (set_out_byte g b\<lparr>current_bit := 0, out_position := out_position g + 1\<rparr>)"
proof -
  have "take c (bits8 b) = take (current_bit g) (take c (bits8 b)) @ bs" unfolding bs by (simp only: append_take_drop_id)
  then have t: "take c (bits8 b) = take (current_bit g) (bits8 (out_byte g)) @ bs" using c assms(3) by (simp add: min_def)
  show "appends g bs c (set_out_byte g b\<lparr>current_bit := c\<rparr>)" if "c < 8"
    using assms(1,2) that t by (simp add: appends_def gen_bits_partial gen_ok_def set_out_byte_def)
  show "appends g bs 0 (set_out_byte g b\<lparr>current_bit := 0, out_position := out_position g + 1\<rparr>)" if "c = 8"
    using assms(1,2) that t by (simp add: appends_def gen_bits_partial[of g] gen_bits_aligned gen_ok_def set_out_byte_def take_Suc_conv_app_nth)
qed

lemma all_bits8: "xs = ys \<longleftrightarrow> length xs = length ys \<and> (\<forall>i < length ys. xs ! i = ys ! i)"
  by (auto simp: list_eq_iff_nth_eq)

lemma flag_appends:
  assumes "gen_ok g" "current_bit g = 0 \<or> gen_clean g"
  shows "appends g [v] ((current_bit g + 1) mod 8) (generate_flag mem g v)" "gen_clean (generate_flag mem g v)"
    "gen_attribute_format (generate_flag mem g v) = gen_attribute_format g"
proof -
  define c where "c = current_bit g"
  define h where "h = make_space_available mem g 1"
  note h = make_space_keeps[OF assms(1) h_def]
  define b0 where "b0 = (if c = 0 then 0 else out_byte g)"
  define b where "b = b0 OR push_bit (7 - c) (if v then 1 else 0)"
  have c8: "c < 8" using assms(1) by (simp add: c_def gen_ok_def)
  have pos: "out_position h < length (gen_buffer h)" using h(4,7) by simp
  have b0: "\<not> bit b0 i" if "c + i < 8" for i using assms(2) that by (auto simp: b0_def c_def gen_clean_def)
  have bit_b: "bit b i \<longleftrightarrow> bit b0 i \<or> i = 7 - c \<and> v" if "i < 8" for i
    using that c8 by (auto simp: b_def bit_or_iff bit_push_bit_iff bit_1_iff)
  have tb: "take (current_bit h) (bits8 b) = take (current_bit h) (bits8 (out_byte h))"
    using h(3,8) c8 by (auto simp: c_def[symmetric] list_eq_iff_nth_eq nth_bits8 bit_b b0_def)
  have bs: "[v] = drop (current_bit h) (take (c + 1) (bits8 b))"
    using h(3) c8 b0[of "7 - c"] by (simp add: c_def[symmetric] list_eq_iff_nth_eq nth_bits8 bit_b)
  have out: "(if c = 0 then 0 else out_byte h) = b0" using h(8) by (simp add: b0_def c_def)
  have g: "generate_flag mem g v =
      (if c + 1 \<ge> 8 then set_out_byte h b\<lparr>current_bit := 0, out_position := out_position h + 1\<rparr>
       else set_out_byte h b\<lparr>current_bit := c + 1\<rparr>)"
  proof -
    have "8 \<le> c + 1 \<Longrightarrow> (c + 1) mod 8 = 0" using c8 by (simp add: le_Suc_eq)
    then show ?thesis
      using c8 pos h(3) h(8) unfolding generate_flag_def Let_def h_def[symmetric] b_def out[symmetric]
      by (auto simp: set_out_byte_def c_def)
  qed
  have "appends h [v] ((c + 1) mod 8) (generate_flag mem g v)"
  proof (cases "c + 1 < 8")
    case True
    then show ?thesis using appends_partial(1)[OF h(2) pos tb _ _ bs] h(3) by (simp add: g c_def)
  next
    case False
    then have "c = 7" using c8 by simp
    then show ?thesis using appends_partial(2)[OF h(2) pos tb _ _ bs] h(3) by (simp add: g c_def)
  qed
  then show "appends g [v] ((current_bit g + 1) mod 8) (generate_flag mem g v)"
    using appends_make_space[OF assms(1)] by (simp add: h_def c_def)
  show "gen_clean (generate_flag mem g v)"
    using pos c8 b0 by (auto simp: g gen_clean_def set_out_byte_def bit_b)
  show "gen_attribute_format (generate_flag mem g v) = gen_attribute_format g" by (simp add: g h(6) set_out_byte_def)
qed

definition bits4 :: "u8 \<Rightarrow> bool list" where
  "bits4 v = map (\<lambda>i. bit v (3 - i)) [0..<4]"

lemma bit_15: "bit (15 :: u8) i \<longleftrightarrow> i < 4"
proof -
  have "i < 8 \<Longrightarrow> i \<in> {0, 1, 2, 3, 4, 5, 6, 7}" by auto
  then have "i < 8 \<Longrightarrow> ?thesis" by (auto simp: bit_iff_odd)
  then show ?thesis using bit_imp_le_length[of "15 :: u8" i] by auto
qed

lemma uint4_appends:
  assumes "gen_ok g" "8 * out_position g + current_bit g + 4 \<le> 8 * length (gen_buffer g)" "current_bit g = 0 \<or> current_bit g = 4"
  shows "appends g (bits4 v) ((current_bit g + 4) mod 8) (generate_uint4 g v)"
    "gen_attribute_format (generate_uint4 g v) = gen_attribute_format g"
proof -
  have pos: "out_position g < length (gen_buffer g)" using assms(2) by simp
  have bits: "bit (15 :: u8) i \<longleftrightarrow> i < 4" "bit (240 :: u8) i \<longleftrightarrow> 4 \<le> i" if "i < 8" for i
  proof -
    have "i \<in> {0, 1, 2, 3, 4, 5, 6, 7}" using that by auto
    then show "bit (15 :: u8) i \<longleftrightarrow> i < 4" "bit (240 :: u8) i \<longleftrightarrow> 4 \<le> i" by (auto simp: bit_iff_odd)
  qed
  show "gen_attribute_format (generate_uint4 g v) = gen_attribute_format g" by (simp add: generate_uint4_def Let_def set_out_byte_def)
  from assms(3) show "appends g (bits4 v) ((current_bit g + 4) mod 8) (generate_uint4 g v)"
  proof
    assume c: "current_bit g = 0"
    let ?b = "push_bit 4 v OR (out_byte g AND 15)"
    have "bits4 v = drop (current_bit g) (take 4 (bits8 ?b))"
      using c by (auto simp: list_eq_iff_nth_eq nth_bits8 bits4_def bit_or_iff bit_push_bit_iff bit_and_iff bit_15 simp del: bit_numeral_word_iff)
    then show ?thesis using appends_partial(1)[OF assms(1) pos, of ?b 4 "bits4 v"] c by (simp add: generate_uint4_def Let_def)
  next
    assume c: "current_bit g = 4"
    let ?b = "(out_byte g AND 240) OR (v AND 15)"
    have "bits4 v = drop (current_bit g) (take 8 (bits8 ?b))" "take (current_bit g) (bits8 ?b) = take (current_bit g) (bits8 (out_byte g))"
      using c by (auto simp: list_eq_iff_nth_eq nth_bits8 bits4_def bit_or_iff bit_and_iff bits simp del: bit_numeral_word_iff)
    then show ?thesis using appends_partial(2)[OF assms(1) pos, of ?b 8 "bits4 v"] c
      by (simp add: generate_uint4_def Let_def set_out_byte_def)
  qed
qed

text \<open>The 15 low bits of a 16-bit number.\<close>

definition bits15 :: "u16 \<Rightarrow> bool list" where
  "bits15 v = map (\<lambda>i. bit v (14 - i)) [0..<15]"

lemma bits_of_be16: "bits_of (be_encode 2 (unat w)) = map (\<lambda>i. bit (w :: u16) (15 - i)) [0..<16]"
proof -
  have l: "bit (of_nat (unat w) :: u8) i = bit w i" if "i < 8" for i
    using that by (simp add: bit_ucast_iff)
  have h: "bit (of_nat (unat w div 256) :: u8) i = bit w (i + 8)" if "i < 8" for i
  proof -
    have "bit (of_nat (unat w div 256) :: u8) i \<longleftrightarrow> bit (drop_bit 8 (unat w)) i"
      using that by (simp add: bit_of_nat_iff drop_bit_eq_div)
    then show ?thesis by (simp add: bit_drop_bit_eq bit_unsigned_iff add.commute)
  qed
  have "bits_of (be_encode 2 (unat w)) = bits_of [of_nat (unat w div 256), of_nat (unat w)]" by (simp add: numeral_2_eq_2)
  then show ?thesis
    by (simp only: bits_of_simps) (auto simp: list_eq_iff_nth_eq nth_append nth_bits8 l h bit_ucast_iff)
qed

lemma bit_8000: "bit (0x8000 :: u16) n \<longleftrightarrow> n = 15"
proof -
  have "(0x8000 :: u16) = push_bit 15 1" by simp
  then show ?thesis by (simp only: bit_push_bit_iff bit_1_iff) auto
qed

lemma bit_7FFF: "bit (0x7FFF :: u16) n \<longleftrightarrow> n < 15"
proof -
  have "(0x7FFF :: u16) = mask 15" by (simp add: mask_eq_exp_minus_1)
  then show ?thesis by (simp only: bit_mask_iff) auto
qed

lemma bit_80: "(b :: u8) AND 0x80 \<noteq> 0 \<longleftrightarrow> bit b 7"
proof -
  have "bit (0x80 :: u8) n \<longleftrightarrow> n = 7" for n
  proof -
    have "(0x80 :: u8) = push_bit 7 1" by simp
    then show ?thesis by (simp only: bit_push_bit_iff bit_1_iff) auto
  qed
  then have "bit (b AND 0x80) n \<longleftrightarrow> n = 7 \<and> bit b 7" for n by (auto simp: bit_and_iff simp del: bit_numeral_word_iff)
  then show ?thesis using bit_eq_iff[of "b AND 0x80" 0] by auto
qed

lemma uint15_appends:
  assumes "gen_ok g" "current_bit g = 1"
  shows "appends g (bits15 v) 0 (generate_uint15 mem g v)" "gen_attribute_format (generate_uint15 mem g v) = gen_attribute_format g"
proof -
  define f where "f = bit (out_byte g) 7"
  define w where "w = (if f then (v AND 0x7FFF) OR 0x8000 else v AND 0x7FFF)"
  define h where "h = make_space_available mem g 16"
  note h = make_space_keeps[OF assms(1) h_def]
  let ?p = "out_position g"
  have g': "generate_uint15 mem g v = h\<lparr>gen_buffer := take ?p (gen_buffer h) @ be_encode 2 (unat w) @ drop (?p + 2) (gen_buffer h),
      out_position := ?p + 2, current_bit := 0\<rparr>"
    using assms(2) unfolding generate_uint15_def Let_def write_bytes_to_buffer_def length_be_encode
    by (simp add: bit_80 f_def[symmetric] w_def h_def[symmetric] h(4))
  have p: "?p + 2 \<le> length (gen_buffer h)" "?p < length (gen_buffer h)" using h(7) assms(2) by simp_all
  have w: "bit w i \<longleftrightarrow> (if i = 15 then f else bit v i)" if "i < 16" for i
    using that by (auto simp: w_def bit_or_iff bit_and_iff bit_8000 bit_7FFF simp del: bit_numeral_word_iff)
  have "map (\<lambda>i. bit w (15 - i)) [0..<16] = f # bits15 v"
    by (auto simp: list_eq_iff_nth_eq bits15_def w nth_Cons split: nat.split)
  then have "gen_bits (generate_uint15 mem g v) = bits_of (take ?p (gen_buffer h)) @ f # bits15 v"
    using p by (simp add: gen_bits_aligned g' bits_of_be16 min_def)
  moreover have "gen_bits g = bits_of (take ?p (gen_buffer g)) @ [f]"
    using gen_bits_partial[OF assms(1) gen_ok_pos(1)[OF assms(1)]] assms(2) by (simp add: f_def bits8_def take_map)
  ultimately show "appends g (bits15 v) 0 (generate_uint15 mem g v)"
    using p by (simp add: appends_def h(9)) (simp add: g' gen_ok_def)
  show "gen_attribute_format (generate_uint15 mem g v) = gen_attribute_format g" by (simp add: g' h(6))
qed

section \<open>What the parser has still to read\<close>

definition par_bits :: "parser_t \<Rightarrow> bool list" where
  "par_bits p = drop (8 * byte_pos p + bit_pos p) (bits_of (take (input_roof p) (pa_input p)))"

definition par_ok :: "parser_t \<Rightarrow> bool" where
  "par_ok p \<longleftrightarrow> input_roof p \<le> length (pa_input p) \<and> byte_pos p \<le> input_roof p \<and> bit_pos p < 8"

lemma parse_chunk_reads:
  assumes "par_ok p" "bit_pos p = 0" "par_bits p = bits_of bs @ rest"
  shows "parse_chunk p (length bs) = Some (p\<lparr>byte_pos := byte_pos p + length bs\<rparr>, bs)"
    "par_ok (p\<lparr>byte_pos := byte_pos p + length bs\<rparr>)" "par_bits (p\<lparr>byte_pos := byte_pos p + length bs\<rparr>) = rest"
    "take (length bs) (drop (byte_pos p) (pa_input p)) = bs" "byte_pos p + length bs \<le> input_roof p"
proof -
  let ?X = "take (input_roof p) (pa_input p)"
  have d: "bits_of (drop (byte_pos p) ?X) = bits_of bs @ rest" using assms(2,3) by (simp add: par_bits_def drop_bits_of)
  have "length (bits_of (drop (byte_pos p) ?X)) = length (bits_of bs @ rest)" using d by (rule arg_cong)
  then have "8 * (input_roof p - byte_pos p) = 8 * length bs + length rest" using assms(1) by (simp add: par_ok_def)
  then show l: "byte_pos p + length bs \<le> input_roof p" using assms(1) unfolding par_ok_def by linarith
  have "bits_of (take (length bs) (drop (byte_pos p) ?X)) = take (8 * length bs) (bits_of bs @ rest)"
    using d by (simp add: take_bits_of[symmetric])
  then have "take (length bs) (drop (byte_pos p) ?X) = bs" by simp
  then show t: "take (length bs) (drop (byte_pos p) (pa_input p)) = bs" using l by (simp add: drop_take)
  show "parse_chunk p (length bs) = Some (p\<lparr>byte_pos := byte_pos p + length bs\<rparr>, bs)"
    using l t assms(2) by (simp add: parse_chunk_def)
  show "par_ok (p\<lparr>byte_pos := byte_pos p + length bs\<rparr>)" using l assms(1) by (simp add: par_ok_def)
  have "drop (8 * length bs) (bits_of (drop (byte_pos p) ?X)) = rest" using d by simp
  then show "par_bits (p\<lparr>byte_pos := byte_pos p + length bs\<rparr>) = rest"
    using assms(2) by (simp add: par_bits_def drop_bits_of[symmetric] add.commute distrib_left)
qed

lemma parse_bytes_chunk: "parse_bytes p n = parse_chunk p n"
  by (simp add: parse_bytes_def parse_chunk_def)

lemma parse_uint8_reads:
  assumes "par_ok p" "bit_pos p = 0" "par_bits p = bits8 b @ rest"
  shows "parse_uint8 p = Some (p\<lparr>byte_pos := byte_pos p + 1\<rparr>, b)"
proof -
  have "par_bits p = bits_of [b] @ rest" using assms(3) by simp
  note r = parse_chunk_reads[OF assms(1,2) this]
  have l: "byte_pos p < length (pa_input p)" using r(5) assms(1) by (simp add: par_ok_def)
  then have "pa_input p ! byte_pos p = b" using r(4) by (simp add: take_Suc_conv_app_nth[of 0] hd_drop_conv_nth[symmetric] take_Suc)
  then show ?thesis using r(5) assms(2) by (simp add: parse_uint8_def)
qed

lemma be16_back: "of_nat (be_decode (be_encode 2 (unat v))) = (v :: u16)"
  using unat_u16_less[of v] by (simp add: be_decode_encode)

lemma be32_back: "of_nat (be_decode (be_encode 4 (unat v))) = (v :: u32)"
proof -
  have "unat v < 2 ^ 32" using unsigned_less[of v] by simp
  then show ?thesis by (simp add: be_decode_encode)
qed

lemma parse_uint16_reads:
  assumes "par_ok p" "bit_pos p = 0" "par_bits p = bits_of (be_encode 2 (unat v)) @ rest"
  shows "parse_uint16 p = Some (p\<lparr>byte_pos := byte_pos p + 2\<rparr>, v)"
  using parse_chunk_reads(4,5)[OF assms] assms(2) by (simp add: parse_uint16_def be16_back)

lemma parse_uint32_reads:
  assumes "par_ok p" "bit_pos p = 0" "par_bits p = bits_of (be_encode 4 (unat v)) @ rest"
  shows "parse_uint32 p = Some (p\<lparr>byte_pos := byte_pos p + 4\<rparr>, v)"
  using parse_chunk_reads(4,5)[OF assms] assms(2) by (simp add: parse_uint32_def be32_back)

text \<open>Reading inside a byte.\<close>

lemma par_bits_nth:
  assumes "par_ok p" "par_bits p = bs @ rest" "bit_pos p + length bs \<le> 8" "bs \<noteq> []"
  shows "byte_pos p + 1 \<le> input_roof p"
    "i < length bs \<Longrightarrow> bit (pa_input p ! byte_pos p) (7 - (bit_pos p + i)) = bs ! i"
proof -
  let ?X = "take (input_roof p) (pa_input p)"
  have "length (par_bits p) = length bs + length rest" using assms(2) by simp
  then have "8 * input_roof p - (8 * byte_pos p + bit_pos p) > 0"
    using assms(1,4) by (auto simp: par_bits_def par_ok_def)
  then show r: "byte_pos p + 1 \<le> input_roof p" by simp
  assume i: "i < length bs"
  have "bits_of ?X ! (8 * byte_pos p + (bit_pos p + i)) = par_bits p ! i"
    using assms(1) r i assms(3) by (simp add: par_bits_def par_ok_def add.assoc)
  also have "\<dots> = bs ! i" using assms(2) i by (simp add: nth_append)
  finally show "bit (pa_input p ! byte_pos p) (7 - (bit_pos p + i)) = bs ! i"
    using nth_bits_of[of "byte_pos p" ?X "bit_pos p + i"] r assms(1,3) i by (simp add: par_ok_def)
qed

lemma par_bits_drop:
  assumes "par_bits p = bs @ rest" "8 * byte_pos q + bit_pos q = 8 * byte_pos p + bit_pos p + length bs"
    "input_roof q = input_roof p" "pa_input q = pa_input p"
  shows "par_bits q = rest"
  using arg_cong[OF assms(1), of "drop (length bs)"] assms(2-4) by (simp add: par_bits_def add.commute)

lemma parse_bit_reads:
  assumes "par_ok p" "par_bits p = v # rest"
  defines "q \<equiv> (if (bit_pos p + 1) mod 8 = 0 then p\<lparr>bit_pos := 0, byte_pos := byte_pos p + 1\<rparr> else p\<lparr>bit_pos := bit_pos p + 1\<rparr>)"
  shows "parse_bit p = Some (q, v)" "par_ok q" "par_bits q = rest" "bit_pos q = (bit_pos p + 1) mod 8"
proof -
  have pb: "par_bits p = [v] @ rest" using assms(2) by simp
  have b8: "bit_pos p < 8" using assms(1) by (simp add: par_ok_def)
  note n = par_bits_nth[OF assms(1) pb]
  have r: "byte_pos p + 1 \<le> input_roof p" and b: "bit (pa_input p ! byte_pos p) (7 - bit_pos p) = v"
    using n(1) n(2)[of 0] b8 by auto
  have m: "w AND push_bit k 1 \<noteq> 0 \<longleftrightarrow> bit w k" if "k < 8" for w :: u8 and k
  proof -
    have "bit (w AND push_bit k 1) j \<longleftrightarrow> j = k \<and> bit w k" for j using that by (auto simp: bit_and_iff bit_push_bit_iff bit_1_iff bit_exp_iff)
    then show ?thesis using bit_eq_iff[of "w AND push_bit k 1" 0] that by auto
  qed
  have mod: "(bit_pos p + 1) mod 8 = (if bit_pos p = 7 then 0 else bit_pos p + 1)" using b8 by (auto simp: mod_Suc)
  show "parse_bit p = Some (q, v)" using r b m[of "7 - bit_pos p" "pa_input p ! byte_pos p"] unfolding parse_bit_def q_def mod
    by (auto simp: Let_def mod[simplified])
  show "par_ok q" using r assms(1) unfolding q_def mod by (auto simp: par_ok_def)
  have "8 dvd Suc (bit_pos p) \<longleftrightarrow> bit_pos p = 7" using b8 by presburger
  then show "par_bits q = rest" by (intro par_bits_drop[OF pb]) (auto simp: q_def mod)
  show "bit_pos q = (bit_pos p + 1) mod 8" unfolding q_def mod by auto
qed

lemma parse_uint4_reads:
  assumes "par_ok p" "par_bits p = bits4 v @ rest" "bit_pos p = 0 \<or> bit_pos p = 4" "v AND 15 = v"
  defines "q \<equiv> (if bit_pos p = 0 then p\<lparr>bit_pos := 4\<rparr> else p\<lparr>bit_pos := 0, byte_pos := byte_pos p + 1\<rparr>)"
  shows "parse_uint4 p = Some (q, v)" "par_ok q" "par_bits q = rest" "bit_pos q = (bit_pos p + 4) mod 8"
proof -
  have l: "length (bits4 v) = 4" "bits4 v \<noteq> []" by (auto simp: bits4_def)
  note n = par_bits_nth[OF assms(1,2) _ l(2), unfolded l]
  have r: "byte_pos p + 1 \<le> input_roof p" using n(1) assms(3) by auto
  have v: "bit v i \<Longrightarrow> i < 4" for i using arg_cong[OF assms(4), of "\<lambda>w. bit w i"] bit_15[of i] by (auto simp: bit_and_iff simp del: bit_numeral_word_iff)
  let ?b = "pa_input p ! byte_pos p"
  have b: "bit ?b (7 - (bit_pos p + (3 - j))) = bit v j" if "j < 4" for j using n(2)[of "3 - j"] assms(3) that by (auto simp: bits4_def)
  have "(if bit_pos p = 0 then drop_bit 4 ?b else ?b AND 15) = v"
  proof (rule bit_word_eqI)
    fix j assume "j < LENGTH(8)"
    then show "bit (if bit_pos p = 0 then drop_bit 4 ?b else ?b AND 15) j = bit v j"
      using b[of j] v[of j] assms(3) bit_imp_le_length[of ?b "j + 4"]
      by (cases "j < 4") (auto simp: bit_drop_bit_eq bit_and_iff bit_15 add.commute simp del: bit_numeral_word_iff)
  qed
  then show "parse_uint4 p = Some (q, v)" using r assms(3) by (auto simp: parse_uint4_def q_def)
  show "par_ok q" using r assms(1,3) by (auto simp: q_def par_ok_def)
  show "par_bits q = rest" by (rule par_bits_drop[OF assms(2)]) (use assms(3) l in \<open>auto simp: q_def\<close>)
  show "bit_pos q = (bit_pos p + 4) mod 8" using assms(3) by (auto simp: q_def)
qed

lemma join15: "\<exists>w. bits_of (be_encode 2 (unat w)) = f # bits15 v \<and> w AND 0x7FFF = v AND 0x7FFF"
proof -
  define w where "w = (if f then (v AND 0x7FFF) OR 0x8000 else v AND 0x7FFF)"
  have w: "bit w i \<longleftrightarrow> (if i = 15 then f else bit v i)" if "i < 16" for i
    using that by (auto simp: w_def bit_or_iff bit_and_iff bit_8000 bit_7FFF simp del: bit_numeral_word_iff)
  have "bits_of (be_encode 2 (unat w)) = f # bits15 v"
    by (auto simp: bits_of_be16 list_eq_iff_nth_eq bits15_def w nth_Cons split: nat.split)
  moreover have "w AND 0x7FFF = v AND 0x7FFF"
    by (rule bit_word_eqI) (auto simp: bit_and_iff bit_7FFF w simp del: bit_numeral_word_iff)
  ultimately show ?thesis by blast
qed

lemma parse_uint15_reads:
  assumes "par_ok p" "par_bits p = bits15 v @ rest" "bit_pos p = 1" "v AND 0x7FFF = v"
  defines "q \<equiv> p\<lparr>byte_pos := byte_pos p + 2, bit_pos := 0\<rparr>"
  shows "parse_uint15 p = Some (q, v)" "par_ok q" "par_bits q = rest" "bit_pos q = 0"
proof -
  let ?X = "take (input_roof p) (pa_input p)" and ?p = "p\<lparr>bit_pos := 0\<rparr>"
  have "0 < length (par_bits p)" using assms(2) by (simp add: bits15_def)
  then have l: "8 * byte_pos p < length (bits_of ?X)" using assms(3) by (simp add: par_bits_def min_def split: if_splits)
  obtain w where w: "bits_of (be_encode 2 (unat w)) = bits_of ?X ! (8 * byte_pos p) # bits15 v" "w AND 0x7FFF = v AND 0x7FFF"
    using join15 by blast
  have "par_bits ?p = bits_of (be_encode 2 (unat w)) @ rest"
    using Cons_nth_drop_Suc[OF l] assms(2,3) by (simp add: par_bits_def w(1))
  note r = parse_chunk_reads[OF _ _ this]
  have ok: "par_ok ?p" using assms(1) by (simp add: par_ok_def)
  show "parse_uint15 p = Some (q, v)" using r(4,5)[OF ok] assms(3,4) w(2) by (simp add: parse_uint15_def q_def be16_back)
  show "par_ok q" using r(2)[OF ok] by (simp add: q_def par_ok_def)
  show "par_bits q = rest" using r(3)[OF ok] by (simp add: q_def par_bits_def)
  show "bit_pos q = 0" by (simp add: q_def)
qed

end
