(* ===== verification/Payload_Encoding.thy ===== *)
theory Payload_Encoding
  imports Payload_Bits
begin

text \<open>
  The encoding that the tables of rules describe, the consistency of payloads and the properties of the tables on which the
  loops rely, and the generator: it appends the encoding of a consistent payload.
\<close>

section \<open>The encoding that the rules describe\<close>

definition rule_bits :: "(payload_obj \<Rightarrow> bool list) \<Rightarrow> payload_obj \<Rightarrow> parse_ctx \<Rightarrow> encoding_rule_t \<Rightarrow> bool list" where
  "rule_bits sub obj ctx rule =
     (let off = snd rule
      in case fst rule of
           U_INT_4 \<Rightarrow> bits4 (get_u8 obj off)
         | U_INT_8 \<Rightarrow> bits8 (get_u8 obj off) | RESERVED_BYTE \<Rightarrow> bits8 (get_u8 obj off) | SPI_SIZE \<Rightarrow> bits8 (get_u8 obj off)
         | U_INT_16 \<Rightarrow> bits_of (be_encode 2 (unat (get_u16 obj off)))
         | PAYLOAD_LENGTH \<Rightarrow> bits_of (be_encode 2 (unat (get_u16 obj off)))
         | ATTRIBUTE_LENGTH \<Rightarrow> bits_of (be_encode 2 (unat (get_u16 obj off)))
         | ATTRIBUTE_LENGTH_OR_VALUE \<Rightarrow> bits_of (be_encode 2 (unat (get_u16 obj off)))
         | U_INT_32 \<Rightarrow> bits_of (be_encode 4 (unat (get_u32 obj off)))
         | HEADER_LENGTH \<Rightarrow> bits_of (be_encode 4 (unat (get_u32 obj off)))
         | IKE_SPI \<Rightarrow> bits_of (get_spi_bytes obj off)
         | RESERVED_BIT \<Rightarrow> [get_bool obj off] | FLAG \<Rightarrow> [get_bool obj off] | ATTRIBUTE_FORMAT \<Rightarrow> [get_bool obj off]
         | SPI \<Rightarrow> bits_of (get_chunk_field obj off) | CHUNK_DATA \<Rightarrow> bits_of (get_chunk_field obj off)
         | ENCRYPTED_DATA \<Rightarrow> bits_of (get_chunk_field obj off)
         | ATTRIBUTE_TYPE \<Rightarrow> bits15 (get_u16 obj off)
         | ATTRIBUTE_VALUE \<Rightarrow> (if attribute_format ctx then [] else bits_of (get_chunk_field obj off))
         | PAYLOAD_LIST t \<Rightarrow> concat (map sub (get_list_field obj off)))"

definition ctx_step :: "payload_obj \<Rightarrow> parse_ctx \<Rightarrow> encoding_rule_t \<Rightarrow> parse_ctx" where
  "ctx_step obj ctx rule =
     (case fst rule of
        PAYLOAD_LENGTH \<Rightarrow> ctx\<lparr>payload_length := unat (get_u16 obj (snd rule))\<rparr>
      | SPI_SIZE \<Rightarrow> ctx\<lparr>spi_size := unat (get_u8 obj (snd rule))\<rparr>
      | ATTRIBUTE_FORMAT \<Rightarrow> ctx\<lparr>attribute_format := get_bool obj (snd rule)\<rparr>
      | ATTRIBUTE_LENGTH \<Rightarrow> ctx\<lparr>attribute_length := unat (get_u16 obj (snd rule))\<rparr>
      | ATTRIBUTE_LENGTH_OR_VALUE \<Rightarrow> ctx\<lparr>attribute_length := unat (get_u16 obj (snd rule))\<rparr>
      | _ \<Rightarrow> ctx)"

fun rules_bits :: "(payload_obj \<Rightarrow> bool list) \<Rightarrow> payload_obj \<Rightarrow> parse_ctx \<Rightarrow> encoding_rule_t list \<Rightarrow> bool list" where
  "rules_bits sub obj ctx [] = []"
| "rules_bits sub obj ctx (rule # rules) = rule_bits sub obj ctx rule @ rules_bits sub obj (ctx_step obj ctx rule) rules"

fun payload_bits :: "nat \<Rightarrow> payload_obj \<Rightarrow> bool list" where
  "payload_bits 0 obj = []"
| "payload_bits (Suc depth) obj = rules_bits (payload_bits depth) obj parse_ctx0 (get_encoding_rules obj)"

text \<open>
  Consistent payloads: numbers fit their fields, lengths agree with the data they announce, and fields that the rules do not
  mention have their initial values. \<open>start\<close> is a new payload of the type.
\<close>

definition rule_ok ::
  "(payload_type_t \<Rightarrow> payload_obj \<Rightarrow> bool) \<Rightarrow> (payload_obj \<Rightarrow> bool list) \<Rightarrow> payload_obj \<Rightarrow> payload_obj \<Rightarrow> parse_ctx \<Rightarrow> encoding_rule_t \<Rightarrow> bool" where
  "rule_ok subok sub start obj ctx rule =
     (let off = snd rule
      in case fst rule of
           U_INT_4 \<Rightarrow> (case get_field obj off of Some (FU8 v) \<Rightarrow> v AND 15 = v | _ \<Rightarrow> False)
         | U_INT_8 \<Rightarrow> (case get_field obj off of Some (FU8 v) \<Rightarrow> True | _ \<Rightarrow> False)
         | RESERVED_BYTE \<Rightarrow> (case get_field obj off of Some (FU8 v) \<Rightarrow> True | _ \<Rightarrow> False)
         | SPI_SIZE \<Rightarrow> (case get_field obj off of Some (FU8 v) \<Rightarrow> True | _ \<Rightarrow> False)
         | U_INT_16 \<Rightarrow> (case get_field obj off of Some (FU16 v) \<Rightarrow> True | _ \<Rightarrow> False)
         | PAYLOAD_LENGTH \<Rightarrow> (case get_field obj off of Some (FU16 v) \<Rightarrow> 4 \<le> unat v | _ \<Rightarrow> False)
         | ATTRIBUTE_LENGTH \<Rightarrow> (case get_field obj off of Some (FU16 v) \<Rightarrow> True | _ \<Rightarrow> False)
         | ATTRIBUTE_LENGTH_OR_VALUE \<Rightarrow> (case get_field obj off of Some (FU16 v) \<Rightarrow> True | _ \<Rightarrow> False)
         | U_INT_32 \<Rightarrow> (case get_field obj off of Some (FU32 v) \<Rightarrow> True | _ \<Rightarrow> False)
         | HEADER_LENGTH \<Rightarrow> (case get_field obj off of Some (FU32 v) \<Rightarrow> True | _ \<Rightarrow> False)
         | IKE_SPI \<Rightarrow> (case get_field obj off of Some (FSpi v) \<Rightarrow> length v = 8 | _ \<Rightarrow> False)
         | RESERVED_BIT \<Rightarrow> (case get_field obj off of Some (FBool v) \<Rightarrow> True | _ \<Rightarrow> False)
         | FLAG \<Rightarrow> (case get_field obj off of Some (FBool v) \<Rightarrow> True | _ \<Rightarrow> False)
         | ATTRIBUTE_FORMAT \<Rightarrow> (case get_field obj off of Some (FBool v) \<Rightarrow> True | _ \<Rightarrow> False)
         | SPI \<Rightarrow> (case get_field obj off of Some (FChunk v) \<Rightarrow> length v = spi_size ctx | _ \<Rightarrow> False)
         | CHUNK_DATA \<Rightarrow>
             (case get_field obj off of Some (FChunk v) \<Rightarrow> payload_length ctx = get_header_length obj + length v | _ \<Rightarrow> False)
         | ENCRYPTED_DATA \<Rightarrow> False
         | ATTRIBUTE_TYPE \<Rightarrow> (case get_field obj off of Some (FU16 v) \<Rightarrow> v AND 0x7FFF = v | _ \<Rightarrow> False)
         | ATTRIBUTE_VALUE \<Rightarrow>
             (case get_field obj off of
                Some (FChunk v) \<Rightarrow> if attribute_format ctx then get_field start off = Some (FChunk v) else length v = attribute_length ctx
              | _ \<Rightarrow> False)
         | PAYLOAD_LIST t \<Rightarrow>
             t \<in> set list_rule_types \<and> get_list_field start off = [] \<and> \<not> attribute_format ctx \<and>
             (case get_field obj off of
                Some (FList l) \<Rightarrow> list_all (subok t) l \<and>
                  8 * payload_length ctx = 8 * get_header_length obj + length (concat (map sub l))
              | _ \<Rightarrow> False))"

fun rules_ok ::
  "(payload_type_t \<Rightarrow> payload_obj \<Rightarrow> bool) \<Rightarrow> (payload_obj \<Rightarrow> bool list) \<Rightarrow> payload_obj \<Rightarrow> payload_obj \<Rightarrow> parse_ctx \<Rightarrow> encoding_rule_t list \<Rightarrow> bool" where
  "rules_ok subok sub start obj ctx [] = True"
| "rules_ok subok sub start obj ctx (rule # rules) =
     (rule_ok subok sub start obj ctx rule \<and> rules_ok subok sub start obj (ctx_step obj ctx rule) rules)"

fun payload_wf :: "u8 \<Rightarrow> nat \<Rightarrow> payload_obj \<Rightarrow> bool" where
  "payload_wf version 0 obj = False"
| "payload_wf version (Suc depth) obj =
     (let start = start_payload version (obj_type obj)
      in obj_class obj = obj_class start \<and> map fst (obj_fields obj) = map fst (obj_fields start) \<and>
         list_all (\<lambda>k. k \<in> snd ` set (get_encoding_rules obj) \<or> get_field obj k = get_field start k) (map fst (obj_fields start)) \<and>
         rules_ok (\<lambda>t x. obj_type x = payload_number t \<and> payload_wf version depth x) (payload_bits depth) start obj parse_ctx0
           (get_encoding_rules obj))"

section \<open>Properties of the tables\<close>

text \<open>
  Rules are aligned: numbers of whole bytes start at a byte, 4-bit numbers come in pairs, flags do not follow a 4-bit number,
  the type of an attribute follows one flag, and lists come last. \<open>c\<close> is the position in the current byte,
  \<open>cl\<close> tells that it holds flags only.
\<close>

fun aligned :: "nat \<Rightarrow> bool \<Rightarrow> encoding_type_t list \<Rightarrow> bool" where
  "aligned c cl [] \<longleftrightarrow> c = 0"
| "aligned c cl (U_INT_4 # ts) \<longleftrightarrow> (c = 0 \<or> c = 4) \<and> aligned ((c + 4) mod 8) False ts"
| "aligned c cl (FLAG # ts) \<longleftrightarrow> (c = 0 \<or> cl) \<and> aligned ((c + 1) mod 8) True ts"
| "aligned c cl (RESERVED_BIT # ts) \<longleftrightarrow> (c = 0 \<or> cl) \<and> aligned ((c + 1) mod 8) True ts"
| "aligned c cl (ATTRIBUTE_FORMAT # ts) \<longleftrightarrow> (c = 0 \<or> cl) \<and> aligned ((c + 1) mod 8) True ts"
| "aligned c cl (ATTRIBUTE_TYPE # ts) \<longleftrightarrow> c = 1 \<and> aligned 0 True ts"
| "aligned c cl (PAYLOAD_LIST t # ts) \<longleftrightarrow> c = 0 \<and> ts = []"
| "aligned c cl (t # ts) \<longleftrightarrow> c = 0 \<and> aligned 0 True ts"

text \<open>The format of an attribute is read by a rule before a rule sets it.\<close>

fun reads_format :: "encoding_type_t list \<Rightarrow> bool" where
  "reads_format [] = False"
| "reads_format (ATTRIBUTE_FORMAT # ts) = False"
| "reads_format (ATTRIBUTE_VALUE # ts) = True"
| "reads_format (PAYLOAD_LIST t # ts) = (t = PLV2_CONFIGURATION_ATTRIBUTE \<or> reads_format ts)"
| "reads_format (t # ts) = reads_format ts"

text \<open>The size of the SPI, on which the length of the header depends, precedes the data.\<close>

fun spi_first :: "encoding_rule_t list \<Rightarrow> bool" where
  "spi_first [] = True"
| "spi_first (rule # rules) =
     (case fst rule of CHUNK_DATA \<Rightarrow> False | PAYLOAD_LIST t \<Rightarrow> False | _ \<Rightarrow> snd rule = ''spi_size'' \<or> spi_first rules)"

definition starts_with_bits :: "encoding_type_t list \<Rightarrow> bool" where
  "starts_with_bits ts \<longleftrightarrow> (case ts of t # _ \<Rightarrow> t \<in> {U_INT_8, IKE_SPI, RESERVED_BIT, ATTRIBUTE_FORMAT} | [] \<Rightarrow> False)"

definition all_tables :: "encoding_rule_t list list" where
  "all_tables =
    [ike_header_encodings, sa_payload_encodings_v1, sa_payload_encodings_v2, proposal_substructure_encodings_v1,
     proposal_substructure_encodings_v2, transform_substructure_encodings_v2, transform_substructure_encodings_v1, transform_attribute_encodings,
     nonce_payload_encodings, id_payload_encodings_v2, id_payload_encodings_v1, auth_payload_encodings,
     cert_payload_encodings, certreq_payload_encodings, traffic_selector_substructure_encodings, ts_payload_encodings,
     ke_payload_encodings_v2, ke_payload_encodings_v1, notify_payload_encodings_v2, notify_payload_encodings_v1,
     delete_payload_encodings_v2, delete_payload_encodings_v1, vendor_id_payload_encodings, hash_payload_encodings,
     cp_payload_encodings_v2, cp_payload_encodings_v1, configuration_attribute_encodings_v2, configuration_attribute_encodings_v1,
     eap_payload_encodings, encrypted_payload_encodings_v2, encrypted_payload_encodings_v1, fragment_payload_encodings,
     encrypted_fragment_payload_encodings, unknown_payload_encodings]"

definition table_ok :: "encoding_rule_t list \<Rightarrow> bool" where
  "table_ok rules \<longleftrightarrow> aligned 0 True (map fst rules) \<and> distinct (map snd rules) \<and>
     (starts_with_bits (map fst rules) \<or> map fst rules = [ENCRYPTED_DATA])"

lemma tables_ok: "list_all table_ok all_tables"
  by code_simp

lemmas table_defs =
  ike_header_get_encoding_rules_def
  sa_payload_get_encoding_rules_def
  proposal_substructure_get_encoding_rules_def
  transform_substructure_get_encoding_rules_def
  transform_attribute_get_encoding_rules_def
  nonce_payload_get_encoding_rules_def
  id_payload_get_encoding_rules_def
  auth_payload_get_encoding_rules_def
  cert_payload_get_encoding_rules_def
  certreq_payload_get_encoding_rules_def
  traffic_selector_substructure_get_encoding_rules_def
  ts_payload_get_encoding_rules_def
  ke_payload_get_encoding_rules_def
  notify_payload_get_encoding_rules_def
  delete_payload_get_encoding_rules_def
  vendor_id_payload_get_encoding_rules_def
  hash_payload_get_encoding_rules_def
  cp_payload_get_encoding_rules_def
  configuration_attribute_get_encoding_rules_def
  eap_payload_get_encoding_rules_def
  encrypted_payload_get_encoding_rules_def
  fragment_payload_get_encoding_rules_def
  encrypted_fragment_payload_get_encoding_rules_def
  unknown_payload_get_encoding_rules_def

lemma rules_in_tables: "get_encoding_rules obj \<in> set all_tables"
  by (cases "obj_class obj") (auto simp: get_encoding_rules_def Let_def all_tables_def table_defs)

lemma rules_table_ok: "table_ok (get_encoding_rules obj)"
  using tables_ok rules_in_tables[of obj] by (simp add: list_all_iff)

lemma reads_format_tables:
  "list_all (\<lambda>r. reads_format (map fst r) \<longrightarrow> ATTRIBUTE_FORMAT \<notin> set (map fst r)) all_tables"
  by code_simp

lemma spi_first_rules: "obj_class obj \<in> {C_NOTIFY, C_PROPOSAL} \<Longrightarrow> spi_first (get_encoding_rules obj)"
  by (auto simp: get_encoding_rules_def Let_def table_defs notify_payload_encodings_v2_def notify_payload_encodings_v1_def
      proposal_substructure_encodings_v2_def proposal_substructure_encodings_v1_def)

section \<open>The generator writes the encoding\<close>

lemma u_int_appends:
  assumes "gen_ok g" "current_bit g = 0"
  shows "ty \<in> {U_INT_8, RESERVED_BYTE, SPI_SIZE} \<Longrightarrow> appends g (bits8 (get_u8 obj off)) 0 (generate_u_int_type mem g obj ty off)"
    "ty \<in> {U_INT_16, PAYLOAD_LENGTH, ATTRIBUTE_LENGTH} \<Longrightarrow>
       appends g (bits_of (be_encode 2 (unat (get_u16 obj off)))) 0 (generate_u_int_type mem g obj ty off)"
    "appends g (bits_of (be_encode 4 (unat (get_u32 obj off)))) 0 (generate_u_int_type mem g obj U_INT_32 off)"
    "appends g (bits_of (get_spi_bytes obj off)) 0 (generate_u_int_type mem g obj IKE_SPI off)"
proof -
  have ms: "gen_ok (make_space_available mem g n)" "current_bit (make_space_available mem g n) = 0"
    "8 * out_position (make_space_available mem g n) + n \<le> 8 * length (gen_buffer (make_space_available mem g n))" for n
    using make_space_keeps[OF assms(1) refl, where mem = mem and n = n] assms(2) by simp_all
  have w: "appends g (bits_of bs) 0 (write_bytes_to_buffer mem (make_space_available mem g n) bs)" for n bs
    by (rule appends_make_space[OF assms(1) write_bytes_appends(1)[OF ms(1,2)]])
  have b: "8 * out_position (make_space_available mem g n) + 8 \<le> 8 * length (gen_buffer (make_space_available mem g n)) \<Longrightarrow>
      appends g (bits8 x) 0 (set_out_byte (make_space_available mem g n) x\<lparr>out_position := out_position (make_space_available mem g n) + 1\<rparr>)" for n x
    by (rule appends_make_space[OF assms(1) appends_byte[OF ms(1,2)]])
  show "ty \<in> {U_INT_8, RESERVED_BYTE, SPI_SIZE} \<Longrightarrow> appends g (bits8 (get_u8 obj off)) 0 (generate_u_int_type mem g obj ty off)"
    using b[of 8 "get_u8 obj off"] ms(3)[of 8] assms(2) by (auto simp: generate_u_int_type_def number_of_bits_def Let_def)
  show "ty \<in> {U_INT_16, PAYLOAD_LENGTH, ATTRIBUTE_LENGTH} \<Longrightarrow>
       appends g (bits_of (be_encode 2 (unat (get_u16 obj off)))) 0 (generate_u_int_type mem g obj ty off)"
    using w[of "be_encode 2 (unat (get_u16 obj off))" 16] assms(2) by (auto simp: generate_u_int_type_def number_of_bits_def Let_def)
  show "appends g (bits_of (be_encode 4 (unat (get_u32 obj off)))) 0 (generate_u_int_type mem g obj U_INT_32 off)"
    using w[of "be_encode 4 (unat (get_u32 obj off))" 32] assms(2) by (simp add: generate_u_int_type_def number_of_bits_def Let_def)
  show "appends g (bits_of (get_spi_bytes obj off)) 0 (generate_u_int_type mem g obj IKE_SPI off)"
    using w[of "get_spi_bytes obj off" 64] assms(2) by (simp add: generate_u_int_type_def number_of_bits_def Let_def)
qed

lemma u_int4_appends:
  assumes "gen_ok g" "current_bit g = 0 \<or> current_bit g = 4"
  shows "appends g (bits4 (get_u8 obj off)) ((current_bit g + 4) mod 8) (generate_u_int_type mem g obj U_INT_4 off)"
proof -
  define h where "h = make_space_available mem g 4"
  note h = make_space_keeps[OF assms(1) h_def]
  have "generate_u_int_type mem g obj U_INT_4 off = generate_uint4 h (get_u8 obj off)"
    by (simp add: generate_u_int_type_def number_of_bits_def Let_def h_def)
  then show ?thesis using uint4_appends(1)[OF h(2), of "get_u8 obj off"] h(3,4,7) assms appends_make_space[OF assms(1)] by (simp add: h_def)
qed

lemma u_int15_appends:
  assumes "gen_ok g" "current_bit g = 1"
  shows "appends g (bits15 (get_u16 obj off)) 0 (generate_u_int_type mem g obj ATTRIBUTE_TYPE off)"
proof -
  define h where "h = make_space_available mem g 15"
  note h = make_space_keeps[OF assms(1) h_def]
  have "generate_u_int_type mem g obj ATTRIBUTE_TYPE off = generate_uint15 mem h (get_u16 obj off)"
    by (simp add: generate_u_int_type_def number_of_bits_def Let_def h_def)
  then show ?thesis using uint15_appends(1)[OF h(2), of "get_u16 obj off" mem] h(3) assms appends_make_space[OF assms(1)] by (simp add: h_def)
qed

lemma make_space_format: "gen_attribute_format (make_space_available mem g n) = gen_attribute_format g"
proof (induction mem g n rule: make_space_available.induct)
  case (1 mem g n)
  then show ?case by (subst make_space_available.simps) auto
qed

lemma format_kept:
  "gen_attribute_format (generate_u_int_type mem g obj ty off) = gen_attribute_format g"
  "gen_attribute_format (generate_flag mem g v) = gen_attribute_format g"
  "gen_attribute_format (generate_from_chunk mem g bs) = gen_attribute_format g"
  by (simp_all add: generate_u_int_type_def generate_flag_def generate_from_chunk_def generate_uint4_def generate_uint15_def
      write_bytes_to_buffer_def set_out_byte_def Let_def make_space_format split: option.split)

lemma chunk_appends: "gen_ok g \<Longrightarrow> current_bit g = 0 \<Longrightarrow> appends g (bits_of bs) 0 (generate_from_chunk mem g bs)"
  using write_bytes_appends(1) by (simp add: generate_from_chunk_def)

text \<open>One rule that is not a list.\<close>

definition next_clean :: "encoding_type_t \<Rightarrow> bool" where
  "next_clean ty \<longleftrightarrow> ty \<noteq> U_INT_4"

definition next_bit :: "nat \<Rightarrow> encoding_type_t \<Rightarrow> nat" where
  "next_bit c ty = (if ty = U_INT_4 then (c + 4) mod 8 else if ty \<in> {FLAG, RESERVED_BIT, ATTRIBUTE_FORMAT} then (c + 1) mod 8 else 0)"

lemma aligned_next:
  assumes "aligned c cl (ty # ts)" "\<And>t. ty \<noteq> PAYLOAD_LIST t"
  shows "aligned (next_bit c ty) (next_clean ty) ts"
  using assms by (cases ty) (auto simp: next_bit_def next_clean_def)

lemma appends_trivial: "gen_ok g \<Longrightarrow> appends g [] (current_bit g) g"
  by (simp add: appends_def)

lemma appends_update: "appends g bs c g' \<Longrightarrow> appends g bs c (g'\<lparr>gen_attribute_format := x\<rparr>)"
    "appends g bs c g' \<Longrightarrow> appends g bs c (g'\<lparr>gen_attribute_length := y\<rparr>)"
    "appends (g\<lparr>header_length_offset := z\<rparr>) bs c g' \<longleftrightarrow> appends g bs c g'"
  by (auto simp: appends_def gen_bits_def gen_ok_def)

text \<open>What the generator guarantees after the rule that it took off the list.\<close>

definition gen_done ::
  "(nat \<Rightarrow> u8) \<Rightarrow> generator_t \<Rightarrow> payload_obj \<Rightarrow> (payload_obj \<Rightarrow> bool list) \<Rightarrow> parse_ctx \<Rightarrow> encoding_rule_t \<Rightarrow> generator_t \<Rightarrow> bool" where
  "gen_done mem g obj sub ctx rule g' \<longleftrightarrow> (\<forall>rules. generate_rules mem g obj (rule # rules) = generate_rules mem g' obj rules) \<and>
     appends g (rule_bits sub obj ctx rule) (next_bit (current_bit g) (fst rule)) g' \<and> (next_clean (fst rule) \<longrightarrow> gen_clean g') \<and>
     gen_attribute_format g' = (if fst rule = ATTRIBUTE_FORMAT then get_bool obj (snd rule) else gen_attribute_format g)"

lemmas gen_done_simps = gen_done_def generate_rules.simps(2) Let_def rule_bits_def next_bit_def next_clean_def format_kept

lemma appends_clean: "appends g bs 0 g' \<Longrightarrow> gen_clean g'"
  by (simp add: appends_def gen_clean_def)

lemma gen_done_number:
  assumes "gen_ok g" "current_bit g = 0"
    and "fst rule \<in> {U_INT_8, RESERVED_BYTE, SPI_SIZE, U_INT_16, PAYLOAD_LENGTH, ATTRIBUTE_LENGTH, U_INT_32, IKE_SPI}"
  shows "gen_done mem g obj sub ctx rule (generate_u_int_type mem g obj (fst rule) (snd rule))"
proof -
  have "appends g (rule_bits sub obj ctx rule) 0 (generate_u_int_type mem g obj (fst rule) (snd rule))"
    using assms(3) u_int_appends(1,2)[OF assms(1,2), of "fst rule" obj "snd rule" mem] u_int_appends(3,4)[OF assms(1,2), of obj "snd rule" mem]
    by (elim insertE emptyE; simp add: rule_bits_def)
  then show ?thesis using assms(3) appends_clean by (elim insertE emptyE; simp add: gen_done_simps)
qed

lemma gen_done_chunk:
  assumes "gen_ok g" "current_bit g = 0" "fst rule \<in> {SPI, CHUNK_DATA, ENCRYPTED_DATA}"
  shows "gen_done mem g obj sub ctx rule (generate_from_chunk mem g (get_chunk_field obj (snd rule)))"
  using assms(3) chunk_appends[OF assms(1,2), of "get_chunk_field obj (snd rule)" mem] appends_clean
  by (elim insertE emptyE; simp add: gen_done_simps)

lemma gen_done_flag:
  assumes "gen_ok g" "current_bit g = 0 \<or> gen_clean g" "fst rule \<in> {FLAG, RESERVED_BIT}"
  shows "gen_done mem g obj sub ctx rule (generate_flag mem g (get_bool obj (snd rule)))"
  using assms(3) flag_appends[OF assms(1,2), where mem = mem and v = "get_bool obj (snd rule)"]
  by (elim insertE emptyE; simp add: gen_done_simps)

lemma gen_done_format:
  assumes "gen_ok g" "current_bit g = 0 \<or> gen_clean g" "fst rule = ATTRIBUTE_FORMAT"
  shows "gen_done mem g obj sub ctx rule ((generate_flag mem g (get_bool obj (snd rule)))\<lparr>gen_attribute_format := get_bool obj (snd rule)\<rparr>)"
  using assms(3) flag_appends[OF assms(1,2), where mem = mem and v = "get_bool obj (snd rule)"]
  by (simp add: gen_done_simps gen_clean_def appends_update)

lemma gen_done_header_length:
  assumes "gen_ok g" "current_bit g = 0" "fst rule = HEADER_LENGTH"
  shows "gen_done mem g obj sub ctx rule (generate_u_int_type mem (g\<lparr>header_length_offset := get_offset g\<rparr>) obj U_INT_32 (snd rule))"
proof -
  have "gen_ok (g\<lparr>header_length_offset := get_offset g\<rparr>)" using assms(1) by (simp add: gen_ok_def)
  then have "appends g (rule_bits sub obj ctx rule) 0 (generate_u_int_type mem (g\<lparr>header_length_offset := get_offset g\<rparr>) obj U_INT_32 (snd rule))"
    using u_int_appends(3)[of "g\<lparr>header_length_offset := get_offset g\<rparr>" obj "snd rule" mem] assms(2,3) by (simp add: rule_bits_def appends_update)
  then show ?thesis using assms(3) appends_clean by (simp add: gen_done_simps)
qed

lemma gen_done_length_or_value:
  assumes "gen_ok g" "current_bit g = 0" "fst rule = ATTRIBUTE_LENGTH_OR_VALUE"
  shows "gen_done mem g obj sub ctx rule
    (let this' = generate_u_int_type mem g obj U_INT_16 (snd rule)
     in if gen_attribute_format g then this' else this'\<lparr>gen_attribute_length := get_u16 obj (snd rule)\<rparr>)"
    (is "gen_done mem g obj sub ctx rule ?g'")
proof -
  have "appends g (rule_bits sub obj ctx rule) 0 ?g'"
    using u_int_appends(2)[OF assms(1,2), of U_INT_16 obj "snd rule" mem] assms(3) by (simp add: rule_bits_def appends_update Let_def)
  then show ?thesis using assms(3) appends_clean[of g _ ?g'] by (simp add: gen_done_simps)
qed

lemma gen_done_value:
  assumes "gen_ok g" "current_bit g = 0" "fst rule = ATTRIBUTE_VALUE" "gen_attribute_format g = attribute_format ctx"
  shows "gen_done mem g obj sub ctx rule (if \<not> gen_attribute_format g then generate_from_chunk mem g (get_chunk_field obj (snd rule)) else g)"
  using chunk_appends[OF assms(1,2), of "get_chunk_field obj (snd rule)" mem] appends_trivial[OF assms(1)] assms(2-4) appends_clean
  by (simp add: gen_done_simps gen_clean_def)

lemma gen_step:
  assumes g: "gen_ok g" and al: "aligned (current_bit g) cl (fst rule # ts)" and cl: "cl \<Longrightarrow> gen_clean g"
    and nl: "\<And>t. fst rule \<noteq> PAYLOAD_LIST t" and fm: "fst rule = ATTRIBUTE_VALUE \<Longrightarrow> gen_attribute_format g = attribute_format ctx"
  shows "\<exists>g'. gen_done mem g obj sub ctx rule g'"
proof (cases "fst rule")
  case U_INT_4
  then have "gen_done mem g obj sub ctx rule (generate_u_int_type mem g obj U_INT_4 (snd rule))"
    using u_int4_appends[OF g, of obj "snd rule" mem] al by (simp add: gen_done_simps)
  then show ?thesis by blast
next
  case ATTRIBUTE_TYPE
  then have "gen_done mem g obj sub ctx rule (generate_u_int_type mem g obj ATTRIBUTE_TYPE (snd rule))"
    using u_int15_appends[OF g, of obj "snd rule" mem] al appends_clean by (simp add: gen_done_simps)
  then show ?thesis by blast
next
  case ATTRIBUTE_FORMAT
  then show ?thesis using gen_done_format[OF g] al cl by fastforce
next
  case HEADER_LENGTH
  then show ?thesis using gen_done_header_length[OF g] al by fastforce
next
  case ATTRIBUTE_LENGTH_OR_VALUE
  then show ?thesis using gen_done_length_or_value[OF g] al by fastforce
next
  case ATTRIBUTE_VALUE
  then show ?thesis using gen_done_value[OF g _ _ fm] al by fastforce
next
  case (PAYLOAD_LIST t)
  then show ?thesis using nl by simp
qed (use gen_done_number[OF g, of rule mem obj sub ctx] gen_done_chunk[OF g, of rule mem obj sub ctx] gen_done_flag[OF g, of rule mem obj sub ctx] al cl in auto)

lemma appends_trans: "appends g a c g1 \<Longrightarrow> appends g1 b c' g2 \<Longrightarrow> appends g (a @ b) c' g2"
  by (simp add: appends_def)

lemma ctx_step_format:
  "attribute_format (ctx_step obj ctx rule) = (if fst rule = ATTRIBUTE_FORMAT then get_bool obj (snd rule) else attribute_format ctx)"
  by (cases "fst rule") (simp_all add: ctx_step_def)

lemma reads_format_step: "ty \<noteq> ATTRIBUTE_FORMAT \<Longrightarrow> reads_format ts \<Longrightarrow> reads_format (ty # ts)"
  by (cases ty) auto

text \<open>A list of payloads, each of which appends its encoding and keeps an invariant of the generator.\<close>

lemma fold_generate:
  assumes "\<And>x g. x \<in> set l \<Longrightarrow> gen_ok g \<Longrightarrow> current_bit g = 0 \<Longrightarrow> I g \<Longrightarrow>
      appends g (sub x) 0 (generate_payload mem g x) \<and> I (generate_payload mem g x)"
    and "gen_ok g" "current_bit g = 0" "I g"
  shows "appends g (concat (map sub l)) 0 (fold (\<lambda>x g. generate_payload mem g x) l g)"
  using assms
proof (induction l arbitrary: g)
  case Nil
  then show ?case using appends_trivial[of g] by simp
next
  case (Cons x l)
  have x: "appends g (sub x) 0 (generate_payload mem g x)" "I (generate_payload mem g x)" using Cons.prems(1)[of x g] Cons.prems(2-4) by auto
  then have "appends (generate_payload mem g x) (concat (map sub l)) 0 (fold (\<lambda>x g. generate_payload mem g x) l (generate_payload mem g x))"
    using Cons.prems(1) by (intro Cons.IH) (auto simp: appends_def)
  then show ?case using appends_trans[OF x(1)] by simp
qed

definition sub_generates :: "(nat \<Rightarrow> u8) \<Rightarrow> (payload_type_t \<Rightarrow> payload_obj \<Rightarrow> bool) \<Rightarrow> (payload_obj \<Rightarrow> bool list) \<Rightarrow> bool" where
  "sub_generates mem subok sub \<longleftrightarrow>
     (\<forall>t x g. t \<in> set list_rule_types \<and> subok t x \<and> gen_ok g \<and> current_bit g = 0 \<and>
        (t = PLV2_CONFIGURATION_ATTRIBUTE \<longrightarrow> \<not> gen_attribute_format g) \<longrightarrow>
        appends g (sub x) 0 (generate_payload mem g x) \<and>
        (t = PLV2_CONFIGURATION_ATTRIBUTE \<longrightarrow> \<not> gen_attribute_format (generate_payload mem g x)))"

lemma gen_list:
  assumes sub: "sub_generates mem subok sub" and g: "gen_ok g" "current_bit g = 0"
    and ok: "rule_ok subok sub start obj ctx (PAYLOAD_LIST t, off)"
    and fm: "t = PLV2_CONFIGURATION_ATTRIBUTE \<Longrightarrow> gen_attribute_format g = attribute_format ctx"
  shows "appends g (rule_bits sub obj ctx (PAYLOAD_LIST t, off)) 0 (generate_rules mem g obj [(PAYLOAD_LIST t, off)])"
proof -
  have t: "t \<in> set list_rule_types" "list_all (subok t) (get_list_field obj off)" "\<not> attribute_format ctx"
    using ok by (auto simp: rule_ok_def get_list_field_def split: option.splits payload_field.splits)
  let ?I = "\<lambda>g. t = PLV2_CONFIGURATION_ATTRIBUTE \<longrightarrow> \<not> gen_attribute_format g"
  have "appends g (concat (map sub (get_list_field obj off))) 0 (fold (\<lambda>x g. generate_payload mem g x) (get_list_field obj off) g)"
    using sub t g fm by (intro fold_generate[where I = ?I]) (auto simp: sub_generates_def list_all_iff)
  then show ?thesis using t(1) by (simp add: rule_bits_def generate_rules.simps(2))
qed

lemma gen_rules:
  assumes sub: "sub_generates mem subok sub"
  shows "gen_ok g \<Longrightarrow> aligned (current_bit g) cl (map fst rules) \<Longrightarrow> (cl \<Longrightarrow> gen_clean g) \<Longrightarrow>
    rules_ok subok sub start obj ctx rules \<Longrightarrow> (reads_format (map fst rules) \<Longrightarrow> gen_attribute_format g = attribute_format ctx) \<Longrightarrow>
    appends g (rules_bits sub obj ctx rules) 0 (generate_rules mem g obj rules) \<and>
    (ATTRIBUTE_FORMAT \<notin> set (map fst rules) \<and> (\<forall>t. PAYLOAD_LIST t \<notin> set (map fst rules)) \<longrightarrow>
       gen_attribute_format (generate_rules mem g obj rules) = gen_attribute_format g)"
proof (induction rules arbitrary: g cl ctx)
  case Nil
  then show ?case using appends_trivial[of g] by simp
next
  case (Cons rule rules)
  show ?case
  proof (cases "\<exists>t. fst rule = PAYLOAD_LIST t")
    case True
    then obtain t off where r: "rule = (PAYLOAD_LIST t, off)" by (cases rule) auto
    then have "rules = []" "current_bit g = 0" using Cons.prems(2) by auto
    then show ?thesis using gen_list[OF sub Cons.prems(1), of start obj ctx t off] Cons.prems(4,5) r by auto
  next
    case False
    let ?ctx = "ctx_step obj ctx rule"
    obtain g' where g': "generate_rules mem g obj (rule # rules) = generate_rules mem g' obj rules"
      "appends g (rule_bits sub obj ctx rule) (next_bit (current_bit g) (fst rule)) g'" "next_clean (fst rule) \<longrightarrow> gen_clean g'"
      "gen_attribute_format g' = (if fst rule = ATTRIBUTE_FORMAT then get_bool obj (snd rule) else gen_attribute_format g)"
      using gen_step[of g cl rule "map fst rules" ctx mem obj sub] Cons.prems(1,2,3,5) False unfolding gen_done_def by auto
    have ok: "gen_ok g'" "aligned (current_bit g') (next_clean (fst rule)) (map fst rules)"
      using g'(2) aligned_next[of "current_bit g" cl "fst rule" "map fst rules"] Cons.prems(2) False by (auto simp: appends_def)
    have "gen_attribute_format g' = attribute_format ?ctx" if "reads_format (map fst rules)"
      using that Cons.prems(5) g'(4) reads_format_step[of "fst rule" "map fst rules"] by (auto simp: ctx_step_format)
    then have "appends g' (rules_bits sub obj ?ctx rules) 0 (generate_rules mem g' obj rules) \<and>
      (ATTRIBUTE_FORMAT \<notin> set (map fst rules) \<and> (\<forall>t. PAYLOAD_LIST t \<notin> set (map fst rules)) \<longrightarrow>
       gen_attribute_format (generate_rules mem g' obj rules) = gen_attribute_format g')"
      using Cons.IH[OF ok] g'(3) Cons.prems(4) by auto
    then show ?thesis using appends_trans[OF g'(2)] g'(1,4) by auto
  qed
qed

lemma rules_cong: "obj_class a = obj_class b \<Longrightarrow> obj_type a = obj_type b \<Longrightarrow> get_encoding_rules a = get_encoding_rules b"
  by (simp add: get_encoding_rules_def)

lemma create_type: "obj_type (payload_create n) = n" "obj_type (unknown_payload_create n) = n" "obj_type (start_payload v n) = n"
proof -
  show u: "obj_type (unknown_payload_create n) = n" by (simp add: unknown_payload_create_def)
  show p: "obj_type (payload_create n) = n"
    unfolding payload_create_def by (simp add: u ike_header_create_def sa_payload_create_def proposal_substructure_create_def transform_substructure_create_def
      transform_attribute_create_def nonce_payload_create_def id_payload_create_def auth_payload_create_def cert_payload_create_def certreq_payload_create_def
      traffic_selector_substructure_create_def ts_payload_create_def ke_payload_create_def notify_payload_create_def delete_payload_create_def
      vendor_id_payload_create_def hash_payload_create_def cp_payload_create_def configuration_attribute_create_def eap_payload_create_def
      encrypted_payload_create_def fragment_payload_create_def encrypted_fragment_payload_create_def split: option.split)
  show "obj_type (start_payload v n) = n" by (simp add: start_payload_def u p)
qed

lemma known_substructure: "t \<in> set list_rule_types \<Longrightarrow> start_payload v (payload_number t) = payload_create (payload_number t)"
  by (auto simp: list_rule_types_def start_payload_def payload_is_known_def Let_def)

lemma substructure_format:
  "list_all (\<lambda>t. let types = map fst (get_encoding_rules (payload_create (payload_number t)))
      in (reads_format types \<longleftrightarrow> t = PLV2_CONFIGURATION_ATTRIBUTE) \<and>
         (t = PLV2_CONFIGURATION_ATTRIBUTE \<longrightarrow> ATTRIBUTE_FORMAT \<notin> set types \<and> list_all (\<lambda>u. PAYLOAD_LIST u \<notin> set types) all_payload_types))
     list_rule_types"
  by code_simp

lemma all_payload_types_complete: "t \<in> set all_payload_types"
  by (cases t) (simp_all add: all_payload_types_def)

lemma payload_wf_rules:
  "payload_wf v d obj \<Longrightarrow> get_encoding_rules obj = get_encoding_rules (start_payload v (obj_type obj))"
  by (cases d) (auto intro!: rules_cong simp: Let_def create_type)

lemma generate_payload_appends:
  "payload_wf v d obj \<Longrightarrow> gen_ok g \<Longrightarrow> current_bit g = 0 \<Longrightarrow>
   (reads_format (map fst (get_encoding_rules obj)) \<Longrightarrow> \<not> gen_attribute_format g) \<Longrightarrow>
   appends g (payload_bits d obj) 0 (generate_payload mem g obj) \<and>
   (ATTRIBUTE_FORMAT \<notin> set (map fst (get_encoding_rules obj)) \<and> (\<forall>t. PAYLOAD_LIST t \<notin> set (map fst (get_encoding_rules obj))) \<longrightarrow>
      gen_attribute_format (generate_payload mem g obj) = gen_attribute_format g)"
proof (induction d arbitrary: g obj)
  case (Suc d)
  let ?subok = "\<lambda>t x. obj_type x = payload_number t \<and> payload_wf v d x"
  have "sub_generates mem ?subok (payload_bits d)"
    unfolding sub_generates_def
  proof (intro allI impI)
    fix t x g
    assume a: "t \<in> set list_rule_types \<and> (obj_type x = payload_number t \<and> payload_wf v d x) \<and> gen_ok g \<and> current_bit g = 0 \<and>
        (t = PLV2_CONFIGURATION_ATTRIBUTE \<longrightarrow> \<not> gen_attribute_format g)"
    have r: "get_encoding_rules x = get_encoding_rules (payload_create (payload_number t))"
      using a payload_wf_rules[of v d x] known_substructure[of t v] by simp
    have f: "reads_format (map fst (get_encoding_rules x)) \<longleftrightarrow> t = PLV2_CONFIGURATION_ATTRIBUTE"
      "t = PLV2_CONFIGURATION_ATTRIBUTE \<Longrightarrow> ATTRIBUTE_FORMAT \<notin> set (map fst (get_encoding_rules x)) \<and> (\<forall>u. PAYLOAD_LIST u \<notin> set (map fst (get_encoding_rules x)))"
      using a substructure_format all_payload_types_complete unfolding r Let_def list_all_iff by blast+
    show "appends g (payload_bits d x) 0 (generate_payload mem g x) \<and>
        (t = PLV2_CONFIGURATION_ATTRIBUTE \<longrightarrow> \<not> gen_attribute_format (generate_payload mem g x))"
      using Suc.IH[of x g] a f by auto
  qed
  from gen_rules[OF this Suc.prems(2), of True "get_encoding_rules obj" "start_payload v (obj_type obj)" obj parse_ctx0]
  show ?case
    using Suc.prems rules_table_ok[of obj] by (simp add: Let_def table_ok_def gen_clean_def parse_ctx0_def generate_payload.simps)
qed simp

end
