(* ===== verification/Payload_Codec_Proofs.thy ===== *)
theory Payload_Codec_Proofs
  imports Payload_Encoding
begin

text \<open>
  The parser reads the encoding of a consistent payload, so that what was generated is parsed back; it returns on every
  input, and it reads no byte past the end of the input.
\<close>

section \<open>The parser reads the encoding\<close>

definition same_input :: "parser_t \<Rightarrow> parser_t \<Rightarrow> bool" where
  "same_input p p' \<longleftrightarrow> pa_input p' = pa_input p \<and> input_roof p' = input_roof p \<and> major_version p' = major_version p"

text \<open>The parser has read bits up to a position in a byte.\<close>

definition reads :: "parser_t \<Rightarrow> bool list \<Rightarrow> nat \<Rightarrow> parser_t \<Rightarrow> bool" where
  "reads p rest c p' \<longleftrightarrow> same_input p p' \<and> par_ok p' \<and> par_bits p' = rest \<and> bit_pos p' = c"

lemma same_input_trans: "same_input p q \<Longrightarrow> same_input q r \<Longrightarrow> same_input p r"
  by (simp add: same_input_def)

lemma length_par_bits: "par_ok p \<Longrightarrow> length (par_bits p) = 8 * input_roof p - (8 * byte_pos p + bit_pos p)"
  by (simp add: par_ok_def par_bits_def)

lemma same_input_updates: "same_input p (p\<lparr>byte_pos := a\<rparr>)" "same_input p (p\<lparr>bit_pos := b\<rparr>)" "same_input p (p\<lparr>byte_pos := a, bit_pos := b\<rparr>)"
    "same_input p (p\<lparr>bit_pos := b, byte_pos := a\<rparr>)" "same_input p p"
  by (simp_all add: same_input_def)

lemma reads_trans: "reads p rest c q \<Longrightarrow> reads q rest' c' r \<Longrightarrow> reads p rest' c' r"
  unfolding reads_def using same_input_trans by blast

lemma reads_position:
  assumes "reads p rest 0 p'" "par_ok p" "bit_pos p = 0" "par_bits p = bs @ rest"
  shows "8 * byte_pos p' = 8 * byte_pos p + length bs"
proof -
  have r: "par_ok p'" "bit_pos p' = 0" "input_roof p' = input_roof p" "par_bits p' = rest" using assms(1) by (simp_all add: reads_def same_input_def)
  have "8 * input_roof p - 8 * byte_pos p = length bs + length rest" using length_par_bits[OF assms(2)] assms(3,4) by simp
  moreover have "8 * input_roof p - 8 * byte_pos p' = length rest" using length_par_bits[OF r(1)] r(2-4) by simp
  moreover have "byte_pos p \<le> input_roof p" "byte_pos p' \<le> input_roof p" using assms(2) r(1,3) by (simp_all add: par_ok_def)
  ultimately show ?thesis by linarith
qed

lemma get_set_field:
  "get_field (set_field obj off v) k = (if k = off \<and> off \<in> set (map fst (obj_fields obj)) then Some v else get_field obj k)"
proof -
  have "map_of (map (\<lambda>(k, w). (k, if k = off then v else w)) l) k = (if k = off \<and> off \<in> set (map fst l) then Some v else map_of l k)" for l
  proof (induction l)
    case (Cons a l)
    then show ?case by (cases a; cases "k = off") auto
  qed simp
  then show ?thesis by (simp add: get_field_def set_field_def)
qed

lemma set_field_frame:
  "obj_class (set_field obj off v) = obj_class obj" "obj_type (set_field obj off v) = obj_type obj"
  "map fst (obj_fields (set_field obj off v)) = map fst (obj_fields obj)"
  by (auto simp: set_field_def)

text \<open>The object after a rule: one more field has the value of the encoded object.\<close>

definition field_done :: "payload_obj \<Rightarrow> string \<Rightarrow> payload_obj \<Rightarrow> payload_obj \<Rightarrow> bool" where
  "field_done obj off cur cur' \<longleftrightarrow> obj_class cur' = obj_class cur \<and> obj_type cur' = obj_type cur \<and>
     map fst (obj_fields cur') = map fst (obj_fields cur) \<and>
     (\<forall>k. get_field cur' k = (if k = off then get_field obj off else get_field cur k))"

lemma get_field_key: "get_field obj off \<noteq> None \<longleftrightarrow> off \<in> set (map fst (obj_fields obj))"
  by (auto simp: get_field_def map_of_eq_None_iff)

lemma field_done_set:
  "map fst (obj_fields cur) = map fst (obj_fields obj) \<Longrightarrow> get_field obj off = Some v \<Longrightarrow> field_done obj off cur (set_field cur off v)"
  using get_field_key[of obj off] by (auto simp: field_done_def set_field_frame get_set_field)

lemma bytes_read:
  assumes "par_ok p" "bit_pos p = 0" "par_bits p = bits_of bs @ rest"
  shows "reads p rest 0 (p\<lparr>byte_pos := byte_pos p + length bs\<rparr>)"
  using parse_chunk_reads[OF assms] assms(2) by (simp add: reads_def same_input_updates)

lemma rule_okD:
  assumes "rule_ok subok sub start obj ctx rule"
  shows "fst rule \<in> {U_INT_8, RESERVED_BYTE, SPI_SIZE} \<Longrightarrow> \<exists>v. get_field obj (snd rule) = Some (FU8 v)"
    "fst rule \<in> {U_INT_16, PAYLOAD_LENGTH, ATTRIBUTE_LENGTH, ATTRIBUTE_LENGTH_OR_VALUE} \<Longrightarrow>
       \<exists>v. get_field obj (snd rule) = Some (FU16 v) \<and> (fst rule = PAYLOAD_LENGTH \<longrightarrow> 4 \<le> unat v)"
    "fst rule \<in> {U_INT_32, HEADER_LENGTH} \<Longrightarrow> \<exists>v. get_field obj (snd rule) = Some (FU32 v)"
    "fst rule \<in> {FLAG, RESERVED_BIT, ATTRIBUTE_FORMAT} \<Longrightarrow> \<exists>v. get_field obj (snd rule) = Some (FBool v)"
    "fst rule \<in> {SPI, CHUNK_DATA} \<Longrightarrow> \<exists>v. get_field obj (snd rule) = Some (FChunk v) \<and> (fst rule = SPI \<longrightarrow> length v = spi_size ctx) \<and>
       (fst rule = CHUNK_DATA \<longrightarrow> payload_length ctx = get_header_length obj + length v)"
    "fst rule = U_INT_4 \<Longrightarrow> \<exists>v. get_field obj (snd rule) = Some (FU8 v) \<and> v AND 15 = v"
    "fst rule = ATTRIBUTE_TYPE \<Longrightarrow> \<exists>v. get_field obj (snd rule) = Some (FU16 v) \<and> v AND 0x7FFF = v"
    "fst rule = IKE_SPI \<Longrightarrow> \<exists>v. get_field obj (snd rule) = Some (FSpi v) \<and> length v = 8"
    "fst rule = ATTRIBUTE_VALUE \<Longrightarrow> \<exists>v. get_field obj (snd rule) = Some (FChunk v) \<and>
       (if attribute_format ctx then get_field start (snd rule) = Some (FChunk v) else length v = attribute_length ctx)"
proof -
  have r: "rule = (fst rule, snd rule)" by simp
  note ok = assms[unfolded rule_ok_def Let_def]
  show "fst rule \<in> {U_INT_8, RESERVED_BYTE, SPI_SIZE} \<Longrightarrow> \<exists>v. get_field obj (snd rule) = Some (FU8 v)"
    using ok by (elim insertE emptyE; simp split: option.splits payload_field.splits)
  show "fst rule \<in> {U_INT_16, PAYLOAD_LENGTH, ATTRIBUTE_LENGTH, ATTRIBUTE_LENGTH_OR_VALUE} \<Longrightarrow>
       \<exists>v. get_field obj (snd rule) = Some (FU16 v) \<and> (fst rule = PAYLOAD_LENGTH \<longrightarrow> 4 \<le> unat v)"
    using ok by (elim insertE emptyE; simp split: option.splits payload_field.splits)
  show "fst rule \<in> {U_INT_32, HEADER_LENGTH} \<Longrightarrow> \<exists>v. get_field obj (snd rule) = Some (FU32 v)"
    using ok by (elim insertE emptyE; simp split: option.splits payload_field.splits)
  show "fst rule \<in> {FLAG, RESERVED_BIT, ATTRIBUTE_FORMAT} \<Longrightarrow> \<exists>v. get_field obj (snd rule) = Some (FBool v)"
    using ok by (elim insertE emptyE; simp split: option.splits payload_field.splits)
  show "fst rule \<in> {SPI, CHUNK_DATA} \<Longrightarrow> \<exists>v. get_field obj (snd rule) = Some (FChunk v) \<and> (fst rule = SPI \<longrightarrow> length v = spi_size ctx) \<and>
       (fst rule = CHUNK_DATA \<longrightarrow> payload_length ctx = get_header_length obj + length v)"
    using ok by (elim insertE emptyE; simp split: option.splits payload_field.splits)
  show "fst rule = U_INT_4 \<Longrightarrow> \<exists>v. get_field obj (snd rule) = Some (FU8 v) \<and> v AND 15 = v"
    using ok by (simp split: option.splits payload_field.splits)
  show "fst rule = ATTRIBUTE_TYPE \<Longrightarrow> \<exists>v. get_field obj (snd rule) = Some (FU16 v) \<and> v AND 0x7FFF = v"
    using ok by (simp split: option.splits payload_field.splits)
  show "fst rule = IKE_SPI \<Longrightarrow> \<exists>v. get_field obj (snd rule) = Some (FSpi v) \<and> length v = 8"
    using ok by (simp split: option.splits payload_field.splits)
  show "fst rule = ATTRIBUTE_VALUE \<Longrightarrow> \<exists>v. get_field obj (snd rule) = Some (FChunk v) \<and>
       (if attribute_format ctx then get_field start (snd rule) = Some (FChunk v) else length v = attribute_length ctx)"
    using ok by (simp split: option.splits payload_field.splits if_splits)
qed

text \<open>What the parser guarantees after a rule.\<close>

definition rule_read ::
  "payload_parser \<Rightarrow> parser_t \<Rightarrow> encoding_rule_t \<Rightarrow> parse_ctx \<Rightarrow> payload_obj \<Rightarrow> payload_obj \<Rightarrow> bool list \<Rightarrow> bool" where
  "rule_read pp p rule ctx cur obj rest \<longleftrightarrow>
     (\<exists>p' cur'. parse_rule pp p rule ctx cur = Some (Parsed (p', ctx_step obj ctx rule, cur')) \<and> field_done obj (snd rule) cur cur' \<and>
        reads p rest (next_bit (bit_pos p) (fst rule)) p')"

lemmas rule_read_simps = rule_read_def parse_rule_def Let_def parsed_field_def ctx_step_def next_bit_def

lemma read_byte:
  assumes p: "par_ok p" and bits: "par_bits p = rule_bits sub obj ctx rule @ rest" and ok: "rule_ok subok sub start obj ctx rule"
    and keys: "map fst (obj_fields cur) = map fst (obj_fields obj)" and ty: "fst rule \<in> {U_INT_8, RESERVED_BYTE, SPI_SIZE}" and z: "bit_pos p = 0"
  shows "rule_read pp p rule ctx cur obj rest"
proof -
  obtain v where v: "get_field obj (snd rule) = Some (FU8 v)" using rule_okD(1)[OF ok ty] by blast
  have b: "par_bits p = bits_of [v] @ rest" using bits v ty by (auto simp: rule_bits_def get_u8_def)
  then have "parse_uint8 p = Some (p\<lparr>byte_pos := byte_pos p + 1\<rparr>, v)" using parse_uint8_reads[OF p z] by simp
  then show ?thesis using ty bytes_read[OF p z b] field_done_set[OF keys v] v by (auto simp: rule_read_simps get_u8_def)
qed

lemma read_word16:
  assumes p: "par_ok p" and bits: "par_bits p = rule_bits sub obj ctx rule @ rest" and ok: "rule_ok subok sub start obj ctx rule"
    and keys: "map fst (obj_fields cur) = map fst (obj_fields obj)" and ty: "fst rule \<in> {U_INT_16, PAYLOAD_LENGTH, ATTRIBUTE_LENGTH, ATTRIBUTE_LENGTH_OR_VALUE}" and z: "bit_pos p = 0"
  shows "rule_read pp p rule ctx cur obj rest"
proof -
  obtain v where v: "get_field obj (snd rule) = Some (FU16 v)" "fst rule = PAYLOAD_LENGTH \<Longrightarrow> 4 \<le> unat v" using rule_okD(2)[OF ok ty] by blast
  have b: "par_bits p = bits_of (be_encode 2 (unat v)) @ rest" using bits v ty by (auto simp: rule_bits_def get_u16_def)
  then show ?thesis
    using ty parse_uint16_reads[OF p z b] bytes_read[OF p z b] field_done_set[OF keys v(1)] v by (auto simp: rule_read_simps get_u16_def)
qed

lemma read_word32:
  assumes p: "par_ok p" and bits: "par_bits p = rule_bits sub obj ctx rule @ rest" and ok: "rule_ok subok sub start obj ctx rule"
    and keys: "map fst (obj_fields cur) = map fst (obj_fields obj)" and ty: "fst rule \<in> {U_INT_32, HEADER_LENGTH}" and z: "bit_pos p = 0"
  shows "rule_read pp p rule ctx cur obj rest"
proof -
  obtain v where v: "get_field obj (snd rule) = Some (FU32 v)" using rule_okD(3)[OF ok ty] by blast
  have b: "par_bits p = bits_of (be_encode 4 (unat v)) @ rest" using bits v ty by (auto simp: rule_bits_def get_u32_def)
  then show ?thesis using ty parse_uint32_reads[OF p z b] bytes_read[OF p z b] field_done_set[OF keys v(1)] v by (auto simp: rule_read_simps)
qed

lemma read_flag:
  assumes p: "par_ok p" and bits: "par_bits p = rule_bits sub obj ctx rule @ rest" and ok: "rule_ok subok sub start obj ctx rule"
    and keys: "map fst (obj_fields cur) = map fst (obj_fields obj)" and ty: "fst rule \<in> {FLAG, RESERVED_BIT, ATTRIBUTE_FORMAT}"
  shows "rule_read pp p rule ctx cur obj rest"
proof -
  obtain v where v: "get_field obj (snd rule) = Some (FBool v)" using rule_okD(4)[OF ok ty] by blast
  have b: "par_bits p = v # rest" using bits v ty by (auto simp: rule_bits_def get_bool_def)
  define q where "q = (if (bit_pos p + 1) mod 8 = 0 then p\<lparr>bit_pos := 0, byte_pos := byte_pos p + 1\<rparr> else p\<lparr>bit_pos := bit_pos p + 1\<rparr>)"
  have "same_input p q" by (simp add: q_def same_input_updates)
  then have "parse_bit p = Some (q, v)" "reads p rest ((bit_pos p + 1) mod 8) q"
    using parse_bit_reads[OF p b, folded q_def] by (simp_all add: reads_def)
  then show ?thesis using ty field_done_set[OF keys v] v by (auto simp: rule_read_simps get_bool_def)
qed

lemma read_chunk:
  assumes p: "par_ok p" and bits: "par_bits p = rule_bits sub obj ctx rule @ rest" and ok: "rule_ok subok sub start obj ctx rule"
    and keys: "map fst (obj_fields cur) = map fst (obj_fields obj)" and ty: "fst rule \<in> {SPI, CHUNK_DATA}" and z: "bit_pos p = 0"
    and hl: "fst rule = CHUNK_DATA \<Longrightarrow> get_header_length cur = get_header_length obj"
  shows "rule_read pp p rule ctx cur obj rest"
proof -
  obtain v where v: "get_field obj (snd rule) = Some (FChunk v)" "fst rule = SPI \<Longrightarrow> length v = spi_size ctx"
    "fst rule = CHUNK_DATA \<Longrightarrow> payload_length ctx = get_header_length obj + length v" using rule_okD(5)[OF ok ty] by blast
  have b: "par_bits p = bits_of v @ rest" using bits v ty by (auto simp: rule_bits_def get_chunk_field_def)
  then show ?thesis
    using ty parse_chunk_reads(1)[OF p z b] bytes_read[OF p z b] field_done_set[OF keys v(1)] v(2,3) hl by (auto simp: rule_read_simps)
qed

lemma read_uint4:
  assumes p: "par_ok p" and bits: "par_bits p = rule_bits sub obj ctx rule @ rest" and ok: "rule_ok subok sub start obj ctx rule"
    and keys: "map fst (obj_fields cur) = map fst (obj_fields obj)" and ty: "fst rule = U_INT_4" and z: "bit_pos p = 0 \<or> bit_pos p = 4"
  shows "rule_read pp p rule ctx cur obj rest"
proof -
  obtain v where v: "get_field obj (snd rule) = Some (FU8 v)" "v AND 15 = v" using rule_okD(6)[OF ok ty] by blast
  have b: "par_bits p = bits4 v @ rest" using bits v ty by (auto simp: rule_bits_def get_u8_def)
  define q where "q = (if bit_pos p = 0 then p\<lparr>bit_pos := 4\<rparr> else p\<lparr>bit_pos := 0, byte_pos := byte_pos p + 1\<rparr>)"
  have "same_input p q" by (simp add: q_def same_input_updates)
  then have "parse_uint4 p = Some (q, v)" "reads p rest ((bit_pos p + 4) mod 8) q"
    using parse_uint4_reads[OF p b z v(2), folded q_def] by (simp_all add: reads_def)
  then show ?thesis using ty field_done_set[OF keys v(1)] by (auto simp: rule_read_simps)
qed

lemma read_attribute_type:
  assumes p: "par_ok p" and bits: "par_bits p = rule_bits sub obj ctx rule @ rest" and ok: "rule_ok subok sub start obj ctx rule"
    and keys: "map fst (obj_fields cur) = map fst (obj_fields obj)" and ty: "fst rule = ATTRIBUTE_TYPE" and z: "bit_pos p = 1"
  shows "rule_read pp p rule ctx cur obj rest"
proof -
  obtain v where v: "get_field obj (snd rule) = Some (FU16 v)" "v AND 0x7FFF = v" using rule_okD(7)[OF ok ty] by blast
  have b: "par_bits p = bits15 v @ rest" using bits v ty by (auto simp: rule_bits_def get_u16_def)
  then show ?thesis
    using parse_uint15_reads[OF p b z v(2)] ty field_done_set[OF keys v(1)] by (auto simp: rule_read_simps reads_def same_input_updates)
qed

lemma read_spi:
  assumes p: "par_ok p" and bits: "par_bits p = rule_bits sub obj ctx rule @ rest" and ok: "rule_ok subok sub start obj ctx rule"
    and keys: "map fst (obj_fields cur) = map fst (obj_fields obj)" and ty: "fst rule = IKE_SPI" and z: "bit_pos p = 0"
  shows "rule_read pp p rule ctx cur obj rest"
proof -
  obtain v where v: "get_field obj (snd rule) = Some (FSpi v)" "length v = 8" using rule_okD(8)[OF ok ty] by blast
  have b: "par_bits p = bits_of v @ rest" using bits v ty by (auto simp: rule_bits_def get_spi_bytes_def)
  then show ?thesis
    using parse_chunk_reads(1)[OF p z b] bytes_read[OF p z b] ty field_done_set[OF keys v(1)] v(2) by (auto simp: rule_read_simps parse_bytes_chunk)
qed

lemma read_attribute_value:
  assumes p: "par_ok p" and bits: "par_bits p = rule_bits sub obj ctx rule @ rest" and ok: "rule_ok subok sub start obj ctx rule"
    and keys: "map fst (obj_fields cur) = map fst (obj_fields obj)" and ty: "fst rule = ATTRIBUTE_VALUE" and z: "bit_pos p = 0" and st: "get_field cur (snd rule) = get_field start (snd rule)"
  shows "rule_read pp p rule ctx cur obj rest"
proof -
  obtain v where v: "get_field obj (snd rule) = Some (FChunk v)"
    "if attribute_format ctx then get_field start (snd rule) = Some (FChunk v) else length v = attribute_length ctx" using rule_okD(9)[OF ok ty] by blast
  show ?thesis
  proof (cases "attribute_format ctx")
    case True
    then have "field_done obj (snd rule) cur cur" using v st by (auto simp: field_done_def)
    then show ?thesis using True bits ty p z by (auto simp: rule_read_simps reads_def same_input_updates rule_bits_def)
  next
    case False
    then have b: "par_bits p = bits_of v @ rest" using bits v ty by (simp add: rule_bits_def get_chunk_field_def)
    then show ?thesis
      using False v parse_chunk_reads(1)[OF p z b] bytes_read[OF p z b] ty field_done_set[OF keys v(1)] by (auto simp: rule_read_simps)
  qed
qed

lemma parse_step:
  assumes p: "par_ok p" and al: "aligned (bit_pos p) cl (fst rule # ts)" and bits: "par_bits p = rule_bits sub obj ctx rule @ rest"
    and ok: "rule_ok subok sub start obj ctx rule" and nl: "\<And>t. fst rule \<noteq> PAYLOAD_LIST t"
    and hl: "fst rule = CHUNK_DATA \<Longrightarrow> get_header_length cur = get_header_length obj"
    and keys: "map fst (obj_fields cur) = map fst (obj_fields obj)" and st: "get_field cur (snd rule) = get_field start (snd rule)"
  shows "rule_read pp p rule ctx cur obj rest"
proof (cases "fst rule")
  case U_INT_4
  then show ?thesis using read_uint4[OF p bits ok keys] al by simp
next
  case ATTRIBUTE_TYPE
  then show ?thesis using read_attribute_type[OF p bits ok keys] al by simp
next
  case IKE_SPI
  then show ?thesis using read_spi[OF p bits ok keys] al by simp
next
  case ATTRIBUTE_VALUE
  then show ?thesis using read_attribute_value[OF p bits ok keys _ _ st] al by simp
next
  case ENCRYPTED_DATA
  then show ?thesis using ok by (simp add: rule_ok_def)
qed (use read_byte[OF p bits ok keys] read_word16[OF p bits ok keys] read_word32[OF p bits ok keys] read_flag[OF p bits ok keys]
    read_chunk[OF p bits ok keys _ _ hl] al nl in auto)

text \<open>Parsing the substructures of a list.\<close>

definition sub_parses :: "u8 \<Rightarrow> payload_parser \<Rightarrow> (payload_type_t \<Rightarrow> payload_obj \<Rightarrow> bool) \<Rightarrow> (payload_obj \<Rightarrow> bool list) \<Rightarrow> bool" where
  "sub_parses v pp subok sub \<longleftrightarrow>
     (\<forall>t x p rest. t \<in> set list_rule_types \<and> subok t x \<and> par_ok p \<and> bit_pos p = 0 \<and> major_version p = v \<and> par_bits p = sub x @ rest \<longrightarrow>
        sub x \<noteq> [] \<and> (\<exists>p'. pp (payload_number t) p = Some (Parsed (p', x)) \<and> reads p rest 0 p'))"

lemma parse_list_loop_reads:
  assumes sub: "sub_parses v pp subok sub" and t: "t \<in> set list_rule_types"
  shows "list_all (subok t) l \<Longrightarrow> par_ok p \<Longrightarrow> bit_pos p = 0 \<Longrightarrow> major_version p = v \<Longrightarrow> par_bits p = concat (map sub l) @ rest \<Longrightarrow>
    8 * len = int (length (concat (map sub l))) \<Longrightarrow>
    \<exists>p'. parse_list_loop pp (payload_number t) p len acc = Some (Parsed (p', acc @ l)) \<and> reads p rest 0 p'"
proof (induction l arbitrary: p len acc)
  case Nil
  then show ?case by (subst parse_list_loop.simps) (auto simp: reads_def same_input_updates)
next
  case (Cons x l)
  let ?rest = "concat (map sub l) @ rest"
  have b: "par_bits p = sub x @ ?rest" using Cons.prems(5) by simp
  obtain p1 where p1: "pp (payload_number t) p = Some (Parsed (p1, x))" "reads p ?rest 0 p1" and ne: "sub x \<noteq> []"
    using sub[unfolded sub_parses_def, rule_format, of t x p ?rest] t Cons.prems(1-4) b by auto
  have pos: "8 * int (byte_pos p1) = 8 * int (byte_pos p) + int (length (sub x))"
    using reads_position[OF p1(2) Cons.prems(2,3) b] by linarith
  have len: "8 * (len - (int (byte_pos p1) - int (byte_pos p))) = int (length (concat (map sub l)))" using Cons.prems(6) pos by simp
  have "0 < length (sub x)" using ne by simp
  then have "0 < 8 * len" unfolding Cons.prems(6) by (simp del: length_concat length_greater_0_conv)
  then have "0 < len" by simp
  then have step: "parse_list_loop pp (payload_number t) p len acc =
      parse_list_loop pp (payload_number t) p1 (len - (int (byte_pos p1) - int (byte_pos p))) (acc @ [x])"
    by (subst parse_list_loop.simps) (simp add: p1(1))
  have ok1: "par_ok p1" "bit_pos p1 = 0" "major_version p1 = v" "par_bits p1 = ?rest"
    using p1(2) Cons.prems(4) by (simp_all add: reads_def same_input_def)
  obtain p' where "parse_list_loop pp (payload_number t) p1 (len - (int (byte_pos p1) - int (byte_pos p))) (acc @ [x]) = Some (Parsed (p', (acc @ [x]) @ l))"
    "reads p1 rest 0 p'"
    using Cons.IH[OF _ ok1 len, of "acc @ [x]"] Cons.prems(1) by auto
  then show ?case using step reads_trans[OF p1(2)] by auto
qed

lemma header_cong:
  "obj_class a = obj_class b \<Longrightarrow> obj_type a = obj_type b \<Longrightarrow>
   (obj_class a \<in> {C_NOTIFY, C_PROPOSAL} \<Longrightarrow> get_field a ''spi_size'' = get_field b ''spi_size'') \<Longrightarrow> get_header_length a = get_header_length b"
  unfolding get_header_length_def
  by (cases "obj_class b")
     (simp_all add: Let_def notify_payload_get_header_length_def proposal_substructure_get_header_length_def get_u8_def
       ike_header_get_header_length_def sa_payload_get_header_length_def transform_substructure_get_header_length_def
       transform_attribute_get_header_length_def nonce_payload_get_header_length_def id_payload_get_header_length_def
       auth_payload_get_header_length_def cert_payload_get_header_length_def certreq_payload_get_header_length_def
       traffic_selector_substructure_get_header_length_def ts_payload_get_header_length_def ke_payload_get_header_length_def
       delete_payload_get_header_length_def vendor_id_payload_get_header_length_def hash_payload_get_header_length_def
       cp_payload_get_header_length_def configuration_attribute_get_header_length_def eap_payload_get_header_length_def
       encrypted_payload_get_header_length_def fragment_payload_get_header_length_def
       encrypted_fragment_payload_get_header_length_def unknown_payload_get_header_length_def)

lemma parse_list_rule:
  assumes sub: "sub_parses v pp subok sub" and p: "par_ok p" "bit_pos p = 0" "major_version p = v"
    and bits: "par_bits p = rule_bits sub obj ctx (PAYLOAD_LIST t, off) @ rest"
    and ok: "rule_ok subok sub start obj ctx (PAYLOAD_LIST t, off)" and hl: "get_header_length cur = get_header_length obj"
    and keys: "map fst (obj_fields cur) = map fst (obj_fields obj)" and st: "get_field cur off = get_field start off"
  shows "\<exists>p' cur'. parse_rule pp p (PAYLOAD_LIST t, off) ctx cur = Some (Parsed (p', ctx, cur')) \<and> field_done obj off cur cur' \<and> reads p rest 0 p'"
proof -
  obtain l where l: "get_field obj off = Some (FList l)" "t \<in> set list_rule_types" "list_all (subok t) l" "get_list_field start off = []"
    "8 * payload_length ctx = 8 * get_header_length obj + length (concat (map sub l))"
    using ok by (auto simp: rule_ok_def split: option.splits payload_field.splits)
  have b: "par_bits p = concat (map sub l) @ rest" using bits l(1) by (simp add: rule_bits_def get_list_field_def)
  have len: "8 * (int (payload_length ctx) - int (get_header_length cur)) = int (length (concat (map sub l)))"
    using arg_cong[OF l(5), of int] hl by (simp del: length_concat)
  have le: "get_header_length cur \<le> payload_length ctx" using l(5) hl by linarith
  have cur: "get_list_field cur off = []" using st l(4) by (simp add: get_list_field_def)
  obtain p' where p': "parse_list_loop pp (payload_number t) p (int (payload_length ctx) - int (get_header_length cur)) [] = Some (Parsed (p', [] @ l))" "reads p rest 0 p'"
    using parse_list_loop_reads[OF sub l(2,3) p b len] by blast
  have "parse_rule pp p (PAYLOAD_LIST t, off) ctx cur = Some (Parsed (p', ctx, set_field cur off (FList l)))"
    using p' l(2) le p(2) by (simp add: parse_rule_def parse_list_def cur)
  then show ?thesis using p'(2) field_done_set[OF keys l(1)] by blast
qed

text \<open>
  The loop over the rules: fields of the rules that are left have their initial values, all others those of the
  encoded object.
\<close>

definition agrees :: "payload_obj \<Rightarrow> payload_obj \<Rightarrow> string set \<Rightarrow> payload_obj \<Rightarrow> bool" where
  "agrees obj start left cur \<longleftrightarrow> obj_class cur = obj_class obj \<and> obj_type cur = obj_type obj \<and>
     map fst (obj_fields cur) = map fst (obj_fields obj) \<and>
     (\<forall>k. get_field cur k = (if k \<in> left then get_field start k else get_field obj k))"

lemma agrees_header:
  "agrees obj start (snd ` set rules) cur \<Longrightarrow> (obj_class obj \<in> {C_NOTIFY, C_PROPOSAL} \<Longrightarrow> ''spi_size'' \<notin> snd ` set rules) \<Longrightarrow>
   get_header_length cur = get_header_length obj"
  by (rule header_cong) (auto simp: agrees_def)

lemma spi_first_step: "spi_first (rule # rules) \<Longrightarrow> snd rule \<noteq> ''spi_size'' \<Longrightarrow> spi_first rules"
  by (cases "fst rule") auto

lemma spi_first_data: "spi_first (rule # rules) \<Longrightarrow> fst rule \<noteq> CHUNK_DATA \<and> fst rule \<noteq> PAYLOAD_LIST t"
  by auto

lemma agrees_step:
  "agrees obj start (snd ` set (rule # rules)) cur \<Longrightarrow> snd rule \<notin> snd ` set rules \<Longrightarrow> field_done obj (snd rule) cur cur' \<Longrightarrow>
   agrees obj start (snd ` set rules) cur'"
  by (auto simp: agrees_def field_done_def)

lemma parse_rules_reads:
  assumes sub: "sub_parses v pp subok sub"
  shows "par_ok p \<Longrightarrow> major_version p = v \<Longrightarrow> aligned (bit_pos p) cl (map fst rules) \<Longrightarrow> par_bits p = rules_bits sub obj ctx rules @ rest \<Longrightarrow>
    rules_ok subok sub start obj ctx rules \<Longrightarrow> distinct (map snd rules) \<Longrightarrow> agrees obj start (snd ` set rules) cur \<Longrightarrow>
    (obj_class obj \<in> {C_NOTIFY, C_PROPOSAL} \<Longrightarrow> ''spi_size'' \<in> snd ` set rules \<Longrightarrow> spi_first rules) \<Longrightarrow>
    \<exists>p' cur'. parse_rules pp p rules ctx cur = Some (Parsed (p', cur')) \<and> agrees obj start {} cur' \<and> reads p rest 0 p'"
proof (induction rules arbitrary: p cl ctx cur)
  case Nil
  then show ?case by (auto simp: reads_def same_input_updates)
next
  case (Cons rule rules)
  let ?rest = "rules_bits sub obj (ctx_step obj ctx rule) rules @ rest" and ?ctx = "ctx_step obj ctx rule"
  have bits: "par_bits p = rule_bits sub obj ctx rule @ ?rest" using Cons.prems(4) by simp
  have ok: "rule_ok subok sub start obj ctx rule" using Cons.prems(5) by simp
  have keys: "map fst (obj_fields cur) = map fst (obj_fields obj)" and st: "get_field cur (snd rule) = get_field start (snd rule)"
    using Cons.prems(7) by (auto simp: agrees_def)
  have hl: "get_header_length cur = get_header_length obj" if "fst rule = CHUNK_DATA \<or> fst rule = PAYLOAD_LIST t" for t
    using agrees_header[OF Cons.prems(7)] Cons.prems(8) spi_first_data[of rule rules t] that by blast
  have al: "aligned (bit_pos p) cl (fst rule # map fst rules)" using Cons.prems(3) by simp
  show ?case
  proof (cases "\<exists>t. fst rule = PAYLOAD_LIST t")
    case True
    then obtain t off where r: "rule = (PAYLOAD_LIST t, off)" by (cases rule) auto
    then have last: "rules = []" "bit_pos p = 0" using al by auto
    obtain p' cur' where p': "parse_rule pp p rule ctx cur = Some (Parsed (p', ctx, cur'))" "field_done obj (snd rule) cur cur'" "reads p rest 0 p'"
      using parse_list_rule[OF sub Cons.prems(1) last(2) Cons.prems(2), of obj ctx t off rest start cur] bits ok hl[of t] keys st r last by auto
    then show ?thesis using agrees_step[OF Cons.prems(7) _ p'(2)] last by auto
  next
    case False
    then obtain p1 cur1 where p1: "parse_rule pp p rule ctx cur = Some (Parsed (p1, ?ctx, cur1))" "field_done obj (snd rule) cur cur1"
      "reads p ?rest (next_bit (bit_pos p) (fst rule)) p1"
      using parse_step[OF Cons.prems(1) al bits ok _ _ keys st] hl unfolding rule_read_def by blast
    have ok1: "par_ok p1" "major_version p1 = v" "par_bits p1 = ?rest" "aligned (bit_pos p1) (next_clean (fst rule)) (map fst rules)"
      using p1(3) Cons.prems(2) aligned_next[of "bit_pos p" cl "fst rule" "map fst rules"] al False by (auto simp: reads_def same_input_def)
    have "agrees obj start (snd ` set rules) cur1" using agrees_step[OF Cons.prems(7) _ p1(2)] Cons.prems(6) by auto
    moreover have rest_ok: "rules_ok subok sub start obj ?ctx rules" "distinct (map snd rules)" using Cons.prems(5,6) by simp_all
    moreover have "spi_first rules" if "obj_class obj \<in> {C_NOTIFY, C_PROPOSAL}" "''spi_size'' \<in> snd ` set rules"
    proof -
      have "spi_first (rule # rules)" using that Cons.prems(8) by (simp only: list.set image_insert insertI2)
      moreover have "snd rule \<noteq> ''spi_size''" using that(2) Cons.prems(6) by force
      ultimately show ?thesis by (rule spi_first_step)
    qed
    ultimately obtain p' cur' where "parse_rules pp p1 rules ?ctx cur1 = Some (Parsed (p', cur'))" "agrees obj start {} cur'" "reads p1 rest 0 p'"
      using Cons.IH[OF ok1(1,2,4,3) rest_ok] by blast
    then show ?thesis using p1(1) reads_trans[OF p1(3)] by auto
  qed
qed

lemma fields_eqI:
  assumes "map fst xs = map fst ys" "distinct (map fst xs)" "\<And>k. map_of xs k = map_of ys k"
  shows "xs = ys"
proof (rule nth_equalityI)
  show l: "length xs = length ys" using arg_cong[OF assms(1), of length] by simp
  fix i assume i: "i < length xs"
  have f: "fst (xs ! i) = fst (ys ! i)" using arg_cong[OF assms(1), of "\<lambda>l. l ! i"] i l by simp
  have "map_of xs (fst (xs ! i)) = Some (snd (xs ! i))" "map_of ys (fst (ys ! i)) = Some (snd (ys ! i))"
    using assms(1,2) i l by (simp_all add: map_of_eq_Some_iff)
  then show "xs ! i = ys ! i" using assms(3) f by (metis option.inject prod.collapse)
qed

lemma agrees_all:
  assumes "agrees obj start {} cur" "distinct (map fst (obj_fields obj))"
  shows "cur = obj"
proof -
  have "obj_fields cur = obj_fields obj" using assms by (intro fields_eqI) (auto simp: agrees_def get_field_def)
  then show ?thesis using assms(1) by (cases cur; cases obj) (simp add: agrees_def)
qed

lemma create_keys:
  "distinct (map fst (obj_fields (ike_header_create n)))"
  "distinct (map fst (obj_fields (sa_payload_create n)))"
  "distinct (map fst (obj_fields (proposal_substructure_create n)))"
  "distinct (map fst (obj_fields (transform_substructure_create n)))"
  "distinct (map fst (obj_fields (transform_attribute_create n)))"
  "distinct (map fst (obj_fields (nonce_payload_create n)))"
  "distinct (map fst (obj_fields (id_payload_create n)))"
  "distinct (map fst (obj_fields (auth_payload_create n)))"
  "distinct (map fst (obj_fields (cert_payload_create n)))"
  "distinct (map fst (obj_fields (certreq_payload_create n)))"
  "distinct (map fst (obj_fields (traffic_selector_substructure_create n)))"
  "distinct (map fst (obj_fields (ts_payload_create n)))"
  "distinct (map fst (obj_fields (ke_payload_create n)))"
  "distinct (map fst (obj_fields (notify_payload_create n)))"
  "distinct (map fst (obj_fields (delete_payload_create n)))"
  "distinct (map fst (obj_fields (vendor_id_payload_create n)))"
  "distinct (map fst (obj_fields (hash_payload_create n)))"
  "distinct (map fst (obj_fields (cp_payload_create n)))"
  "distinct (map fst (obj_fields (configuration_attribute_create n)))"
  "distinct (map fst (obj_fields (eap_payload_create n)))"
  "distinct (map fst (obj_fields (encrypted_payload_create n)))"
  "distinct (map fst (obj_fields (fragment_payload_create n)))"
  "distinct (map fst (obj_fields (encrypted_fragment_payload_create n)))"
  "distinct (map fst (obj_fields (unknown_payload_create n)))"
  by code_simp+

lemma if_keys:
  "distinct (map fst (obj_fields a)) \<Longrightarrow> distinct (map fst (obj_fields b)) \<Longrightarrow> distinct (map fst (obj_fields (if c then a else b)))"
  by simp

lemma start_keys: "distinct (map fst (obj_fields (start_payload v n)))"
proof -
  have "distinct (map fst (obj_fields (payload_create n)))"
    unfolding payload_create_def by (cases "payload_type_of n") (simp_all only: option.case, (intro if_keys create_keys)+)
  then show ?thesis unfolding start_payload_def by (intro if_keys create_keys)
qed

lemma rule_bits_start:
  "starts_with_bits (fst rule # ts) \<Longrightarrow> rule_ok subok sub start obj ctx rule \<Longrightarrow> rule_bits sub obj ctx rule \<noteq> []"
  using rule_okD(8)[of subok sub start obj ctx rule]
  by (cases "fst rule") (auto simp: starts_with_bits_def rule_bits_def bits8_def get_spi_bytes_def dest!: arg_cong[where f = length])

lemma payload_bits_nonempty:
  assumes "payload_wf v d obj"
  shows "payload_bits d obj \<noteq> []"
proof (cases d)
  case (Suc d')
  obtain rule rules where r: "get_encoding_rules obj = rule # rules" and s: "starts_with_bits (fst rule # map fst rules) \<or> fst rule = ENCRYPTED_DATA"
    using rules_table_ok[of obj] by (cases "get_encoding_rules obj") (auto simp: table_ok_def starts_with_bits_def)
  have ok: "rule_ok (\<lambda>t x. obj_type x = payload_number t \<and> payload_wf v d' x) (payload_bits d') (start_payload v (obj_type obj)) obj parse_ctx0 rule"
    using assms Suc r by (simp add: Let_def)
  then have "fst rule \<noteq> ENCRYPTED_DATA" by (auto simp: rule_ok_def)
  then show ?thesis using rule_bits_start[OF _ ok] s Suc r by auto
qed (use assms in simp)

lemma parse_payload_reads:
  "payload_wf v d obj \<Longrightarrow> par_ok p \<Longrightarrow> bit_pos p = 0 \<Longrightarrow> major_version p = v \<Longrightarrow> par_bits p = payload_bits d obj @ rest \<Longrightarrow>
   \<exists>p'. parse_payload d (obj_type obj) p = Some (Parsed (p', obj)) \<and> reads p rest 0 p'"
proof (induction d arbitrary: obj p rest)
  case (Suc d)
  let ?subok = "\<lambda>t x. obj_type x = payload_number t \<and> payload_wf v d x" and ?start = "start_payload v (obj_type obj)"
  have sub: "sub_parses v (parse_payload d) ?subok (payload_bits d)"
    unfolding sub_parses_def
  proof (intro allI impI)
    fix t x p rest
    assume a: "t \<in> set list_rule_types \<and> (obj_type x = payload_number t \<and> payload_wf v d x) \<and> par_ok p \<and> bit_pos p = 0 \<and>
      major_version p = v \<and> par_bits p = payload_bits d x @ rest"
    then have x: "payload_wf v d x" "obj_type x = payload_number t" and p: "par_ok p" "bit_pos p = 0" "major_version p = v" "par_bits p = payload_bits d x @ rest"
      by blast+
    show "payload_bits d x \<noteq> [] \<and> (\<exists>p'. parse_payload d (payload_number t) p = Some (Parsed (p', x)) \<and> reads p rest 0 p')"
      using Suc.IH[OF x(1) p] payload_bits_nonempty[OF x(1)] unfolding x(2) by blast
  qed
  have rules: "get_encoding_rules ?start = get_encoding_rules obj" using payload_wf_rules[OF Suc.prems(1)] by simp
  have wf: "obj_class obj = obj_class ?start" "map fst (obj_fields obj) = map fst (obj_fields ?start)"
    "list_all (\<lambda>k. k \<in> snd ` set (get_encoding_rules obj) \<or> get_field obj k = get_field ?start k) (map fst (obj_fields ?start))"
    "rules_ok ?subok (payload_bits d) ?start obj parse_ctx0 (get_encoding_rules obj)"
    using Suc.prems(1) by (simp_all add: Let_def)
  have "get_field ?start k = get_field obj k" if "k \<notin> snd ` set (get_encoding_rules obj)" for k
  proof (cases "k \<in> set (map fst (obj_fields ?start))")
    case True
    then show ?thesis using wf(3) that by (auto simp: list_all_iff)
  next
    case False
    then show ?thesis using get_field_key[of ?start k] get_field_key[of obj k] wf(2) by simp
  qed
  then have ag: "agrees obj ?start (snd ` set (get_encoding_rules obj)) ?start"
    using wf(1,2) by (simp add: agrees_def create_type)
  have tab: "aligned (bit_pos p) True (map fst (get_encoding_rules obj))" "distinct (map snd (get_encoding_rules obj))"
    using rules_table_ok[of obj] Suc.prems(3) by (simp_all add: table_ok_def)
  have bits: "par_bits p = rules_bits (payload_bits d) obj parse_ctx0 (get_encoding_rules obj) @ rest" using Suc.prems(5) by simp
  obtain p' cur' where p': "parse_rules (parse_payload d) p (get_encoding_rules obj) parse_ctx0 ?start = Some (Parsed (p', cur'))"
    "agrees obj ?start {} cur'" "reads p rest 0 p'"
    using parse_rules_reads[OF sub Suc.prems(2,4) tab(1) bits wf(4) tab(2) ag] spi_first_rules[of obj] by blast
  then have "cur' = obj" using agrees_all start_keys wf(2) by (metis)
  then show ?case using p' rules Suc.prems(4) by (simp add: Let_def)
qed simp

text \<open>An SA payload with a proposal of one cipher with a key length, and a configuration payload with an address.\<close>

definition key_length_attr :: payload_obj where
  "key_length_attr = Payload_Obj C_TRANSFORM_ATTRIBUTE (payload_number PLV2_TRANSFORM_ATTRIBUTE)
     [(''attribute_format'', FBool True), (''attribute_type'', FU16 14), (''attribute_length_or_value'', FU16 256),
      (''attribute_value'', FChunk [])]"

definition sample_transform :: payload_obj where
  "sample_transform = Payload_Obj C_TRANSFORM (payload_number PLV2_TRANSFORM_SUBSTRUCTURE)
      [(''next_payload'', FU8 0), (''reserved[0]'', FU8 0), (''reserved[1]'', FU8 0), (''reserved[2]'', FU8 0),
       (''transform_length'', FU16 12), (''transform_ton'', FU8 1), (''transform_id_v1'', FU8 0),
       (''transform_id_v2'', FU16 12), (''attributes'', FList [key_length_attr])]"

definition sample_proposal :: payload_obj where
  "sample_proposal = Payload_Obj C_PROPOSAL (payload_number PLV2_PROPOSAL_SUBSTRUCTURE)
      [(''next_payload'', FU8 0), (''reserved'', FU8 0), (''proposal_length'', FU16 24), (''proposal_number'', FU8 1),
       (''protocol_id'', FU8 3), (''spi_size'', FU8 4), (''transforms_count'', FU8 1), (''spi'', FChunk [0xC0, 1, 2, 3]),
       (''transforms'', FList [sample_transform])]"

definition sample_sa :: payload_obj where
  "sample_sa = set_field (set_field (set_field (sa_payload_create (payload_number PLV2_SECURITY_ASSOCIATION))
      ''payload_length'' (FU16 28)) ''proposals'' (FList [sample_proposal])) ''next_payload'' (FU8 44)"

definition sample_cp :: payload_obj where
  "sample_cp = set_field (set_field (cp_payload_create (payload_number PLV2_CONFIGURATION)) ''payload_length'' (FU16 16))
     ''attributes'' (FList [Payload_Obj C_CONFIGURATION_ATTRIBUTE (payload_number PLV2_CONFIGURATION_ATTRIBUTE)
       [(''af_flag'', FBool False), (''reserved'', FBool False), (''attr_type'', FU16 1), (''length_or_value'', FU16 4),
        (''value'', FChunk [10, 0, 0, 1])]])"

lemma sample_sa_wf: "payload_wf 2 4 sample_sa"
  by code_simp

lemma sample_cp_wf: "payload_wf 2 4 sample_cp"
  by code_simp

lemma gen_ok_create: "gen_ok (generator_create mem)" "current_bit (generator_create mem) = 0" "\<not> gen_attribute_format (generator_create mem)"
  by (simp_all add: gen_ok_def generator_create_def)

lemma length_gen_get_chunk: "gen_ok g \<Longrightarrow> length (gen_get_chunk g) = out_position g"
  using gen_ok_pos(2)[of g] by (simp add: gen_get_chunk_def)

text \<open>What a generated payload looks like in the buffer.\<close>

lemma generated_chunk:
  assumes "appends g bs 0 g'" "gen_ok g" "current_bit g = 0"
  shows "\<exists>new. gen_get_chunk g' = gen_get_chunk g @ new \<and> bits_of new = bs"
proof -
  have e: "bits_of (gen_get_chunk g') = bits_of (gen_get_chunk g) @ bs" and ok: "gen_ok g'"
    using assms gen_bits_aligned[of g'] by (simp_all add: appends_def gen_bits_aligned gen_get_chunk_def)
  let ?n = "out_position g" and ?c = "gen_get_chunk g'"
  have "8 * length ?c = 8 * ?n + length bs" using arg_cong[OF e, of length] length_gen_get_chunk[OF assms(2)] by simp
  then have l: "?n \<le> length ?c" by linarith
  have "bits_of (take ?n ?c) = bits_of (gen_get_chunk g)"
    using arg_cong[OF e, of "take (8 * ?n)"] length_gen_get_chunk[OF assms(2)] by (simp add: take_bits_of)
  then have t: "take ?n ?c = gen_get_chunk g" by simp
  then have c: "?c = gen_get_chunk g @ drop ?n ?c" by (metis append_take_drop_id)
  then have "bits_of (drop ?n ?c) = bs" using e by (metis append_same_eq bits_of_simps(3) same_append_eq)
  then show ?thesis using c by blast
qed



text \<open>
  The generator keeps the format of the last attribute that had one. A configuration attribute of IKEv2 has no such flag, so
  that after a key length its value is left out, whatever it is: the bytes written do not depend on it.
\<close>

definition config_attr :: "bytes \<Rightarrow> payload_obj" where
  "config_attr v = Payload_Obj C_CONFIGURATION_ATTRIBUTE (payload_number PLV2_CONFIGURATION_ATTRIBUTE)
     [(''af_flag'', FBool False), (''reserved'', FBool False), (''attr_type'', FU16 1), (''length_or_value'', FU16 (of_nat (length v))),
      (''value'', FChunk v)]"

lemma u_int_cong: "get_field a off = get_field b off \<Longrightarrow> generate_u_int_type mem g a ty off = generate_u_int_type mem g b ty off"
proof -
  assume "get_field a off = get_field b off"
  then have "get_u8 a off = get_u8 b off" "get_u16 a off = get_u16 b off" "get_u32 a off = get_u32 b off" "get_spi_bytes a off = get_spi_bytes b off"
    by (simp_all add: get_u8_def get_u16_def get_u32_def get_spi_bytes_def)
  then show ?thesis by (simp only: generate_u_int_type_def)
qed

lemma stale_attribute_format:
  assumes "length v = length w"
  shows "generate_payload mem (generate_payload mem g key_length_attr) (config_attr v) =
         generate_payload mem (generate_payload mem g key_length_attr) (config_attr w)"
proof -
  have "get_encoding_rules key_length_attr = transform_attribute_encodings" "get_bool key_length_attr ''attribute_format''"
    by (simp_all add: key_length_attr_def get_encoding_rules_def Let_def transform_attribute_get_encoding_rules_def get_bool_def get_field_def)
  then have f: "gen_attribute_format (generate_payload mem g key_length_attr)"
    by (simp add: generate_payload.simps generate_rules.simps(2) Let_def format_kept transform_attribute_encodings_def)
  have c: "get_encoding_rules (config_attr x) = configuration_attribute_encodings_v2" "get_bool (config_attr x) ''reserved'' = False" for x
    by (simp_all add: config_attr_def get_encoding_rules_def Let_def configuration_attribute_get_encoding_rules_def get_bool_def get_field_def)
  have u: "generate_u_int_type mem h (config_attr v) ty ''attr_type'' = generate_u_int_type mem h (config_attr w) ty ''attr_type''"
      "generate_u_int_type mem h (config_attr v) ty ''length_or_value'' = generate_u_int_type mem h (config_attr w) ty ''length_or_value''" for h ty
    using assms by (auto intro!: u_int_cong simp: config_attr_def get_field_def)
  have "generate_payload mem h (config_attr v) = generate_payload mem h (config_attr w)" if "gen_attribute_format h" for h
    using that by (simp add: generate_payload.simps generate_rules.simps(2) Let_def c format_kept u configuration_attribute_encodings_v2_def)
  then show ?thesis using f .
qed

section \<open>The parser returns and stays inside its input\<close>

text \<open>A step of the parser goes forward in the same input.\<close>

definition forward :: "parser_t \<Rightarrow> parser_t \<Rightarrow> bool" where
  "forward p p' \<longleftrightarrow> same_input p p' \<and> byte_pos p \<le> byte_pos p' \<and> (byte_pos p \<le> input_roof p \<longrightarrow> byte_pos p' \<le> input_roof p)"

lemma forward_refl [simp]: "forward p p"
  by (simp add: forward_def same_input_def)

lemma forward_trans: "forward p q \<Longrightarrow> forward q r \<Longrightarrow> forward p r"
  by (auto simp: forward_def same_input_def)

lemma primitives_forward:
  "parse_uint4 p = Some (p', v4) \<Longrightarrow> forward p p'" "parse_bytes p n = Some (p', bs) \<Longrightarrow> forward p p'"
  "parse_uint8 p = Some (p', v8) \<Longrightarrow> forward p p' \<and> byte_pos p < byte_pos p'" "parse_uint16 p = Some (p', v16) \<Longrightarrow> forward p p' \<and> byte_pos p < byte_pos p'"
  "parse_uint15 p = Some (p', v15) \<Longrightarrow> forward p p'" "parse_uint32 p = Some (p', v32) \<Longrightarrow> forward p p'"
  "parse_bit p = Some (p', b) \<Longrightarrow> forward p p'" "parse_chunk p n = Some (p', bs) \<Longrightarrow> forward p p'"
  by (auto simp: forward_def same_input_def parse_uint4_def parse_bytes_def parse_uint8_def parse_uint16_def parse_uint15_def parse_uint32_def
      parse_bit_def parse_chunk_def Let_def split: if_splits)

text \<open>A parser of substructures that returns, goes forward, and reads at least one byte.\<close>

definition advances :: "payload_parser \<Rightarrow> nat \<Rightarrow> bool" where
  "advances pp n \<longleftrightarrow> (\<forall>p. pp n p = Some Parse_Error \<or> (\<exists>p' x. pp n p = Some (Parsed (p', x)) \<and> forward p p' \<and> byte_pos p < byte_pos p'))"

lemma parse_list_loop_returns:
  assumes "advances pp n"
  shows "parse_list_loop pp n p len acc = Some Parse_Error \<or>
    (\<exists>p' l. parse_list_loop pp n p len acc = Some (Parsed (p', l)) \<and> forward p p')"
proof (induction "nat len" arbitrary: p len acc rule: less_induct)
  case less
  show ?case
  proof (cases "len > 0")
    case False
    then show ?thesis by (subst (1 2) parse_list_loop.simps) auto
  next
    case True
    consider "pp n p = Some Parse_Error" | p' x where "pp n p = Some (Parsed (p', x))" "forward p p'" "byte_pos p < byte_pos p'"
      using assms unfolding advances_def by blast
    then show ?thesis
    proof cases
      case 1
      then show ?thesis using True by (subst (1 2) parse_list_loop.simps) simp
    next
      case 2
      let ?len = "len - (int (byte_pos p') - int (byte_pos p))"
      have step: "parse_list_loop pp n p len acc = parse_list_loop pp n p' ?len (acc @ [x])"
        using True 2(1) by (subst parse_list_loop.simps) simp
      have "nat ?len < nat len" using True 2(3) by simp
      from less[OF this, of p' "acc @ [x]"] show ?thesis unfolding step using forward_trans[OF 2(2)] by blast
    qed
  qed
qed

definition byte_rule :: "encoding_type_t \<Rightarrow> bool" where
  "byte_rule ty \<longleftrightarrow> ty \<in> {U_INT_8, RESERVED_BYTE, SPI_SIZE, U_INT_16, PAYLOAD_LENGTH, ATTRIBUTE_LENGTH, ATTRIBUTE_LENGTH_OR_VALUE}"

lemma parse_rule_returns:
  assumes "\<And>t. fst rule = PAYLOAD_LIST t \<Longrightarrow> t \<in> set list_rule_types \<Longrightarrow> advances pp (payload_number t)"
  shows "parse_rule pp p rule ctx pld = Some Parse_Error \<or>
    (\<exists>p' ctx' pld'. parse_rule pp p rule ctx pld = Some (Parsed (p', ctx', pld')) \<and> forward p p' \<and> (byte_rule (fst rule) \<longrightarrow> byte_pos p < byte_pos p'))"
proof (cases "\<exists>t. fst rule = PAYLOAD_LIST t")
  case True
  then obtain t where t: "fst rule = PAYLOAD_LIST t" by blast
  show ?thesis
    using assms[OF t] parse_list_loop_returns[of pp "payload_number t" p "int (payload_length ctx) - int (get_header_length pld)" "get_list_field pld (snd rule)"]
    by (cases "t \<in> set list_rule_types") (auto simp: parse_rule_def Let_def parse_list_def t byte_rule_def)
next
  case False
  note prims = primitives_forward
  show ?thesis
    using False unfolding parse_rule_def Let_def
    by (cases "fst rule") (auto simp: parsed_field_def byte_rule_def dest: prims split: option.splits)
qed

lemma parse_rules_returns:
  assumes "\<And>t. PAYLOAD_LIST t \<in> fst ` set rules \<Longrightarrow> t \<in> set list_rule_types \<Longrightarrow> advances pp (payload_number t)"
  shows "parse_rules pp p rules ctx pld = Some Parse_Error \<or>
    (\<exists>p' pld'. parse_rules pp p rules ctx pld = Some (Parsed (p', pld')) \<and> forward p p' \<and>
       (list_ex (\<lambda>r. byte_rule (fst r)) rules \<longrightarrow> byte_pos p < byte_pos p'))"
  using assms
proof (induction rules arbitrary: p ctx pld)
  case (Cons rule rules)
  consider "parse_rule pp p rule ctx pld = Some Parse_Error"
    | p1 ctx1 pld1 where "parse_rule pp p rule ctx pld = Some (Parsed (p1, ctx1, pld1))" "forward p p1" "byte_rule (fst rule) \<longrightarrow> byte_pos p < byte_pos p1"
    using parse_rule_returns[of rule pp p ctx pld] Cons.prems by force
  then show ?case
  proof cases
    case 2
    have "parse_rules pp p1 rules ctx1 pld1 = Some Parse_Error \<or>
      (\<exists>p' pld'. parse_rules pp p1 rules ctx1 pld1 = Some (Parsed (p', pld')) \<and> forward p1 p' \<and>
         (list_ex (\<lambda>r. byte_rule (fst r)) rules \<longrightarrow> byte_pos p1 < byte_pos p'))"
      using Cons.prems by (intro Cons.IH) auto
    moreover have "byte_pos p \<le> byte_pos p1" using 2(2) by (simp add: forward_def)
    ultimately show ?thesis using 2 forward_trans[OF 2(2)] by (auto simp: forward_def)
  qed simp
qed simp

text \<open>How deep the tables nest, and that substructures hold at least one byte.\<close>

fun nests :: "nat \<Rightarrow> encoding_rule_t list \<Rightarrow> bool" where
  "nests 0 rules = False"
| "nests (Suc d) rules = list_all (\<lambda>rule.
     case fst rule of PAYLOAD_LIST t \<Rightarrow> nests d (get_encoding_rules (payload_create (payload_number t))) | _ \<Rightarrow> True) rules"

lemma tables_nest: "list_all (nests 4) all_tables"
  by code_simp

lemma substructure_bytes:
  "list_all (\<lambda>t. list_ex (\<lambda>r. byte_rule (fst r)) (get_encoding_rules (payload_create (payload_number t)))) list_rule_types"
  unfolding byte_rule_def by code_simp

lemma substructure_nests:
  assumes "nests (Suc d) rules" "PAYLOAD_LIST t \<in> fst ` set rules"
  shows "nests d (get_encoding_rules (payload_create (payload_number t)))"
  using assms by (force simp: list_all_iff split: encoding_type_t.splits)

definition returns :: "nat \<Rightarrow> nat \<Rightarrow> parser_t \<Rightarrow> bool" where
  "returns d n p \<longleftrightarrow> parse_payload d n p = Some Parse_Error \<or>
   (\<exists>p' pld. parse_payload d n p = Some (Parsed (p', pld)) \<and> forward p p' \<and>
      (list_ex (\<lambda>r. byte_rule (fst r)) (get_encoding_rules (start_payload (major_version p) n)) \<longrightarrow> byte_pos p < byte_pos p'))"

lemma returns_advances:
  assumes "t \<in> set list_rule_types" "\<And>p. returns d (payload_number t) p"
  shows "advances (parse_payload d) (payload_number t)"
proof -
  have "list_ex (\<lambda>r. byte_rule (fst r)) (get_encoding_rules (payload_create (payload_number t)))"
    using substructure_bytes assms(1) unfolding list_all_iff by blast
  then show ?thesis using assms(2) known_substructure[OF assms(1)] unfolding advances_def returns_def by fastforce
qed

lemma parse_payload_returns:
  "nests d (get_encoding_rules (start_payload (major_version p) n)) \<Longrightarrow> returns d n p"
proof (induction d arbitrary: n p)
  case (Suc d)
  have "advances (parse_payload d) (payload_number t)"
    if t: "PAYLOAD_LIST t \<in> fst ` set (get_encoding_rules (start_payload (major_version p) n))" "t \<in> set list_rule_types" for t
    using substructure_nests[OF Suc.prems t(1)] Suc.IH known_substructure[OF t(2)] by (intro returns_advances t(2)) simp
  from parse_rules_returns[OF this] show ?case by (simp add: returns_def Let_def)
qed simp

lemma parse_payload_4:
  "parse_payload 4 n p = Some Parse_Error \<or> (\<exists>p' pld. parse_payload 4 n p = Some (Parsed (p', pld)) \<and> forward p p')"
  using parse_payload_returns[of 4 p n] tables_nest rules_in_tables[of "start_payload (major_version p) n"]
  unfolding list_all_iff returns_def by blast

text \<open>
  C20. The parser always returns, on any input and for any payload type: the lists nest at most four deep (SA,
  proposal, transform, attribute) and every substructure it reads is at least one byte long, so that a list ends. What it returns is an error, or a payload and a position in the
  same input that is not behind the start and not past the end.
\<close>

theorem parse_payload_total:
  assumes "byte_pos p \<le> input_roof p"
  shows "\<exists>r. parse_payload 4 n p = Some r \<and>
    (case r of Parse_Error \<Rightarrow> True
     | Parsed (p', pld) \<Rightarrow> pa_input p' = pa_input p \<and> input_roof p' = input_roof p \<and> major_version p' = major_version p \<and>
         byte_pos p \<le> byte_pos p' \<and> byte_pos p' \<le> input_roof p)"
  using parse_payload_4[of n p] assms by (auto simp: forward_def same_input_def)

theorem parse_payload_total_witness:
  "byte_pos (parser_create [33, 0, 0, 4]) \<le> input_roof (parser_create [33, 0, 0, 4]) \<and>
   (\<exists>r. parse_payload 4 40 (parser_create [33, 0, 0, 4]) = Some r)"
  using parse_payload_total[of "parser_create [33, 0, 0, 4]" 40] by (auto simp: parser_create_def)

text \<open>Inputs that agree up to the end that the parser was given, and a result with the other input.\<close>

definition same_bytes :: "bytes \<Rightarrow> parser_t \<Rightarrow> bool" where
  "same_bytes input p \<longleftrightarrow> take (input_roof p) input = take (input_roof p) (pa_input p)"

abbreviation other_input :: "bytes \<Rightarrow> parser_t \<times> 'a \<Rightarrow> parser_t \<times> 'a" where
  "other_input input \<equiv> \<lambda>(p, x). (p\<lparr>pa_input := input\<rparr>, x)"

lemma same_bytes_nth: "same_bytes input p \<Longrightarrow> i < input_roof p \<Longrightarrow> input ! i = pa_input p ! i"
  unfolding same_bytes_def by (metis nth_take)

lemma same_bytes_slice:
  assumes "same_bytes input p" "i + n \<le> input_roof p"
  shows "take n (drop i input) = take n (drop i (pa_input p))"
proof -
  have "take n (drop i xs) = take n (drop i (take (input_roof p) xs))" for xs :: bytes
    using assms(2) by (simp add: drop_take min_def)
  then show ?thesis using assms(1) unfolding same_bytes_def by metis
qed

lemma same_bytes_forward: "same_bytes input p \<Longrightarrow> forward p p' \<Longrightarrow> same_bytes input p'"
  by (simp add: same_bytes_def forward_def same_input_def)

lemma primitives_other:
  assumes "same_bytes input p"
  shows "parse_uint4 (p\<lparr>pa_input := input\<rparr>) = map_option (other_input input) (parse_uint4 p)"
    "parse_bytes (p\<lparr>pa_input := input\<rparr>) n = map_option (other_input input) (parse_bytes p n)"
    "parse_uint8 (p\<lparr>pa_input := input\<rparr>) = map_option (other_input input) (parse_uint8 p)"
    "parse_uint16 (p\<lparr>pa_input := input\<rparr>) = map_option (other_input input) (parse_uint16 p)"
    "parse_uint15 (p\<lparr>pa_input := input\<rparr>) = map_option (other_input input) (parse_uint15 p)"
    "parse_uint32 (p\<lparr>pa_input := input\<rparr>) = map_option (other_input input) (parse_uint32 p)"
    "parse_bit (p\<lparr>pa_input := input\<rparr>) = map_option (other_input input) (parse_bit p)"
    "parse_chunk (p\<lparr>pa_input := input\<rparr>) n = map_option (other_input input) (parse_chunk p n)"
  using same_bytes_nth[OF assms, of "byte_pos p"] same_bytes_slice[OF assms, of "byte_pos p"]
  by (auto simp: parse_uint4_def parse_bytes_def parse_uint8_def parse_uint16_def parse_uint15_def parse_uint32_def parse_bit_def parse_chunk_def Let_def)

lemma parsed_field_other:
  "parsed_field (map_option (other_input input) r) pld off f ctx = map_parsed (other_input input) (parsed_field r pld off f ctx)"
  by (auto simp: parsed_field_def split: option.split)

definition inside :: "bytes \<Rightarrow> payload_parser \<Rightarrow> nat \<Rightarrow> bool" where
  "inside input pp n \<longleftrightarrow>
     (\<forall>p. same_bytes input p \<longrightarrow> pp n (p\<lparr>pa_input := input\<rparr>) = map_option (map_parsed (other_input input)) (pp n p))"

lemma parse_list_loop_inside:
  assumes "advances pp n" "inside input pp n"
  shows "same_bytes input p \<Longrightarrow> parse_list_loop pp n (p\<lparr>pa_input := input\<rparr>) len acc =
    map_option (map_parsed (other_input input)) (parse_list_loop pp n p len acc)"
proof (induction "nat len" arbitrary: p len acc rule: less_induct)
  case less
  have other: "pp n (p\<lparr>pa_input := input\<rparr>) = map_option (map_parsed (other_input input)) (pp n p)"
    using assms(2) less.prems by (simp add: inside_def)
  show ?case
  proof (cases "len > 0")
    case False
    then show ?thesis by (subst (1 2) parse_list_loop.simps) simp
  next
    case True
    consider "pp n p = Some Parse_Error" | p' x where "pp n p = Some (Parsed (p', x))" "forward p p'" "byte_pos p < byte_pos p'"
      using assms(1) unfolding advances_def by blast
    then show ?thesis
    proof cases
      case 1
      then show ?thesis using True other by (subst (1 2) parse_list_loop.simps) simp
    next
      case 2
      let ?len = "len - (int (byte_pos p') - int (byte_pos p))"
      have "nat ?len < nat len" using True 2(3) by simp
      from less.hyps[OF this same_bytes_forward[OF less.prems 2(2)], of "acc @ [x]"]
      show ?thesis using True other 2(1) by (subst (1 2) parse_list_loop.simps) simp
    qed
  qed
qed

lemma parse_rule_inside:
  assumes "same_bytes input p"
    and "\<And>t. fst rule = PAYLOAD_LIST t \<Longrightarrow> t \<in> set list_rule_types \<Longrightarrow> advances pp (payload_number t) \<and> inside input pp (payload_number t)"
  shows "parse_rule pp (p\<lparr>pa_input := input\<rparr>) rule ctx pld = map_option (map_parsed (other_input input)) (parse_rule pp p rule ctx pld)"
proof (cases "\<exists>t. fst rule = PAYLOAD_LIST t")
  case True
  then obtain t where t: "fst rule = PAYLOAD_LIST t" by blast
  show ?thesis
  proof (cases "t \<in> set list_rule_types")
    case ty: True
    let ?r = "parse_list_loop pp (payload_number t) p (int (payload_length ctx) - int (get_header_length pld)) (get_list_field pld (snd rule))"
    have "parse_list_loop pp (payload_number t) (p\<lparr>pa_input := input\<rparr>) (int (payload_length ctx) - int (get_header_length pld)) (get_list_field pld (snd rule)) =
       map_option (map_parsed (other_input input)) ?r"
      using parse_list_loop_inside assms(2)[OF t ty] assms(1) by blast
    then show ?thesis using ty
      by (cases ?r) (auto simp: parse_rule_def Let_def parse_list_def t split: parsed.split)
  qed (simp add: parse_rule_def t)
next
  case False
  then show ?thesis unfolding parse_rule_def Let_def
    by (cases "fst rule") (auto simp: primitives_other[OF assms(1)] parsed_field_other split: parsed.split)
qed

lemma parse_rules_inside:
  assumes "\<And>t. PAYLOAD_LIST t \<in> fst ` set rules \<Longrightarrow> t \<in> set list_rule_types \<Longrightarrow> advances pp (payload_number t) \<and> inside input pp (payload_number t)"
  shows "same_bytes input p \<Longrightarrow> parse_rules pp (p\<lparr>pa_input := input\<rparr>) rules ctx pld = map_option (map_parsed (other_input input)) (parse_rules pp p rules ctx pld)"
  using assms
proof (induction rules arbitrary: p ctx pld)
  case (Cons rule rules)
  have r: "parse_rule pp (p\<lparr>pa_input := input\<rparr>) rule ctx pld = map_option (map_parsed (other_input input)) (parse_rule pp p rule ctx pld)"
    using Cons.prems by (intro parse_rule_inside) force+
  consider "parse_rule pp p rule ctx pld = Some Parse_Error"
    | p1 ctx1 pld1 where "parse_rule pp p rule ctx pld = Some (Parsed (p1, ctx1, pld1))" "forward p p1"
    using parse_rule_returns[of rule pp p ctx pld] Cons.prems(2) by force
  then show ?case
  proof cases
    case 2
    then have "parse_rules pp (p1\<lparr>pa_input := input\<rparr>) rules ctx1 pld1 = map_option (map_parsed (other_input input)) (parse_rules pp p1 rules ctx1 pld1)"
      using Cons.prems same_bytes_forward by (intro Cons.IH) auto
    then show ?thesis using r 2(1) by simp
  qed (use r in simp)
qed simp

lemma parse_payload_inside:
  "nests d (get_encoding_rules (start_payload (major_version p) n)) \<Longrightarrow> same_bytes input p \<Longrightarrow>
   parse_payload d n (p\<lparr>pa_input := input\<rparr>) = map_option (map_parsed (other_input input)) (parse_payload d n p)"
proof (induction d arbitrary: n p)
  case (Suc d)
  have "advances (parse_payload d) (payload_number t) \<and> inside input (parse_payload d) (payload_number t)"
    if t: "PAYLOAD_LIST t \<in> fst ` set (get_encoding_rules (start_payload (major_version p) n))" "t \<in> set list_rule_types" for t
  proof
    have n: "nests d (get_encoding_rules (start_payload v (payload_number t)))" for v
      using substructure_nests[OF Suc.prems(1) t(1)] known_substructure[OF t(2)] by simp
    then show "advances (parse_payload d) (payload_number t)" by (intro returns_advances t(2) parse_payload_returns)
    show "inside input (parse_payload d) (payload_number t)" using Suc.IH n unfolding inside_def by blast
  qed
  from parse_rules_inside[OF this Suc.prems(2)] show ?case by (simp add: Let_def)
qed simp

text \<open>
  C21. The parser reads no byte past the end it was given: whatever follows in memory, the result is the same.
\<close>

theorem parse_payload_inside_input:
  assumes "take (input_roof p) input = take (input_roof p) (pa_input p)"
  shows "parse_payload 4 n (p\<lparr>pa_input := input\<rparr>) =
    map_option (map_parsed (\<lambda>(p', pld). (p'\<lparr>pa_input := input\<rparr>, pld))) (parse_payload 4 n p)"
proof -
  have "nests 4 (get_encoding_rules (start_payload (major_version p) n))"
    using tables_nest rules_in_tables unfolding list_all_iff by blast
  then show ?thesis using parse_payload_inside[of 4 p n input] assms by (simp add: same_bytes_def)
qed

theorem parse_payload_inside_input_witness:
  "parse_payload 4 40 (parser_create [0, 0, 0, 5, 7] \<lparr>pa_input := [0, 0, 0, 5, 7, 99]\<rparr>) =
    map_option (map_parsed (\<lambda>(p', pld). (p'\<lparr>pa_input := [0, 0, 0, 5, 7, 99]\<rparr>, pld))) (parse_payload 4 40 (parser_create [0, 0, 0, 5, 7]))"
  using parse_payload_inside_input[of "parser_create [0, 0, 0, 5, 7]" "[0, 0, 0, 5, 7, 99]" 40] by (simp add: parser_create_def)

end
