(* ===== verification/Payload_Verify.thy ===== *)
theory Payload_Verify
  imports Payload_Codec
begin

text \<open>
  The methods of payloads that the message code calls on a parsed payload: its type, the type of the next one, and the check of
  its contents (\<^verbatim>\<open>verify\<close> in \<^verbatim>\<open>src/src/libcharon/encoding/payloads\<close>). Two checks change the payload they accept: the URL
  of a certificate gets its final zero, and the next payload of a later fragment is cleared.
\<close>

section \<open>Types\<close>

definition payload_get_type :: "payload_obj \<Rightarrow> nat" where
  "payload_get_type obj = (if obj_class obj = C_UNKNOWN then payload_number PL_UNKNOWN else obj_type obj)"

definition payload_get_next_type :: "payload_obj \<Rightarrow> nat" where
  "payload_get_next_type obj =
     (if obj_class obj \<in> {C_CONFIGURATION_ATTRIBUTE, C_TS_SUBSTRUCTURE, C_TRANSFORM_ATTRIBUTE} then payload_number PL_NONE
      else unat (get_u8 obj ''next_payload''))"

definition payload_set_next_type :: "payload_obj \<Rightarrow> nat \<Rightarrow> payload_obj" where
  "payload_set_next_type obj type =
     (if obj_class obj \<in> {C_CONFIGURATION_ATTRIBUTE, C_TS_SUBSTRUCTURE, C_TRANSFORM_ATTRIBUTE, C_TRANSFORM, C_PROPOSAL} then obj
      else if obj_class obj = C_ENCRYPTED_FRAGMENT
      then if get_u16 obj ''fragment_number'' = 1 \<and> unat (get_u8 obj ''next_payload'') = payload_number PL_NONE
           then set_field obj ''next_payload'' (FU8 (of_nat type)) else obj
      else set_field obj ''next_payload'' (FU8 (of_nat type)))"

section \<open>Checks\<close>

text \<open>The loop over substructures stops at the first that is not accepted.\<close>

fun verify_each :: "('a \<Rightarrow> status_t) \<Rightarrow> 'a list \<Rightarrow> status_t" where
  "verify_each verify [] = SUCCESS"
| "verify_each verify (x # xs) = (let status = verify x in if status \<noteq> SUCCESS then status else verify_each verify xs)"

text \<open>The exchange types of IKEv1 and IKEv2, by their numbers (\<^verbatim>\<open>ike_header.h\<close>); the mediation extension is not built.\<close>

definition is_v1_exchange :: "u8 \<Rightarrow> bool" where
  "is_v1_exchange t \<longleftrightarrow> t \<in> {2, 3, 4, 5, 6, 32, 33}"

definition is_v2_exchange :: "u8 \<Rightarrow> bool" where
  "is_v2_exchange t \<longleftrightarrow> t \<in> {34, 35, 36, 37, 38, 43, 44}"

definition ike_header_verify :: "payload_obj \<Rightarrow> status_t" where
  "ike_header_verify obj =
     (let type = get_u8 obj ''exchange_type''; maj_version = get_u8 obj ''maj_version''
      in if type \<in> {2, 4} \<and> get_u32 obj ''message_id'' \<noteq> 0 then FAILED
         else if is_v1_exchange type \<and> maj_version = 2 then FAILED
         else if is_v2_exchange type \<and> maj_version = 1 then FAILED
         else if \<not> is_v1_exchange type \<and> \<not> is_v2_exchange type \<and> (maj_version = 1 \<or> maj_version = 2) then FAILED
         else if get_spi_bytes obj ''initiator_spi'' = replicate 8 0 then FAILED
         else SUCCESS)"

definition transform_attribute_verify :: "payload_obj \<Rightarrow> status_t" where
  "transform_attribute_verify obj = SUCCESS"

definition transform_substructure_verify :: "payload_obj \<Rightarrow> status_t" where
  "transform_substructure_verify obj =
     (if get_u8 obj ''next_payload'' \<noteq> 0 \<and> get_u8 obj ''next_payload'' \<noteq> 3 then FAILED
      else verify_each transform_attribute_verify (get_list_field obj ''attributes''))"

definition proposal_spi_ok :: "nat \<Rightarrow> u8 \<Rightarrow> nat \<Rightarrow> bool" where
  "proposal_spi_ok type proto len =
     (if proto = 4 then len = 2 \<or> len = 4
      else if proto \<in> {2, 3} then len = 4
      else if proto = 1
      then if type = payload_number PLV1_PROPOSAL_SUBSTRUCTURE then len \<le> 16 else len = 0 \<or> len = 8
      else True)"

definition proposal_substructure_verify :: "payload_obj \<Rightarrow> status_t" where
  "proposal_substructure_verify obj =
     (if get_u8 obj ''next_payload'' \<noteq> 0 \<and> get_u8 obj ''next_payload'' \<noteq> 2 then FAILED
      else if unat (get_u8 obj ''transforms_count'') \<noteq> length (get_list_field obj ''transforms'') then FAILED
      else if \<not> proposal_spi_ok (obj_type obj) (get_u8 obj ''protocol_id'') (length (get_chunk_field obj ''spi'')) then FAILED
      else verify_each transform_substructure_verify (get_list_field obj ''transforms''))"

fun verify_proposals :: "nat \<Rightarrow> payload_obj list \<Rightarrow> status_t" where
  "verify_proposals expected_number [] = SUCCESS"
| "verify_proposals expected_number (substruct # rest) =
     (let current_number = unat (get_u8 substruct ''proposal_number'')
      in if current_number < expected_number then FAILED
         else let status = proposal_substructure_verify substruct
              in if status \<noteq> SUCCESS then status else verify_proposals current_number rest)"

definition sa_payload_verify :: "payload_obj \<Rightarrow> status_t" where
  "sa_payload_verify obj =
     verify_proposals (if obj_type obj = payload_number PLV2_SECURITY_ASSOCIATION then 1 else 0) (get_list_field obj ''proposals'')"

definition nonce_payload_verify :: "payload_obj \<Rightarrow> status_t" where
  "nonce_payload_verify obj =
     (let len = length (get_chunk_field obj ''nonce'')
      in if len > 256 \<or> (obj_type obj = payload_number PLV2_NONCE \<and> len < 16) \<or> (obj_type obj = payload_number PLV1_NONCE \<and> len < 8)
         then FAILED else SUCCESS)"

definition id_payload_verify :: "payload_obj \<Rightarrow> status_t" where
  "id_payload_verify obj =
     (let idt = get_u8 obj ''id_type''; len = length (get_chunk_field obj ''id_data'')
      in if obj_type obj \<in> {payload_number PLV1_NAT_OA, payload_number PLV1_NAT_OA_DRAFT_00_03} \<and> idt \<noteq> 1 \<and> idt \<noteq> 5 then FAILED
         else if (idt \<in> {7, 4} \<and> len \<noteq> 8) \<or> (idt \<in> {8, 6} \<and> len \<noteq> 32) then FAILED
         else SUCCESS)"

text \<open>Hash-and-URL certificates: 20 bytes of hash and a printable URL.\<close>

definition isprint :: "u8 \<Rightarrow> bool" where
  "isprint c \<longleftrightarrow> 32 \<le> c \<and> c \<le> 126"

fun check_url :: "bytes \<Rightarrow> bool option" where
  "check_url [] = None"
| "check_url (c # url) = (if c = 0 then Some True else if \<not> isprint c then Some False else check_url url)"

definition cert_payload_verify :: "payload_obj \<Rightarrow> status_t \<times> payload_obj" where
  "cert_payload_verify obj =
     (let data = get_chunk_field obj ''data''
      in if get_u8 obj ''encoding'' \<in> {12, 13}
         then if length data \<le> 20 then (SUCCESS, set_field obj ''invalid_hash_and_url'' (FBool True))
              else case check_url (drop 20 data) of
                     Some True \<Rightarrow> (SUCCESS, obj)
                   | Some False \<Rightarrow> (SUCCESS, set_field obj ''invalid_hash_and_url'' (FBool True))
                   | None \<Rightarrow> (SUCCESS, set_field obj ''data'' (FChunk (data @ [0])))
         else (SUCCESS, obj))"

definition certreq_payload_verify :: "payload_obj \<Rightarrow> status_t" where
  "certreq_payload_verify obj =
     (if obj_type obj = payload_number PLV2_CERTREQ \<and> get_u8 obj ''encoding'' = 4 \<and> length (get_chunk_field obj ''data'') mod 20 \<noteq> 0
      then FAILED else SUCCESS)"

definition parse_ts_data :: "payload_obj \<Rightarrow> (u16 \<times> u16 \<times> bytes \<times> bytes) option" where
  "parse_ts_data obj =
     (let ts_type = get_u8 obj ''ts_type''
      in if ts_type \<noteq> 7 \<and> ts_type \<noteq> 8 then None
         else let addr_len = (if ts_type = 7 then 4 else 16)
              in case read_uint16_internal (get_chunk_field obj ''ts_data'') False of
                   None \<Rightarrow> None
                 | Some (start_port, buf) \<Rightarrow>
                     case read_uint16_internal buf False of
                       None \<Rightarrow> None
                     | Some (end_port, buf) \<Rightarrow>
                         case read_data_internal buf addr_len False of
                           None \<Rightarrow> None
                         | Some (start_addr, buf) \<Rightarrow>
                             case read_data_internal buf addr_len False of
                               None \<Rightarrow> None
                             | Some (end_addr, buf) \<Rightarrow> if length buf > 0 then None else Some (start_port, end_port, start_addr, end_addr))"

definition traffic_selector_substructure_verify :: "payload_obj \<Rightarrow> status_t" where
  "traffic_selector_substructure_verify obj =
     (let ts_type = get_u8 obj ''ts_type''
      in if ts_type \<in> {7, 8}
         then case parse_ts_data obj of
                None \<Rightarrow> FAILED
              | Some (start_port, end_port, _) \<Rightarrow>
                  if start_port > end_port \<and> start_port \<noteq> 0xFFFF \<and> end_port \<noteq> 0 then FAILED else SUCCESS
         else if ts_type = 10 \<and> get_chunk_field obj ''ts_data'' = [] then FAILED
         else SUCCESS)"

definition ts_payload_verify :: "payload_obj \<Rightarrow> status_t" where
  "ts_payload_verify obj =
     (if unat (get_u8 obj ''ts_num'') \<noteq> length (get_list_field obj ''substrs'') then FAILED
      else verify_each traffic_selector_substructure_verify (get_list_field obj ''substrs''))"

definition notify_length_ok :: "nat \<Rightarrow> u16 \<Rightarrow> nat \<Rightarrow> bool" where
  "notify_length_ok type ntype len =
     (if ntype = 17 then \<not> (type = payload_number PLV2_NOTIFY \<and> len \<noteq> 2)
      else if ntype \<in> {16388, 16389, 40967} then len = 20
      else if ntype \<in> {7, 5, 14} then \<not> (type = payload_number PLV2_NOTIFY \<and> len \<noteq> 0)
      else if ntype = 16390 then 1 \<le> len \<and> len \<le> 64
      else if ntype = 16397 then len = 4
      else if ntype = 16398 then len = 16
      else if ntype = 16431 then len mod 2 = 0
      else if ntype = 16403 then len = 4
      else if ntype = 16387 then len = 3
      else if ntype = 40963 then len \<in> {8, 12, 24}
      else if ntype = 40965 then 4 \<le> len \<and> len \<le> 16
      else if ntype = 40966 then 16 \<le> len \<and> len \<le> 32
      else if ntype \<in> {36136, 36137} then len = 4
      else True)"

definition notify_payload_verify :: "payload_obj \<Rightarrow> status_t" where
  "notify_payload_verify obj =
     (if get_u8 obj ''protocol_id'' \<notin> {0, 1, 2, 3} then FAILED
      else if \<not> notify_length_ok (obj_type obj) (get_u16 obj ''notify_type'') (length (get_chunk_field obj ''notify_data'')) then FAILED
      else SUCCESS)"

definition delete_payload_verify :: "payload_obj \<Rightarrow> status_t" where
  "delete_payload_verify obj =
     (let proto = get_u8 obj ''protocol_id''; size = get_u8 obj ''spi_size''
      in if proto \<in> {2, 3} \<and> size \<noteq> 4 then FAILED
         else if proto \<in> {1, 0} \<and> size \<noteq> (if obj_type obj = payload_number PLV2_DELETE then 0 else 16) then FAILED
         else if proto \<notin> {0, 1, 2, 3} then FAILED
         else if length (get_chunk_field obj ''spis'') \<noteq> unat (get_u16 obj ''spi_count'') * unat size then FAILED
         else SUCCESS)"

definition configuration_attribute_verify :: "payload_obj \<Rightarrow> status_t" where
  "configuration_attribute_verify obj =
     (let attr_type = get_u16 obj ''attr_type''; len = get_u16 obj ''length_or_value'';
          failed = (if attr_type \<in> {1, 2, 3, 4, 5, 6, 20} then len \<noteq> 0 \<and> len \<noteq> 4
                    else if attr_type = 13 then len \<noteq> 0 \<and> len \<noteq> 8
                    else if attr_type = 8 \<and> obj_type obj = payload_number PLV1_CONFIGURATION_ATTRIBUTE \<and> len = 16 then False
                    else if attr_type \<in> {8, 15} then len \<noteq> 0 \<and> len \<noteq> 17
                    else if attr_type \<in> {10, 11, 12, 21} then len \<noteq> 0 \<and> len \<noteq> 16
                    else if attr_type = 14 then len mod 2 \<noteq> 0
                    else False)
      in if failed then FAILED else SUCCESS)"

definition cp_payload_verify :: "payload_obj \<Rightarrow> status_t" where
  "cp_payload_verify obj = verify_each configuration_attribute_verify (get_list_field obj ''attributes'')"

definition eap_payload_verify :: "payload_obj \<Rightarrow> status_t" where
  "eap_payload_verify obj =
     (let data = get_chunk_field obj ''data''
      in if length data < 4 then FAILED
         else let len = be_decode (take 2 (drop 2 data))
              in if length data \<noteq> len then FAILED
                 else if data ! 0 \<in> {1, 2} then if length data < 4 then FAILED else SUCCESS
                 else if data ! 0 \<in> {3, 4} then if length data \<noteq> 4 then FAILED else SUCCESS
                 else FAILED)"

definition fragment_v1_verify :: "payload_obj \<Rightarrow> status_t" where
  "fragment_v1_verify obj = (if get_u8 obj ''fragment_number'' = 0 then FAILED else SUCCESS)"

definition encrypted_fragment_verify :: "payload_obj \<Rightarrow> status_t \<times> payload_obj" where
  "encrypted_fragment_verify obj =
     (let number = get_u16 obj ''fragment_number''; total = get_u16 obj ''total_fragments''
      in if number = 0 \<or> total = 0 \<or> number > total then (FAILED, obj)
         else if number > 1 \<and> get_u8 obj ''next_payload'' \<noteq> 0 then (SUCCESS, set_field obj ''next_payload'' (FU8 0))
         else (SUCCESS, obj))"

definition payload_verify :: "payload_obj \<Rightarrow> status_t \<times> payload_obj" where
  "payload_verify obj =
     (case obj_class obj of
        C_IKE_HEADER \<Rightarrow> (ike_header_verify obj, obj)
      | C_SA \<Rightarrow> (sa_payload_verify obj, obj)
      | C_PROPOSAL \<Rightarrow> (proposal_substructure_verify obj, obj)
      | C_TRANSFORM \<Rightarrow> (transform_substructure_verify obj, obj)
      | C_TRANSFORM_ATTRIBUTE \<Rightarrow> (transform_attribute_verify obj, obj)
      | C_NONCE \<Rightarrow> (nonce_payload_verify obj, obj)
      | C_ID \<Rightarrow> (id_payload_verify obj, obj)
      | C_CERT \<Rightarrow> cert_payload_verify obj
      | C_CERTREQ \<Rightarrow> (certreq_payload_verify obj, obj)
      | C_TS_SUBSTRUCTURE \<Rightarrow> (traffic_selector_substructure_verify obj, obj)
      | C_TS \<Rightarrow> (ts_payload_verify obj, obj)
      | C_NOTIFY \<Rightarrow> (notify_payload_verify obj, obj)
      | C_DELETE \<Rightarrow> (delete_payload_verify obj, obj)
      | C_CP \<Rightarrow> (cp_payload_verify obj, obj)
      | C_CONFIGURATION_ATTRIBUTE \<Rightarrow> (configuration_attribute_verify obj, obj)
      | C_EAP \<Rightarrow> (eap_payload_verify obj, obj)
      | C_FRAGMENT_V1 \<Rightarrow> (fragment_v1_verify obj, obj)
      | C_ENCRYPTED_FRAGMENT \<Rightarrow> encrypted_fragment_verify obj
      | _ \<Rightarrow> (SUCCESS, obj))"

end
