(* ===== verification/Message_Wire.thy ===== *)
theory Message_Wire
  imports Payload_Verify
begin

text \<open>
  IKE messages on the wire (\<^verbatim>\<open>src/src/libcharon/encoding/message.c\<close>): the header that a message gets, the chain of its payloads
  through the types of the next payloads, the length that is filled in at the end, and the way back. A message of this
  theory has the payload objects of the codec with all their fields; exchange types and payload types are the numbers
  of the header. SPIs are 8 bytes of memory.
\<close>

section \<open>Messages\<close>

record wire_sa_id =
  id_version :: u8
  id_initiator_spi :: bytes
  id_responder_spi :: bytes
  id_initiator :: bool

record wire_message =
  wm_major_version :: u8
  wm_minor_version :: u8
  wm_first_payload :: nat
  wm_exchange_type :: u8
  wm_is_request :: bool
  wm_is_encrypted :: bool
  wm_version_flag :: bool
  wm_reserved :: "bool list"
  wm_message_id :: u32
  wm_ike_sa_id :: "wire_sa_id option"
  wm_payloads :: "payload_obj list"
  wm_parser :: "parser_t option"

definition wire_message_create_from_packet :: "bytes \<Rightarrow> wire_message" where
  "wire_message_create_from_packet data =
     \<lparr>wm_major_version = 0, wm_minor_version = 0, wm_first_payload = payload_number PL_NONE, wm_exchange_type = 255, wm_is_request = True,
      wm_is_encrypted = False, wm_version_flag = False, wm_reserved = [False, False], wm_message_id = 0, wm_ike_sa_id = None,
      wm_payloads = [], wm_parser = Some (parser_create data)\<rparr>"

section \<open>Generating\<close>

text \<open>The n-th field of a type.\<close>

definition payload_get_field :: "payload_obj \<Rightarrow> encoding_type_t \<Rightarrow> nat \<Rightarrow> string option" where
  "payload_get_field obj type n =
     (let fields = filter (\<lambda>rule. fst rule = type) (get_encoding_rules obj)
      in if n < length fields then Some (snd (fields ! n)) else None)"

definition ike_header_create_version :: "u8 \<Rightarrow> u8 \<Rightarrow> payload_obj" where
  "ike_header_create_version major minor =
     (let this = ike_header_create (payload_number PL_HEADER);
          this = set_field this ''maj_version'' (FU8 major);
          this = set_field this ''min_version'' (FU8 minor)
      in if major = 2 then set_field this ''flags.initiator'' (FBool True) else this)"

fun set_reserved :: "nat \<Rightarrow> bool list \<Rightarrow> payload_obj \<Rightarrow> payload_obj" where
  "set_reserved i [] header = header"
| "set_reserved i (b # bs) header =
     set_reserved (Suc i) bs
       (case payload_get_field header RESERVED_BIT i of None \<Rightarrow> header | Some off \<Rightarrow> set_field header off (FBool b))"

definition create_header :: "wire_message \<Rightarrow> wire_sa_id \<Rightarrow> payload_obj" where
  "create_header this sa_id =
     (let header = ike_header_create_version (wm_major_version this) (wm_minor_version this);
          header = set_field header ''exchange_type'' (FU8 (wm_exchange_type this));
          header = set_field header ''message_id'' (FU32 (wm_message_id this));
          header = (if wm_major_version this = 2
                    then set_field (set_field (set_field header ''flags.response'' (FBool (\<not> wm_is_request this)))
                           ''flags.version'' (FBool (wm_version_flag this))) ''flags.initiator'' (FBool (id_initiator sa_id))
                    else set_field header ''flags.encryption'' (FBool (wm_is_encrypted this)));
          header = set_field header ''initiator_spi'' (FSpi (id_initiator_spi sa_id));
          header = set_field header ''responder_spi'' (FSpi (id_responder_spi sa_id))
      in set_reserved 0 (wm_reserved this) header)"

text \<open>All payloads with the proper next type; \<open>next_type\<close> is what follows the last one.\<close>

fun generate_chain :: "(nat \<Rightarrow> u8) \<Rightarrow> generator_t \<Rightarrow> payload_obj \<Rightarrow> payload_obj list \<Rightarrow> nat \<Rightarrow> generator_t \<times> payload_obj list" where
  "generate_chain mem generator payload [] next_type =
     (let payload = payload_set_next_type payload next_type in (generate_payload mem generator payload, [payload]))"
| "generate_chain mem generator payload (next # rest) next_type =
     (let payload = payload_set_next_type payload (payload_get_type next);
          (generator, payloads) = generate_chain mem (generate_payload mem generator payload) next rest next_type
      in (generator, payload # payloads))"

definition htoun32 :: "bytes \<Rightarrow> nat \<Rightarrow> u32 \<Rightarrow> bytes" where
  "htoun32 buf pos host = take pos buf @ be_encode 4 (unat host) @ drop (pos + 4) buf"

text \<open>A message that is not encrypted: the generated chain, with its length in the header.\<close>

definition generate_plain :: "(nat \<Rightarrow> u8) \<Rightarrow> wire_message \<Rightarrow> wire_sa_id \<Rightarrow> bytes \<times> payload_obj list" where
  "generate_plain mem this sa_id =
     (let (generator, payloads) = generate_chain mem (generator_create mem) (create_header this sa_id) (wm_payloads this) (payload_number PL_NONE);
          chunk = gen_get_chunk generator
      in (htoun32 chunk (unat (header_length_offset generator)) (of_nat (length chunk)), tl payloads))"

section \<open>Parsing\<close>

fun get_reserved :: "payload_obj \<Rightarrow> nat \<Rightarrow> bool list \<Rightarrow> bool list" where
  "get_reserved header i [] = []"
| "get_reserved header i (b # bs) =
     (case payload_get_field header RESERVED_BIT i of None \<Rightarrow> b | Some off \<Rightarrow> get_bool header off) # get_reserved header (Suc i) bs"

text \<open>
  The position of the parser after an error is not used: the message is dropped, or its header is parsed again from the start.
  \<open>None\<close> stands for a parser that does not return.
\<close>

definition accept_header :: "wire_message \<Rightarrow> parser_t \<Rightarrow> payload_obj \<Rightarrow> wire_message" where
  "accept_header this parser header =
     (let this = this\<lparr>wm_ike_sa_id := Some \<lparr>id_version = get_u8 header ''maj_version'',
                                            id_initiator_spi = get_spi_bytes header ''initiator_spi'',
                                            id_responder_spi = get_spi_bytes header ''responder_spi'',
                                            id_initiator = get_bool header ''flags.initiator''\<rparr>,
                      wm_exchange_type := get_u8 header ''exchange_type'',
                      wm_message_id := get_u32 header ''message_id'',
                      wm_major_version := get_u8 header ''maj_version'',
                      wm_minor_version := get_u8 header ''min_version''\<rparr>;
          this = (if wm_major_version this = 2 then this\<lparr>wm_is_request := \<not> get_bool header ''flags.response''\<rparr>
                  else this\<lparr>wm_is_encrypted := get_bool header ''flags.encryption''\<rparr>);
          this = this\<lparr>wm_first_payload := payload_get_next_type header\<rparr>;
          this = (if wm_first_payload this = payload_number PLV1_FRAGMENT \<and> wm_is_encrypted this then this\<lparr>wm_is_encrypted := False\<rparr> else this)
      in this\<lparr>wm_reserved := get_reserved header 0 (wm_reserved this),
              wm_parser := Some (set_major_version parser (wm_major_version this))\<rparr>)"

definition parse_header :: "wire_message \<Rightarrow> (status_t \<times> wire_message) option" where
  "parse_header this =
     (case wm_parser this of
        None \<Rightarrow> Some (SUCCESS, this)
      | Some parser \<Rightarrow>
          let parser = reset_context parser
          in Option.bind (parse_payload 4 (payload_number PL_HEADER) parser) (\<lambda>r.
               case r of
                 Parse_Error \<Rightarrow> Some (PARSE_ERROR, this\<lparr>wm_parser := Some parser\<rparr>)
               | Parsed (parser, header) \<Rightarrow>
                   let (status, header) = payload_verify header
                   in if status \<noteq> SUCCESS then Some (status, this\<lparr>wm_parser := Some parser\<rparr>)
                      else Some (SUCCESS, accept_header this parser header)))"

partial_function (option) parse_payloads_loop ::
  "parser_t \<Rightarrow> payload_obj list \<Rightarrow> nat \<Rightarrow> (status_t \<times> parser_t \<times> payload_obj list) option" where
  "parse_payloads_loop parser payloads type =
     (if type = payload_number PL_NONE then Some (SUCCESS, parser, payloads)
      else Option.bind (parse_payload 4 type parser) (\<lambda>r.
             case r of
               Parse_Error \<Rightarrow> Some (PARSE_ERROR, parser, payloads)
             | Parsed (parser, payload) \<Rightarrow>
                 if fst (payload_verify payload) \<noteq> SUCCESS then Some (VERIFY_ERROR, parser, payloads)
                 else if type = payload_number PLV2_ENCRYPTED \<or> type = payload_number PLV2_FRAGMENT
                 then Some (SUCCESS, parser, payloads @ [snd (payload_verify payload)])
                 else parse_payloads_loop parser (payloads @ [snd (payload_verify payload)])
                        (payload_get_next_type (snd (payload_verify payload)))))"

definition parse_payloads :: "wire_message \<Rightarrow> parser_t \<Rightarrow> (status_t \<times> wire_message) option" where
  "parse_payloads this parser =
     (if wm_is_encrypted this
      then Option.bind (parse_payload 4 (payload_number PLV1_ENCRYPTED) parser) (\<lambda>r. Some (
             case r of
               Parse_Error \<Rightarrow> (PARSE_ERROR, this)
             | Parsed (parser, encryption) \<Rightarrow>
                 (SUCCESS, this\<lparr>wm_parser := Some parser,
                                wm_payloads := wm_payloads this @ [payload_set_next_type encryption (wm_first_payload this)]\<rparr>)))
      else Option.bind (parse_payloads_loop parser (wm_payloads this) (wm_first_payload this))
             (\<lambda>(status, parser, payloads). Some (status, this\<lparr>wm_parser := Some parser, wm_payloads := payloads\<rparr>)))"

end
