(* ===== verification/Message_Wire_Proofs.thy ===== *)
theory Message_Wire_Proofs
  imports Payload_Codec_Proofs Message_Wire
begin

text \<open>
  Messages on the wire: parsing a received message returns, and an unencrypted IKEv2 message is parsed back from the bytes that
  are generated for it.
\<close>

section \<open>The loop over the payloads returns\<close>

lemma small_types_have_bytes:
  "list_all (\<lambda>r. r = encrypted_payload_encodings_v1 \<or> list_ex (\<lambda>x. byte_rule (fst x)) r) all_tables"
  unfolding byte_rule_def by code_simp

lemmas encodings_defs = encrypted_payload_encodings_v1_def encrypted_payload_encodings_v2_def
  ike_header_encodings_def sa_payload_encodings_v1_def sa_payload_encodings_v2_def proposal_substructure_encodings_v1_def
  proposal_substructure_encodings_v2_def transform_substructure_encodings_v2_def transform_substructure_encodings_v1_def
  transform_attribute_encodings_def nonce_payload_encodings_def id_payload_encodings_v2_def id_payload_encodings_v1_def
  auth_payload_encodings_def cert_payload_encodings_def certreq_payload_encodings_def traffic_selector_substructure_encodings_def
  ts_payload_encodings_def ke_payload_encodings_v2_def ke_payload_encodings_v1_def notify_payload_encodings_v2_def
  notify_payload_encodings_v1_def delete_payload_encodings_v2_def delete_payload_encodings_v1_def vendor_id_payload_encodings_def
  hash_payload_encodings_def cp_payload_encodings_v2_def cp_payload_encodings_v1_def configuration_attribute_encodings_v2_def
  configuration_attribute_encodings_v1_def eap_payload_encodings_def fragment_payload_encodings_def
  encrypted_fragment_payload_encodings_def unknown_payload_encodings_def

lemma encrypted_v1_rules:
  "get_encoding_rules obj = encrypted_payload_encodings_v1 \<Longrightarrow> obj_class obj = C_ENCRYPTED \<and> obj_type obj \<noteq> payload_number PLV2_ENCRYPTED"
  by (cases "obj_class obj") (auto simp: get_encoding_rules_def Let_def table_defs encodings_defs split: if_splits)

lemma header_length_class: "HEADER_LENGTH \<in> fst ` set (get_encoding_rules obj) \<Longrightarrow> obj_class obj = C_IKE_HEADER"
  by (cases "obj_class obj") (auto simp: get_encoding_rules_def Let_def table_defs encodings_defs split: if_splits)

lemmas create_defs = ike_header_create_def sa_payload_create_def proposal_substructure_create_def transform_substructure_create_def
  transform_attribute_create_def nonce_payload_create_def id_payload_create_def auth_payload_create_def cert_payload_create_def certreq_payload_create_def
  traffic_selector_substructure_create_def ts_payload_create_def ke_payload_create_def notify_payload_create_def delete_payload_create_def
  vendor_id_payload_create_def hash_payload_create_def cp_payload_create_def configuration_attribute_create_def eap_payload_create_def
  encrypted_payload_create_def fragment_payload_create_def encrypted_fragment_payload_create_def unknown_payload_create_def

lemma create_encrypted:
  "payload_type_of n = Some t \<Longrightarrow> obj_class (payload_create n) = C_ENCRYPTED \<Longrightarrow> t = PLV2_ENCRYPTED \<or> t = PLV1_ENCRYPTED"
  by (cases t) (simp_all add: payload_create_def create_defs)

lemma payload_type_of_number: "payload_type_of n = Some t \<Longrightarrow> payload_number t = n"
  by (auto simp: payload_type_of_def find_Some_iff)

lemma encrypted_v1_type:
  assumes "get_encoding_rules (start_payload v n) = encrypted_payload_encodings_v1"
  shows "256 \<le> n"
proof -
  have c: "obj_class (start_payload v n) = C_ENCRYPTED" "n \<noteq> payload_number PLV2_ENCRYPTED"
    using encrypted_v1_rules[OF assms] by (simp_all add: create_type)
  then have "obj_class (payload_create n) = C_ENCRYPTED" by (simp add: start_payload_def unknown_payload_create_def split: if_splits)
  moreover then obtain t where t: "payload_type_of n = Some t"
    by (cases "payload_type_of n") (auto simp: payload_create_def unknown_payload_create_def)
  ultimately have "t = PLV1_ENCRYPTED" using create_encrypted[OF t] payload_type_of_number[OF t] c(2) by auto
  then show ?thesis using payload_type_of_number[OF t] by simp
qed

lemma next_type_small: "payload_get_next_type obj < 256"
  using unat_u8_less by (simp add: payload_get_next_type_def)

lemma parse_payloads_loop_returns:
  assumes "type < 256" "byte_pos p \<le> input_roof p"
  shows "\<exists>r. parse_payloads_loop p ps type = Some r"
  using assms
proof (induction "input_roof p - byte_pos p" arbitrary: p ps type rule: less_induct)
  case less
  have nests: "nests 4 (get_encoding_rules (start_payload (major_version p) type))"
    using tables_nest rules_in_tables unfolding list_all_iff by blast
  have "get_encoding_rules (start_payload (major_version p) type) \<noteq> encrypted_payload_encodings_v1"
    using encrypted_v1_type less.prems(1) by force
  then have bytes: "list_ex (\<lambda>x. byte_rule (fst x)) (get_encoding_rules (start_payload (major_version p) type))"
    using small_types_have_bytes rules_in_tables[of "start_payload (major_version p) type"] unfolding list_all_iff by blast
  consider "parse_payload 4 type p = Some Parse_Error"
    | p' x where "parse_payload 4 type p = Some (Parsed (p', x))" "forward p p'" "byte_pos p < byte_pos p'"
    using parse_payload_returns[OF nests] bytes unfolding returns_def by blast
  then show ?case
  proof cases
    case 1
    then show ?thesis by (subst parse_payloads_loop.simps) simp
  next
    case 2
    have p': "byte_pos p' \<le> input_roof p'" "input_roof p' - byte_pos p' < input_roof p - byte_pos p"
      using 2(2,3) less.prems(2) by (auto simp: forward_def same_input_def)
    show ?thesis using 2(1) less.hyps[OF p'(2) next_type_small p'(1)] by (subst parse_payloads_loop.simps) simp
  qed
qed

text \<open>
  C18. The payloads of a received message are parsed in finitely many steps, whatever the message contains: after every
  accepted header the loop over the chain of payloads returns with a status.
\<close>

theorem parse_message_returns:
  "\<exists>status m. parse_header (wire_message_create_from_packet data) = Some (status, m) \<and>
     (\<exists>p. wm_parser m = Some p \<and> (\<exists>r. parse_payloads m p = Some r))"
proof -
  let ?p = "reset_context (parser_create data)"
  have start: "byte_pos ?p \<le> input_roof ?p" by (simp add: reset_context_def)
  have any: "\<exists>r. parse_payloads m p = Some r" if p: "byte_pos p \<le> input_roof p" and m: "wm_first_payload m < 256" for m p
  proof -
    obtain r where "parse_payload 4 (payload_number PLV1_ENCRYPTED) p = Some r" using parse_payload_4 by blast
    moreover obtain s where "parse_payloads_loop p (wm_payloads m) (wm_first_payload m) = Some s"
      using parse_payloads_loop_returns[OF m p] by blast
    ultimately show ?thesis by (cases s) (simp add: parse_payloads_def)
  qed
  consider "parse_payload 4 256 ?p = Some Parse_Error" | p' h where "parse_payload 4 256 ?p = Some (Parsed (p', h))" "forward ?p p'"
    using parse_payload_4 by blast
  then show ?thesis
  proof cases
    case 1
    then show ?thesis using any[OF start] by (simp add: parse_header_def wire_message_create_from_packet_def)
  next
    case 2
    have p': "byte_pos p' \<le> input_roof p'" using 2(2) start by (simp add: forward_def same_input_def)
    let ?m = "wire_message_create_from_packet data"
    show ?thesis
    proof (cases "fst (payload_verify h) = SUCCESS")
      case False
      then show ?thesis using 2(1) any[OF p'] by (simp add: parse_header_def wire_message_create_from_packet_def split_beta)
    next
      case True
      let ?a = "accept_header ?m p' (snd (payload_verify h))"
      have "wm_first_payload ?a < 256" "\<exists>q. wm_parser ?a = Some q \<and> byte_pos q \<le> input_roof q"
        using next_type_small p' by (simp_all add: accept_header_def Let_def set_major_version_def)
      then obtain q where q: "wm_parser ?a = Some q" "\<exists>r. parse_payloads ?a q = Some r" using any by blast
      have "parse_header ?m = Some (SUCCESS, ?a)"
        using 2(1) True by (simp add: parse_header_def wire_message_create_from_packet_def split_beta)
      then show ?thesis using q by blast
    qed
  qed
qed

section \<open>The header\<close>

definition header_obj :: "bytes \<Rightarrow> bytes \<Rightarrow> u8 \<Rightarrow> u8 \<Rightarrow> u8 \<Rightarrow> u8 \<Rightarrow> bool \<Rightarrow> bool \<Rightarrow> bool \<Rightarrow> bool \<Rightarrow> bool \<Rightarrow> u32 \<Rightarrow> u32 \<Rightarrow> payload_obj" where
  "header_obj ispi rspi nxt maj minr ext i ver resp r0 r1 mid len = Payload_Obj C_IKE_HEADER 256
      [(''initiator_spi'', FSpi ispi), (''responder_spi'', FSpi rspi), (''next_payload'', FU8 nxt), (''maj_version'', FU8 maj),
       (''min_version'', FU8 minr), (''exchange_type'', FU8 ext), (''flags.initiator'', FBool i), (''flags.version'', FBool ver),
       (''flags.response'', FBool resp), (''flags.encryption'', FBool False), (''flags.commit'', FBool False), (''flags.authonly'', FBool False),
       (''reserved[0]'', FBool r0), (''reserved[1]'', FBool r1), (''message_id'', FU32 mid), (''length'', FU32 len)]"

lemma header_frame:
  "obj_class (header_obj ispi rspi nxt maj minr ext i ver resp r0 r1 mid len) = C_IKE_HEADER" "obj_type (header_obj ispi rspi nxt maj minr ext i ver resp r0 r1 mid len) = 256"
  "get_encoding_rules (header_obj ispi rspi nxt maj minr ext i ver resp r0 r1 mid len) = ike_header_encodings"
  "map fst (obj_fields (header_obj ispi rspi nxt maj minr ext i ver resp r0 r1 mid len)) = map fst (obj_fields (ike_header_create 256))"
  by (simp_all add: header_obj_def get_encoding_rules_def ike_header_get_encoding_rules_def ike_header_create_def)

lemma header_fields:
  "get_field (header_obj ispi rspi nxt maj minr ext i ver resp r0 r1 mid len) ''initiator_spi'' = Some (FSpi ispi)"
  "get_field (header_obj ispi rspi nxt maj minr ext i ver resp r0 r1 mid len) ''responder_spi'' = Some (FSpi rspi)"
  "get_field (header_obj ispi rspi nxt maj minr ext i ver resp r0 r1 mid len) ''next_payload'' = Some (FU8 nxt)"
  "get_field (header_obj ispi rspi nxt maj minr ext i ver resp r0 r1 mid len) ''maj_version'' = Some (FU8 maj)"
  "get_field (header_obj ispi rspi nxt maj minr ext i ver resp r0 r1 mid len) ''min_version'' = Some (FU8 minr)"
  "get_field (header_obj ispi rspi nxt maj minr ext i ver resp r0 r1 mid len) ''exchange_type'' = Some (FU8 ext)"
  "get_field (header_obj ispi rspi nxt maj minr ext i ver resp r0 r1 mid len) ''flags.initiator'' = Some (FBool i)"
  "get_field (header_obj ispi rspi nxt maj minr ext i ver resp r0 r1 mid len) ''flags.version'' = Some (FBool ver)"
  "get_field (header_obj ispi rspi nxt maj minr ext i ver resp r0 r1 mid len) ''flags.response'' = Some (FBool resp)"
  "get_field (header_obj ispi rspi nxt maj minr ext i ver resp r0 r1 mid len) ''flags.encryption'' = Some (FBool False)"
  "get_field (header_obj ispi rspi nxt maj minr ext i ver resp r0 r1 mid len) ''flags.commit'' = Some (FBool False)"
  "get_field (header_obj ispi rspi nxt maj minr ext i ver resp r0 r1 mid len) ''flags.authonly'' = Some (FBool False)"
  "get_field (header_obj ispi rspi nxt maj minr ext i ver resp r0 r1 mid len) ''reserved[0]'' = Some (FBool r0)"
  "get_field (header_obj ispi rspi nxt maj minr ext i ver resp r0 r1 mid len) ''reserved[1]'' = Some (FBool r1)"
  "get_field (header_obj ispi rspi nxt maj minr ext i ver resp r0 r1 mid len) ''message_id'' = Some (FU32 mid)"
  "get_field (header_obj ispi rspi nxt maj minr ext i ver resp r0 r1 mid len) ''length'' = Some (FU32 len)"
  by (simp_all add: header_obj_def get_field_def)

lemma header_updates:
  "set_field (header_obj ispi rspi nxt maj minr ext i ver resp r0 r1 mid len) ''initiator_spi'' (FSpi xs) = header_obj xs rspi nxt maj minr ext i ver resp r0 r1 mid len"
  "set_field (header_obj ispi rspi nxt maj minr ext i ver resp r0 r1 mid len) ''responder_spi'' (FSpi xs) = header_obj ispi xs nxt maj minr ext i ver resp r0 r1 mid len"
  "set_field (header_obj ispi rspi nxt maj minr ext i ver resp r0 r1 mid len) ''next_payload'' (FU8 x8) = header_obj ispi rspi x8 maj minr ext i ver resp r0 r1 mid len"
  "set_field (header_obj ispi rspi nxt maj minr ext i ver resp r0 r1 mid len) ''maj_version'' (FU8 x8) = header_obj ispi rspi nxt x8 minr ext i ver resp r0 r1 mid len"
  "set_field (header_obj ispi rspi nxt maj minr ext i ver resp r0 r1 mid len) ''min_version'' (FU8 x8) = header_obj ispi rspi nxt maj x8 ext i ver resp r0 r1 mid len"
  "set_field (header_obj ispi rspi nxt maj minr ext i ver resp r0 r1 mid len) ''exchange_type'' (FU8 x8) = header_obj ispi rspi nxt maj minr x8 i ver resp r0 r1 mid len"
  "set_field (header_obj ispi rspi nxt maj minr ext i ver resp r0 r1 mid len) ''flags.initiator'' (FBool xb) = header_obj ispi rspi nxt maj minr ext xb ver resp r0 r1 mid len"
  "set_field (header_obj ispi rspi nxt maj minr ext i ver resp r0 r1 mid len) ''flags.version'' (FBool xb) = header_obj ispi rspi nxt maj minr ext i xb resp r0 r1 mid len"
  "set_field (header_obj ispi rspi nxt maj minr ext i ver resp r0 r1 mid len) ''flags.response'' (FBool xb) = header_obj ispi rspi nxt maj minr ext i ver xb r0 r1 mid len"
  "set_field (header_obj ispi rspi nxt maj minr ext i ver resp r0 r1 mid len) ''reserved[0]'' (FBool xb) = header_obj ispi rspi nxt maj minr ext i ver resp xb r1 mid len"
  "set_field (header_obj ispi rspi nxt maj minr ext i ver resp r0 r1 mid len) ''reserved[1]'' (FBool xb) = header_obj ispi rspi nxt maj minr ext i ver resp r0 xb mid len"
  "set_field (header_obj ispi rspi nxt maj minr ext i ver resp r0 r1 mid len) ''message_id'' (FU32 x32) = header_obj ispi rspi nxt maj minr ext i ver resp r0 r1 x32 len"
  "set_field (header_obj ispi rspi nxt maj minr ext i ver resp r0 r1 mid len) ''length'' (FU32 x32) = header_obj ispi rspi nxt maj minr ext i ver resp r0 r1 mid x32"
  by (simp_all add: header_obj_def set_field_def)

lemma header_start: "ike_header_create 256 = header_obj (replicate 8 0) (replicate 8 0) 0 0 0 255 False False False False False 0 28"
  by (simp add: ike_header_create_def header_obj_def)

lemma reserved_fields:
  "payload_get_field (header_obj ispi rspi nxt maj minr ext i ver resp r0 r1 mid len) RESERVED_BIT 0 = Some ''reserved[0]''"
  "payload_get_field (header_obj ispi rspi nxt maj minr ext i ver resp r0 r1 mid len) RESERVED_BIT (Suc 0) = Some ''reserved[1]''"
  by (simp_all add: payload_get_field_def header_frame ike_header_encodings_def)

lemma create_header_eq:
  assumes "wm_major_version m = 2" "wm_reserved m = [r0, r1]"
  shows "create_header m sa = header_obj (id_initiator_spi sa) (id_responder_spi sa) 0 2 (wm_minor_version m) (wm_exchange_type m)
    (id_initiator sa) (wm_version_flag m) (\<not> wm_is_request m) r0 r1 (wm_message_id m) 28"
  using assms
  by (simp add: create_header_def Let_def ike_header_create_version_def header_start header_updates reserved_fields)

definition header_bits :: "bytes \<Rightarrow> bytes \<Rightarrow> u8 \<Rightarrow> u8 \<Rightarrow> u8 \<Rightarrow> u8 \<Rightarrow> bool \<Rightarrow> bool \<Rightarrow> bool \<Rightarrow> bool \<Rightarrow> bool \<Rightarrow> u32 \<Rightarrow> bool list" where
  "header_bits ispi rspi nxt maj minr ext i ver resp r0 r1 mid =
     bits_of ispi @ bits_of rspi @ bits8 nxt @ bits4 maj @ bits4 minr @ bits8 ext @
     [r0, r1, resp, ver, i, False, False, False] @ bits_of (be_encode 4 (unat mid))"

lemmas header_gets = get_u8_def get_u16_def get_u32_def get_bool_def get_spi_bytes_def header_fields

lemma header_rules_bits:
  "rules_bits sub (header_obj ispi rspi nxt maj minr ext i ver resp r0 r1 mid len) ctx (butlast ike_header_encodings) = header_bits ispi rspi nxt maj minr ext i ver resp r0 r1 mid"
  by (simp add: ike_header_encodings_def rule_bits_def ctx_step_def header_bits_def header_gets del: be_encode.simps)

lemma header_encoding:
  "payload_bits (Suc d) (header_obj ispi rspi nxt maj minr ext i ver resp r0 r1 mid len) =
   header_bits ispi rspi nxt maj minr ext i ver resp r0 r1 mid @ bits_of (be_encode 4 (unat len))"
  by (simp add: header_frame ike_header_encodings_def rule_bits_def ctx_step_def header_bits_def header_gets del: be_encode.simps)

lemma header_keys: "list_all (\<lambda>k. k \<in> snd ` set ike_header_encodings) (map fst (obj_fields (ike_header_create 256)))"
  by code_simp

lemma start_header: "start_payload v 256 = ike_header_create 256"
  by (simp add: start_payload_def payload_is_known_def payload_create_def payload_type_of_def all_payload_types_def)

lemma header_wf:
  assumes "length ispi = 8" "length rspi = 8" "maj AND 15 = maj" "minr AND 15 = minr"
  shows "payload_wf v (Suc d) (header_obj ispi rspi nxt maj minr ext i ver resp r0 r1 mid len)"
proof -
  have "rules_ok subok sub start (header_obj ispi rspi nxt maj minr ext i ver resp r0 r1 mid len) ctx ike_header_encodings" for subok sub start ctx
    using assms by (simp add: ike_header_encodings_def rule_ok_def header_fields)
  then show ?thesis using header_keys by (simp add: header_frame start_header Let_def list_all_iff ike_header_create_def)
qed

section \<open>The generated chain\<close>

fun link_types :: "nat \<Rightarrow> payload_obj list \<Rightarrow> payload_obj list" where
  "link_types n [] = []"
| "link_types n (x # xs) = payload_set_next_type x (case xs of [] \<Rightarrow> n | y # _ \<Rightarrow> payload_get_type y) # link_types n xs"

lemma generate_chain_fold:
  "generate_chain mem g x xs n = (fold (\<lambda>x g. generate_payload mem g x) (link_types n (x # xs)) g, link_types n (x # xs))"
  by (induction xs arbitrary: g x) (simp_all add: Let_def split_beta)

text \<open>Payloads with configuration attributes of IKEv2 come before payloads that may set the format of attributes.\<close>

definition sets_format :: "payload_obj \<Rightarrow> bool" where
  "sets_format x \<longleftrightarrow> list_ex (\<lambda>r. case fst r of ATTRIBUTE_FORMAT \<Rightarrow> True | PAYLOAD_LIST t \<Rightarrow> True | _ \<Rightarrow> False) (get_encoding_rules x)"

fun formats_ok :: "bool \<Rightarrow> payload_obj list \<Rightarrow> bool" where
  "formats_ok clean [] \<longleftrightarrow> True"
| "formats_ok clean (x # xs) \<longleftrightarrow> (clean \<or> \<not> reads_format (map fst (get_encoding_rules x))) \<and> formats_ok (clean \<and> \<not> sets_format x) xs"

lemma sets_no_format:
  "\<not> sets_format x \<Longrightarrow> ATTRIBUTE_FORMAT \<notin> set (map fst (get_encoding_rules x)) \<and> (\<forall>t. PAYLOAD_LIST t \<notin> set (map fst (get_encoding_rules x)))"
  by (force simp: sets_format_def list_ex_iff)

lemma fold_appends:
  "list_all (payload_wf v 4) xs \<Longrightarrow> formats_ok c xs \<Longrightarrow> (c \<Longrightarrow> \<not> gen_attribute_format g) \<Longrightarrow> gen_ok g \<Longrightarrow> current_bit g = 0 \<Longrightarrow>
   appends g (concat (map (payload_bits 4) xs)) 0 (fold (\<lambda>x g. generate_payload mem g x) xs g)"
proof (induction xs arbitrary: g c)
  case Nil
  then show ?case using appends_trivial[of g] by simp
next
  case (Cons x xs)
  let ?g = "generate_payload mem g x"
  have x: "appends g (payload_bits 4 x) 0 ?g" "\<not> sets_format x \<Longrightarrow> gen_attribute_format ?g = gen_attribute_format g"
    using generate_payload_appends[of v 4 x g mem] Cons.prems sets_no_format[of x] by auto
  have "appends ?g (concat (map (payload_bits 4) xs)) 0 (fold (\<lambda>x g. generate_payload mem g x) xs ?g)"
    using Cons.prems x by (intro Cons.IH[of "c \<and> \<not> sets_format x"]) (auto simp: appends_def)
  then show ?case using appends_trans[OF x(1)] by simp
qed

subsection \<open>The position of the length\<close>

lemma make_space_offset: "header_length_offset (make_space_available mem g n) = header_length_offset g"
proof (induction mem g n rule: make_space_available.induct)
  case (1 mem g n)
  then show ?case by (subst make_space_available.simps) auto
qed

lemma offset_kept:
  "header_length_offset (generate_u_int_type mem g obj ty off) = header_length_offset g"
  "header_length_offset (generate_flag mem g v) = header_length_offset g"
  "header_length_offset (generate_from_chunk mem g bs) = header_length_offset g"
  by (simp_all add: generate_u_int_type_def generate_flag_def generate_from_chunk_def generate_uint4_def generate_uint15_def
      write_bytes_to_buffer_def set_out_byte_def Let_def make_space_offset split: option.split)

lemma fold_offset:
  assumes "\<And>x g. x \<in> set l \<Longrightarrow> header_length_offset (generate_payload mem g x) = header_length_offset g"
  shows "header_length_offset (fold (\<lambda>x g. generate_payload mem g x) l g) = header_length_offset g"
  using assms by (induction l arbitrary: g) auto

lemma rules_offset:
  assumes "\<And>t x g. t \<in> set list_rule_types \<Longrightarrow> subok t x \<Longrightarrow> header_length_offset (generate_payload mem g x) = header_length_offset g"
  shows "rules_ok subok sub start obj ctx rules \<Longrightarrow> HEADER_LENGTH \<notin> fst ` set rules \<Longrightarrow>
    header_length_offset (generate_rules mem g obj rules) = header_length_offset g"
proof (induction rules arbitrary: g ctx)
  case (Cons rule rules)
  note IH = Cons.IH[where ctx = "ctx_step obj ctx rule"]
  show ?case
  proof (cases "\<exists>t. fst rule = PAYLOAD_LIST t")
    case True
    then obtain t where t: "fst rule = PAYLOAD_LIST t" by blast
    then have l: "t \<in> set list_rule_types" "list_all (subok t) (get_list_field obj (snd rule))"
      using Cons.prems(1) by (auto simp: rule_ok_def get_list_field_def Let_def split: option.splits payload_field.splits)
    then have "header_length_offset (fold (\<lambda>x g. generate_payload mem g x) (get_list_field obj (snd rule)) g) = header_length_offset g"
      using assms by (intro fold_offset) (auto simp: list_all_iff)
    then show ?thesis using IH Cons.prems t l(1) by (simp add: generate_rules.simps(2) Let_def)
  next
    case False
    then show ?thesis using IH Cons.prems by (cases "fst rule") (auto simp: generate_rules.simps(2) Let_def offset_kept)
  qed
qed simp

lemma substructures_no_length:
  "list_all (\<lambda>t. HEADER_LENGTH \<notin> fst ` set (get_encoding_rules (payload_create (payload_number t)))) list_rule_types"
  by code_simp

lemma payload_offset:
  "payload_wf v d obj \<Longrightarrow> HEADER_LENGTH \<notin> fst ` set (get_encoding_rules obj) \<Longrightarrow>
   header_length_offset (generate_payload mem g obj) = header_length_offset g"
proof (induction d arbitrary: g obj)
  case (Suc d)
  let ?subok = "\<lambda>t x. obj_type x = payload_number t \<and> payload_wf v d x"
  have sub: "header_length_offset (generate_payload mem g x) = header_length_offset g" if t: "t \<in> set list_rule_types" "?subok t x" for t x g
  proof -
    have "get_encoding_rules x = get_encoding_rules (payload_create (payload_number t))"
      using t payload_wf_rules[of v d x] known_substructure[of t v] by simp
    then have "HEADER_LENGTH \<notin> fst ` set (get_encoding_rules x)" using substructures_no_length t(1) unfolding list_all_iff by auto
    then show ?thesis using Suc.IH t(2) by blast
  qed
  have "rules_ok ?subok (payload_bits d) (start_payload v (obj_type obj)) obj parse_ctx0 (get_encoding_rules obj)"
    using Suc.prems(1) by (simp add: Let_def)
  then show ?case using rules_offset[of ?subok mem, OF sub] Suc.prems(2) by (simp add: generate_payload.simps)
qed simp

text \<open>Rules that are neither lists nor values of attributes, in front of others.\<close>

lemma gen_prefix:
  "gen_ok g \<Longrightarrow> aligned (current_bit g) cl (map fst pre @ ts) \<Longrightarrow> (cl \<Longrightarrow> gen_clean g) \<Longrightarrow>
   list_all (\<lambda>r. case fst r of PAYLOAD_LIST t \<Rightarrow> False | ATTRIBUTE_VALUE \<Rightarrow> False | _ \<Rightarrow> True) pre \<Longrightarrow>
   \<exists>g' cl'. (\<forall>post. generate_rules mem g obj (pre @ post) = generate_rules mem g' obj post) \<and>
     gen_bits g' = gen_bits g @ rules_bits sub obj ctx pre \<and> gen_ok g' \<and> aligned (current_bit g') cl' ts"
proof (induction pre arbitrary: g cl ctx)
  case Nil
  then show ?case by auto
next
  case (Cons rule pre)
  have nl: "fst rule \<noteq> PAYLOAD_LIST t" "fst rule \<noteq> ATTRIBUTE_VALUE" for t using Cons.prems(4) by auto
  obtain g1 where g1: "gen_done mem g obj sub ctx rule g1"
    using gen_step[of g cl rule "map fst pre @ ts" ctx mem obj sub] Cons.prems(1-3) nl by auto
  have ok: "gen_ok g1" "aligned (current_bit g1) (next_clean (fst rule)) (map fst pre @ ts)" "next_clean (fst rule) \<Longrightarrow> gen_clean g1"
    using g1 aligned_next[of "current_bit g" cl "fst rule" "map fst pre @ ts"] Cons.prems(2) nl by (auto simp: gen_done_def appends_def)
  obtain g' cl' where "\<forall>post. generate_rules mem g1 obj (pre @ post) = generate_rules mem g' obj post"
    "gen_bits g' = gen_bits g1 @ rules_bits sub obj (ctx_step obj ctx rule) pre" "gen_ok g'" "aligned (current_bit g') cl' ts"
    using Cons.IH[OF ok(1,2,3), of "ctx_step obj ctx rule"] Cons.prems(4) by auto
  then show ?case using g1 by (intro exI[of _ g'] exI[of _ cl']) (auto simp: gen_done_def appends_def)
qed

lemma header_offset:
  assumes "gen_ok g" "current_bit g = 0" "obj_class h = C_IKE_HEADER"
    and "length (rules_bits sub h parse_ctx0 (butlast ike_header_encodings)) = 8 * n"
  shows "header_length_offset (generate_payload mem g h) = of_nat (out_position g + n)"
proof -
  have r: "get_encoding_rules h = butlast ike_header_encodings @ [(HEADER_LENGTH, ''length'')]"
    using assms(3) by (simp add: get_encoding_rules_def ike_header_get_encoding_rules_def ike_header_encodings_def)
  have al: "aligned (current_bit g) True (map fst (butlast ike_header_encodings) @ [HEADER_LENGTH])"
    using assms(2) by (simp add: ike_header_encodings_def)
  have nl: "list_all (\<lambda>r. case fst r of PAYLOAD_LIST t \<Rightarrow> False | ATTRIBUTE_VALUE \<Rightarrow> False | _ \<Rightarrow> True) (butlast ike_header_encodings)"
    by (simp add: ike_header_encodings_def)
  have cl: "gen_clean g" using assms(2) by (simp add: gen_clean_def)
  obtain g' cl' where g': "\<forall>post. generate_rules mem g h (butlast ike_header_encodings @ post) = generate_rules mem g' h post"
    "gen_bits g' = gen_bits g @ rules_bits sub h parse_ctx0 (butlast ike_header_encodings)" "gen_ok g'" "aligned (current_bit g') cl' [HEADER_LENGTH]"
    using gen_prefix[OF assms(1) al cl nl] by blast
  have "current_bit g' = 0" using g'(4) by simp
  then have "out_position g' = out_position g + n"
    using arg_cong[OF g'(2), of length] assms gen_ok_pos(2)[OF g'(3)] gen_ok_pos(2)[OF assms(1)] by (simp add: gen_bits_def)
  then show ?thesis
    using g'(1) r by (simp add: generate_payload.simps generate_rules.simps(2) Let_def offset_kept get_offset_def)
qed

section \<open>Reading the chain\<close>

text \<open>
  Payloads that can be sent in the clear: consistent, accepted by their own check without changes, and of a type that is written in one byte and
  does not end the chain.
\<close>

definition plain_payload :: "u8 \<Rightarrow> payload_obj \<Rightarrow> bool" where
  "plain_payload v x \<longleftrightarrow> payload_wf v 4 x \<and> payload_verify x = (SUCCESS, x) \<and> ''next_payload'' \<in> set (map fst (obj_fields x)) \<and>
     obj_class x \<notin> {C_UNKNOWN, C_CONFIGURATION_ATTRIBUTE, C_TS_SUBSTRUCTURE, C_TRANSFORM_ATTRIBUTE, C_TRANSFORM, C_PROPOSAL,
                     C_ENCRYPTED_FRAGMENT, C_IKE_HEADER} \<and>
     0 < obj_type x \<and> obj_type x < 256 \<and> obj_type x \<noteq> payload_number PLV2_ENCRYPTED \<and> obj_type x \<noteq> payload_number PLV2_FRAGMENT"

lemma set_next_type_frame:
  "obj_class (payload_set_next_type x n) = obj_class x" "obj_type (payload_set_next_type x n) = obj_type x"
  "map fst (obj_fields (payload_set_next_type x n)) = map fst (obj_fields x)"
  by (simp_all add: payload_set_next_type_def set_field_frame)

lemma next_type_linked:
  assumes "plain_payload v (payload_set_next_type x n)" "n < 256"
  shows "payload_get_next_type (payload_set_next_type x n) = n"
  using assms by (auto simp: plain_payload_def set_next_type_frame payload_get_next_type_def payload_set_next_type_def get_u8_def get_set_field
      set_field_frame unat_of_nat take_bit_nat_eq_self_iff simp del: set_map)

fun chained :: "nat \<Rightarrow> payload_obj list \<Rightarrow> bool" where
  "chained t [] \<longleftrightarrow> t = 0"
| "chained t (x # xs) \<longleftrightarrow> t = obj_type x \<and> chained (payload_get_next_type x) xs"

lemma chained_link:
  "list_all (plain_payload v) (link_types 0 xs) \<Longrightarrow> chained (case xs of [] \<Rightarrow> 0 | x # _ \<Rightarrow> payload_get_type x) (link_types 0 xs)"
proof (induction xs)
  case (Cons x xs)
  let ?n = "case xs of [] \<Rightarrow> 0 | y # _ \<Rightarrow> payload_get_type y"
  have x: "plain_payload v (payload_set_next_type x ?n)" using Cons.prems by simp
  have "?n < 256"
    using Cons.prems by (cases xs) (auto simp: plain_payload_def set_next_type_frame payload_get_type_def)
  then have "payload_get_next_type (payload_set_next_type x ?n) = ?n" using next_type_linked[OF x] by simp
  moreover have "payload_get_type x = obj_type x" using x by (simp add: plain_payload_def set_next_type_frame payload_get_type_def)
  ultimately show ?case using Cons by (simp add: set_next_type_frame)
qed simp

lemma parse_payloads_loop_reads:
  "list_all (plain_payload v) xs \<Longrightarrow> chained t xs \<Longrightarrow> par_ok p \<Longrightarrow> bit_pos p = 0 \<Longrightarrow> major_version p = v \<Longrightarrow>
   par_bits p = concat (map (payload_bits 4) xs) \<Longrightarrow>
   \<exists>p'. parse_payloads_loop p acc t = Some (SUCCESS, p', acc @ xs) \<and> reads p [] 0 p'"
proof (induction xs arbitrary: p acc t)
  case Nil
  then show ?case by (subst parse_payloads_loop.simps) (auto simp: reads_def same_input_updates)
next
  case (Cons x xs)
  have x: "payload_wf v 4 x" "payload_verify x = (SUCCESS, x)" "t = obj_type x" "t \<noteq> 0" "t \<noteq> payload_number PLV2_ENCRYPTED" "t \<noteq> payload_number PLV2_FRAGMENT"
    using Cons.prems(1,2) by (auto simp: plain_payload_def)
  have b: "par_bits p = payload_bits 4 x @ concat (map (payload_bits 4) xs)" using Cons.prems(6) by simp
  obtain p1 where p1: "parse_payload 4 t p = Some (Parsed (p1, x))" "reads p (concat (map (payload_bits 4) xs)) 0 p1"
    using parse_payload_reads[OF x(1) Cons.prems(3,4,5) b] x(3) by blast
  have ok: "par_ok p1" "bit_pos p1 = 0" "major_version p1 = v" "par_bits p1 = concat (map (payload_bits 4) xs)"
    using p1(2) Cons.prems(5) by (auto simp: reads_def same_input_def)
  obtain p' where p': "parse_payloads_loop p1 (acc @ [x]) (payload_get_next_type x) = Some (SUCCESS, p', (acc @ [x]) @ xs)" "reads p1 [] 0 p'"
    using Cons.IH[OF _ _ ok, of "payload_get_next_type x" "acc @ [x]"] Cons.prems(1,2) by auto
  have "parse_payloads_loop p acc t = Some (SUCCESS, p', acc @ x # xs)"
    using p1(1) x p'(1) by (subst parse_payloads_loop.simps) simp
  then show ?case using reads_trans[OF p1(2) p'(2)] by auto
qed

section \<open>Round trip of messages\<close>

lemma bits_htoun32:
  assumes "bits_of chunk = pre @ bits_of old @ rest" "length pre = 8 * n" "length old = 4"
  shows "bits_of (htoun32 chunk n v) = pre @ bits_of (be_encode 4 (unat v)) @ rest"
proof -
  have t: "bits_of (take n chunk) = pre" using assms(1,2) by (simp add: take_bits_of[symmetric])
  have "bits_of (drop (n + 4) chunk) = drop (8 * (n + 4)) (bits_of chunk)" using drop_bits_of[of "n + 4" chunk] by simp
  also have "\<dots> = rest" using assms by simp
  finally show ?thesis using t by (simp add: htoun32_def del: be_encode.simps)
qed

lemma plain_fold_offset:
  assumes "list_all (plain_payload v) xs"
  shows "header_length_offset (fold (\<lambda>x g. generate_payload mem g x) xs g) = header_length_offset g"
proof (rule fold_offset)
  fix x g assume "x \<in> set xs"
  then have "payload_wf v 4 x" "obj_class x \<noteq> C_IKE_HEADER" using assms by (auto simp: list_all_iff plain_payload_def)
  then show "header_length_offset (generate_payload mem g x) = header_length_offset g" using payload_offset header_length_class by blast
qed

lemma length_header_bits:
  "length ispi = 8 \<Longrightarrow> length rspi = 8 \<Longrightarrow> length (header_bits ispi rspi nxt maj minr ext i ver resp r0 r1 mid) = 8 * 24"
  by (simp add: header_bits_def bits4_def del: be_encode.simps)

lemma header_generated_offset:
  assumes "length ispi = 8" "length rspi = 8"
  shows "unat (header_length_offset (generate_payload mem (generator_create mem) (header_obj ispi rspi nxt maj minr ext i ver resp r0 r1 mid len))) = 24"
proof -
  have "header_length_offset (generate_payload mem (generator_create mem) (header_obj ispi rspi nxt maj minr ext i ver resp r0 r1 mid len)) =
      of_nat (out_position (generator_create mem) + 24)"
    using length_header_bits[OF assms] gen_ok_create by (intro header_offset) (simp_all add: header_frame header_rules_bits)
  then show ?thesis by (simp add: generator_create_def)
qed

lemma header_verify_cong:
  "ike_header_verify (header_obj ispi rspi nxt maj minr ext i ver resp r0 r1 mid len) =
   ike_header_verify (header_obj ispi rspi 0 maj minr ext i ver resp r0 r1 mid 28)"
  by (simp add: ike_header_verify_def header_gets)

lemma first_type_small: "list_all (plain_payload v) (link_types 0 xs) \<Longrightarrow> (case xs of [] \<Rightarrow> 0 | x # _ \<Rightarrow> payload_get_type x) < 256"
  by (cases xs) (auto simp: plain_payload_def set_next_type_frame payload_get_type_def)

text \<open>The bytes of a message that is not encrypted: the header with its first payload and its length, and the payloads.\<close>

lemma generate_plain_bits:
  assumes m: "wm_major_version m = 2" "wm_reserved m = [r0, r1]" "wm_minor_version m AND 15 = wm_minor_version m"
    and sa: "length (id_initiator_spi sa) = 8" "length (id_responder_spi sa) = 8"
    and ps: "list_all (plain_payload 2) (link_types 0 (wm_payloads m))" "formats_ok True (link_types 0 (wm_payloads m))"
  defines "nxt \<equiv> of_nat (case wm_payloads m of [] \<Rightarrow> 0 | x # _ \<Rightarrow> payload_get_type x)"
  shows "\<exists>len. bits_of (fst (generate_plain mem m sa)) =
      payload_bits 4 (header_obj (id_initiator_spi sa) (id_responder_spi sa) nxt 2 (wm_minor_version m) (wm_exchange_type m)
        (id_initiator sa) (wm_version_flag m) (\<not> wm_is_request m) r0 r1 (wm_message_id m) len) @
      concat (map (payload_bits 4) (link_types 0 (wm_payloads m)))"
    "snd (generate_plain mem m sa) = link_types 0 (wm_payloads m)"
proof -
  let ?h = "\<lambda>len. header_obj (id_initiator_spi sa) (id_responder_spi sa) nxt 2 (wm_minor_version m) (wm_exchange_type m)
        (id_initiator sa) (wm_version_flag m) (\<not> wm_is_request m) r0 r1 (wm_message_id m) len"
  let ?ls = "link_types 0 (wm_payloads m)" and ?g0 = "generator_create mem"
  let ?gen = "\<lambda>xs g. fold (\<lambda>x g. generate_payload mem g x) xs g"
  have link: "link_types 0 (create_header m sa # wm_payloads m) = ?h 28 # ?ls"
    by (simp add: create_header_eq[OF m(1,2)] payload_set_next_type_def header_frame header_updates nxt_def)
  have wf: "list_all (payload_wf 2 4) (?h 28 # ?ls)"
    using header_wf[of _ _ 2 _ 2 3] sa m(3) ps(1) by (auto simp: eval_nat_numeral list_all_iff plain_payload_def)
  have fm: "\<not> sets_format (?h 28)" "\<not> reads_format (map fst (get_encoding_rules (?h 28)))"
    by (simp_all add: sets_format_def header_frame ike_header_encodings_def)
  have ap: "appends ?g0 (concat (map (payload_bits 4) (?h 28 # ?ls))) 0 (?gen (?h 28 # ?ls) ?g0)"
    using ps(2) fm gen_ok_create[of mem] by (intro fold_appends[OF wf, of True]) auto
  have g0: "gen_bits ?g0 = []" by (simp add: gen_bits_def generator_create_def)
  have off: "unat (header_length_offset (?gen (?h 28 # ?ls) ?g0)) = 24"
    using header_generated_offset[OF sa] plain_fold_offset[OF ps(1)] by simp
  have chain: "generate_chain mem ?g0 (create_header m sa) (wm_payloads m) 0 = (?gen (?h 28 # ?ls) ?g0, ?h 28 # ?ls)"
    unfolding generate_chain_fold link by simp
  then show "snd (generate_plain mem m sa) = ?ls" by (simp add: generate_plain_def Let_def)
  let ?c = "gen_get_chunk (?gen (?h 28 # ?ls) ?g0)"
  have "bits_of ?c = header_bits (id_initiator_spi sa) (id_responder_spi sa) nxt 2 (wm_minor_version m) (wm_exchange_type m)
        (id_initiator sa) (wm_version_flag m) (\<not> wm_is_request m) r0 r1 (wm_message_id m) @ bits_of (be_encode 4 (unat (28 :: u32))) @
        concat (map (payload_bits 4) ?ls)"
    using ap g0 gen_bits_aligned[of "?gen (?h 28 # ?ls) ?g0"] header_encoding[of 3]
    by (simp add: appends_def gen_get_chunk_def eval_nat_numeral del: be_encode.simps fold_simps)
  from bits_htoun32[OF this length_header_bits[OF sa]]
  have "bits_of (htoun32 ?c 24 (of_nat (length ?c))) = payload_bits 4 (?h (of_nat (length ?c))) @ concat (map (payload_bits 4) ?ls)"
    using header_encoding[of 3] by (simp add: eval_nat_numeral del: be_encode.simps)
  moreover have "fst (generate_plain mem m sa) = htoun32 ?c 24 (of_nat (length ?c))"
    using chain off by (simp add: generate_plain_def Let_def del: fold_simps)
  ultimately show "\<exists>len. bits_of (fst (generate_plain mem m sa)) = payload_bits 4 (?h len) @ concat (map (payload_bits 4) ?ls)" by metis
qed

text \<open>
  C17. An IKEv2 message that is not encrypted survives the wire: the bytes that are generated for it, whatever fresh memory contains,
  are parsed into a message with the same header and the same payloads, linked by their types, and nothing is left over.
\<close>

theorem message_roundtrip:
  assumes m: "wm_major_version m = 2" "wm_reserved m = [r0, r1]" "wm_minor_version m AND 15 = wm_minor_version m"
    and sa: "length (id_initiator_spi sa) = 8" "length (id_responder_spi sa) = 8"
    and hd: "ike_header_verify (create_header m sa) = SUCCESS"
    and ps: "list_all (plain_payload 2) (link_types 0 (wm_payloads m))" "formats_ok True (link_types 0 (wm_payloads m))"
  shows "\<exists>m1 p m2 p2. parse_header (wire_message_create_from_packet (fst (generate_plain mem m sa))) = Some (SUCCESS, m1) \<and> wm_parser m1 = Some p \<and>
    parse_payloads m1 p = Some (SUCCESS, m2) \<and> wm_payloads m2 = link_types 0 (wm_payloads m) \<and> wm_payloads m2 = snd (generate_plain mem m sa) \<and>
    wm_ike_sa_id m2 = Some (sa\<lparr>id_version := 2\<rparr>) \<and> wm_exchange_type m2 = wm_exchange_type m \<and> wm_message_id m2 = wm_message_id m \<and>
    wm_major_version m2 = 2 \<and> wm_minor_version m2 = wm_minor_version m \<and> wm_is_request m2 = wm_is_request m \<and> wm_reserved m2 = wm_reserved m \<and>
    wm_parser m2 = Some p2 \<and> get_remaining_byte_count p2 = 0"
proof -
  let ?ls = "link_types 0 (wm_payloads m)" and ?t = "case wm_payloads m of [] \<Rightarrow> 0 | x # _ \<Rightarrow> payload_get_type x"
  let ?m0 = "wire_message_create_from_packet (fst (generate_plain mem m sa))"
  obtain len where bits: "bits_of (fst (generate_plain mem m sa)) =
      payload_bits 4 (header_obj (id_initiator_spi sa) (id_responder_spi sa) (of_nat ?t) 2 (wm_minor_version m) (wm_exchange_type m)
        (id_initiator sa) (wm_version_flag m) (\<not> wm_is_request m) r0 r1 (wm_message_id m) len) @ concat (map (payload_bits 4) ?ls)"
    (is "_ = payload_bits 4 ?h @ _")
    using generate_plain_bits(1)[OF m sa ps] by blast
  let ?p0 = "reset_context (parser_create (fst (generate_plain mem m sa)))"
  have p0: "par_ok ?p0" "bit_pos ?p0 = 0" "major_version ?p0 = 0" "par_bits ?p0 = payload_bits 4 ?h @ concat (map (payload_bits 4) ?ls)"
    using bits by (simp_all add: par_ok_def par_bits_def reset_context_def parser_create_def)
  have hwf: "payload_wf 0 4 ?h" using header_wf[of _ _ 2 _ 0 3] sa m(3) by (simp add: eval_nat_numeral)
  obtain p1 where p1: "parse_payload 4 256 ?p0 = Some (Parsed (p1, ?h))" "reads ?p0 (concat (map (payload_bits 4) ?ls)) 0 p1"
    using parse_payload_reads[OF hwf p0] by (auto simp: header_frame)
  have hv: "payload_verify ?h = (SUCCESS, ?h)"
  proof -
    have "ike_header_verify ?h = SUCCESS" using hd unfolding create_header_eq[OF m(1,2)] by (subst header_verify_cong)
    then show ?thesis by (simp add: payload_verify_def header_frame)
  qed
  let ?m1 = "accept_header ?m0 p1 ?h" and ?q = "set_major_version p1 2"
  have ph: "parse_header ?m0 = Some (SUCCESS, ?m1)"
    using p1(1) hv by (simp add: parse_header_def wire_message_create_from_packet_def)
  have nt: "payload_get_next_type ?h = ?t"
    using first_type_small[OF ps(1)] by (simp add: payload_get_next_type_def header_frame header_gets unat_of_nat take_bit_nat_eq_self_iff)
  have f: "wm_parser ?m1 = Some ?q" "wm_first_payload ?m1 = ?t" "\<not> wm_is_encrypted ?m1" "wm_payloads ?m1 = []"
    "wm_ike_sa_id ?m1 = Some (sa\<lparr>id_version := 2\<rparr>)" "wm_exchange_type ?m1 = wm_exchange_type m" "wm_message_id ?m1 = wm_message_id m"
    "wm_major_version ?m1 = 2" "wm_minor_version ?m1 = wm_minor_version m" "wm_is_request ?m1 = wm_is_request m" "wm_reserved ?m1 = wm_reserved m"
    using m(2) nt by (simp_all add: accept_header_def Let_def wire_message_create_from_packet_def header_gets reserved_fields)
  have q: "par_ok ?q" "bit_pos ?q = 0" "major_version ?q = 2" "par_bits ?q = concat (map (payload_bits 4) ?ls)"
    using p1(2) by (auto simp: reads_def set_major_version_def par_ok_def par_bits_def)
  obtain p2 where p2: "parse_payloads_loop ?q [] ?t = Some (SUCCESS, p2, [] @ ?ls)" "reads ?q [] 0 p2"
    using parse_payloads_loop_reads[OF ps(1) chained_link[OF ps(1)] q] by blast
  have "get_remaining_byte_count p2 = 0"
    using p2(2) length_par_bits[of p2] by (simp add: reads_def get_remaining_byte_count_def)
  moreover have "parse_payloads ?m1 ?q = Some (SUCCESS, ?m1\<lparr>wm_parser := Some p2, wm_payloads := ?ls\<rparr>)"
    using p2(1) f by (simp add: parse_payloads_def)
  ultimately show ?thesis
    using ph f generate_plain_bits(2)[OF m sa ps] by (intro exI[of _ ?m1] exI[of _ ?q] exI[of _ "?m1\<lparr>wm_parser := Some p2, wm_payloads := ?ls\<rparr>"] exI[of _ p2]) simp
qed

text \<open>An IKE_SA_INIT request with a proposal and a nonce.\<close>

definition sample_nonce :: payload_obj where
  "sample_nonce = set_field (set_field (nonce_payload_create (payload_number PLV2_NONCE)) ''payload_length'' (FU16 20)) ''nonce'' (FChunk (replicate 16 7))"

definition sample_id :: wire_sa_id where
  "sample_id = \<lparr>id_version = 2, id_initiator_spi = [1, 2, 3, 4, 5, 6, 7, 8], id_responder_spi = replicate 8 0, id_initiator = True\<rparr>"

definition sample_message :: wire_message where
  "sample_message = (wire_message_create_from_packet [])\<lparr>wm_major_version := 2, wm_exchange_type := 34,
     wm_payloads := [sample_sa, sample_nonce]\<rparr>"

lemma sample_message_ok:
  "ike_header_verify (create_header sample_message sample_id) = SUCCESS" "list_all (plain_payload 2) (link_types 0 (wm_payloads sample_message))"
  "formats_ok True (link_types 0 (wm_payloads sample_message))"
  by code_simp+

theorem message_roundtrip_witness:
  "\<exists>m1 p m2. parse_header (wire_message_create_from_packet (fst (generate_plain (\<lambda>_. 0xAA) sample_message sample_id))) = Some (SUCCESS, m1) \<and>
     wm_parser m1 = Some p \<and> parse_payloads m1 p = Some (SUCCESS, m2) \<and> wm_payloads m2 = link_types 0 [sample_sa, sample_nonce]"
proof -
  have "wm_major_version sample_message = 2" "wm_reserved sample_message = [False, False]"
    "wm_minor_version sample_message AND 15 = wm_minor_version sample_message" "wm_payloads sample_message = [sample_sa, sample_nonce]"
    "length (id_initiator_spi sample_id) = 8" "length (id_responder_spi sample_id) = 8"
    by (simp_all add: sample_message_def wire_message_create_from_packet_def sample_id_def)
  then show ?thesis using message_roundtrip[of sample_message False False sample_id "\<lambda>_. 0xAA"] sample_message_ok by auto
qed

section \<open>Checks that accept too much\<close>

text \<open>
  Port ranges whose end is below their start are meant to be accepted for opaque ports only, that is for 65535 to 0; one of the two
  is enough.
\<close>

definition ports_ts :: "bytes \<Rightarrow> payload_obj" where
  "ports_ts ports = set_field (set_field (traffic_selector_substructure_create (payload_number PLV2_TRAFFIC_SELECTOR_SUBSTRUCTURE))
     ''ts_type'' (FU8 7)) ''ts_data'' (FChunk (ports @ replicate 8 0))"

lemma reversed_ports_accepted:
  "traffic_selector_substructure_verify (ports_ts [0xFF, 0xFF, 0, 80]) = SUCCESS"
  "traffic_selector_substructure_verify (ports_ts [0, 80, 0, 0]) = SUCCESS"
  "traffic_selector_substructure_verify (ports_ts [0, 80, 0, 79]) = FAILED"
  by (simp_all add: traffic_selector_substructure_verify_def parse_ts_data_def ports_ts_def traffic_selector_substructure_create_def get_u8_def
      get_chunk_field_def get_field_def set_field_def read_uint16_internal_def read_data_internal_def get_ptr_end_def chunk_skip_end_def be_decode_def)

text \<open>An EAP request without a type, that is of four bytes, passes the check that is meant to reject it.\<close>

lemma empty_eap_request_accepted:
  "eap_payload_verify (set_field (eap_payload_create (payload_number PLV2_EAP)) ''data'' (FChunk [1, 0, 0, 4])) = SUCCESS"
  by (simp add: eap_payload_verify_def eap_payload_create_def get_chunk_field_def get_field_def set_field_def be_decode_def)

end
