(* ===== verification/Message_Body.thy ===== *)
theory Message_Body
  imports Message_Rules
begin

text \<open>
  The body of a received message (\<^verbatim>\<open>src/src/libcharon/encoding/message.c\<close>): the encrypted payload is replaced by its contents, payloads that must not be
  in the clear are refused, and the result is verified against the rules of the message. Key material is external: the environment
  holds what \<^verbatim>\<open>keymat_t\<close>, its AEAD and the encrypted payload answer. Initialization vectors of IKEv1 are kept by the key material.
\<close>

section \<open>Environment\<close>

record body_env =
  wire_parse :: "private_message_t \<Rightarrow> status_t \<times> private_message_t"
  keymat_version :: "nat option"
  in_aead :: bool
  block_size :: nat
  enc_get_length :: "payload_t \<Rightarrow> nat"
  enc_decrypt :: "payload_t \<Rightarrow> bytes \<Rightarrow> status_t \<times> payload_t list"
  frag_decrypt :: "payload_t \<Rightarrow> bytes \<Rightarrow> status_t \<times> payload_t"
  v1_get_iv :: "u32 \<Rightarrow> bytes option"
  v1_update_iv :: "u32 \<Rightarrow> bytes \<Rightarrow> bool"
  v1_confirm_iv :: "u32 \<Rightarrow> bool"
  v1_hash_phase2 :: "private_message_t \<Rightarrow> bytes option"
  accept_unencrypted_mainmode :: bool

definition packet_data :: "private_message_t \<Rightarrow> bytes" where
  "packet_data this = (case pkt_data (packet this) of None \<Rightarrow> [] | Some d \<Rightarrow> d)"

section \<open>Decryption\<close>

text \<open>The payloads of an encrypted payload are appended, each linked from the one before it.\<close>

fun extract_payloads :: "private_message_t \<Rightarrow> payload_t list \<Rightarrow> private_message_t" where
  "extract_payloads this [] = this"
| "extract_payloads this (encrypted # rest) =
     extract_payloads
       (if payloads this = [] then this\<lparr>first_payload := ptype encrypted, payloads := [encrypted]\<rparr>
        else this\<lparr>payloads := butlast (payloads this) @ [set_next_type (last (payloads this)) (ptype encrypted), encrypted]\<rparr>) rest"

definition decrypt_v1 :: "body_env \<Rightarrow> private_message_t \<Rightarrow> payload_t \<Rightarrow> status_t \<times> payload_t list" where
  "decrypt_v1 env this encryption =
     (case v1_get_iv env (message_id this) of
        None \<Rightarrow> (FAILED, [])
      | Some iv \<Rightarrow>
          let (status, pls) = enc_decrypt env encryption iv; chunk = packet_data this
          in if status = SUCCESS \<and> \<not> v1_update_iv env (message_id this) (drop (length chunk - block_size env) chunk) then (FAILED, pls)
             else (status, pls))"

definition decrypt_and_extract :: "body_env \<Rightarrow> private_message_t \<Rightarrow> payload_t \<Rightarrow> status_t \<times> private_message_t" where
  "decrypt_and_extract env this encryption =
     (case keymat_version env of
        None \<Rightarrow> (INVALID_ARG, this)
      | Some version \<Rightarrow>
          if \<not> in_aead env then (INVALID_ARG, this)
          else let chunk = packet_data this; len = enc_get_length env encryption
               in if parser this \<noteq> None \<and> (length chunk < len \<or> length chunk < block_size env) then (VERIFY_ERROR, this)
                  else let (status, pls) = (if parser this = None then enc_decrypt env encryption []
                                            else if version = 1 then decrypt_v1 env this encryption
                                            else enc_decrypt env encryption (take (length chunk - len) chunk))
                       in if status \<noteq> SUCCESS then (status, this) else (SUCCESS, extract_payloads this pls))"

definition decrypt_fragment :: "body_env \<Rightarrow> private_message_t \<Rightarrow> payload_t \<Rightarrow> status_t \<times> payload_t" where
  "decrypt_fragment env this fragment =
     (if keymat_version env = None \<or> \<not> in_aead env then (INVALID_ARG, fragment)
      else let chunk = packet_data this; len = enc_get_length env fragment
           in if length chunk < len \<or> length chunk < block_size env then (VERIFY_ERROR, fragment)
              else frag_decrypt env fragment (take (length chunk - len) chunk))"

definition accept_unencrypted_mm :: "body_env \<Rightarrow> private_message_t \<Rightarrow> payload_type_t \<Rightarrow> bool" where
  "accept_unencrypted_mm env this type \<longleftrightarrow>
     exchange_type this = ID_PROT \<and> (type = PLV1_ID \<or> type = PLV1_HASH) \<and> accept_unencrypted_mainmode env"

definition refused_in_clear :: "body_env \<Rightarrow> message_rule_t \<Rightarrow> private_message_t \<Rightarrow> payload_type_t \<Rightarrow> bool" where
  "refused_in_clear env mrule this type \<longleftrightarrow>
     type \<noteq> PL_UNKNOWN \<and> exchange_type this \<noteq> AGGRESSIVE \<and>
     (case get_payload_rule mrule type of None \<Rightarrow> True | Some r \<Rightarrow> rule_encrypted r) \<and> \<not> accept_unencrypted_mm env this type"

text \<open>
  The loop over the payloads: \<open>visited\<close> are those already passed. An encrypted payload is the last one the loop sees: the enumerator has reached
  the end of the list before the contents are appended, and it stays there.
\<close>

fun decrypt_loop :: "body_env \<Rightarrow> message_rule_t \<Rightarrow> private_message_t \<Rightarrow> payload_t list \<Rightarrow> payload_t list \<Rightarrow> status_t \<times> private_message_t" where
  "decrypt_loop env mrule this visited [] = (SUCCESS, this)"
| "decrypt_loop env mrule this visited (payload # rest) =
     (if ptype payload = PLV2_ENCRYPTED \<or> ptype payload = PLV1_ENCRYPTED
      then let this = this\<lparr>payloads := visited @ rest\<rparr>
           in if rest \<noteq> [] then (VERIFY_ERROR, this) else decrypt_and_extract env this payload
      else if ptype payload = PLV2_FRAGMENT
      then if rest \<noteq> [] then (VERIFY_ERROR, this)
           else let (status, fragment) = decrypt_fragment env this payload in (status, this\<lparr>payloads := visited @ [fragment]\<rparr>)
      else if refused_in_clear env mrule this (ptype payload) then (FAILED, this)
      else decrypt_loop env mrule this (visited @ [payload]) rest)"

definition decrypt_payloads :: "body_env \<Rightarrow> message_rule_t \<Rightarrow> private_message_t \<Rightarrow> status_t \<times> private_message_t" where
  "decrypt_payloads env mrule this = decrypt_loop env mrule this [] (payloads this)"

section \<open>Body\<close>

definition hash_matches :: "private_message_t \<Rightarrow> bytes \<Rightarrow> bool" where
  "hash_matches this hash \<longleftrightarrow> (case get_payload this PLV1_HASH of Some p \<Rightarrow> pbody p = OtherBody hash | None \<Rightarrow> False)"

definition check_v1 :: "body_env \<Rightarrow> private_message_t \<Rightarrow> status_t" where
  "check_v1 env this =
     (let status = (case v1_hash_phase2 env this of
                      None \<Rightarrow> SUCCESS
                    | Some hash \<Rightarrow> if first_payload this \<noteq> PLV1_HASH then VERIFY_ERROR
                                   else if \<not> hash_matches this hash then FAILED else SUCCESS)
      in if status \<noteq> SUCCESS then status
         else if is_encrypted this \<and> exchange_type this \<noteq> INFORMATIONAL_V1 \<and> \<not> v1_confirm_iv env (message_id this) then FAILED
         else SUCCESS)"

definition message_parse_body :: "body_env \<Rightarrow> private_message_t \<Rightarrow> status_t \<times> private_message_t" where
  "message_parse_body env this =
     (case get_message_rule this of
        None \<Rightarrow> (NOT_SUPPORTED, this\<lparr>rule := None\<rparr>)
      | Some mrule \<Rightarrow>
          let this = this\<lparr>rule := Some mrule\<rparr>;
              (status, this) = (if parser this \<noteq> None then wire_parse env this else (SUCCESS, this))
          in if status \<noteq> SUCCESS then (status, this)
             else let (status, this) = decrypt_payloads env mrule this
                  in if status \<noteq> SUCCESS then (status, this)
                     else let status = verify mrule this
                          in if status \<noteq> SUCCESS then (status, this)
                             else if keymat_version env = Some 1 then (check_v1 env this, this)
                             else (SUCCESS, this))"

section \<open>Lemmas\<close>

lemma core_extract: "map core (payloads (extract_payloads this xs)) = map core (payloads this) @ map core xs"
proof (induction xs arbitrary: this)
  case (Cons x xs)
  have "map core (butlast (payloads this)) @ [core (last (payloads this))] = map core (payloads this)" if "payloads this \<noteq> []"
    using arg_cong[OF append_butlast_last_id[OF that], of "map core"] by simp
  then show ?case using Cons by simp
qed simp

lemma extract_frame:
  "exchange_type (extract_payloads this xs) = exchange_type this" "rule (extract_payloads this xs) = rule this"
  by (induction xs arbitrary: this) auto

lemma decrypt_v1_decrypts: "decrypt_v1 env this e = (SUCCESS, pls) \<Longrightarrow> \<exists>data. enc_decrypt env e data = (SUCCESS, pls)"
  by (auto simp: decrypt_v1_def Let_def split: option.splits prod.splits if_splits)

text \<open>What a successful pass over the payloads leaves: payloads that may be in the clear, and then what was decrypted.\<close>

definition protected_by :: "body_env \<Rightarrow> (payload_type_t \<times> payload_body) list \<Rightarrow> bool" where
  "protected_by env prot \<longleftrightarrow> in_aead env \<and>
     ((\<exists>e data pls. enc_decrypt env e data = (SUCCESS, pls) \<and> prot = map core pls) \<or>
      (\<exists>e data f. frag_decrypt env e data = (SUCCESS, f) \<and> prot = [core f]))"

lemma decrypt_and_extract_ok:
  assumes "decrypt_and_extract env this e = (SUCCESS, m)"
  shows "\<exists>prot. map core (payloads m) = map core (payloads this) @ prot \<and> protected_by env prot"
proof -
  obtain pls data where "enc_decrypt env e data = (SUCCESS, pls)" "m = extract_payloads this pls" "in_aead env"
    using assms
    by (auto simp: decrypt_and_extract_def Let_def split: option.splits if_splits prod.splits dest!: decrypt_v1_decrypts)
  then show ?thesis unfolding protected_by_def using core_extract by blast
qed

lemma decrypt_loop_ok:
  "decrypt_loop env mrule this visited rest = (SUCCESS, m) \<Longrightarrow> payloads this = visited @ rest \<Longrightarrow>
   \<exists>clear prot. map core (payloads m) = map core visited @ clear @ prot \<and>
     list_all (\<lambda>c. \<not> refused_in_clear env mrule this (fst c)) clear \<and> (prot = [] \<or> protected_by env prot)"
proof (induction rest arbitrary: visited)
  case Nil
  then show ?case by (intro exI[of _ "[]"]) auto
next
  case (Cons p rest)
  consider "ptype p = PLV2_ENCRYPTED \<or> ptype p = PLV1_ENCRYPTED" | "ptype p = PLV2_FRAGMENT"
    | "ptype p \<noteq> PLV2_ENCRYPTED" "ptype p \<noteq> PLV1_ENCRYPTED" "ptype p \<noteq> PLV2_FRAGMENT" by blast
  then show ?case
  proof cases
    case 1
    then have "decrypt_and_extract env (this\<lparr>payloads := visited\<rparr>) p = (SUCCESS, m)"
      using Cons.prems(1) by (auto simp: Let_def split: if_splits)
    then obtain prot where "map core (payloads m) = map core visited @ prot" "protected_by env prot"
      using decrypt_and_extract_ok[of env "this\<lparr>payloads := visited\<rparr>"] by auto
    then show ?thesis by (intro exI[of _ "[]"] exI[of _ prot]) simp
  next
    case 2
    then obtain f where f: "decrypt_fragment env this p = (SUCCESS, f)" "m = this\<lparr>payloads := visited @ [f]\<rparr>"
      using Cons.prems(1) by (auto split: if_splits prod.splits)
    then have "protected_by env [core f]" unfolding protected_by_def decrypt_fragment_def by (force simp: Let_def split: if_splits)
    then show ?thesis using f(2) by (intro exI[of _ "[]"] exI[of _ "[core f]"]) simp
  next
    case 3
    then have ok: "\<not> refused_in_clear env mrule this (ptype p)" "decrypt_loop env mrule this (visited @ [p]) rest = (SUCCESS, m)"
      using Cons.prems(1) by (auto split: if_splits)
    obtain clear prot where "map core (payloads m) = map core (visited @ [p]) @ clear @ prot"
      "list_all (\<lambda>c. \<not> refused_in_clear env mrule this (fst c)) clear" "prot = [] \<or> protected_by env prot"
      using Cons.IH[OF ok(2)] Cons.prems(2) by auto
    then show ?thesis using ok(1) by (intro exI[of _ "core p # clear"] exI[of _ prot]) simp
  qed
qed

section \<open>Properties\<close>


definition sample_delete :: payload_t where
  "sample_delete = \<lparr>ptype = PLV2_DELETE, next_payload = PL_NONE, pbody = OtherBody [1, 0, 0, 0], protocol_id = 1\<rparr>"

definition sample_env :: "payload_t list \<Rightarrow> body_env" where
  "sample_env contents =
     \<lparr>wire_parse = (\<lambda>m. (SUCCESS, m\<lparr>payloads := [\<lparr>ptype = PLV2_ENCRYPTED, next_payload = PLV2_DELETE, pbody = EncBody [], protocol_id = 0\<rparr>]\<rparr>)),
      keymat_version = Some 2, in_aead = True, block_size = 0, enc_get_length = (\<lambda>_. 0), enc_decrypt = (\<lambda>_ _. (SUCCESS, contents)),
      frag_decrypt = (\<lambda>p _. (FAILED, p)), v1_get_iv = (\<lambda>_. None), v1_update_iv = (\<lambda>_ _. False), v1_confirm_iv = (\<lambda>_. False),
      v1_hash_phase2 = (\<lambda>_. None), accept_unencrypted_mainmode = False\<rparr>"

definition sample_informational :: private_message_t where
  "sample_informational = (message_create 2 0)\<lparr>exchange_type := INFORMATIONAL, is_request := True, parser := Some []\<rparr>"

definition informational_rule :: message_rule_t where
  "informational_rule = \<lparr>mr_exchange_type = INFORMATIONAL, mr_is_request = True, mr_encrypted = True, mr_rules = informational_i_rules, mr_order = informational_i_order\<rparr>"

lemma informational_message_rule: "get_message_rule sample_informational = Some informational_rule"
  by (simp add: get_message_rule_def sample_informational_def message_rules_def informational_rule_def)

lemma sample_parsed:
  "message_parse_body (sample_env contents) sample_informational =
     (let m = extract_payloads (sample_informational\<lparr>rule := Some informational_rule, payloads := []\<rparr>) contents
      in (verify informational_rule m, m))"
  unfolding message_parse_body_def informational_message_rule
  by (simp add: sample_env_def decrypt_payloads_def decrypt_and_extract_def Let_def sample_informational_def)


text \<open>
  The loop is meant to refuse an encrypted payload inside another one, but it never looks at the contents of an encrypted payload.
\<close>

lemma nested_encrypted_payload_accepted:
  "ptype nested = PLV2_ENCRYPTED \<Longrightarrow>
   fst (message_parse_body (sample_env [nested]) sample_informational) = SUCCESS \<and>
   payloads (snd (message_parse_body (sample_env [nested]) sample_informational)) = [nested]"
  unfolding sample_parsed by (simp add: verify_def informational_rule_def informational_i_rules_def Let_def)

end
