(* ===== verification/Spec2Isabelle.thy ===== *)
theory Spec2Isabelle
  imports Exchange_Proofs Bio Ipsec_Processor Sa_Locking Scheduler Mem_Pool Proposal_Proofs Message_Wire_Proofs Message_Body
begin

text \<open>
  \<^bold>\<open>Verification of the IKE message and retransmission core and of the user-space IPsec stack of
  strongSwan with selective fragment retransmission.\<close>

  \<^bold>\<open>The program.\<close> strongSwan is an IPsec keying daemon. This repository extends it with post-quantum
  key exchanges, whose large IKE_INTERMEDIATE messages are sent as IKE fragments, and with selective
  retransmission of fragments: the receiver acknowledges the fragments it holds with a bitmap in a
  FRAGMENT_ACK notify and the sender retransmits only what is missing. Messages are built, split,
  collected and checked in \<^verbatim>\<open>src/src/libcharon/encoding/message.c\<close>; the exchanges, message IDs,
  retransmission timers, trackers and acknowledgements are kept by the task manager in
  \<^verbatim>\<open>src/src/libcharon/sa/ikev2/task_manager_v2.c\<close>. A received packet goes to \<^verbatim>\<open>process_message\<close> of the
  task manager, which detects retransmissions, parses the message, hands fragments to
  \<^verbatim>\<open>handle_fragment\<close> and thereby to \<^verbatim>\<open>add_fragment\<close> of the collecting message, and passes complete
  messages to the tasks. An outgoing message is split by \<^verbatim>\<open>fragment\<close>, tracked by
  \<^verbatim>\<open>generate_message\<close> and retransmitted by \<^verbatim>\<open>retransmit\<close>.

  The SAs that IKE negotiates are used by the kernel or by the user-space stack in
  \<^verbatim>\<open>src/src/libipsec\<close>: outbound IP packets are matched against the policies, the SA of the policy
  is checked out of the SA manager and encrypts the packet into ESP; inbound ESP packets are looked up by SPI,
  checked against the replay window, decrypted and delivered if a policy allows them.

  \<^bold>\<open>Theories, in the order of their dependencies.\<close>

  \<^item> \<^verbatim>\<open>Prelude\<close>: machine integers as words, status codes, generic lemmas, and the interface \<open>bitset\<close> of
    bitmaps that record which numbered items have been seen.
  \<^item> \<^verbatim>\<open>IKE_Payloads\<close>: payload and exchange types, payload objects with the fields the message code reads,
    and the checks of the fragment payloads (\<^verbatim>\<open>encrypted_payload.c\<close>, \<^verbatim>\<open>fragment_payload.c\<close>).
  \<^item> \<^verbatim>\<open>Message_Rules\<close>: all rule and order tables of \<^verbatim>\<open>message.c\<close>, the message object, and the ordering,
    wrapping and verification of payload lists. Ordering produces a permutation sorted by the order
    table with linked payloads, wrapping leaves nothing confidential in the clear, and verification is
    equivalent to the declarative meaning of the rules.
  \<^item> \<^verbatim>\<open>Message_Fragment\<close>: \<^verbatim>\<open>fragment\<close> and its parts, the \<^verbatim>\<open>add_fragment\<close> family, merging, the
    reassembly timeout and the queries for missing and received fragments.
  \<^item> \<^verbatim>\<open>Reassembly\<close>: splitting and collecting are inverse for every order of arrival, the collected
    state is bounded and ordered whatever arrives, and the queries are exact. The bitmap of
    \<^verbatim>\<open>get_missing_fragments\<close> is an interpretation of \<open>bitset\<close>.
  \<^item> \<^verbatim>\<open>Fragment_Ack\<close>: trackers, the acknowledgement record and its byte layout on hosts of either byte
    order, building and applying acknowledgements. The acknowledgement bitmap is the second
    interpretation of \<open>bitset\<close>.
  \<^item> \<^verbatim>\<open>Task_Manager\<close>: the state of the task manager, its queues, \<^verbatim>\<open>send_packets\<close>,
    \<^verbatim>\<open>generate_message\<close>, both variants of selective retransmission, \<^verbatim>\<open>retransmit\<close>, and
    \<^verbatim>\<open>process_fragment_ack\<close>. Packets, scheduled jobs and alerts are events.
  \<^item> \<^verbatim>\<open>Retransmission\<close>: a run of the timer keeps the exchange and counts it, so an unanswered exchange is
    given up after a bounded number of runs; only missing fragments are sent again; a complete
    acknowledgement silences the timer.
  \<^item> \<^verbatim>\<open>Process_Message\<close>: the receive path, from retransmit detection to the call of the tasks.
    Requests are processed once and answered from the stored packets afterwards.
  \<^item> \<^verbatim>\<open>Task_Queue\<close>: queueing, adopting and resetting tasks; no task is lost.
  \<^item> \<^verbatim>\<open>Exchange\<close>: \<^verbatim>\<open>initiate\<close>, \<^verbatim>\<open>process_response\<close>, \<^verbatim>\<open>process_request\<close> and \<^verbatim>\<open>build_response\<close> with the
    loops over active and passive tasks; \<^verbatim>\<open>Exchange_Proofs\<close>: they return, and the packets in flight are
    always those of one request.
  \<^item> \<^verbatim>\<open>Dynamic_Array\<close>: the physical buffer of \<^verbatim>\<open>array.c\<close> with its head and tail room implements a list
    of elements; the locale \<open>sequence\<close> states the contract that the message code relies on.
  \<^item> \<^verbatim>\<open>Bio\<close>: the reader and writer of \<^verbatim>\<open>bio_reader.c\<close> and \<^verbatim>\<open>bio_writer.c\<close>; what is written stays inside
    the buffer and is read back.
  \<^item> \<^verbatim>\<open>Esp_Replay\<close>: sequence numbers and the replay window of \<^verbatim>\<open>esp_context.c\<close>; the circular bitmap refines
    the set of accepted numbers.
  \<^item> \<^verbatim>\<open>Host\<close> and \<^verbatim>\<open>Traffic_Selector\<close>: addresses (\<^verbatim>\<open>host.c\<close>) and selectors (\<^verbatim>\<open>traffic_selector.c\<close>). Intersection
    is exact, selectors of subnets include exactly the addresses with the prefix, and subnets survive
    their representation as ranges.
  \<^item> \<^verbatim>\<open>Ip_Packet\<close> and \<^verbatim>\<open>Esp_Packet\<close>: parsing of IP packets (\<^verbatim>\<open>ip_packet.c\<close>) and ESP encapsulation
    (\<^verbatim>\<open>esp_packet.c\<close>); decryption inverts encryption and no sequence number is decrypted twice.
  \<^item> \<^verbatim>\<open>Ipsec_Policy\<close>: policies and their database (\<^verbatim>\<open>ipsec_policy.c\<close>, \<^verbatim>\<open>ipsec_policy_mgr.c\<close>); lookups return the best
    applicable policy in every reachable database.
  \<^item> \<^verbatim>\<open>Ipsec_Sa\<close>: SAs and the operations of their manager (\<^verbatim>\<open>ipsec_sa.c\<close>, \<^verbatim>\<open>ipsec_sa_mgr.c\<close>), one thread at a time;
    \<^verbatim>\<open>Sa_Locking\<close>: the lock, waiting counter and deletion flag of an entry under all interleavings of
    threads.
  \<^item> \<^verbatim>\<open>Ipsec_Processor\<close>: inbound and outbound processing (\<^verbatim>\<open>ipsec_processor.c\<close>); what is delivered was
    authenticated, fresh and allowed by a policy, and a tunnel of two gateways delivers the packet.

  \<^item> \<^verbatim>\<open>Scheduler\<close>: the heap of timed events of \<^verbatim>\<open>scheduler.c\<close> on its allocated cells; an interpretation of the
    interface \<open>event_queue\<close>. Events fire in the order of their times.
  \<^item> \<^verbatim>\<open>Hashtable\<close>: the open-addressing tables of \<^verbatim>\<open>hashtable.c\<close>. The probe sequence visits every row, so lookups end, and
    the table refines the list of its pairs in insertion order; \<open>hash_keys\<close> is what it needs of its keys,
    \<open>ordered_map\<close> what it promises.
  \<^item> \<^verbatim>\<open>Mem_Pool\<close>: pools of virtual addresses (\<^verbatim>\<open>mem_pool.c\<close>) and the provider that uses them
    (\<^verbatim>\<open>vici_attribute.c\<close>). No address is leased twice, requests fail only if every address is online, and only
    usable addresses of the subnet are leased.
  \<^item> \<^verbatim>\<open>Proposal\<close>: proposals of algorithms, their selection, the check of configured ones and the reader of their
    keywords (\<^verbatim>\<open>proposal.c\<close>, \<^verbatim>\<open>proposal_keywords.c\<close>, \<^verbatim>\<open>enumerator.c\<close>); \<^verbatim>\<open>Proposal_Proofs\<close>: what is selected was offered by both
    sides, and the sorted set of types is that of the transforms.
  \<^item> \<^verbatim>\<open>Payload_Tables\<close>: the fields, encoding rules, header lengths and initial values of all payloads of both versions
    (\<^verbatim>\<open>encoding/payloads\<close>). \<^verbatim>\<open>Payload_Codec\<close>: the parser (\<^verbatim>\<open>parser.c\<close>) and the generator (\<^verbatim>\<open>generator.c\<close>) that interpret the
    rules. \<^verbatim>\<open>Payload_Bits\<close> and \<^verbatim>\<open>Payload_Encoding\<close>: what each primitive reads and writes as bits, the encoding that
    the rules describe, and that the generator appends it; \<^verbatim>\<open>Payload_Codec_Proofs\<close>: the parser reads it
    back, always returns, and never reads past its input.
  \<^item> \<^verbatim>\<open>Payload_Verify\<close>: the checks of parsed payloads and the types that link them. \<^verbatim>\<open>Message_Wire\<close>: the header of a message, the
    chain of its payloads and the way back (\<^verbatim>\<open>create_header\<close>, \<^verbatim>\<open>generate_message\<close>, \<^verbatim>\<open>parse_header\<close> and \<^verbatim>\<open>parse_payloads\<close> of
    \<^verbatim>\<open>message.c\<close>) on the objects of the codec; \<^verbatim>\<open>Message_Wire_Proofs\<close>: parsing returns, and unencrypted messages survive
    the wire.
  \<^item> \<^verbatim>\<open>Message_Body\<close>: \<^verbatim>\<open>parse_body\<close> and \<^verbatim>\<open>decrypt_payloads\<close> of \<^verbatim>\<open>message.c\<close>: encrypted payloads are replaced by their contents, and
    payloads that must be encrypted are accepted only from there.

  \<^bold>\<open>Correspondence.\<close> Definitions carry the names of the C functions and structs. C structs are records,
  NULL pointers are \<open>None\<close>, arrays and linked lists of objects are lists, \<^verbatim>\<open>uintN_t\<close> values are words
  of that width, \<^verbatim>\<open>size_t\<close> lengths are natural numbers and times are integers. Mutated objects are
  returned; where the code keeps two pointers to one object (the tracker passed to
  \<^verbatim>\<open>retransmit_missing_fragments_simple\<close> and \<^verbatim>\<open>outgoing_tracker\<close>) the model works on the single object.
  Long functions are composed of definitions for their blocks. Loops are total functions where their end is evident: the
  recursion of \<^verbatim>\<open>retransmit\<close> on an old job ends after one call, the split loop consumes data.
  \<^verbatim>\<open>initiate\<close>, which calls itself when tasks withdraw an exchange, and the probing loops of the hash tables
  are partial functions and are proved to return. Flushing the scheduler has fuel for one round
  more than there are events. The nesting of the payload parser is bounded by four, which is proved to be enough for
  every table. The code is the one built without the mediation extension (\<^verbatim>\<open>#ifdef ME\<close>).

  \<^bold>\<open>Parameters.\<close> Cryptography (\<open>sha1\<close>, the AEAD and its IV generator, the random number generator of SPIs, the keyed hash of chunks)
  and, for the theories on messages, the wire codec of IKE payloads (\<open>gen\<close>, \<open>parse_body\<close>), which has its own theories, the clock, settings,
  floating-point timeouts and the methods of the tasks (\<open>op_build\<close>, \<open>op_process\<close>, \<open>mobike_transmit\<close> and
  so on) are arguments of the definitions that use them. Memory allocation succeeds.

  \<^bold>\<open>Not modelled.\<close> The methods of payload objects beside their encodings and checks, encryption of outgoing IKE messages, key derivation, the tasks, IKE_SA
  management, the kernel interface, IKEv1 exchanges, strings and printing, logging and the unbuilt
  copies of the task manager.

  \<^bold>\<open>What modelling showed.\<close> Beside the guarantees above, the theories prove where the selective
  retransmission code does not do what its comments say: the timer armed in seconds, the limit of 64
  fragments, the acknowledgement after out-of-order completion, the truncated message ID,
  the
  statistics that count twice, the message window that moves on ignored messages, and
  acknowledgements that use up a message ID of the peer. An intersection
  with an ICMP traffic selector may select packets that one of the operands does not select
  (\<open>get_subset_shifts_ports\<close>). Address ranges that end at the last address of a 32-bit block never get their
  addresses back (\<open>last_range_not_released\<close>), and a range of all IPv4 addresses hands out one address to
  several clients (\<open>full_range_is_empty\<close>). AES-GMAC in AH proposals is missing in the set of types
  (\<open>ah_gmac_type_missing\<close>). The generator drops the values of configuration attributes that follow a key length
  (\<open>stale_attribute_format\<close>). The checks of traffic selectors and EAP payloads accept more than their comments say
  (\<open>reversed_ports_accepted\<close>, \<open>empty_eap_request_accepted\<close>), and an encrypted payload inside another one is not refused
  (\<open>nested_encrypted_payload_accepted\<close>).
\<close>

end
